(* ===== verification/Prelude.thy ===== *)
theory Prelude
  imports Main
begin

text \<open>
  Shared vocabulary of the development.

  \<^item> Go time: \<open>gtime\<close> is a count of nanoseconds since Go's zero time (1 January of
    year 1, UTC), so \<open>IsZero\<close> is equality with 0; \<open>duration\<close> is a signed count of
    nanoseconds, as \<^verbatim>\<open>time.Duration\<close>.
  \<^item> SQL tables: a table is a list of rows. \<open>update_where\<close> is one
    \<^verbatim>\<open>UPDATE ... SET ... WHERE ...\<close> statement, \<open>rows_affected\<close> its row count, and
    \<open>unique_index\<close> a (partial) unique index whose key is \<open>None\<close> on the rows outside
    the index.
  \<^item> The locale \<open>keyed_rows\<close> states what the statements of a table keep of its primary
    key; each component with a table interprets it on its own row type.
  \<^item> The locale \<open>row_lifecycle\<close> is the contract of a row that moves through statuses
    and stops in terminal ones.
\<close>

section \<open>Time\<close>

type_synonym gtime = int
type_synonym duration = int
type_synonym uuid = nat

definition nsec_per_sec :: int where
  "nsec_per_sec = 1000000000"

definition millisecond :: duration where
  "millisecond = 1000000"

definition second :: duration where
  "second = 1000000000"

definition minute :: duration where
  "minute = 60000000000"

lemma time_unit_pos [simp]: "0 < millisecond" "0 < second" "0 < minute"
  by (simp_all add: millisecond_def second_def minute_def)

section \<open>Integer division of Go\<close>

text \<open>Go's \<open>/\<close> on integers truncates towards zero.\<close>

definition quot :: "int \<Rightarrow> int \<Rightarrow> int" where
  "quot a b = sgn a * sgn b * (\<bar>a\<bar> div \<bar>b\<bar>)"

lemma quot_nonneg: "0 \<le> a \<Longrightarrow> 0 < b \<Longrightarrow> quot a b = a div b"
  by (cases "a = 0") (simp_all add: quot_def)

lemma quot_neg_nonpos: "a < 0 \<Longrightarrow> 0 < b \<Longrightarrow> quot a b \<le> 0"
  by (simp add: quot_def sgn_if pos_imp_zdiv_nonneg_iff)

section \<open>Lists\<close>

lemma find_Some_in: "find P xs = Some x \<Longrightarrow> x \<in> set xs \<and> P x"
  by (induction xs) (auto split: if_splits)

lemma if_in: "a \<in> S \<Longrightarrow> b \<in> S \<Longrightarrow> (if c then a else b) \<in> S"
  by simp

lemma distinct_key_eq:
  "distinct (map k xs) \<Longrightarrow> x \<in> set xs \<Longrightarrow> y \<in> set xs \<Longrightarrow> k x = k y \<Longrightarrow> x = y"
  by (meson distinct_map inj_onD)

section \<open>SQL tables as lists of rows\<close>

definition update_where :: "('r \<Rightarrow> bool) \<Rightarrow> ('r \<Rightarrow> 'r) \<Rightarrow> 'r list \<Rightarrow> 'r list" where
  "update_where P f t = map (\<lambda>r. if P r then f r else r) t"

definition rows_affected :: "('r \<Rightarrow> bool) \<Rightarrow> 'r list \<Rightarrow> nat" where
  "rows_affected P t = length (filter P t)"

definition unique_index :: "('r \<Rightarrow> 'i) \<Rightarrow> ('r \<Rightarrow> 'k option) \<Rightarrow> 'r list \<Rightarrow> bool" where
  "unique_index rid k t \<longleftrightarrow>
     (\<forall>r \<in> set t. \<forall>s \<in> set t. k r \<noteq> None \<longrightarrow> k r = k s \<longrightarrow> rid r = rid s)"

lemma rows_affected_0 [simp]: "rows_affected P t = 0 \<longleftrightarrow> (\<forall>r \<in> set t. \<not> P r)"
  by (simp add: rows_affected_def filter_empty_conv)

lemma rows_affected_pos: "0 < rows_affected P t \<longleftrightarrow> (\<exists>r \<in> set t. P r)"
  by (auto simp: rows_affected_def filter_empty_conv)

lemma set_update_where: "set (update_where P f t) = (\<lambda>r. if P r then f r else r) ` set t"
  by (simp add: update_where_def)

lemma update_where_none: "\<forall>r \<in> set t. \<not> P r \<Longrightarrow> update_where P f t = t"
  by (simp add: update_where_def map_idI)

lemma length_update_where [simp]: "length (update_where P f t) = length t"
  by (simp add: update_where_def)

lemma update_where_append [simp]:
  "update_where P f (s @ t) = update_where P f s @ update_where P f t"
  by (simp add: update_where_def)

lemma map_update_where:
  assumes "\<And>r. P r \<Longrightarrow> g (f r) = g r"
  shows "map g (update_where P f t) = map g t"
  using assms by (simp add: update_where_def)

lemma in_update_where:
  "r' \<in> set (update_where P f t) \<longleftrightarrow> (\<exists>r \<in> set t. r' = (if P r then f r else r))"
  by (auto simp: update_where_def)

lemma unique_indexD:
  "unique_index rid k t \<Longrightarrow> r \<in> set t \<Longrightarrow> s \<in> set t \<Longrightarrow> k r = Some x \<Longrightarrow> k s = Some x
     \<Longrightarrow> rid r = rid s"
  unfolding unique_index_def by (metis option.distinct(1))

text \<open>A statement that keeps the row's identity and never brings a row into the index, or
  changes the index key of a row in it, keeps the unique index.\<close>

lemma unique_index_update_shrink:
  assumes "unique_index rid k t"
    and "\<And>r. r \<in> set t \<Longrightarrow> P r \<Longrightarrow> rid (f r) = rid r"
    and "\<And>r. r \<in> set t \<Longrightarrow> P r \<Longrightarrow> k (f r) = None \<or> k (f r) = k r"
  shows "unique_index rid k (update_where P f t)"
  unfolding unique_index_def
proof (intro ballI impI)
  fix r' s'
  assume "r' \<in> set (update_where P f t)" "s' \<in> set (update_where P f t)"
    and k: "k r' \<noteq> None" "k r' = k s'"
  then obtain r s where rs: "r \<in> set t" "s \<in> set t"
      "r' = (if P r then f r else r)" "s' = (if P s then f s else s)"
    by (auto simp: in_update_where)
  have "k r = k r'"
    using k(1) rs(1,3) assms(3)[of r] by (cases "P r") auto
  moreover have "k s = k s'"
    using k rs(2,4) assms(3)[of s] by (cases "P s") auto
  ultimately have "rid r = rid s"
    using k rs(1,2) assms(1) unfolding unique_index_def by metis
  with rs assms(2) show "rid r' = rid s'" by simp
qed

text \<open>Bringing rows into the index is sound when no other row of the table holds the new
  key and the statement touches at most one row per key.\<close>

lemma unique_index_update_grow:
  assumes u: "unique_index rid k t"
    and rid: "\<And>r. P r \<Longrightarrow> rid (f r) = rid r"
    and free: "\<And>r s. r \<in> set t \<Longrightarrow> s \<in> set t \<Longrightarrow> P r \<Longrightarrow> \<not> P s \<Longrightarrow> k (f r) \<noteq> None
       \<Longrightarrow> k (f r) = k s \<Longrightarrow> rid r = rid s"
    and one: "\<And>r s. r \<in> set t \<Longrightarrow> s \<in> set t \<Longrightarrow> P r \<Longrightarrow> P s \<Longrightarrow> k (f r) \<noteq> None
       \<Longrightarrow> k (f r) = k (f s) \<Longrightarrow> rid r = rid s"
  shows "unique_index rid k (update_where P f t)"
  unfolding unique_index_def
proof (intro ballI impI)
  fix r' s'
  assume "r' \<in> set (update_where P f t)" "s' \<in> set (update_where P f t)"
    and k: "k r' \<noteq> None" "k r' = k s'"
  then obtain r s where rs: "r \<in> set t" "s \<in> set t"
      "r' = (if P r then f r else r)" "s' = (if P s then f s else s)"
    by (auto simp: in_update_where)
  have "rid r = rid s"
  proof (cases "P r")
    case True
    show ?thesis
    proof (cases "P s")
      case True
      with \<open>P r\<close> k rs one[of r s] show ?thesis by simp
    next
      case False
      with \<open>P r\<close> k rs free[of r s] show ?thesis by simp
    qed
  next
    case False
    show ?thesis
    proof (cases "P s")
      case True
      have "rid s = rid r"
        by (rule free) (use True \<open>\<not> P r\<close> k rs in auto)
      then show ?thesis by simp
    next
      case False
      with \<open>\<not> P r\<close> k rs u show ?thesis unfolding unique_index_def by metis
    qed
  qed
  with rs(3,4) rid show "rid r' = rid s'" by simp
qed

lemma unique_index_append:
  assumes "unique_index rid k t"
    and "\<And>s. s \<in> set t \<Longrightarrow> k r \<noteq> None \<Longrightarrow> k s = k r \<Longrightarrow> rid s = rid r"
  shows "unique_index rid k (t @ [r])"
  unfolding unique_index_def
proof (intro ballI impI)
  fix a b
  assume "a \<in> set (t @ [r])" "b \<in> set (t @ [r])" and k: "k a \<noteq> None" "k a = k b"
  then consider "a \<in> set t" "b \<in> set t" | "a = r" "b = r" | "a = r" "b \<in> set t" | "a \<in> set t" "b = r"
    by auto
  then show "rid a = rid b"
  proof cases
    case 1
    with assms(1) k show ?thesis unfolding unique_index_def by blast
  next
    case 3
    have "rid b = rid r"
      by (rule assms(2)) (use 3 k in simp_all)
    with 3 show ?thesis by simp
  next
    case 4
    have "rid a = rid r"
      by (rule assms(2)) (use 4 k in simp_all)
    with 4 show ?thesis by simp
  qed simp
qed

text \<open>What a connection does with a statement or a transaction: it answers, it fails before
  anything takes effect, or the effect is committed and the answer is lost.\<close>

datatype db_reply = Replied | Refused | ReplyLost

section \<open>The contract of a table with a primary key\<close>

locale keyed_rows =
  fixes rid :: "'r \<Rightarrow> 'k"
    and touch :: "'op \<Rightarrow> 'r \<Rightarrow> 'r"
  assumes touch_rid: "rid (touch a r) = rid r"
begin

definition pk_ok :: "'r list \<Rightarrow> bool" where
  "pk_ok t \<longleftrightarrow> distinct (map rid t)"

lemma pk_update: "pk_ok t \<Longrightarrow> pk_ok (update_where P (touch a) t)"
  by (simp add: pk_ok_def map_update_where touch_rid)

lemma pk_append: "pk_ok t \<Longrightarrow> rid r \<notin> rid ` set t \<Longrightarrow> pk_ok (t @ [r])"
  by (auto simp: pk_ok_def)

lemma pk_eq: "pk_ok t \<Longrightarrow> r \<in> set t \<Longrightarrow> s \<in> set t \<Longrightarrow> rid r = rid s \<Longrightarrow> r = s"
  by (meson distinct_map inj_onD pk_ok_def)

lemma pk_unique_index: "pk_ok t \<Longrightarrow> unique_index rid (Some \<circ> rid) t"
  by (auto simp: unique_index_def)

text \<open>Under the primary key at most one row carries an id, so a statement that names the id
  affects at most one row.\<close>

lemma pk_affects_one:
  assumes "pk_ok t" and "\<And>r. P r \<Longrightarrow> rid r = i"
  shows "rows_affected P t \<le> 1"
proof -
  have "distinct (map rid (filter P t))"
    using assms(1) by (simp add: pk_ok_def distinct_map_filter)
  moreover have "set (map rid (filter P t)) \<subseteq> {i}"
    using assms(2) by auto
  ultimately show ?thesis
    unfolding rows_affected_def
    using distinct_card[of "map rid (filter P t)"] card_mono[of "{i}" "set (map rid (filter P t))"]
    by simp
qed

end

section \<open>The contract of a row with terminal statuses\<close>

locale row_lifecycle =
  fixes rid :: "'r \<Rightarrow> 'k"
    and terminal :: "'r \<Rightarrow> bool"
    and stmt :: "'op \<Rightarrow> 'r \<Rightarrow> 'r"
  assumes stmt_rid: "rid (stmt a r) = rid r"
    and stmt_terminal: "terminal r \<Longrightarrow> stmt a r = r"
begin

definition run :: "'op list \<Rightarrow> 'r \<Rightarrow> 'r" where
  "run as r = fold stmt as r"

lemma run_simps [simp]: "run [] r = r" "run (a # as) r = run as (stmt a r)"
  by (simp_all add: run_def)

lemma run_rid: "rid (run as r) = rid r"
  by (induction as arbitrary: r) (simp_all add: stmt_rid)

lemma run_terminal: "terminal r \<Longrightarrow> run as r = r"
  by (induction as) (simp_all add: stmt_terminal)

lemma run_append: "run (as @ bs) r = run bs (run as r)"
  by (simp add: run_def)

text \<open>Whatever comes after the first terminal state changes nothing.\<close>

lemma run_settles: "terminal (run as r) \<Longrightarrow> run (as @ bs) r = run as r"
  by (simp add: run_append run_terminal)

end

end
