(* ===== verification/GoStrings.thy ===== *)
theory GoStrings
  imports Prelude
begin

text \<open>
  The operations of Go's \<^verbatim>\<open>strings\<close>, \<^verbatim>\<open>strconv\<close> and \<^verbatim>\<open>unicode/utf8\<close> packages that the modelled
  code calls, on byte strings: a Go string is a sequence of bytes, so a value of type
  \<open>string\<close> (a list of 8-bit characters) is exactly a Go string and \<open>length\<close> is Go's \<open>len\<close>.

  \<^item> \<open>TrimSpace\<close> removes every Unicode white-space rune, recognised by its UTF-8 bytes.
  \<^item> \<open>ToLower\<close> is exact on ASCII and on the only two other runes whose lower case is an ASCII
    letter (the Kelvin sign and the dotted capital I). Go maps further letters to other letters
    outside ASCII; every comparison the program makes with the result is with ASCII text (or with
    one punctuation mark that is nobody's lower case), so those letters are left as they are.
  \<^item> \<open>fold_ci\<close> is the simple case folding of a case-insensitive regular expression.
\<close>

section \<open>Searching\<close>

fun HasPrefix :: "string \<Rightarrow> string \<Rightarrow> bool" where
  "HasPrefix s [] = True"
| "HasPrefix [] (p # ps) = False"
| "HasPrefix (c # cs) (p # ps) = (c = p \<and> HasPrefix cs ps)"

fun Contains :: "string \<Rightarrow> string \<Rightarrow> bool" where
  "Contains [] sub = (sub = [])"
| "Contains (c # cs) sub = (HasPrefix (c # cs) sub \<or> Contains cs sub)"

definition HasSuffix :: "string \<Rightarrow> string \<Rightarrow> bool" where
  "HasSuffix s p = HasPrefix (rev s) (rev p)"

definition TrimSuffix :: "string \<Rightarrow> string \<Rightarrow> string" where
  "TrimSuffix s p = (if HasSuffix s p then take (length s - length p) s else s)"

lemma HasPrefix_iff: "HasPrefix s p \<longleftrightarrow> (\<exists>t. s = p @ t)"
  by (induction s p rule: HasPrefix.induct) auto

lemma HasPrefix_append [simp]: "HasPrefix (p @ t) p"
  by (auto simp: HasPrefix_iff)

lemma HasPrefix_length: "HasPrefix s p \<Longrightarrow> length p \<le> length s"
  by (auto simp: HasPrefix_iff)

lemma HasSuffix_iff: "HasSuffix s p \<longleftrightarrow> (\<exists>t. s = t @ p)"
proof -
  have "(\<exists>t. rev s = rev p @ t) \<longleftrightarrow> (\<exists>t. s = t @ p)"
    by (metis rev_append rev_rev_ident)
  then show ?thesis by (simp add: HasSuffix_def HasPrefix_iff)
qed

lemma Contains_iff: "Contains s sub \<longleftrightarrow> (\<exists>a b. s = a @ sub @ b)"
proof (induction s)
  case Nil
  then show ?case by simp
next
  case (Cons c cs)
  have "(\<exists>a b. c # cs = a @ sub @ b) \<longleftrightarrow> (\<exists>b. c # cs = sub @ b) \<or> (\<exists>a b. cs = a @ sub @ b)"
    (is "?L \<longleftrightarrow> ?R")
  proof
    assume ?L
    then obtain a b where "c # cs = a @ sub @ b" by blast
    then show ?R by (cases a) auto
  next
    assume ?R
    then show ?L by (metis append_Cons append_Nil)
  qed
  with Cons.IH show ?case by (simp add: HasPrefix_iff)
qed

lemma Contains_prefix: "HasPrefix s p \<Longrightarrow> Contains s p"
  by (metis Contains_iff HasPrefix_iff append_Nil)

lemma Contains_Nil [simp]: "Contains s []"
  by (cases s) simp_all

section \<open>Character classes\<close>

definition is_digit :: "char \<Rightarrow> bool" where
  "is_digit c \<longleftrightarrow> c \<in> set ''0123456789''"

definition is_lower :: "char \<Rightarrow> bool" where
  "is_lower c \<longleftrightarrow> c \<in> set ''abcdefghijklmnopqrstuvwxyz''"

definition is_upper :: "char \<Rightarrow> bool" where
  "is_upper c \<longleftrightarrow> c \<in> set ''ABCDEFGHIJKLMNOPQRSTUVWXYZ''"

definition lower_byte :: "char \<Rightarrow> char" where
  "lower_byte c =
     (case map_of (zip ''ABCDEFGHIJKLMNOPQRSTUVWXYZ'' ''abcdefghijklmnopqrstuvwxyz'') c of
        Some d \<Rightarrow> d | None \<Rightarrow> c)"

definition upper_byte :: "char \<Rightarrow> char" where
  "upper_byte c =
     (case map_of (zip ''abcdefghijklmnopqrstuvwxyz'' ''ABCDEFGHIJKLMNOPQRSTUVWXYZ'') c of
        Some d \<Rightarrow> d | None \<Rightarrow> c)"

definition kelvin_sign :: string where
  "kelvin_sign = [CHR 0xE2, CHR 0x84, CHR 0xAA]"

definition dotted_capital_i :: string where
  "dotted_capital_i = [CHR 0xC4, CHR 0xB0]"

definition long_s :: string where
  "long_s = [CHR 0xC5, CHR 0xBF]"

fun ToLower :: "string \<Rightarrow> string" where
  "ToLower [] = []"
| "ToLower (c # cs) =
     (if HasPrefix (c # cs) kelvin_sign then CHR ''k'' # ToLower (drop 2 cs)
      else if HasPrefix (c # cs) dotted_capital_i then CHR ''i'' # ToLower (drop 1 cs)
      else lower_byte c # ToLower cs)"

fun fold_ci :: "string \<Rightarrow> string" where
  "fold_ci [] = []"
| "fold_ci (c # cs) =
     (if HasPrefix (c # cs) kelvin_sign then CHR ''k'' # fold_ci (drop 2 cs)
      else if HasPrefix (c # cs) long_s then CHR ''s'' # fold_ci (drop 1 cs)
      else lower_byte c # fold_ci cs)"

section \<open>Trimming\<close>

definition space_runes :: "string list" where
  "space_runes =
     [[CHR 0x20], [CHR 0x09], [CHR 0x0A], [CHR 0x0B], [CHR 0x0C], [CHR 0x0D],
      [CHR 0xC2, CHR 0x85], [CHR 0xC2, CHR 0xA0], [CHR 0xE1, CHR 0x9A, CHR 0x80],
      [CHR 0xE2, CHR 0x80, CHR 0x80], [CHR 0xE2, CHR 0x80, CHR 0x81],
      [CHR 0xE2, CHR 0x80, CHR 0x82], [CHR 0xE2, CHR 0x80, CHR 0x83],
      [CHR 0xE2, CHR 0x80, CHR 0x84], [CHR 0xE2, CHR 0x80, CHR 0x85],
      [CHR 0xE2, CHR 0x80, CHR 0x86], [CHR 0xE2, CHR 0x80, CHR 0x87],
      [CHR 0xE2, CHR 0x80, CHR 0x88], [CHR 0xE2, CHR 0x80, CHR 0x89],
      [CHR 0xE2, CHR 0x80, CHR 0x8A], [CHR 0xE2, CHR 0x80, CHR 0xA8],
      [CHR 0xE2, CHR 0x80, CHR 0xA9], [CHR 0xE2, CHR 0x80, CHR 0xAF],
      [CHR 0xE2, CHR 0x81, CHR 0x9F], [CHR 0xE3, CHR 0x80, CHR 0x80]]"

text \<open>The length in bytes of the rune of the list that \<open>s\<close> starts with, 0 if there is none.\<close>

fun rune_at_head :: "string list \<Rightarrow> string \<Rightarrow> nat" where
  "rune_at_head [] s = 0"
| "rune_at_head (e # es) s = (if HasPrefix s e then length e else rune_at_head es s)"

function trim_with :: "string list \<Rightarrow> string \<Rightarrow> string" where
  "trim_with es s =
     (if s \<noteq> [] \<and> 0 < rune_at_head es s then trim_with es (drop (rune_at_head es s) s) else s)"
  by pat_completeness auto
termination
  by (relation "measure (\<lambda>(es, s). length s)") auto

declare trim_with.simps [simp del]

definition TrimSpace :: "string \<Rightarrow> string" where
  "TrimSpace s = rev (trim_with (map rev space_runes) (rev (trim_with space_runes s)))"

definition trim_left_byte :: "char \<Rightarrow> string \<Rightarrow> string" where
  "trim_left_byte c s = dropWhile ((=) c) s"

definition trim_right_byte :: "char \<Rightarrow> string \<Rightarrow> string" where
  "trim_right_byte c s = rev (dropWhile ((=) c) (rev s))"

definition trim_byte :: "char \<Rightarrow> string \<Rightarrow> string" where
  "trim_byte c s = trim_right_byte c (trim_left_byte c s)"

lemma trim_with_Nil [simp]: "trim_with es [] = []"
  by (simp add: trim_with.simps)

lemma trim_with_suffix: "\<exists>a. s = a @ trim_with es s"
proof (induction es s rule: trim_with.induct)
  case (1 es s)
  show ?case
  proof (cases "s \<noteq> [] \<and> 0 < rune_at_head es s")
    case True
    with 1 obtain a where a: "drop (rune_at_head es s) s = a @ trim_with es (drop (rune_at_head es s) s)"
      by blast
    have "s = take (rune_at_head es s) s @ a @ trim_with es (drop (rune_at_head es s) s)"
      using a append_take_drop_id[of "rune_at_head es s" s] by simp
    then have "\<exists>b. s = b @ trim_with es (drop (rune_at_head es s) s)"
      by (metis append.assoc)
    with True show ?thesis by (subst trim_with.simps) simp
  next
    case False
    then show ?thesis by (subst trim_with.simps) auto
  qed
qed

lemma TrimSpace_infix: "\<exists>a b. s = a @ TrimSpace s @ b"
proof -
  obtain a where a: "s = a @ trim_with space_runes s"
    using trim_with_suffix by blast
  obtain b where "rev (trim_with space_runes s) = b @ trim_with (map rev space_runes) (rev (trim_with space_runes s))"
    using trim_with_suffix by blast
  then have "trim_with space_runes s = TrimSpace s @ rev b"
    unfolding TrimSpace_def by (metis rev_append rev_rev_ident)
  with a show ?thesis by metis
qed

lemma rune_at_head_0:
  assumes "[] \<notin> set es"
  shows "rune_at_head es s = 0 \<longleftrightarrow> (\<forall>e \<in> set es. \<not> HasPrefix s e)"
  using assms by (induction es) auto

text \<open>Text whose first and last bytes start no white-space rune is left alone.\<close>

definition plain_byte :: "char \<Rightarrow> bool" where
  "plain_byte c \<longleftrightarrow> c \<in> set ''abcdefghijklmnopqrstuvwxyz0123456789_''"

lemma plain_byte_intros:
  "is_lower c \<Longrightarrow> plain_byte c" "is_digit c \<Longrightarrow> plain_byte c" "plain_byte (CHR ''_'')"
  by (auto simp: plain_byte_def is_lower_def is_digit_def)

lemma trim_with_id:
  assumes "rune_at_head es s = 0"
  shows "trim_with es s = s"
  using assms by (simp add: trim_with.simps)

lemma plain_first_bytes:
  "\<forall>c \<in> set ''abcdefghijklmnopqrstuvwxyz0123456789_''.
     list_all (\<lambda>e. hd e \<noteq> c \<and> last e \<noteq> c) (kelvin_sign # dotted_capital_i # space_runes)
     \<and> lower_byte c = c"
  by code_simp

lemma plain_first_byte:
  "plain_byte c \<Longrightarrow> e \<in> set (kelvin_sign # dotted_capital_i # space_runes) \<Longrightarrow> hd e \<noteq> c \<and> last e \<noteq> c"
  using plain_first_bytes unfolding plain_byte_def list_all_iff by blast

lemma HasPrefix_hd: "HasPrefix (c # cs) e \<Longrightarrow> e \<noteq> [] \<Longrightarrow> hd e = c"
  by (cases e) simp_all

lemma plain_no_space_head:
  assumes "s = [] \<or> plain_byte (hd s)"
  shows "rune_at_head space_runes s = 0" "rune_at_head (map rev space_runes) s = 0"
proof -
  have ne: "[] \<notin> set space_runes" "[] \<notin> set (map rev space_runes)"
    by (auto simp: space_runes_def)
  have "\<not> HasPrefix s e \<and> \<not> HasPrefix s (rev e)" if "e \<in> set space_runes" for e
  proof (cases s)
    case Nil
    with ne(1) that show ?thesis by (cases e; cases "rev e") auto
  next
    case (Cons c cs)
    with assms that have "hd e \<noteq> c" "last e \<noteq> c"
      using plain_first_byte[of c e] by auto
    moreover have "e \<noteq> []" using ne(1) that by auto
    ultimately show ?thesis
      using Cons HasPrefix_hd[of c cs e] HasPrefix_hd[of c cs "rev e"] by (auto simp: hd_rev)
  qed
  then show "rune_at_head space_runes s = 0" "rune_at_head (map rev space_runes) s = 0"
    by (simp_all add: rune_at_head_0[OF ne(1)] rune_at_head_0[OF ne(2)])
qed

lemma TrimSpace_plain:
  assumes "\<forall>c \<in> set s. plain_byte c"
  shows "TrimSpace s = s"
proof -
  have "s = [] \<or> plain_byte (hd s)" using assms by (cases s) auto
  then have 1: "trim_with space_runes s = s"
    by (intro trim_with_id plain_no_space_head)
  have "rev s = [] \<or> plain_byte (hd (rev s))" using assms by (cases s rule: rev_cases) auto
  then have "trim_with (map rev space_runes) (rev s) = rev s"
    by (intro trim_with_id plain_no_space_head)
  with 1 show ?thesis by (simp add: TrimSpace_def)
qed

lemma lower_byte_plain: "plain_byte c \<Longrightarrow> lower_byte c = c"
  using plain_first_bytes unfolding plain_byte_def by blast

lemma plain_not_multibyte:
  assumes "plain_byte c"
  shows "\<not> HasPrefix (c # cs) kelvin_sign" "\<not> HasPrefix (c # cs) dotted_capital_i"
proof -
  have "hd kelvin_sign \<noteq> c" "hd dotted_capital_i \<noteq> c"
    using plain_first_byte[OF assms, of kelvin_sign] plain_first_byte[OF assms, of dotted_capital_i]
    by auto
  then show "\<not> HasPrefix (c # cs) kelvin_sign" "\<not> HasPrefix (c # cs) dotted_capital_i"
    using HasPrefix_hd[of c cs kelvin_sign] HasPrefix_hd[of c cs dotted_capital_i]
    by (auto simp: kelvin_sign_def dotted_capital_i_def)
qed

lemma ToLower_plain: "\<forall>c \<in> set s. plain_byte c \<Longrightarrow> ToLower s = s"
  by (induction s) (auto simp: plain_not_multibyte lower_byte_plain)

lemma trim_right_byte_prefix: "\<exists>b. s = trim_right_byte c s @ b"
  unfolding trim_right_byte_def
  by (metis rev_append rev_rev_ident takeWhile_dropWhile_id)

lemma trim_right_byte_last: "trim_right_byte c s \<noteq> [] \<Longrightarrow> last (trim_right_byte c s) \<noteq> c"
  unfolding trim_right_byte_def
  by (metis hd_dropWhile last_rev rev_is_Nil_conv)

lemma set_trim_right_byte: "set (trim_right_byte c s) \<subseteq> set s"
  using trim_right_byte_prefix[of s c] by (metis Un_upper1 set_append)

lemma length_trim_right_byte: "length (trim_right_byte c s) \<le> length s"
  using trim_right_byte_prefix[of s c] by (metis le_add1 length_append)

lemma set_trim_byte: "set (trim_byte c s) \<subseteq> set s"
  unfolding trim_byte_def trim_left_byte_def
  using set_trim_right_byte set_dropWhileD by fastforce

lemma hd_trim_right_byte: "s \<noteq> [] \<Longrightarrow> hd s \<noteq> c \<Longrightarrow> trim_right_byte c s \<noteq> [] \<and> hd (trim_right_byte c s) = hd s"
proof -
  assume s: "s \<noteq> []" "hd s \<noteq> c"
  obtain x xs where xs: "s = x # xs" using s(1) by (cases s) auto
  have "dropWhile ((=) c) (rev xs @ [x]) \<noteq> [] \<and> last (dropWhile ((=) c) (rev xs @ [x])) = x"
    using s xs by (auto simp: dropWhile_append)
  then show ?thesis
    unfolding trim_right_byte_def xs by (simp add: hd_rev)
qed

section \<open>Decimal numbers\<close>

definition digit_char :: "nat \<Rightarrow> char" where
  "digit_char d = ''0123456789'' ! d"

definition digit_value :: "char \<Rightarrow> nat option" where
  "digit_value c = map_of (zip ''0123456789'' [0..<10]) c"

fun Itoa :: "nat \<Rightarrow> string" where
  "Itoa n = (if n < 10 then [digit_char n] else Itoa (n div 10) @ [digit_char (n mod 10)])"

declare Itoa.simps [simp del]

fun digits_value :: "nat \<Rightarrow> string \<Rightarrow> nat option" where
  "digits_value acc [] = Some acc"
| "digits_value acc (c # cs) =
     (case digit_value c of None \<Rightarrow> None | Some d \<Rightarrow> digits_value (10 * acc + d) cs)"

text \<open>\<^verbatim>\<open>strconv.Atoi\<close>: an optional sign, at least one digit, nothing else, within 64 bits.\<close>

definition Atoi :: "string \<Rightarrow> int option" where
  "Atoi s =
     (let neg = HasPrefix s ''-'';
          ds = (if neg \<or> HasPrefix s ''+'' then drop 1 s else s)
      in if ds = [] then None
         else case digits_value 0 ds of
                None \<Rightarrow> None
              | Some n \<Rightarrow>
                  let v = (if neg then - int n else int n)
                  in if - (2 ^ 63) \<le> v \<and> v < 2 ^ 63 then Some v else None)"

lemma digit_char_digit: "d < 10 \<Longrightarrow> is_digit (digit_char d)"
  unfolding is_digit_def digit_char_def by (rule nth_mem) simp

lemma digit_char_inj:
  assumes "d < 10" "e < 10" "digit_char d = digit_char e"
  shows "d = e"
proof -
  have "distinct ''0123456789''" by simp
  then show ?thesis
    using assms unfolding digit_char_def by (subst (asm) nth_eq_iff_index_eq) simp_all
qed

lemma Itoa_nonempty [simp]: "Itoa n \<noteq> []"
  by (subst Itoa.simps) simp

lemma Itoa_digits: "c \<in> set (Itoa n) \<Longrightarrow> is_digit c"
proof (induction n rule: Itoa.induct)
  case (1 n)
  show ?case
  proof (cases "n < 10")
    case True
    with "1.prems" show ?thesis by (subst (asm) Itoa.simps) (simp add: digit_char_digit)
  next
    case False
    with "1.prems" have "c \<in> set (Itoa (n div 10)) \<or> c = digit_char (n mod 10)"
      by (subst (asm) Itoa.simps) auto
    with "1.IH"[OF False] show ?thesis by (auto simp: digit_char_digit)
  qed
qed

lemma Itoa_inj: "Itoa m = Itoa n \<Longrightarrow> m = n"
proof (induction m arbitrary: n rule: Itoa.induct)
  case (1 m)
  show ?case
  proof (cases "m < 10"; cases "n < 10")
    assume "m < 10" "n < 10"
    with "1.prems" show ?thesis by (simp add: Itoa.simps[of m] Itoa.simps[of n] digit_char_inj)
  next
    assume "m < 10" "\<not> n < 10"
    with "1.prems" show ?thesis
      using Itoa_nonempty[of "n div 10"] by (simp add: Itoa.simps[of m] Itoa.simps[of n])
  next
    assume "\<not> m < 10" "n < 10"
    with "1.prems" show ?thesis by (simp add: Itoa.simps[of m] Itoa.simps[of n])
  next
    assume a: "\<not> m < 10" "\<not> n < 10"
    with "1.prems" have "Itoa (m div 10) = Itoa (n div 10)" "digit_char (m mod 10) = digit_char (n mod 10)"
      by (simp_all add: Itoa.simps[of m] Itoa.simps[of n])
    with a "1.IH" have "m div 10 = n div 10" "m mod 10 = n mod 10"
      by (auto intro: digit_char_inj)
    then show ?thesis by (metis div_mod_decomp)
  qed
qed

lemma Itoa_length: "n < 10 ^ k \<Longrightarrow> 0 < k \<Longrightarrow> length (Itoa n) \<le> k"
proof (induction n arbitrary: k rule: Itoa.induct)
  case (1 n)
  show ?case
  proof (cases "n < 10")
    case True
    with "1.prems" show ?thesis by (subst Itoa.simps) simp
  next
    case False
    with "1.prems" obtain k' where k: "k = Suc k'" "0 < k'"
      by (cases k; cases "k - 1") auto
    with "1.prems" have "n div 10 < 10 ^ k'"
      by (simp add: less_mult_imp_div_less)
    with "1.IH"[OF False] k have "length (Itoa (n div 10)) \<le> k'" by simp
    with False k show ?thesis by (subst Itoa.simps) simp
  qed
qed

section \<open>Runes\<close>

definition byte_val :: "char \<Rightarrow> nat" where
  "byte_val c = of_char c"

definition is_cont :: "char \<Rightarrow> bool" where
  "is_cont c \<longleftrightarrow> 0x80 \<le> byte_val c \<and> byte_val c \<le> 0xBF"

text \<open>The width in bytes of the first rune of a non-empty string, 1 for an invalid byte: the
  decoding table of \<^verbatim>\<open>unicode/utf8\<close>.\<close>

definition second_byte_ok :: "char \<Rightarrow> char \<Rightarrow> bool" where
  "second_byte_ok a b =
     (let lo = (if byte_val a = 0xE0 then 0xA0 else if byte_val a = 0xF0 then 0x90 else 0x80);
          hi = (if byte_val a = 0xED then 0x9F else if byte_val a = 0xF4 then 0x8F else 0xBF)
      in lo \<le> byte_val b \<and> byte_val b \<le> hi)"

fun rune_width :: "string \<Rightarrow> nat" where
  "rune_width (a # b # c # d # _) =
     (if 0xC2 \<le> byte_val a \<and> byte_val a \<le> 0xDF \<and> is_cont b then 2
      else if 0xE0 \<le> byte_val a \<and> byte_val a \<le> 0xEF \<and> second_byte_ok a b \<and> is_cont c then 3
      else if 0xF0 \<le> byte_val a \<and> byte_val a \<le> 0xF4 \<and> second_byte_ok a b \<and> is_cont c \<and> is_cont d
      then 4 else 1)"
| "rune_width [a, b, c] =
     (if 0xC2 \<le> byte_val a \<and> byte_val a \<le> 0xDF \<and> is_cont b then 2
      else if 0xE0 \<le> byte_val a \<and> byte_val a \<le> 0xEF \<and> second_byte_ok a b \<and> is_cont c then 3
      else 1)"
| "rune_width [a, b] =
     (if 0xC2 \<le> byte_val a \<and> byte_val a \<le> 0xDF \<and> is_cont b then 2 else 1)"
| "rune_width [a] = 1"
| "rune_width [] = 0"

lemma rune_width_pos: "s \<noteq> [] \<Longrightarrow> 0 < rune_width s"
  by (cases s rule: rune_width.cases) auto

function RuneCountInString :: "string \<Rightarrow> nat" where
  "RuneCountInString s = (if s = [] then 0 else 1 + RuneCountInString (drop (rune_width s) s))"
  by auto

termination
  by (relation "measure length") (auto intro!: diff_less rune_width_pos)

declare RuneCountInString.simps [simp del]

end
