(* ===== verification/TaskFailure.thy ===== *)
theory TaskFailure
  imports GoStrings
begin

text \<open>
  The failure taxonomy of \<^verbatim>\<open>server/pkg/taskfailure\<close>: the canonical failure reasons and their
  order (\<^verbatim>\<open>failure.go\<close>), the substring classifier and the compatibility shim for older daemons
  (\<^verbatim>\<open>classify.go\<close>), the predicates on unresumable histories (\<^verbatim>\<open>resume.go\<close>) and on outputs that
  only say the context window is full (\<^verbatim>\<open>context_exhausted.go\<close>). A reason is its wire string, as
  in the code, because daemons report strings outside the taxonomy too.
\<close>

section \<open>Reasons\<close>

type_synonym reason = string

definition agentErrorPrefix :: string where
  "agentErrorPrefix = ''agent_error.''"

definition ReasonQueuedExpired :: reason where
  "ReasonQueuedExpired = ''queued_expired''"

definition ReasonRuntimeOffline :: reason where
  "ReasonRuntimeOffline = ''runtime_offline''"

definition ReasonRuntimeReconnectTimeout :: reason where
  "ReasonRuntimeReconnectTimeout = ''runtime_reconnect_timeout''"

definition ReasonRuntimeRecovery :: reason where
  "ReasonRuntimeRecovery = ''runtime_recovery''"

definition ReasonTimeout :: reason where
  "ReasonTimeout = ''timeout''"

definition ReasonIterationLimit :: reason where
  "ReasonIterationLimit = ''iteration_limit''"

definition ReasonAgentBlocked :: reason where
  "ReasonAgentBlocked = ''agent_blocked''"

definition ReasonAPIInvalidRequest :: reason where
  "ReasonAPIInvalidRequest = ''api_invalid_request''"

definition ReasonSkillBundleUnavailable :: reason where
  "ReasonSkillBundleUnavailable = ''skill_bundle_unavailable''"

definition ReasonRuntimeCLITimeout :: reason where
  "ReasonRuntimeCLITimeout = ''runtime_cli_timeout''"

definition ReasonInvalidTaskIdentity :: reason where
  "ReasonInvalidTaskIdentity = ''invalid_task_identity''"

definition ReasonAgentProviderAuthOrAccess :: reason where
  "ReasonAgentProviderAuthOrAccess = ''agent_error.provider_auth_or_access''"

definition ReasonAgentProviderQuotaLimit :: reason where
  "ReasonAgentProviderQuotaLimit = ''agent_error.provider_quota_limit''"

definition ReasonAgentProviderCapacityOrRateLimit :: reason where
  "ReasonAgentProviderCapacityOrRateLimit = ''agent_error.provider_capacity_or_rate_limit''"

definition ReasonAgentProviderServerError :: reason where
  "ReasonAgentProviderServerError = ''agent_error.provider_server_error''"

definition ReasonAgentProviderNetwork :: reason where
  "ReasonAgentProviderNetwork = ''agent_error.provider_network''"

definition ReasonAgentProcessFailure :: reason where
  "ReasonAgentProcessFailure = ''agent_error.process_failure''"

definition ReasonAgentEmptyOrUnparseableOutput :: reason where
  "ReasonAgentEmptyOrUnparseableOutput = ''agent_error.empty_or_unparseable_output''"

definition ReasonAgentTimeout :: reason where
  "ReasonAgentTimeout = ''agent_error.agent_timeout''"

definition ReasonAgentContextOverflow :: reason where
  "ReasonAgentContextOverflow = ''agent_error.context_overflow''"

definition ReasonAgentMissingConfig :: reason where
  "ReasonAgentMissingConfig = ''agent_error.missing_config''"

definition ReasonAgentModelNotFoundOrUnavailable :: reason where
  "ReasonAgentModelNotFoundOrUnavailable = ''agent_error.model_not_found_or_unavailable''"

definition ReasonAgentRuntimeVersionUnsupported :: reason where
  "ReasonAgentRuntimeVersionUnsupported = ''agent_error.runtime_version_unsupported''"

definition ReasonAgentRuntimeMissingExecutable :: reason where
  "ReasonAgentRuntimeMissingExecutable = ''agent_error.runtime_missing_executable''"

definition ReasonAgentUnknown :: reason where
  "ReasonAgentUnknown = ''agent_error.unknown''"
definition allReasons :: "reason list" where
  "allReasons =
     [ReasonQueuedExpired,
      ReasonRuntimeOffline,
      ReasonRuntimeReconnectTimeout,
      ReasonRuntimeRecovery,
      ReasonTimeout,
      ReasonIterationLimit,
      ReasonAgentBlocked,
      ReasonAPIInvalidRequest,
      ReasonSkillBundleUnavailable,
      ReasonRuntimeCLITimeout,
      ReasonInvalidTaskIdentity,
      ReasonAgentProviderAuthOrAccess,
      ReasonAgentProviderQuotaLimit,
      ReasonAgentProviderCapacityOrRateLimit,
      ReasonAgentProviderServerError,
      ReasonAgentProviderNetwork,
      ReasonAgentProcessFailure,
      ReasonAgentEmptyOrUnparseableOutput,
      ReasonAgentTimeout,
      ReasonAgentContextOverflow,
      ReasonAgentMissingConfig,
      ReasonAgentModelNotFoundOrUnavailable,
      ReasonAgentRuntimeVersionUnsupported,
      ReasonAgentRuntimeMissingExecutable,
      ReasonAgentUnknown]"

lemmas reason_defs =
  ReasonQueuedExpired_def
  ReasonRuntimeOffline_def
  ReasonRuntimeReconnectTimeout_def
  ReasonRuntimeRecovery_def
  ReasonTimeout_def
  ReasonIterationLimit_def
  ReasonAgentBlocked_def
  ReasonAPIInvalidRequest_def
  ReasonSkillBundleUnavailable_def
  ReasonRuntimeCLITimeout_def
  ReasonInvalidTaskIdentity_def
  ReasonAgentProviderAuthOrAccess_def
  ReasonAgentProviderQuotaLimit_def
  ReasonAgentProviderCapacityOrRateLimit_def
  ReasonAgentProviderServerError_def
  ReasonAgentProviderNetwork_def
  ReasonAgentProcessFailure_def
  ReasonAgentEmptyOrUnparseableOutput_def
  ReasonAgentTimeout_def
  ReasonAgentContextOverflow_def
  ReasonAgentMissingConfig_def
  ReasonAgentModelNotFoundOrUnavailable_def
  ReasonAgentRuntimeVersionUnsupported_def
  ReasonAgentRuntimeMissingExecutable_def
  ReasonAgentUnknown_def

definition AllReasons :: "reason list" where
  "AllReasons = allReasons"

definition IsAgentError :: "reason \<Rightarrow> bool" where
  "IsAgentError r = HasPrefix r agentErrorPrefix"

section \<open>Status codes with a digit boundary\<close>

text \<open>The expressions \<^verbatim>\<open>(^|[^0-9])(c1|c2|...)([^0-9]|$)\<close>: a code that no digit touches.
  \<open>ok\<close> says whether a code may start here.\<close>

fun code_scan :: "string list \<Rightarrow> bool \<Rightarrow> string \<Rightarrow> bool" where
  "code_scan codes ok [] = False"
| "code_scan codes ok (c # cs) =
     (ok \<and> list_ex (\<lambda>k. HasPrefix (c # cs) k
               \<and> (case drop (length k) (c # cs) of [] \<Rightarrow> True | d # _ \<Rightarrow> \<not> is_digit d)) codes
      \<or> code_scan codes (\<not> is_digit c) cs)"

definition code_match :: "string list \<Rightarrow> string \<Rightarrow> bool" where
  "code_match codes s = code_scan codes True s"

definition providerHTTP5xxRe :: "string \<Rightarrow> bool" where
  "providerHTTP5xxRe =
     code_match (concat (map (\<lambda>d. map (\<lambda>e. [CHR ''5'', d, e]) ''0123456789'') ''0123456789''))"

definition httpAuthCodeRe :: "string \<Rightarrow> bool" where
  "httpAuthCodeRe = code_match [''401'', ''403'']"

definition httpQuotaCodeRe :: "string \<Rightarrow> bool" where
  "httpQuotaCodeRe = code_match [''402'']"

definition httpCapacityCodeRe :: "string \<Rightarrow> bool" where
  "httpCapacityCodeRe = code_match [''429'', ''529'']"

section \<open>The classifier\<close>

definition containsAny :: "string \<Rightarrow> string list \<Rightarrow> bool" where
  "containsAny s subs = list_ex (Contains s) subs"

definition containsAll :: "string \<Rightarrow> string list \<Rightarrow> bool" where
  "containsAll s subs = (list_all (Contains s) subs \<and> subs \<noteq> [])"

definition TerminalReasonPromptTooLong :: string where
  "TerminalReasonPromptTooLong = ''prompt_too_long''"

definition contextWindowExceededWitnesses :: "string list" where
  "contextWindowExceededWitnesses =
     [''context window limit'', ''model_context_window_exceeded'', TerminalReasonPromptTooLong]"

definition providerUnconfiguredPhrase :: string where
  "providerUnconfiguredPhrase = ''no llm provider configured''"

definition ProviderUnconfigured :: "string \<Rightarrow> bool" where
  "ProviderUnconfigured errText =
     (if errText = [] then False else Contains (ToLower errText) providerUnconfiguredPhrase)"

definition opencodeStreamEndedPrefix :: string where
  "opencodeStreamEndedPrefix = ''opencode stream ended''"

definition codeartsStreamEndedPrefix :: string where
  "codeartsStreamEndedPrefix = ''codearts stream ended''"

definition isPiProviderNetworkError :: "string \<Rightarrow> bool" where
  "isPiProviderNetworkError lower =
     list_ex (\<lambda>message. lower = message
        \<or> HasPrefix lower (message @ ''; pi exited with error: '')
        \<or> HasPrefix lower (message @ ''; omp exited with error: ''))
       [''connection error.'', ''request timed out.'']"

definition curly_hit_your_limit :: string where
  "curly_hit_your_limit = ''you'' @ [CHR 0xE2, CHR 0x80, CHR 0x99] @ ''ve hit your limit''"

definition Classify :: "string \<Rightarrow> reason" where
  "Classify rawError =
     (let trimmed = TrimSpace rawError; lower = ToLower trimmed in
      if trimmed = [] then ReasonAgentUnknown
      else if containsAny lower
           [''context length'', ''context_length_exceeded'', ''maximum context'',
            ''prompt is too long'', ''context size has been exceeded'']
         \<or> containsAny lower contextWindowExceededWitnesses
         \<or> Contains lower ''token'' \<and> Contains lower ''limit''
      then ReasonAgentContextOverflow
      else if Contains lower ''missing api key''
         \<or> Contains lower ''missing environment variable''
         \<or> Contains lower ''missing'' \<and> Contains lower ''api_key''
         \<or> Contains lower ''api key'' \<and> Contains lower ''required''
         \<or> Contains lower providerUnconfiguredPhrase
         \<or> Contains lower ''no provider configured''
      then ReasonAgentMissingConfig
      else if httpAuthCodeRe lower
         \<or> containsAny lower
             [''unauthorized'', ''login required'', ''not logged in'', ''please login again'',
              ''refresh token'', ''invalid api key'', ''access token'', ''subscription access'',
              ''does not have access'', ''you may not have access'']
      then ReasonAgentProviderAuthOrAccess
      else if httpQuotaCodeRe lower
         \<or> containsAny lower
             [''insufficient_balance'', ''balance is too low'', ''monthly usage limit'',
              ''usage limit'', ''you'' @ [CHR 0x27] @ ''ve hit your limit'', curly_hit_your_limit,
              ''credits'', ''quota'']
      then ReasonAgentProviderQuotaLimit
      else if httpCapacityCodeRe lower
         \<or> containsAny lower
             [''rate limit'', ''rate_limit_error'', ''overloaded'', ''no capacity available'',
              ''selected model is at capacity'']
      then ReasonAgentProviderCapacityOrRateLimit
      else if containsAny lower
             [''server had an error'', ''provider returned error'', ''internal error'',
              ''service unavailable'', ''bad gateway'']
         \<or> providerHTTP5xxRe lower
      then ReasonAgentProviderServerError
      else if isPiProviderNetworkError lower
         \<or> containsAny lower
             [''stream disconnected'', opencodeStreamEndedPrefix, codeartsStreamEndedPrefix,
              ''connection closed'', ''mid-response'', ''error sending request'',
              ''unable to connect'', ''dial tcp'', ''connection refused'', ''connectionrefused'',
              ''dns'', ''i/o timeout'', ''deadline exceeded'', ''timeout exceeded while awaiting'']
      then ReasonAgentProviderNetwork
      else if Contains lower ''model'' \<and> Contains lower ''not found''
         \<or> containsAny lower
             [''unknown model'', ''selected model'', ''http 404'', ''404 page not found'']
      then ReasonAgentModelNotFoundOrUnavailable
      else if containsAny lower [''returned empty output'', ''returned no parseable output'']
      then ReasonAgentEmptyOrUnparseableOutput
      else if Contains lower ''timed out after''
      then ReasonAgentTimeout
      else if containsAny lower [''executable not found'', ''exec format error'']
      then ReasonAgentRuntimeMissingExecutable
      else if containsAny lower
             [''below the minimum supported version'', ''requires a newer version'']
      then ReasonAgentRuntimeVersionUnsupported
      else if containsAny lower
             [''exit status'', ''signal'', ''panic'', ''sigsegv'', ''process exited'',
              ''start codex:'', ''pipe has been ended'', ''file already closed'',
              ''initialize failed'']
      then ReasonAgentProcessFailure
      else ReasonAgentUnknown)"

section \<open>Reports of older daemons\<close>

definition legacySkillBundlePrefix :: string where
  "legacySkillBundlePrefix = ''resolve skill bundles:''"

definition legacySkillBundleReasons :: "reason list" where
  "legacySkillBundleReasons = [ReasonAgentUnknown, ReasonAgentProviderNetwork, ''agent_error'']"

definition legacyContextOverflowReasons :: "reason list" where
  "legacyContextOverflowReasons = [ReasonAgentUnknown, ''agent_error'']"

definition legacyOpenclawCLITimeoutWitnesses :: "string list" where
  "legacyOpenclawCLITimeoutWitnesses = [''prepare openclaw config'', ''deadline exceeded'']"

definition legacyOpenclawCLITimeoutReasons :: "reason list" where
  "legacyOpenclawCLITimeoutReasons =
     [ReasonAgentUnknown, ReasonAgentProviderNetwork, ''agent_error'']"

definition legacyOpencodeStreamEndedReasons :: "reason list" where
  "legacyOpencodeStreamEndedReasons =
     [ReasonAgentProcessFailure, ReasonAgentUnknown, ''agent_error'']"

definition NormalizeDaemonReason :: "reason \<Rightarrow> string \<Rightarrow> reason" where
  "NormalizeDaemonReason reason rawError =
     (if reason \<in> set legacySkillBundleReasons
         \<and> HasPrefix (TrimSpace rawError) legacySkillBundlePrefix
      then ReasonSkillBundleUnavailable
      else if reason \<in> set legacyContextOverflowReasons
         \<and> containsAny (ToLower rawError) contextWindowExceededWitnesses
      then ReasonAgentContextOverflow
      else let lowerError = ToLower (TrimSpace rawError) in
        if reason \<in> set legacyOpencodeStreamEndedReasons
           \<and> (HasPrefix lowerError opencodeStreamEndedPrefix
              \<or> HasPrefix lowerError codeartsStreamEndedPrefix)
        then ReasonAgentProviderNetwork
        else if reason \<in> set legacyOpenclawCLITimeoutReasons
           \<and> containsAll (ToLower rawError) legacyOpenclawCLITimeoutWitnesses
        then ReasonRuntimeCLITimeout
        else reason)"

section \<open>Unresumable histories\<close>

text \<open>\<^verbatim>\<open>[^a-z0-9]{0,k}w\<close> at the start of case-folded text.\<close>

fun gap_then :: "nat \<Rightarrow> string \<Rightarrow> string \<Rightarrow> bool" where
  "gap_then 0 w s = HasPrefix s w"
| "gap_then (Suc k) w s =
     (HasPrefix s w
      \<or> s \<noteq> [] \<and> \<not> is_lower (hd s) \<and> \<not> is_digit (hd s) \<and> gap_then k w (drop (rune_width s) s))"

fun contains_gap :: "string \<Rightarrow> nat \<Rightarrow> string \<Rightarrow> string \<Rightarrow> bool" where
  "contains_gap p k w [] = False"
| "contains_gap p k w (c # cs) =
     (HasPrefix (c # cs) p \<and> gap_then k w (drop (length p) (c # cs)) \<or> contains_gap p k w cs)"

fun contains_digit_after :: "string \<Rightarrow> string \<Rightarrow> bool" where
  "contains_digit_after p [] = False"
| "contains_digit_after p (c # cs) =
     (HasPrefix (c # cs) p
        \<and> (case drop (length p) (c # cs) of [] \<Rightarrow> False | d # _ \<Rightarrow> is_digit d)
      \<or> contains_digit_after p cs)"

definition emptyContentRe :: "string \<Rightarrow> bool" where
  "emptyContentRe s =
     containsAny (fold_ci s)
       [''must not be empty'', ''must be nonempty'', ''must be non-empty'',
        ''must have nonempty'', ''must have non-empty'', ''nonempty content'',
        ''non-empty content'', ''cannot be empty'', ''should not be empty'']"

definition historyMessageLocatorRe :: "string \<Rightarrow> bool" where
  "historyMessageLocatorRe s =
     (let t = fold_ci s in
      contains_gap ''role'' 2 ''assistant'' t
      \<or> Contains t ''assistant message'' \<or> Contains t ''message at position''
      \<or> contains_digit_after ''messages.'' t \<or> contains_digit_after ''messages['' t)"

definition UnresumableHistory :: "string \<Rightarrow> bool" where
  "UnresumableHistory errText =
     (if errText = [] then False else emptyContentRe errText \<and> historyMessageLocatorRe errText)"

definition authMethodUnresolvedPhrase :: string where
  "authMethodUnresolvedPhrase = ''could not resolve authentication method''"

definition AuthMethodUnresolved :: "string \<Rightarrow> bool" where
  "AuthMethodUnresolved errText =
     (if errText = [] then False else Contains (ToLower errText) authMethodUnresolvedPhrase)"

section \<open>Outputs that only report an exhausted context\<close>

definition contextExhaustedOutputMaxLen :: nat where
  "contextExhaustedOutputMaxLen = 320"

definition ContextExhaustedCompletion :: "string \<Rightarrow> bool" where
  "ContextExhaustedCompletion output =
     (let trimmed = TrimSpace output in
      if trimmed = [] \<or> contextExhaustedOutputMaxLen < length trimmed then False
      else let lowered = ToLower trimmed in
        Contains lowered ''prompt is too long'' \<and> Contains lowered ''cannot be compacted''
        \<or> Contains lowered ''conversation too long'' \<and> Contains lowered ''press esc twice''
        \<or> Contains lowered ''compaction failed''
            \<and> Contains lowered ''reduced below the context limit'')"

end
