(* ===== verification/TaskModel.thy ===== *)
theory TaskModel
  imports TaskFailure
begin

text \<open>
  The rows of the task queue: \<^verbatim>\<open>agent_task_queue\<close> with the columns that decide scheduling,
  retries and resumption, and the columns of \<^verbatim>\<open>agent\<close> and \<^verbatim>\<open>agent_runtime\<close> that the queue's
  statements read. Columns that are only copied from a row to its retry (trigger summary, team,
  originator, evidence, connected apps) are one opaque field \<open>lineage\<close>. The JSON column
  \<^verbatim>\<open>context\<close> is the record of the keys the statements test.

  The two partial unique indexes of the table are the functions \<open>pending_slot\<close> (migration 257,
  one queued or dispatched task per issue and agent) and \<open>active_lane\<close> (migration 457, one
  executing task per execution lane); \<open>execution_lane_key\<close> is the generated column of migration 456.
\<close>

datatype task_status =
    Queued | Dispatched | Running | WaitingLocalDirectory | WaitingCapacity | Deferred
  | Completed | Failed | Cancelled

record task_context =
  channel_issue_media_pending :: bool
  issue_created_pending :: bool
  side_chat_root_comment_id :: string
  side_chat_parent_task_id :: string
  quick_create_source_context :: bool

record agent_task =
  task_id :: uuid
  agent_id :: uuid
  runtime_id :: "uuid option"
  issue_id :: "uuid option"
  chat_session_id :: "uuid option"
  automation_run_id :: "uuid option"
  status :: task_status
  priority :: int
  created_at :: gtime
  fire_at :: "gtime option"
  dispatched_at :: "gtime option"
  started_at :: "gtime option"
  completed_at :: "gtime option"
  prepare_lease_expires_at :: "gtime option"
  attempt :: int
  max_attempts :: int
  parent_task_id :: "uuid option"
  retry_of_task_id :: "uuid option"
  escalation_for_task_id :: "uuid option"
  session_id :: "string option"
  work_dir :: "string option"
  durable_work_dir :: "string option"
  branch_name :: "string option"
  retired_session_id :: "string option"
  session_rollout_missing :: bool
  force_fresh_session :: bool
  failure_reason :: "string option"
  error_text :: "string option"
  result_payload :: "string option"
  wait_reason :: "string option"
  trigger_comment_id :: "uuid option"
  coalesced_comment_ids :: "uuid list"
  delivered_comment_ids :: "uuid list"
  chat_input_task_id :: "uuid option"
  context_col :: task_context
  lineage :: nat

record agent_row =
  ag_id :: uuid
  ag_workspace_id :: uuid
  ag_runtime_id :: "uuid option"
  ag_owner_id :: "uuid option"
  ag_archived_at :: "gtime option"

record runtime_row =
  rt_id :: uuid
  rt_visibility :: string
  rt_owner_id :: "uuid option"
  rt_status :: string
  rt_last_seen_at :: "gtime option"
  rt_updated_at :: gtime

text \<open>\<open>closed_gates\<close>: the issues whose dependency gate is closed, as the admission trigger of the table
  reads it from the graph tables (migration 475; \<open>GraphDb\<close> computes it).\<close>

record taskdb =
  tasks :: "agent_task list"
  agents :: "agent_row list"
  runtimes :: "runtime_row list"
  closed_gates :: "uuid \<Rightarrow> bool"

text \<open>The trigger \<^verbatim>\<open>dependency_graph_task_admission\<close>: a row may not be written in an admitted or active
  status while the gate of its issue is closed.\<close>

definition gate_rejects :: "(uuid \<Rightarrow> bool) \<Rightarrow> agent_task \<Rightarrow> bool" where
  "gate_rejects closed r \<longleftrightarrow>
     (case issue_id r of None \<Rightarrow> False
      | Some i \<Rightarrow> status r \<in> {Queued, Deferred, Dispatched, Running, WaitingLocalDirectory}
                  \<and> closed i)"

definition task_terminal :: "agent_task \<Rightarrow> bool" where
  "task_terminal r \<longleftrightarrow> status r \<in> {Completed, Failed, Cancelled}"

datatype lane =
    ChatLane uuid
  | IssueSideLane uuid uuid string
  | IssueMainLane uuid uuid
  | AgentLane uuid

definition side_chat_key :: "task_context \<Rightarrow> string" where
  "side_chat_key c =
     (if side_chat_root_comment_id c \<noteq> [] then side_chat_root_comment_id c
      else side_chat_parent_task_id c)"

definition execution_lane_key :: "agent_task \<Rightarrow> lane" where
  "execution_lane_key r =
     (case chat_session_id r of Some c \<Rightarrow> ChatLane c
      | None \<Rightarrow>
         (case issue_id r of
            Some i \<Rightarrow>
              (if side_chat_key (context_col r) \<noteq> []
               then IssueSideLane i (agent_id r) (side_chat_key (context_col r))
               else IssueMainLane i (agent_id r))
          | None \<Rightarrow> AgentLane (agent_id r)))"

definition occupies_slot :: "agent_task \<Rightarrow> bool" where
  "occupies_slot r \<longleftrightarrow>
     status r \<in> {Queued, Dispatched}
     \<or> status r = Deferred \<and> channel_issue_media_pending (context_col r)"

definition pending_slot :: "agent_task \<Rightarrow> (uuid \<times> uuid) option" where
  "pending_slot r =
     (case issue_id r of None \<Rightarrow> None
      | Some i \<Rightarrow> if occupies_slot r then Some (i, agent_id r) else None)"

definition active_lane :: "agent_task \<Rightarrow> lane option" where
  "active_lane r =
     (if status r \<in> {Dispatched, Running, WaitingLocalDirectory}
      then Some (execution_lane_key r) else None)"

definition slot_ok :: "agent_task list \<Rightarrow> bool" where
  "slot_ok = unique_index task_id pending_slot"

definition lane_ok :: "agent_task list \<Rightarrow> bool" where
  "lane_ok = unique_index task_id active_lane"

text \<open>A row as \<open>CreateAgentTask\<close> inserts it, before the caller's columns are filled in: the
  column defaults of the table.\<close>

definition blank_context :: task_context where
  "blank_context =
     \<lparr>channel_issue_media_pending = False, issue_created_pending = False,
      side_chat_root_comment_id = [], side_chat_parent_task_id = [],
      quick_create_source_context = False\<rparr>"

definition blank_task :: "uuid \<Rightarrow> uuid \<Rightarrow> gtime \<Rightarrow> agent_task" where
  "blank_task i a now =
     \<lparr>task_id = i, agent_id = a, runtime_id = None, issue_id = None, chat_session_id = None,
      automation_run_id = None, status = Queued, priority = 0, created_at = now, fire_at = None,
      dispatched_at = None, started_at = None, completed_at = None,
      prepare_lease_expires_at = None, attempt = 1, max_attempts = 2, parent_task_id = None,
      retry_of_task_id = None, escalation_for_task_id = None, session_id = None, work_dir = None,
      durable_work_dir = None, branch_name = None, retired_session_id = None,
      session_rollout_missing = False, force_fresh_session = False, failure_reason = None,
      error_text = None, result_payload = None, wait_reason = None, trigger_comment_id = None,
      coalesced_comment_ids = [], delivered_comment_ids = [], chat_input_task_id = None,
      context_col = blank_context, lineage = 0\<rparr>"

lemma pending_slot_Some:
  "pending_slot r = Some (i, a) \<longleftrightarrow> issue_id r = Some i \<and> agent_id r = a \<and> occupies_slot r"
  by (auto simp: pending_slot_def split: option.splits if_splits)

lemma active_lane_Some:
  "active_lane r = Some l
     \<longleftrightarrow> status r \<in> {Dispatched, Running, WaitingLocalDirectory} \<and> execution_lane_key r = l"
  by (auto simp: active_lane_def)

end
