(* ===== verification/TaskRetry.thy ===== *)
theory TaskRetry
  imports TaskModel
begin

text \<open>
  Automatic retries of failed tasks (\<^verbatim>\<open>server/internal/service/task.go\<close>): the allowlist of
  retryable reasons, the attempt ceiling and backoff, the guard on resuming a poisoned session,
  the insertion of the retry row (\<^verbatim>\<open>CreateRetryTask\<close> of \<^verbatim>\<open>pkg/db/queries/agent.sql\<close>) and the
  sweeper's \<open>MaybeRetryFailedTask\<close>. What the database and the two calls into other tables answer
  is the record \<open>retry_env\<close>; a failed transaction leaves the tables as they were.
\<close>

section \<open>Policy\<close>

definition retryableReasons :: "string \<Rightarrow> bool" where
  "retryableReasons r \<longleftrightarrow> r \<in> set
     [ReasonRuntimeOffline, ReasonRuntimeRecovery, ReasonTimeout, ''codex_semantic_inactivity'',
      ReasonAgentProviderNetwork, ReasonSkillBundleUnavailable]"

definition runtimeOfflineRetryDeferral :: duration where
  "runtimeOfflineRetryDeferral = second"

definition providerNetworkMaxAttempts :: int where
  "providerNetworkMaxAttempts = 3"

definition providerNetworkFinalRetryWait :: duration where
  "providerNetworkFinalRetryWait = 5 * second"

definition retryAttemptCeiling :: "string \<Rightarrow> int \<Rightarrow> int" where
  "retryAttemptCeiling reason taskMaxAttempts =
     (if taskMaxAttempts \<le> 1 then taskMaxAttempts
      else if reason = ReasonAgentProviderNetwork \<and> taskMaxAttempts < providerNetworkMaxAttempts
      then providerNetworkMaxAttempts
      else taskMaxAttempts)"

definition retryDelayForAttempt :: "string \<Rightarrow> int \<Rightarrow> duration" where
  "retryDelayForAttempt reason failedAttempt =
     (if reason = ReasonRuntimeOffline then runtimeOfflineRetryDeferral
      else if reason = ReasonAgentProviderNetwork \<and> failedAttempt \<ge> providerNetworkMaxAttempts - 1
      then providerNetworkFinalRetryWait
      else 0)"

definition resumeUnsafeFailureReason :: "string \<Rightarrow> bool" where
  "resumeUnsafeFailureReason r \<longleftrightarrow> r \<in> set
     [''iteration_limit'', ''agent_fallback_message'', ''api_invalid_request'',
      ''codex_semantic_inactivity'', ''agent_error.context_overflow'', ''codex_resume_oversized'']"

definition ResumeUnsafeFailure :: "string \<Rightarrow> string \<Rightarrow> bool" where
  "ResumeUnsafeFailure failureReason errorText =
     (if resumeUnsafeFailureReason failureReason then True
      else let lower = ToLower errorText in
        if Contains lower ''400'' \<and> Contains lower ''invalid_request_error'' then True
        else if AuthMethodUnresolved errorText then True
        else UnresumableHistory errorText)"

definition isSourceContextQuickCreateTask :: "agent_task \<Rightarrow> bool" where
  "isSourceContextQuickCreateTask t =
     (if issue_id t \<noteq> None \<or> chat_session_id t \<noteq> None \<or> automation_run_id t \<noteq> None then False
      else quick_create_source_context (context_col t))"

definition retryEligible :: "string \<Rightarrow> agent_task \<Rightarrow> bool" where
  "retryEligible failureReason t \<longleftrightarrow>
     retryableReasons failureReason
     \<and> attempt t < retryAttemptCeiling failureReason (max_attempts t)
     \<and> automation_run_id t = None
     \<and> (issue_id t \<noteq> None \<or> chat_session_id t \<noteq> None \<or> isSourceContextQuickCreateTask t)"

section \<open>The statements\<close>

definition HasPendingTaskForIssueAndAgent :: "uuid \<Rightarrow> uuid \<Rightarrow> agent_task list \<Rightarrow> bool" where
  "HasPendingTaskForIssueAndAgent i a ts = list_ex (\<lambda>r. pending_slot r = Some (i, a)) ts"

definition hasRunnableSuccessor :: "agent_task list \<Rightarrow> agent_task \<Rightarrow> bool" where
  "hasRunnableSuccessor ts t =
     (case issue_id t of None \<Rightarrow> False
      | Some i \<Rightarrow> HasPendingTaskForIssueAndAgent i (agent_id t) ts)"

text \<open>The row \<open>CreateRetryTask\<close> selects from its parent. \<^verbatim>\<open>delivered_comment_ids\<close> and the columns
  the statement does not name take the table's defaults.\<close>

definition retry_row :: "uuid \<Rightarrow> gtime \<Rightarrow> gtime option \<Rightarrow> int option \<Rightarrow> agent_task \<Rightarrow> agent_task" where
  "retry_row new_id now fire maxa p =
     (let fresh = (failure_reason p = Some ''codex_semantic_inactivity'') in
      (blank_task new_id (agent_id p) now)
        \<lparr>runtime_id := runtime_id p,
         issue_id := issue_id p,
         chat_session_id := chat_session_id p,
         automation_run_id := automation_run_id p,
         status := (if fire \<noteq> None then Deferred else Queued),
         priority := (if chat_session_id p \<noteq> None then max (priority p) 3 else priority p),
         trigger_comment_id := trigger_comment_id p,
         coalesced_comment_ids := coalesced_comment_ids p,
         context_col := context_col p,
         session_id := (if fresh then None else session_id p),
         work_dir := (if fresh then None else work_dir p),
         attempt := attempt p + 1,
         max_attempts := (case maxa of None \<Rightarrow> max_attempts p | Some m \<Rightarrow> m),
         parent_task_id := Some (task_id p),
         force_fresh_session := fresh,
         lineage := lineage p,
         retry_of_task_id := Some (task_id p),
         chat_input_task_id := chat_input_task_id p,
         fire_at := fire\<rparr>)"

definition slot_conflict :: "agent_task \<Rightarrow> agent_task list \<Rightarrow> bool" where
  "slot_conflict c ts = (pending_slot c \<noteq> None \<and> list_ex (\<lambda>r. pending_slot r = pending_slot c) ts)"

definition CreateRetryTask ::
  "uuid \<Rightarrow> gtime \<Rightarrow> gtime option \<Rightarrow> int option \<Rightarrow> bool \<Rightarrow> uuid \<Rightarrow> agent_task list
     \<Rightarrow> agent_task option \<times> agent_task list" where
  "CreateRetryTask new_id now fire maxa owners_alive parent ts =
     (case find (\<lambda>r. task_id r = parent) ts of
        None \<Rightarrow> (None, ts)
      | Some p \<Rightarrow>
          if \<not> owners_alive then (None, ts)
          else let c = retry_row new_id now fire maxa p in
            if slot_conflict c ts then (None, ts) else (Some c, ts @ [c]))"

section \<open>The sweeper's retry\<close>

datatype retry_error = TxStarterRequired | BeginFailed | CreateFailed | TransferFailed
  | CopyDeliveryFailed | CommitFailed

datatype transfer_outcome = TransferDone | TransferNoRows | TransferErr

record retry_env =
  re_now :: gtime
  re_new_id :: uuid
  re_owners_alive :: bool
  re_successor_check_ok :: bool
  re_tx_starter :: bool
  re_begin_ok :: bool
  re_create_ok :: bool
  re_transfer :: transfer_outcome
  re_copy_ok :: bool
  re_commit_ok :: bool

definition MaybeRetryFailedTask ::
  "retry_env \<Rightarrow> agent_task \<Rightarrow> agent_task list
     \<Rightarrow> (retry_error + agent_task option) \<times> agent_task list" where
  "MaybeRetryFailedTask env parent ts =
     (if status parent \<noteq> Failed then (Inr None, ts)
      else
        let reason = (case failure_reason parent of Some r \<Rightarrow> r | None \<Rightarrow> []) in
        if \<not> retryableReasons reason then (Inr None, ts)
        else if attempt parent \<ge> retryAttemptCeiling reason (max_attempts parent) then (Inr None, ts)
        else if \<not> retryEligible reason parent then (Inr None, ts)
        else
          let delay = retryDelayForAttempt reason (attempt parent);
              fire = (if 0 < delay then Some (re_now env + delay) else None)
          in if re_successor_check_ok env \<and> hasRunnableSuccessor ts parent then (Inr None, ts)
          else if \<not> re_tx_starter env then (Inl TxStarterRequired, ts)
          else if \<not> re_begin_ok env then (Inl BeginFailed, ts)
          else if \<not> re_create_ok env then (Inl CreateFailed, ts)
          else
            (case CreateRetryTask (re_new_id env) (re_now env) fire
                    (Some (retryAttemptCeiling reason (max_attempts parent)))
                    (re_owners_alive env) (task_id parent) ts of
               (None, _) \<Rightarrow> (Inr None, ts)
             | (Some child, ts') \<Rightarrow>
                 (case re_transfer env of
                    TransferNoRows \<Rightarrow> (Inr None, ts)
                  | TransferErr \<Rightarrow> (Inl TransferFailed, ts)
                  | TransferDone \<Rightarrow>
                      if \<not> re_copy_ok env then (Inl CopyDeliveryFailed, ts)
                      else if \<not> re_commit_ok env then (Inl CommitFailed, ts)
                      else (Inr (Some child), ts'))))"

section \<open>Facts about the policy\<close>

lemma retryAttemptCeiling_bounds:
  "max_attempts' \<le> retryAttemptCeiling reason max_attempts'"
  "retryAttemptCeiling reason max_attempts' \<le> max 3 max_attempts'"
  by (auto simp: retryAttemptCeiling_def providerNetworkMaxAttempts_def)

lemma retryAttemptCeiling_disabled: "m \<le> 1 \<Longrightarrow> retryAttemptCeiling reason m = m"
  by (simp add: retryAttemptCeiling_def)

lemma retryDelay_nonneg: "0 \<le> retryDelayForAttempt reason n"
  by (simp add: retryDelayForAttempt_def runtimeOfflineRetryDeferral_def
      providerNetworkFinalRetryWait_def second_def)

lemma retry_row_simps [simp]:
  "task_id (retry_row i now fire m p) = i"
  "agent_id (retry_row i now fire m p) = agent_id p"
  "issue_id (retry_row i now fire m p) = issue_id p"
  "attempt (retry_row i now fire m p) = attempt p + 1"
  "max_attempts (retry_row i now fire (Some k) p) = k"
  "status (retry_row i now fire m p) = (if fire \<noteq> None then Deferred else Queued)"
  "fire_at (retry_row i now fire m p) = fire"
  "retry_of_task_id (retry_row i now fire m p) = Some (task_id p)"
  "session_id (retry_row i now fire m p)
     = (if failure_reason p = Some ''codex_semantic_inactivity'' then None else session_id p)"
  "force_fresh_session (retry_row i now fire m p)
     = (failure_reason p = Some ''codex_semantic_inactivity'')"
  by (simp_all add: retry_row_def blank_task_def Let_def)

lemma CreateRetryTask_Some:
  assumes "CreateRetryTask i now fire m alive pid ts = (Some c, ts')"
  obtains p where "p \<in> set ts" "task_id p = pid" "c = retry_row i now fire m p" "ts' = ts @ [c]"
    "\<not> slot_conflict c ts" "alive"
proof -
  obtain p where p: "find (\<lambda>r. task_id r = pid) ts = Some p"
    using assms by (cases "find (\<lambda>r. task_id r = pid) ts") (auto simp: CreateRetryTask_def)
  with assms have "c = retry_row i now fire m p" "ts' = ts @ [c]" "\<not> slot_conflict c ts" "alive"
    by (auto simp: CreateRetryTask_def Let_def split: if_splits)
  with find_Some_in[OF p] that show thesis by blast
qed

lemma CreateRetryTask_None: "CreateRetryTask i now fire m alive pid ts = (None, ts') \<Longrightarrow> ts' = ts"
  by (auto simp: CreateRetryTask_def Let_def split: option.splits if_splits)

lemma slot_ok_append: "slot_ok ts \<Longrightarrow> \<not> slot_conflict c ts \<Longrightarrow> slot_ok (ts @ [c])"
  unfolding slot_ok_def
  by (rule unique_index_append) (auto simp: slot_conflict_def list_ex_iff)

text \<open>A committed retry: the facts every property of the sweeper needs.\<close>

definition retry_fire :: "retry_env \<Rightarrow> string \<Rightarrow> agent_task \<Rightarrow> gtime option" where
  "retry_fire env reason p =
     (let d = retryDelayForAttempt reason (attempt p) in if 0 < d then Some (re_now env + d) else None)"

lemma MaybeRetry_child:
  assumes "MaybeRetryFailedTask env p ts = (Inr (Some c), ts')"
  obtains reason q where
    "status p = Failed" "failure_reason p = Some reason" "retryEligible reason p"
    "q \<in> set ts" "task_id q = task_id p"
    "c = retry_row (re_new_id env) (re_now env) (retry_fire env reason p)
           (Some (retryAttemptCeiling reason (max_attempts p))) q"
    "ts' = ts @ [c]" "\<not> slot_conflict c ts"
proof -
  let ?reason = "case failure_reason p of Some r \<Rightarrow> r | None \<Rightarrow> []"
  have "\<not> retryableReasons []"
    by (simp add: retryableReasons_def reason_defs)
  with assms have f: "failure_reason p = Some ?reason" "status p = Failed" "retryEligible ?reason p"
    by (auto simp: MaybeRetryFailedTask_def Let_def split: if_splits option.splits)
  have "\<exists>ts''. CreateRetryTask (re_new_id env) (re_now env) (retry_fire env ?reason p)
          (Some (retryAttemptCeiling ?reason (max_attempts p))) (re_owners_alive env) (task_id p) ts
        = (Some c, ts')"
    using assms
    by (auto simp: MaybeRetryFailedTask_def retry_fire_def Let_def
        split: if_splits prod.splits option.splits transfer_outcome.splits)
  then obtain q where "q \<in> set ts" "task_id q = task_id p"
      "c = retry_row (re_new_id env) (re_now env) (retry_fire env ?reason p)
           (Some (retryAttemptCeiling ?reason (max_attempts p))) q"
      "ts' = ts @ [c]" "\<not> slot_conflict c ts"
    by (auto elim!: CreateRetryTask_Some)
  with f that show thesis by blast
qed

lemma MaybeRetry_budget:
  assumes "MaybeRetryFailedTask env p ts = (Inr (Some c), ts')"
    and "p \<in> set ts" and "distinct (map task_id ts)"
  shows "attempt c = attempt p + 1" "attempt c \<le> max_attempts c"
    "max_attempts p \<le> max_attempts c" "max_attempts c \<le> max 3 (max_attempts p)"
    "max_attempts p \<le> 1 \<Longrightarrow> attempt p < max_attempts p"
proof -
  obtain reason q where r: "retryEligible reason p" and q: "q \<in> set ts" "task_id q = task_id p"
    and c: "c = retry_row (re_new_id env) (re_now env) (retry_fire env reason p)
              (Some (retryAttemptCeiling reason (max_attempts p))) q"
    using MaybeRetry_child[OF assms(1)] by metis
  have qp: "q = p" using assms(2,3) q distinct_key_eq by metis
  have "attempt p < retryAttemptCeiling reason (max_attempts p)"
    using r by (simp add: retryEligible_def)
  then show "attempt c = attempt p + 1" "attempt c \<le> max_attempts c"
    "max_attempts p \<le> max_attempts c" "max_attempts c \<le> max 3 (max_attempts p)"
    "max_attempts p \<le> 1 \<Longrightarrow> attempt p < max_attempts p"
    using c qp retryAttemptCeiling_bounds[where reason = reason and max_attempts' = "max_attempts p"]
      retryAttemptCeiling_disabled[of "max_attempts p" reason]
    by simp_all
qed

lemma MaybeRetry_frame:
  "MaybeRetryFailedTask env p ts = (out, ts') \<Longrightarrow> (\<forall>c. out \<noteq> Inr (Some c)) \<Longrightarrow> ts' = ts"
  by (auto simp: MaybeRetryFailedTask_def Let_def
      split: if_splits prod.splits option.splits transfer_outcome.splits)

lemma Classify_reasons:
  "Classify s \<in> set [ReasonAgentProviderAuthOrAccess, ReasonAgentProviderQuotaLimit,
     ReasonAgentProviderCapacityOrRateLimit, ReasonAgentProviderServerError,
     ReasonAgentProviderNetwork, ReasonAgentProcessFailure, ReasonAgentEmptyOrUnparseableOutput,
     ReasonAgentTimeout, ReasonAgentContextOverflow, ReasonAgentMissingConfig,
     ReasonAgentModelNotFoundOrUnavailable, ReasonAgentRuntimeVersionUnsupported,
     ReasonAgentRuntimeMissingExecutable, ReasonAgentUnknown]"
  unfolding Classify_def Let_def by (intro if_in; simp)

text \<open>
  A chain of automatic retries: each row is the retry the sweeper committed for the failed row
  before it, in whatever state the table was then; between its insertion and its failure a row
  keeps its attempt and its ceiling.
\<close>

inductive retry_chain :: "agent_task \<Rightarrow> agent_task list \<Rightarrow> bool" where
  chain_end: "retry_chain p []"
| chain_step: "MaybeRetryFailedTask env p ts = (Inr (Some c), ts') \<Longrightarrow> p \<in> set ts
     \<Longrightarrow> distinct (map task_id ts) \<Longrightarrow> attempt p' = attempt c \<Longrightarrow> max_attempts p' = max_attempts c
     \<Longrightarrow> retry_chain p' rest \<Longrightarrow> retry_chain p (p' # rest)"

inductive_cases retry_chain_ConsE: "retry_chain p (c # rest)"

lemma retry_chain_bound:
  "retry_chain p rest \<Longrightarrow> attempt p \<le> max 3 (max_attempts p)
     \<Longrightarrow> attempt p + int (length rest) \<le> max 3 (max_attempts p)"
proof (induction rule: retry_chain.induct)
  case (chain_step env p ts c ts' p' rest)
  have "attempt p' = attempt p + 1" "attempt p' \<le> max_attempts p'"
    "max_attempts p' \<le> max 3 (max_attempts p)" "max_attempts p \<le> max_attempts p'"
    using MaybeRetry_budget[OF chain_step.hyps(1-3)] chain_step.hyps(4,5) by simp_all
  moreover from this have "max 3 (max_attempts p') \<le> max 3 (max_attempts p)"
    "attempt p' \<le> max 3 (max_attempts p')" by simp_all
  ultimately show ?case using chain_step.IH by simp
qed simp

lemma retry_chain_disabled:
  "retry_chain p rest \<Longrightarrow> max_attempts p \<le> 1 \<Longrightarrow> 1 \<le> attempt p \<Longrightarrow> rest = []"
  by (cases rest) (auto elim!: retry_chain_ConsE dest!: MaybeRetry_budget(5))

section \<open>Properties\<close>


definition demo_env :: "uuid \<Rightarrow> retry_env" where
  "demo_env i = \<lparr>re_now = 100, re_new_id = i, re_owners_alive = True,
     re_successor_check_ok = True, re_tx_starter = True, re_begin_ok = True, re_create_ok = True,
     re_transfer = TransferDone, re_copy_ok = True, re_commit_ok = True\<rparr>"

definition demo_fail :: "agent_task \<Rightarrow> agent_task" where
  "demo_fail t = t\<lparr>status := Failed, failure_reason := Some ReasonAgentProviderNetwork\<rparr>"

definition demo_first :: agent_task where
  "demo_first = demo_fail ((blank_task 1 7 0)\<lparr>issue_id := Some 4, session_id := Some ''s''\<rparr>)"

definition demo_second :: agent_task where
  "demo_second = demo_fail (retry_row 2 100 None (Some 3) demo_first)"

definition demo_third :: agent_task where
  "demo_third = demo_fail (retry_row 3 100 (Some (100 + 5 * second)) (Some 3) demo_second)"

lemma demo_retries:
  "MaybeRetryFailedTask (demo_env 2) demo_first [demo_first]
     = (Inr (Some (retry_row 2 100 None (Some 3) demo_first)),
        [demo_first, retry_row 2 100 None (Some 3) demo_first])"
  "MaybeRetryFailedTask (demo_env 3) demo_second [demo_first, demo_second]
     = (Inr (Some (retry_row 3 100 (Some (100 + 5 * second)) (Some 3) demo_second)),
        [demo_first, demo_second, retry_row 3 100 (Some (100 + 5 * second)) (Some 3) demo_second])"
  by code_simp+

lemma demo_chain: "retry_chain demo_first [demo_second, demo_third]"
  by (rule chain_step[OF demo_retries(1)],
      simp, simp, simp add: demo_second_def demo_fail_def, simp add: demo_second_def demo_fail_def,
      rule chain_step[OF demo_retries(2)],
      simp, simp add: demo_second_def demo_first_def demo_fail_def blank_task_def,
      simp add: demo_third_def demo_fail_def, simp add: demo_third_def demo_fail_def,
      rule chain_end)


text \<open>
  The sweeper's retry never takes a second pending slot and never disturbs a row. Whatever the
  database answers, the rows of the table stay as they are, at most one row is appended, a row is
  appended exactly when the call returns it, and the unique index on the queued or dispatched task
  of an issue and agent still holds.
\<close>

theorem retry_preserves_slot:
  assumes "MaybeRetryFailedTask env p ts = (out, ts')" and "slot_ok ts"
  shows "slot_ok ts' \<and> (\<forall>c. out = Inr (Some c) \<longrightarrow> ts' = ts @ [c])
    \<and> ((\<forall>c. out \<noteq> Inr (Some c)) \<longrightarrow> ts' = ts)"
proof (cases "\<exists>c. out = Inr (Some c)")
  case True
  then obtain c where c: "out = Inr (Some c)" by blast
  with assms(1) have "ts' = ts @ [c]" "\<not> slot_conflict c ts"
    by (auto elim: MaybeRetry_child)
  with assms(2) c show ?thesis by (simp add: slot_ok_append)
next
  case False
  with MaybeRetry_frame[OF assms(1)] assms(2) show ?thesis by auto
qed

theorem retry_preserves_slot_witness:
  "slot_ok [demo_first, retry_row 2 100 None (Some 3) demo_first]"
proof -
  have "slot_ok [demo_first]"
    by (simp add: slot_ok_def unique_index_def)
  from retry_preserves_slot[OF demo_retries(1) this] show ?thesis by simp
qed

text \<open>
  Of everything the text classifier can answer, only a provider disconnect is retried: for any
  error text, the classified reason is one of the fourteen \<open>agent_error.\<close> reasons of the
  taxonomy, and it is on the retry allowlist exactly when it is \<open>agent_error.provider_network\<close>.
\<close>

theorem classified_errors_retry_only_network:
  "Classify s \<in> set AllReasons \<and> IsAgentError (Classify s)
   \<and> (retryableReasons (Classify s) \<longleftrightarrow> Classify s = ReasonAgentProviderNetwork)"
  using Classify_reasons[of s]
  by (auto simp: AllReasons_def allReasons_def IsAgentError_def agentErrorPrefix_def
      retryableReasons_def reason_defs)

text \<open>
  C4: a retry never resumes a session that its failure reason condemns. When the sweeper commits
  a retry, the row it inserts carries the parent's session unless the parent's reason is
  resume-unsafe, and then it carries none and is marked to start fresh.
\<close>

theorem retry_drops_unsafe_session:
  assumes "MaybeRetryFailedTask env p ts = (Inr (Some c), ts')"
    and "p \<in> set ts" and "distinct (map task_id ts)" and "failure_reason p = Some reason"
  shows "(if resumeUnsafeFailureReason reason then session_id c = None \<and> force_fresh_session c
          else session_id c = session_id p \<and> \<not> force_fresh_session c)"
proof -
  obtain reason' q where r: "failure_reason p = Some reason'" "retryEligible reason' p"
    and q: "q \<in> set ts" "task_id q = task_id p"
    and c: "c = retry_row (re_new_id env) (re_now env) (retry_fire env reason' p)
              (Some (retryAttemptCeiling reason' (max_attempts p))) q"
    using MaybeRetry_child[OF assms(1)] by metis
  have "q = p" using assms(2,3) q distinct_key_eq by metis
  moreover have "resumeUnsafeFailureReason reason \<longleftrightarrow> reason = ''codex_semantic_inactivity''"
    using r assms(4)
    by (auto simp: retryEligible_def retryableReasons_def resumeUnsafeFailureReason_def reason_defs)
  ultimately show ?thesis using c assms(4) by simp
qed

theorem retry_drops_unsafe_session_witness:
  "session_id (retry_row 2 100 None (Some 3) demo_first) = Some ''s''"
proof -
  have d: "demo_first \<in> set [demo_first]" "distinct (map task_id [demo_first])"
    "failure_reason demo_first = Some ReasonAgentProviderNetwork"
    by (simp_all add: demo_first_def demo_fail_def)
  have "\<not> resumeUnsafeFailureReason ReasonAgentProviderNetwork" by code_simp
  moreover have "session_id demo_first = Some ''s''"
    by (simp add: demo_first_def demo_fail_def)
  ultimately show ?thesis
    using retry_drops_unsafe_session[OF demo_retries(1) d] by simp
qed

text \<open>
  The guard on the error text does not reach automatic retries. There is a failed task whose
  reason and error text together are resume-unsafe, the text being one the classifier itself
  labels as a retryable disconnect, and whose automatic retry is committed with the condemned
  session.
\<close>

definition poisoned_text :: string where
  "poisoned_text = ''400 invalid_request_error: connection closed''"

definition poisoned_task :: agent_task where
  "poisoned_task = (blank_task 1 7 0)\<lparr>issue_id := Some 4, status := Failed,
     failure_reason := Some ReasonAgentProviderNetwork, error_text := Some poisoned_text,
     session_id := Some ''s''\<rparr>"

theorem retry_ignores_error_text:
  "\<exists>c ts'. Classify poisoned_text = ReasonAgentProviderNetwork
     \<and> failure_reason poisoned_task = Some ReasonAgentProviderNetwork
     \<and> error_text poisoned_task = Some poisoned_text
     \<and> ResumeUnsafeFailure ReasonAgentProviderNetwork poisoned_text
     \<and> MaybeRetryFailedTask (demo_env 2) poisoned_task [poisoned_task] = (Inr (Some c), ts')
     \<and> session_id c = Some ''s''"
proof -
  have "Classify poisoned_text = ReasonAgentProviderNetwork" by code_simp
  moreover have "ResumeUnsafeFailure ReasonAgentProviderNetwork poisoned_text" by code_simp
  moreover have "failure_reason poisoned_task = Some ReasonAgentProviderNetwork"
    "error_text poisoned_task = Some poisoned_text"
    by (simp_all add: poisoned_task_def)
  moreover have "MaybeRetryFailedTask (demo_env 2) poisoned_task [poisoned_task]
      = (Inr (Some (retry_row 2 100 None (Some 3) poisoned_task)),
         [poisoned_task, retry_row 2 100 None (Some 3) poisoned_task])" by code_simp
  moreover have "session_id (retry_row 2 100 None (Some 3) poisoned_task) = Some ''s''" by code_simp
  ultimately show ?thesis by (intro exI conjI)
qed

end
