(* ===== verification/TaskQueue.thy ===== *)
theory TaskQueue
  imports TaskRetry "HOL-Library.Product_Lexorder"
begin

text \<open>
  The statements of the task queue (\<^verbatim>\<open>server/pkg/db/queries/agent.sql\<close>), each as the pair of its
  WHERE and its SET over the row, given the tables it reads; \<open>returning\<close> and \<open>exec_update\<close> are
  what the statement returns and the table it leaves. A queue statement runs at a time \<open>now\<close>
  (\<^verbatim>\<open>now()\<close> of its transaction). \<open>locked\<close> is the set of rows other transactions hold, which
  \<^verbatim>\<open>FOR UPDATE SKIP LOCKED\<close> passes over. The unique indexes are not enforced by the model of an
  update: that no update ever meets a violation is proved (\<open>slot_and_lane_exclusive\<close>).
\<close>

section \<open>UPDATE statements\<close>

type_synonym task_update = "(agent_task \<Rightarrow> bool) \<times> (agent_task \<Rightarrow> agent_task)"

definition returning :: "task_update \<Rightarrow> taskdb \<Rightarrow> agent_task list" where
  "returning u db = map (snd u) (filter (fst u) (tasks db))"

definition exec_update :: "task_update \<Rightarrow> taskdb \<Rightarrow> taskdb" where
  "exec_update u db = db\<lparr>tasks := update_where (fst u) (snd u) (tasks db)\<rparr>"

definition coalesce :: "'a option \<Rightarrow> 'a option \<Rightarrow> 'a option" where
  "coalesce a b = (case a of None \<Rightarrow> b | Some x \<Rightarrow> Some x)"

definition opt_before :: "gtime option \<Rightarrow> gtime \<Rightarrow> bool" where
  "opt_before a t = (case a of None \<Rightarrow> False | Some x \<Rightarrow> x < t)"

section \<open>Runtimes\<close>

definition runtime_seen :: "runtime_row \<Rightarrow> gtime" where
  "runtime_seen r = (case rt_last_seen_at r of Some t \<Rightarrow> t | None \<Rightarrow> rt_updated_at r)"

definition runtime_healthy :: "gtime \<Rightarrow> duration \<Rightarrow> runtime_row \<Rightarrow> bool" where
  "runtime_healthy now stale r \<longleftrightarrow> rt_status r = ''online'' \<and> now - stale \<le> runtime_seen r"

definition runtime_authorized :: "taskdb \<Rightarrow> runtime_row \<Rightarrow> agent_task \<Rightarrow> bool" where
  "runtime_authorized db r t =
     list_ex (\<lambda>a. ag_id a = agent_id t \<and> runtime_id t \<noteq> None \<and> ag_runtime_id a = runtime_id t
        \<and> (rt_visibility r = ''public''
           \<or> rt_visibility r = ''private''
             \<and> (rt_owner_id r = None \<or> ag_owner_id a = None \<or> rt_owner_id r = ag_owner_id a)))
       (agents db)"

definition claimable_runtime :: "gtime \<Rightarrow> duration \<Rightarrow> taskdb \<Rightarrow> agent_task \<Rightarrow> bool" where
  "claimable_runtime now stale db t =
     list_ex (\<lambda>r. Some (rt_id r) = runtime_id t \<and> runtime_authorized db r t
        \<and> runtime_healthy now stale r) (runtimes db)"

section \<open>Claiming\<close>

fun first_by :: "('a \<Rightarrow> 'k::linorder) \<Rightarrow> 'a list \<Rightarrow> 'a option" where
  "first_by k [] = None"
| "first_by k (x # xs) =
     (case first_by k xs of None \<Rightarrow> Some x | Some y \<Rightarrow> if k y < k x then Some y else Some x)"

definition claim_key :: "agent_task \<Rightarrow> int \<times> gtime \<times> uuid" where
  "claim_key t = (- priority t, created_at t, task_id t)"

definition lane_busy :: "taskdb \<Rightarrow> agent_task \<Rightarrow> bool" where
  "lane_busy db t =
     list_ex (\<lambda>a. execution_lane_key a = execution_lane_key t
        \<and> status a \<in> {Dispatched, Running, WaitingLocalDirectory, WaitingCapacity}) (tasks db)"

definition claim_candidate ::
  "gtime \<Rightarrow> uuid \<Rightarrow> uuid \<Rightarrow> duration \<Rightarrow> taskdb \<Rightarrow> agent_task \<Rightarrow> bool" where
  "claim_candidate now ag rt stale db t \<longleftrightarrow>
     agent_id t = ag \<and> runtime_id t = Some rt \<and> status t = Queued
     \<and> \<not> issue_created_pending (context_col t)
     \<and> list_ex (\<lambda>a. ag_id a = agent_id t \<and> ag_archived_at a = None) (agents db)
     \<and> claimable_runtime now stale db t
     \<and> \<not> lane_busy db t"

definition claim_target ::
  "gtime \<Rightarrow> uuid \<Rightarrow> uuid \<Rightarrow> duration \<Rightarrow> (uuid \<Rightarrow> bool) \<Rightarrow> taskdb \<Rightarrow> agent_task option" where
  "claim_target now ag rt stale locked db =
     first_by claim_key
       (filter (\<lambda>t. claim_candidate now ag rt stale db t \<and> \<not> locked (task_id t)) (tasks db))"

definition ClaimAgentTask ::
  "gtime \<Rightarrow> uuid \<Rightarrow> uuid \<Rightarrow> duration \<Rightarrow> duration \<Rightarrow> (uuid \<Rightarrow> bool) \<Rightarrow> taskdb \<Rightarrow> task_update" where
  "ClaimAgentTask now ag rt lease stale locked db =
     (\<lambda>r. map_option task_id (claim_target now ag rt stale locked db) = Some (task_id r),
      \<lambda>r. r\<lparr>status := Dispatched, dispatched_at := Some now,
            prepare_lease_expires_at := Some (now + lease)\<rparr>)"

definition SetTaskDeliveredCommentIDs ::
  "uuid \<Rightarrow> uuid \<Rightarrow> gtime \<Rightarrow> uuid option \<Rightarrow> uuid list \<Rightarrow> task_update" where
  "SetTaskDeliveredCommentIDs i rt d expected ids =
     (\<lambda>r. task_id r = i \<and> runtime_id r = Some rt \<and> status r = Dispatched \<and> started_at r = None
        \<and> dispatched_at r = Some d \<and> trigger_comment_id r = expected
        \<and> list_all (\<lambda>c. trigger_comment_id r = Some c \<or> c \<in> set (coalesced_comment_ids r)) ids,
      \<lambda>r. r\<lparr>delivered_comment_ids := ids\<rparr>)"

definition RequeueAgentTaskAfterClaimFailure :: "uuid \<Rightarrow> uuid \<Rightarrow> gtime \<Rightarrow> task_update" where
  "RequeueAgentTaskAfterClaimFailure i rt d =
     (\<lambda>r. task_id r = i \<and> runtime_id r = Some rt \<and> status r = Dispatched \<and> started_at r = None
        \<and> dispatched_at r = Some d,
      \<lambda>r. r\<lparr>status := Queued, dispatched_at := None, prepare_lease_expires_at := None,
            delivered_comment_ids := []\<rparr>)"

definition reclaim_candidate ::
  "gtime \<Rightarrow> uuid \<Rightarrow> duration \<Rightarrow> duration \<Rightarrow> taskdb \<Rightarrow> agent_task \<Rightarrow> bool" where
  "reclaim_candidate now rt recovery stale db t \<longleftrightarrow>
     runtime_id t = Some rt \<and> status t = Dispatched \<and> started_at t = None
     \<and> opt_before (dispatched_at t) (now - recovery)
     \<and> (prepare_lease_expires_at t = None \<or> opt_before (prepare_lease_expires_at t) now)
     \<and> claimable_runtime now stale db t"

definition reclaim_key :: "agent_task \<Rightarrow> int \<times> gtime" where
  "reclaim_key t = (- priority t, case dispatched_at t of Some d \<Rightarrow> d | None \<Rightarrow> 0)"

definition ReclaimStaleDispatchedTaskForRuntime ::
  "gtime \<Rightarrow> uuid \<Rightarrow> duration \<Rightarrow> duration \<Rightarrow> duration \<Rightarrow> (uuid \<Rightarrow> bool) \<Rightarrow> taskdb \<Rightarrow> task_update" where
  "ReclaimStaleDispatchedTaskForRuntime now rt lease recovery stale locked db =
     (let target = first_by reclaim_key
            (filter (\<lambda>t. reclaim_candidate now rt recovery stale db t \<and> \<not> locked (task_id t)) (tasks db))
      in (\<lambda>r. map_option task_id target = Some (task_id r),
          \<lambda>r. r\<lparr>dispatched_at := Some now, prepare_lease_expires_at := Some (now + lease)\<rparr>))"

definition ExtendAgentTaskPrepareLease :: "gtime \<Rightarrow> uuid \<Rightarrow> uuid \<Rightarrow> duration \<Rightarrow> task_update" where
  "ExtendAgentTaskPrepareLease now i rt lease =
     (\<lambda>r. task_id r = i \<and> runtime_id r = Some rt \<and> status r \<in> {Dispatched, WaitingLocalDirectory}
        \<and> started_at r = None,
      \<lambda>r. r\<lparr>prepare_lease_expires_at := Some (now + lease)\<rparr>)"

section \<open>Running\<close>

definition StartAgentTask :: "gtime \<Rightarrow> uuid \<Rightarrow> task_update" where
  "StartAgentTask now i =
     (\<lambda>r. task_id r = i \<and> status r \<in> {Dispatched, WaitingLocalDirectory},
      \<lambda>r. r\<lparr>status := Running, started_at := Some now, wait_reason := None,
            prepare_lease_expires_at := None\<rparr>)"

definition MarkAgentTaskWaitingLocalDirectory ::
  "gtime \<Rightarrow> uuid \<Rightarrow> string \<Rightarrow> duration \<Rightarrow> task_update" where
  "MarkAgentTaskWaitingLocalDirectory now i reason lease =
     (\<lambda>r. task_id r = i \<and> status r = Dispatched,
      \<lambda>r. r\<lparr>status := WaitingLocalDirectory, wait_reason := Some reason,
            prepare_lease_expires_at := Some (now + lease)\<rparr>)"

text \<open>What a daemon reports with a result: the columns the terminal statements merge.\<close>

record run_report =
  rr_session_id :: "string option"
  rr_work_dir :: "string option"
  rr_durable_work_dir :: "string option"
  rr_branch_name :: "string option"
  rr_retired_session_id :: "string option"
  rr_session_rollout_missing :: bool

definition CompleteAgentTask :: "gtime \<Rightarrow> uuid \<Rightarrow> string option \<Rightarrow> run_report \<Rightarrow> task_update" where
  "CompleteAgentTask now i payload rep =
     (\<lambda>r. task_id r = i \<and> status r = Running,
      \<lambda>r. r\<lparr>status := Completed, completed_at := Some now, result_payload := payload,
            session_id := (if rr_session_rollout_missing rep then None else rr_session_id rep),
            work_dir := rr_work_dir rep,
            durable_work_dir := coalesce (rr_durable_work_dir rep) (durable_work_dir r),
            branch_name := coalesce (rr_branch_name rep) (branch_name r),
            session_rollout_missing := rr_session_rollout_missing rep,
            retired_session_id := coalesce (rr_retired_session_id rep) (retired_session_id r),
            prepare_lease_expires_at := None\<rparr>)"

definition FailAgentTask ::
  "gtime \<Rightarrow> uuid \<Rightarrow> string option \<Rightarrow> string option \<Rightarrow> run_report \<Rightarrow> task_update" where
  "FailAgentTask now i err reason rep =
     (\<lambda>r. task_id r = i \<and> status r \<in> {Dispatched, Running, WaitingLocalDirectory},
      \<lambda>r. r\<lparr>status := Failed, completed_at := Some now, error_text := err,
            failure_reason := coalesce reason (Some ''agent_error''),
            session_id := (if rr_session_rollout_missing rep then None
                           else coalesce (rr_session_id rep) (session_id r)),
            work_dir := coalesce (rr_work_dir rep) (work_dir r),
            durable_work_dir := coalesce (rr_durable_work_dir rep) (durable_work_dir r),
            branch_name := coalesce (rr_branch_name rep) (branch_name r),
            session_rollout_missing := rr_session_rollout_missing rep,
            retired_session_id := coalesce (rr_retired_session_id rep) (retired_session_id r),
            prepare_lease_expires_at := None\<rparr>)"

definition UpdateAgentTaskSession :: "uuid \<Rightarrow> string option \<Rightarrow> string option \<Rightarrow> task_update" where
  "UpdateAgentTaskSession i sess wd =
     (\<lambda>r. task_id r = i
        \<and> (status r \<in> {Dispatched, Running} \<or> status r = Cancelled \<and> session_id r = None),
      \<lambda>r. r\<lparr>session_id := coalesce sess (session_id r), work_dir := coalesce wd (work_dir r)\<rparr>)"

section \<open>Sweeping\<close>

definition RecoverOrphanedTasksForRuntime :: "gtime \<Rightarrow> uuid \<Rightarrow> uuid list \<Rightarrow> task_update" where
  "RecoverOrphanedTasksForRuntime now rt preserved =
     (\<lambda>r. runtime_id r = Some rt \<and> status r \<in> {Dispatched, Running, WaitingLocalDirectory}
        \<and> task_id r \<notin> set preserved,
      \<lambda>r. r\<lparr>status := Failed, completed_at := Some now,
            error_text := Some ''daemon restarted while task was in flight'',
            failure_reason := Some ''runtime_recovery'', wait_reason := None,
            prepare_lease_expires_at := None\<rparr>)"

definition runtime_rows :: "taskdb \<Rightarrow> agent_task \<Rightarrow> runtime_row list" where
  "runtime_rows db t = filter (\<lambda>r. Some (rt_id r) = runtime_id t) (runtimes db)"

definition FailStaleTasks ::
  "gtime \<Rightarrow> duration \<Rightarrow> duration \<Rightarrow> duration \<Rightarrow> duration \<Rightarrow> taskdb \<Rightarrow> task_update" where
  "FailStaleTasks now dispatch_timeout running_timeout stale grace db =
     (\<lambda>r. status r = Dispatched \<and> opt_before (dispatched_at r) (now - dispatch_timeout)
          \<and> (prepare_lease_expires_at r = None \<or> opt_before (prepare_lease_expires_at r) now)
          \<and> (runtime_id r = None \<or> runtime_rows db r = []
             \<or> list_ex (\<lambda>rt. runtime_healthy now stale rt \<or> runtime_seen rt < now - grace)
                 (runtime_rows db r))
        \<or> status r = Running \<and> opt_before (started_at r) (now - running_timeout)
          \<and> (runtime_id r = None
             \<or> \<not> list_ex (\<lambda>rt. now - grace \<le> runtime_seen rt) (runtime_rows db r)),
      \<lambda>r. r\<lparr>status := Failed, completed_at := Some now, error_text := Some ''task timed out'',
            failure_reason := Some ''timeout'', prepare_lease_expires_at := None\<rparr>)"

definition offline_retry_parent :: "taskdb \<Rightarrow> agent_task \<Rightarrow> bool" where
  "offline_retry_parent db t =
     list_ex (\<lambda>p. Some (task_id p) = parent_task_id t
        \<and> failure_reason p = Some ''runtime_offline'') (tasks db)"

definition expirable_queued :: "gtime \<Rightarrow> duration \<Rightarrow> taskdb \<Rightarrow> agent_task \<Rightarrow> bool" where
  "expirable_queued now grace db t \<longleftrightarrow>
     status t = Queued \<and> \<not> issue_created_pending (context_col t) \<and> created_at t < now - grace
     \<and> (runtime_id t = None \<or> runtime_rows db t = []
        \<or> list_ex (\<lambda>rt. runtime_seen rt < now - grace) (runtime_rows db t))
     \<and> \<not> offline_retry_parent db t"

definition limit_by :: "('a \<Rightarrow> 'k::linorder) \<Rightarrow> nat \<Rightarrow> 'a list \<Rightarrow> 'a list" where
  "limit_by k n xs = take n (sort_key k xs)"

definition ExpireStaleQueuedTasks ::
  "gtime \<Rightarrow> duration \<Rightarrow> nat \<Rightarrow> (uuid \<Rightarrow> bool) \<Rightarrow> taskdb \<Rightarrow> task_update" where
  "ExpireStaleQueuedTasks now grace max_per_tick locked db =
     (let victims = map task_id (limit_by created_at max_per_tick
            (filter (\<lambda>t. expirable_queued now grace db t \<and> \<not> locked (task_id t)) (tasks db)))
      in (\<lambda>r. task_id r \<in> set victims \<and> expirable_queued now grace db r,
          \<lambda>r. r\<lparr>status := Failed, completed_at := Some now,
                error_text := Some ''runtime unavailable while task was queued'',
                failure_reason := Some ''queued_expired'', prepare_lease_expires_at := None\<rparr>))"

definition reconnect_expired :: "gtime \<Rightarrow> duration \<Rightarrow> duration \<Rightarrow> taskdb \<Rightarrow> agent_task \<Rightarrow> bool" where
  "reconnect_expired now grace stale db t \<longleftrightarrow>
     status t = Deferred \<and> opt_before (fire_at t) (now - grace) \<and> offline_retry_parent db t
     \<and> \<not> list_ex (runtime_healthy now stale) (runtime_rows db t)"

definition reconnect_key :: "agent_task \<Rightarrow> gtime \<times> gtime" where
  "reconnect_key t = (case fire_at t of Some f \<Rightarrow> f | None \<Rightarrow> 0, created_at t)"

definition FailExpiredRuntimeReconnectRetries ::
  "gtime \<Rightarrow> duration \<Rightarrow> duration \<Rightarrow> nat \<Rightarrow> (uuid \<Rightarrow> bool) \<Rightarrow> taskdb \<Rightarrow> task_update" where
  "FailExpiredRuntimeReconnectRetries now grace stale max_per_tick locked db =
     (let victims = map task_id (limit_by reconnect_key max_per_tick
            (filter (\<lambda>t. reconnect_expired now grace stale db t \<and> \<not> locked (task_id t)) (tasks db)))
      in (\<lambda>r. task_id r \<in> set victims \<and> reconnect_expired now grace stale db r,
          \<lambda>r. r\<lparr>status := Failed, completed_at := Some now,
                error_text := Some ''runtime did not reconnect within the configured grace period'',
                failure_reason := Some ''runtime_reconnect_timeout'', wait_reason := None,
                prepare_lease_expires_at := None\<rparr>))"

definition offline_victim :: "gtime \<Rightarrow> duration \<Rightarrow> taskdb \<Rightarrow> agent_task \<Rightarrow> bool" where
  "offline_victim now grace db t \<longleftrightarrow>
     status t \<in> {Dispatched, Running, WaitingLocalDirectory}
     \<and> list_ex (\<lambda>rt. rt_status rt = ''offline'' \<and> runtime_seen rt < now - grace) (runtime_rows db t)"

definition offline_key :: "taskdb \<Rightarrow> agent_task \<Rightarrow> gtime \<times> gtime" where
  "offline_key db t =
     (case runtime_rows db t of [] \<Rightarrow> 0 | rt # _ \<Rightarrow> runtime_seen rt, created_at t)"

definition FailTasksForOfflineRuntimes ::
  "gtime \<Rightarrow> duration \<Rightarrow> nat \<Rightarrow> (uuid \<Rightarrow> bool) \<Rightarrow> taskdb \<Rightarrow> task_update" where
  "FailTasksForOfflineRuntimes now grace max_per_tick locked db =
     (let victims = map task_id (limit_by (offline_key db) max_per_tick
            (filter (\<lambda>t. offline_victim now grace db t \<and> \<not> locked (task_id t)) (tasks db)))
      in (\<lambda>r. task_id r \<in> set victims
            \<and> status r \<in> {Dispatched, Running, WaitingLocalDirectory},
          \<lambda>r. r\<lparr>status := Failed, completed_at := Some now,
                error_text := Some ''runtime went offline'',
                failure_reason := Some ''runtime_offline'', wait_reason := None\<rparr>))"

section \<open>Cancelling\<close>

definition cancel_set :: "gtime \<Rightarrow> agent_task \<Rightarrow> agent_task" where
  "cancel_set now r =
     r\<lparr>status := Cancelled, completed_at := Some now, prepare_lease_expires_at := None\<rparr>"

definition CancelAgentTask :: "gtime \<Rightarrow> uuid \<Rightarrow> task_update" where
  "CancelAgentTask now i =
     (\<lambda>r. task_id r = i \<and> status r \<in> {Queued, Dispatched, Running, WaitingLocalDirectory,
            WaitingCapacity, Deferred}, cancel_set now)"

definition CancelAgentTasksByIssue :: "gtime \<Rightarrow> uuid \<Rightarrow> task_update" where
  "CancelAgentTasksByIssue now i =
     (\<lambda>r. issue_id r = Some i \<and> status r \<in> {Queued, Dispatched, Running, WaitingLocalDirectory,
            WaitingCapacity, Deferred}, cancel_set now)"

definition CancelPendingTasksByIssueAndAgent :: "gtime \<Rightarrow> uuid \<Rightarrow> uuid \<Rightarrow> task_update" where
  "CancelPendingTasksByIssueAndAgent now i a =
     (\<lambda>r. issue_id r = Some i \<and> agent_id r = a \<and> status r \<in> {Queued, Dispatched, Deferred},
      cancel_set now)"

definition CancelAgentTasksByAgent :: "gtime \<Rightarrow> uuid \<Rightarrow> task_update" where
  "CancelAgentTasksByAgent now a =
     (\<lambda>r. agent_id r = a \<and> status r \<in> {Queued, Dispatched, Running, WaitingLocalDirectory, Deferred},
      cancel_set now)"

definition CancelAgentTasksByTriggerComment :: "gtime \<Rightarrow> uuid \<Rightarrow> task_update" where
  "CancelAgentTasksByTriggerComment now c =
     (\<lambda>r. (trigger_comment_id r = Some c \<or> c \<in> set (coalesced_comment_ids r))
        \<and> status r \<in> {Queued, Dispatched, Running, WaitingLocalDirectory, Deferred},
      cancel_set now)"

definition CancelAgentTasksByChatSession :: "gtime \<Rightarrow> uuid \<Rightarrow> task_update" where
  "CancelAgentTasksByChatSession now c =
     (\<lambda>r. chat_session_id r = Some c
        \<and> status r \<in> {Queued, Dispatched, Running, WaitingLocalDirectory, Deferred},
      cancel_set now)"

definition CancelAgentTaskWithReason :: "gtime \<Rightarrow> uuid \<Rightarrow> string \<Rightarrow> string \<Rightarrow> task_update" where
  "CancelAgentTaskWithReason now i err reason =
     (\<lambda>r. task_id r = i
        \<and> status r \<in> {Queued, Dispatched, Running, WaitingLocalDirectory, Deferred},
      \<lambda>r. r\<lparr>status := Cancelled, completed_at := Some now, error_text := Some err,
            failure_reason := Some reason, prepare_lease_expires_at := None\<rparr>)"

definition CancelQueuedAgentTask :: "gtime \<Rightarrow> uuid \<Rightarrow> uuid \<Rightarrow> task_update" where
  "CancelQueuedAgentTask now i c =
     (\<lambda>r. task_id r = i \<and> chat_session_id r = Some c \<and> status r = Queued, cancel_set now)"

definition CancelSupersededDeferredRetriesForRuntimes ::
  "gtime \<Rightarrow> uuid list \<Rightarrow> taskdb \<Rightarrow> task_update" where
  "CancelSupersededDeferredRetriesForRuntimes now rts db =
     (\<lambda>r. (case runtime_id r of None \<Rightarrow> False | Some rt \<Rightarrow> rt \<in> set rts)
        \<and> status r = Deferred \<and> issue_id r \<noteq> None \<and> retry_of_task_id r \<noteq> None
        \<and> escalation_for_task_id r = None \<and> \<not> channel_issue_media_pending (context_col r)
        \<and> list_ex (\<lambda>s. issue_id s = issue_id r \<and> agent_id s = agent_id r \<and> task_id s \<noteq> task_id r
             \<and> status s \<in> {Queued, Dispatched, Running, WaitingLocalDirectory}) (tasks db),
      cancel_set now)"

definition CancelAgentTasksByRuntimeOrAgent :: "gtime \<Rightarrow> uuid list \<Rightarrow> uuid list \<Rightarrow> task_update" where
  "CancelAgentTasksByRuntimeOrAgent now rts ags =
     (\<lambda>r. ((case runtime_id r of None \<Rightarrow> False | Some rt \<Rightarrow> rt \<in> set rts)
           \<or> agent_id r \<in> set ags)
        \<and> status r \<in> {Queued, Dispatched, Running, WaitingLocalDirectory, Deferred},
      \<lambda>r. r\<lparr>status := Cancelled, completed_at := Some now\<rparr>)"

definition CancelDeferredEscalationsForTask :: "gtime \<Rightarrow> uuid \<Rightarrow> task_update" where
  "CancelDeferredEscalationsForTask now i =
     (\<lambda>r. escalation_for_task_id r = Some i
        \<and> status r \<in> {Deferred, Queued, Dispatched, WaitingLocalDirectory}, cancel_set now)"

section \<open>Promoting deferred tasks\<close>

definition due_deferred :: "gtime \<Rightarrow> uuid \<Rightarrow> duration \<Rightarrow> taskdb \<Rightarrow> agent_task \<Rightarrow> bool" where
  "due_deferred now rt stale db t \<longleftrightarrow>
     runtime_id t = Some rt \<and> status t = Deferred
     \<and> (case fire_at t of None \<Rightarrow> False | Some f \<Rightarrow> f \<le> now)
     \<and> list_ex (runtime_healthy now stale) (runtime_rows db t)
     \<and> \<not> list_ex (\<lambda>occ. issue_id t \<noteq> None \<and> issue_id occ = issue_id t \<and> agent_id occ = agent_id t
            \<and> task_id occ \<noteq> task_id t \<and> occupies_slot occ) (tasks db)"

text \<open>\<open>rn = 1\<close>: no due row of the same issue and agent comes before it.\<close>

definition first_in_partition :: "agent_task list \<Rightarrow> agent_task \<Rightarrow> bool" where
  "first_in_partition due t =
     (\<not> list_ex (\<lambda>s. issue_id s = issue_id t \<and> agent_id s = agent_id t
          \<and> claim_key s < claim_key t) due)"

definition PromoteDueDeferredTasksForRuntime ::
  "gtime \<Rightarrow> uuid \<Rightarrow> duration \<Rightarrow> taskdb \<Rightarrow> task_update" where
  "PromoteDueDeferredTasksForRuntime now rt stale db =
     (let due = filter (due_deferred now rt stale db) (tasks db);
          ids = map task_id (filter (\<lambda>t. issue_id t = None \<or> first_in_partition due t) due)
      in (\<lambda>r. task_id r \<in> set ids, \<lambda>r. r\<lparr>status := Queued\<rparr>))"

section \<open>Inserting\<close>

record create_params =
  cp_agent_id :: uuid
  cp_runtime_id :: "uuid option"
  cp_issue_id :: "uuid option"
  cp_priority :: int
  cp_trigger_comment_id :: "uuid option"
  cp_coalesced :: "uuid list"
  cp_force_fresh :: bool
  cp_issue_created_pending :: bool
  cp_lineage :: nat

text \<open>The columns every other insert names.\<close>

record insert_params =
  ip_agent_id :: uuid
  ip_runtime_id :: "uuid option"
  ip_priority :: int
  ip_lineage :: nat

datatype create_error = UniqueViolation

definition CreateAgentTask ::
  "gtime \<Rightarrow> uuid \<Rightarrow> create_params \<Rightarrow> bool \<Rightarrow> agent_task list
     \<Rightarrow> (create_error + agent_task option) \<times> agent_task list" where
  "CreateAgentTask now new_id cp owners_alive ts =
     (let c = (blank_task new_id (cp_agent_id cp) now)
            \<lparr>runtime_id := cp_runtime_id cp, issue_id := cp_issue_id cp, status := Queued,
             priority := cp_priority cp, trigger_comment_id := cp_trigger_comment_id cp,
             coalesced_comment_ids := cp_coalesced cp, force_fresh_session := cp_force_fresh cp,
             context_col := blank_context\<lparr>issue_created_pending := cp_issue_created_pending cp\<rparr>,
             lineage := cp_lineage cp\<rparr>
      in if \<not> owners_alive then (Inr None, ts)
         else if list_ex (\<lambda>r. task_id r = new_id) ts \<or> slot_conflict c ts then (Inl UniqueViolation, ts)
         else (Inr (Some c), ts @ [c]))"

section \<open>The statements as one family\<close>

datatype task_stmt =
    SClaim uuid uuid duration duration "uuid \<Rightarrow> bool"
  | SDelivered uuid uuid gtime "uuid option" "uuid list"
  | SRequeue uuid uuid gtime
  | SReclaim uuid duration duration duration "uuid \<Rightarrow> bool"
  | SExtend uuid uuid duration
  | SStart uuid
  | SWaitDirectory uuid string duration
  | SComplete uuid "string option" run_report
  | SFail uuid "string option" "string option" run_report
  | SSession uuid "string option" "string option"
  | SRecoverOrphans uuid "uuid list"
  | SFailStale duration duration duration duration
  | SExpireQueued duration nat "uuid \<Rightarrow> bool"
  | SReconnectExpired duration duration nat "uuid \<Rightarrow> bool"
  | SCancel uuid
  | SCancelIssue uuid
  | SCancelPending uuid uuid
  | SCancelAgent uuid
  | SCancelTrigger uuid
  | SCancelChat uuid
  | SCancelReason uuid string string
  | SCancelQueued uuid uuid
  | SCancelSuperseded "uuid list"
  | SFailOffline duration nat "uuid \<Rightarrow> bool"
  | SCancelFleet "uuid list" "uuid list"
  | SCancelEscalations uuid
  | SPromote uuid duration

fun update_of :: "gtime \<Rightarrow> taskdb \<Rightarrow> task_stmt \<Rightarrow> task_update" where
  "update_of now db (SClaim a rt lease stale locked) = ClaimAgentTask now a rt lease stale locked db"
| "update_of now db (SDelivered i rt d e ids) = SetTaskDeliveredCommentIDs i rt d e ids"
| "update_of now db (SRequeue i rt d) = RequeueAgentTaskAfterClaimFailure i rt d"
| "update_of now db (SReclaim rt lease rec stale locked) =
     ReclaimStaleDispatchedTaskForRuntime now rt lease rec stale locked db"
| "update_of now db (SExtend i rt lease) = ExtendAgentTaskPrepareLease now i rt lease"
| "update_of now db (SStart i) = StartAgentTask now i"
| "update_of now db (SWaitDirectory i w lease) = MarkAgentTaskWaitingLocalDirectory now i w lease"
| "update_of now db (SComplete i p rep) = CompleteAgentTask now i p rep"
| "update_of now db (SFail i e r rep) = FailAgentTask now i e r rep"
| "update_of now db (SSession i s w) = UpdateAgentTaskSession i s w"
| "update_of now db (SRecoverOrphans rt keep) = RecoverOrphanedTasksForRuntime now rt keep"
| "update_of now db (SFailStale d r stale grace) = FailStaleTasks now d r stale grace db"
| "update_of now db (SExpireQueued grace n locked) = ExpireStaleQueuedTasks now grace n locked db"
| "update_of now db (SReconnectExpired grace stale n locked) =
     FailExpiredRuntimeReconnectRetries now grace stale n locked db"
| "update_of now db (SCancel i) = CancelAgentTask now i"
| "update_of now db (SCancelIssue i) = CancelAgentTasksByIssue now i"
| "update_of now db (SCancelPending i a) = CancelPendingTasksByIssueAndAgent now i a"
| "update_of now db (SCancelAgent a) = CancelAgentTasksByAgent now a"
| "update_of now db (SCancelTrigger c) = CancelAgentTasksByTriggerComment now c"
| "update_of now db (SCancelChat c) = CancelAgentTasksByChatSession now c"
| "update_of now db (SCancelReason i e r) = CancelAgentTaskWithReason now i e r"
| "update_of now db (SCancelQueued i c) = CancelQueuedAgentTask now i c"
| "update_of now db (SCancelSuperseded rts) = CancelSupersededDeferredRetriesForRuntimes now rts db"
| "update_of now db (SFailOffline grace n locked) = FailTasksForOfflineRuntimes now grace n locked db"
| "update_of now db (SCancelFleet rts ags) = CancelAgentTasksByRuntimeOrAgent now rts ags"
| "update_of now db (SCancelEscalations i) = CancelDeferredEscalationsForTask now i"
| "update_of now db (SPromote rt stale) = PromoteDueDeferredTasksForRuntime now rt stale db"

lemmas update_defs =
  ClaimAgentTask_def SetTaskDeliveredCommentIDs_def RequeueAgentTaskAfterClaimFailure_def
  ReclaimStaleDispatchedTaskForRuntime_def ExtendAgentTaskPrepareLease_def StartAgentTask_def
  MarkAgentTaskWaitingLocalDirectory_def CompleteAgentTask_def FailAgentTask_def
  UpdateAgentTaskSession_def RecoverOrphanedTasksForRuntime_def FailStaleTasks_def
  ExpireStaleQueuedTasks_def FailExpiredRuntimeReconnectRetries_def CancelAgentTask_def
  CancelAgentTasksByIssue_def CancelPendingTasksByIssueAndAgent_def CancelAgentTasksByAgent_def
  CancelAgentTasksByTriggerComment_def CancelAgentTasksByChatSession_def
  CancelAgentTaskWithReason_def CancelQueuedAgentTask_def
  CancelSupersededDeferredRetriesForRuntimes_def PromoteDueDeferredTasksForRuntime_def
  FailTasksForOfflineRuntimes_def CancelAgentTasksByRuntimeOrAgent_def
  CancelDeferredEscalationsForTask_def cancel_set_def

section \<open>Order\<close>

lemma first_by_None: "first_by k xs = None \<longleftrightarrow> xs = []"
  by (cases xs) (auto split: option.splits if_splits)

lemma first_by_Some:
  "first_by k xs = Some x \<Longrightarrow> x \<in> set xs \<and> (\<forall>y \<in> set xs. k x \<le> k y)"
proof (induction xs arbitrary: x)
  case (Cons a xs)
  show ?case
  proof (cases "first_by k xs")
    case None
    with Cons.prems show ?thesis by (simp add: first_by_None)
  next
    case (Some y)
    note IH = Cons.IH[OF Some]
    show ?thesis
    proof (cases "k y < k a")
      case True
      with Cons.prems Some IH show ?thesis by auto
    next
      case False
      with IH have "\<forall>z \<in> set xs. k a \<le> k z" by (meson linorder_not_less order_trans)
      with Cons.prems Some False show ?thesis by simp
    qed
  qed
qed simp

section \<open>What every statement keeps\<close>

lemma update_rid: "task_id (snd (update_of now db s) r) = task_id r"
  by (cases s) (simp_all add: update_defs Let_def)

lemma update_issue: "issue_id (snd (update_of now db s) r) = issue_id r"
  by (cases s) (simp_all add: update_defs Let_def)

lemma update_agent: "agent_id (snd (update_of now db s) r) = agent_id r"
  by (cases s) (simp_all add: update_defs Let_def)

lemma update_chat: "chat_session_id (snd (update_of now db s) r) = chat_session_id r"
  by (cases s) (simp_all add: update_defs Let_def)

lemma update_context: "context_col (snd (update_of now db s) r) = context_col r"
  by (cases s) (simp_all add: update_defs Let_def)

lemma update_attempt: "attempt (snd (update_of now db s) r) = attempt r"
  by (cases s) (simp_all add: update_defs Let_def)

lemma update_max: "max_attempts (snd (update_of now db s) r) = max_attempts r"
  by (cases s) (simp_all add: update_defs Let_def)

lemma update_created: "created_at (snd (update_of now db s) r) = created_at r"
  by (cases s) (simp_all add: update_defs Let_def)

lemma update_runtime: "runtime_id (snd (update_of now db s) r) = runtime_id r"
  by (cases s) (simp_all add: update_defs Let_def)

lemma update_lane: "execution_lane_key (snd (update_of now db s) r) = execution_lane_key r"
  unfolding execution_lane_key_def update_issue update_agent update_chat update_context ..

end
