(* ===== verification/TaskInsert.thy ===== *)
theory TaskInsert
  imports TaskQueue
begin

text \<open>
  The statements that insert a task for something else than an assigned issue: a chat turn, an automation
  run, a quick create and its manual retry, a deferred escalation, an issue of a channel whose media are
  still loading (\<^verbatim>\<open>server/pkg/db/generated/chat.sql.go\<close>, \<^verbatim>\<open>automation.sql.go\<close>, \<^verbatim>\<open>agent.sql.go\<close>).
  \<open>task_insert\<close> enumerates them. As for \<open>CreateAgentTask\<close>, a statement writes no row once the
  owners' workspace is gone, and a violated unique index is an error. The insert for agent
  coordination and the one that continues an agent thread read columns the model leaves out.
\<close>

definition new_row :: "gtime \<Rightarrow> uuid \<Rightarrow> insert_params \<Rightarrow> agent_task" where
  "new_row now i ip =
     (blank_task i (ip_agent_id ip) now)
       \<lparr>runtime_id := ip_runtime_id ip, priority := ip_priority ip, lineage := ip_lineage ip\<rparr>"

definition insert_row ::
  "agent_task \<Rightarrow> bool \<Rightarrow> agent_task list \<Rightarrow> (create_error + agent_task option) \<times> agent_task list" where
  "insert_row c owners_alive ts =
     (if \<not> owners_alive then (Inr None, ts)
      else if list_ex (\<lambda>r. task_id r = task_id c) ts \<or> slot_conflict c ts then (Inl UniqueViolation, ts)
      else (Inr (Some c), ts @ [c]))"

definition CreateChatTask ::
  "gtime \<Rightarrow> uuid \<Rightarrow> insert_params \<Rightarrow> uuid option \<Rightarrow> bool \<Rightarrow> gtime option \<Rightarrow> agent_task" where
  "CreateChatTask now i ip chat force_fresh fire =
     (new_row now i ip)
       \<lparr>status := (if fire = None then Queued else Deferred), chat_session_id := chat,
        force_fresh_session := force_fresh, fire_at := fire\<rparr>"

definition CreateAutomationTask :: "gtime \<Rightarrow> uuid \<Rightarrow> insert_params \<Rightarrow> uuid option \<Rightarrow> agent_task" where
  "CreateAutomationTask now i ip run = (new_row now i ip)\<lparr>status := Queued, automation_run_id := run\<rparr>"

definition CreateQuickCreateTask :: "gtime \<Rightarrow> uuid \<Rightarrow> insert_params \<Rightarrow> task_context \<Rightarrow> agent_task" where
  "CreateQuickCreateTask now i ip ctx = (new_row now i ip)\<lparr>status := Queued, context_col := ctx\<rparr>"

definition CreateDeferredAgentTask ::
  "gtime \<Rightarrow> uuid \<Rightarrow> insert_params \<Rightarrow> uuid option \<Rightarrow> uuid option \<Rightarrow> uuid option \<Rightarrow> gtime option \<Rightarrow> agent_task" where
  "CreateDeferredAgentTask now i ip issue trigger escalation fire =
     (new_row now i ip)
       \<lparr>issue_id := issue, status := Deferred, trigger_comment_id := trigger,
        escalation_for_task_id := escalation, fire_at := fire\<rparr>"

definition CreateDeferredChannelIssueTask ::
  "gtime \<Rightarrow> uuid \<Rightarrow> insert_params \<Rightarrow> uuid option \<Rightarrow> uuid option \<Rightarrow> uuid list \<Rightarrow> bool \<Rightarrow> gtime option \<Rightarrow> agent_task" where
  "CreateDeferredChannelIssueTask now i ip issue trigger coalesced force_fresh fire =
     (new_row now i ip)
       \<lparr>issue_id := issue, status := Deferred, trigger_comment_id := trigger,
        coalesced_comment_ids := coalesced, force_fresh_session := force_fresh,
        context_col := blank_context\<lparr>channel_issue_media_pending := True\<rparr>, fire_at := fire\<rparr>"

text \<open>The parent of a manual retry, and the row the statement selects from it.\<close>

definition manual_parent :: "agent_task \<Rightarrow> bool" where
  "manual_parent p \<longleftrightarrow>
     status p = Failed \<and> issue_id p = None \<and> chat_session_id p = None \<and> automation_run_id p = None"

definition CreateManualQuickCreateRetryTask :: "gtime \<Rightarrow> uuid \<Rightarrow> nat \<Rightarrow> agent_task \<Rightarrow> agent_task" where
  "CreateManualQuickCreateRetryTask now i lin p =
     (blank_task i (agent_id p) now)
       \<lparr>runtime_id := runtime_id p, status := Queued, priority := priority p, context_col := context_col p,
        force_fresh_session := True, lineage := lin\<rparr>"

datatype task_insert =
    InsertChat insert_params "uuid option" bool "gtime option"
  | InsertAutomation insert_params "uuid option"
  | InsertQuickCreate insert_params task_context
  | InsertDeferred insert_params "uuid option" "uuid option" "uuid option" "gtime option"
  | InsertChannelIssue insert_params "uuid option" "uuid option" "uuid list" bool "gtime option"
  | InsertManualRetry uuid nat

text \<open>The row a statement inserts; none when its parent does not qualify.\<close>

fun inserted_row :: "gtime \<Rightarrow> uuid \<Rightarrow> task_insert \<Rightarrow> agent_task list \<Rightarrow> agent_task option" where
  "inserted_row now i (InsertChat ip chat force_fresh fire) ts = Some (CreateChatTask now i ip chat force_fresh fire)"
| "inserted_row now i (InsertAutomation ip run) ts = Some (CreateAutomationTask now i ip run)"
| "inserted_row now i (InsertQuickCreate ip ctx) ts = Some (CreateQuickCreateTask now i ip ctx)"
| "inserted_row now i (InsertDeferred ip issue trigger escalation fire) ts =
     Some (CreateDeferredAgentTask now i ip issue trigger escalation fire)"
| "inserted_row now i (InsertChannelIssue ip issue trigger coalesced force_fresh fire) ts =
     Some (CreateDeferredChannelIssueTask now i ip issue trigger coalesced force_fresh fire)"
| "inserted_row now i (InsertManualRetry parent lin) ts =
     (case find (\<lambda>r. task_id r = parent \<and> manual_parent r) ts of
        None \<Rightarrow> None
      | Some p \<Rightarrow> Some (CreateManualQuickCreateRetryTask now i lin p))"

definition run_insert ::
  "gtime \<Rightarrow> uuid \<Rightarrow> task_insert \<Rightarrow> bool \<Rightarrow> agent_task list
     \<Rightarrow> (create_error + agent_task option) \<times> agent_task list" where
  "run_insert now i ins owners_alive ts =
     (case inserted_row now i ins ts of
        None \<Rightarrow> (Inr None, ts)
      | Some c \<Rightarrow> insert_row c owners_alive ts)"

lemmas insert_defs = CreateChatTask_def CreateAutomationTask_def CreateQuickCreateTask_def
  CreateDeferredAgentTask_def CreateDeferredChannelIssueTask_def CreateManualQuickCreateRetryTask_def new_row_def

text \<open>Every insert writes a fresh row: pending, in its first attempt, never dispatched.\<close>

lemma inserted_row_fresh:
  assumes "inserted_row now i ins ts = Some c"
  shows "task_id c = i \<and> status c \<in> {Queued, Deferred} \<and> attempt c = 1 \<and> max_attempts c = 2
    \<and> dispatched_at c = None \<and> started_at c = None \<and> completed_at c = None \<and> session_id c = None"
  using assms by (cases ins) (auto simp: insert_defs blank_task_def split: option.splits if_splits)

lemma run_insert_shape: "snd (run_insert now i ins alive ts) = ts \<or> (\<exists>c. snd (run_insert now i ins alive ts) = ts @ [c])"
  by (auto simp: run_insert_def insert_row_def split: option.split)

end
