(* ===== verification/TaskQueueLife.thy ===== *)
theory TaskQueueLife
  imports TaskInsert
begin

text \<open>
  The life of the task table: \<open>queue_exec\<close> is one transaction of the server (an UPDATE of
  \<open>TaskQueue\<close>, an insert, the sweeper's retry, or a change of the agent and runtime tables) and
  \<open>queue_run\<close> a history of them from any table. The abstract machine is \<open>legal_move\<close>, the
  edges a row's status may take; \<open>row_ok\<close> is what the timestamps of a row say in each status.
  A constraint the database would raise is a step that changes nothing, and so is a statement the
  admission trigger refuses: an UPDATE of the status, or an insert, that writes an active row of an
  issue whose dependency gate is closed aborts as a whole. The sweeper retries the
  row it read when it failed the task; a failed row is settled (\<open>settled_stay\<close>), so the row in the
  table is that row.
\<close>

section \<open>Histories\<close>

datatype queue_event =
    QUpdate gtime task_stmt
  | QCreate gtime uuid create_params bool
  | QInsert gtime uuid task_insert bool
  | QRetry retry_env uuid
  | QFleet "agent_row list" "runtime_row list"
  | QGates "uuid \<Rightarrow> bool"

text \<open>The statements whose SET names the status column, on which the admission trigger fires.\<close>

fun sets_status :: "task_stmt \<Rightarrow> bool" where
  "sets_status (SDelivered _ _ _ _ _) = False"
| "sets_status (SReclaim _ _ _ _ _) = False"
| "sets_status (SExtend _ _ _) = False"
| "sets_status (SSession _ _ _) = False"
| "sets_status _ = True"

definition gate_blocks :: "gtime \<Rightarrow> task_stmt \<Rightarrow> taskdb \<Rightarrow> bool" where
  "gate_blocks now s db \<longleftrightarrow>
     sets_status s \<and> list_ex (gate_rejects (closed_gates db)) (returning (update_of now db s) db)"

text \<open>An insert of rows at the end of the table, under the trigger.\<close>

definition admit_rows :: "agent_task list \<Rightarrow> taskdb \<Rightarrow> taskdb" where
  "admit_rows ts db =
     (if list_ex (gate_rejects (closed_gates db)) (drop (length (tasks db)) ts) then db
      else db\<lparr>tasks := ts\<rparr>)"

fun queue_exec :: "queue_event \<Rightarrow> taskdb \<Rightarrow> taskdb" where
  "queue_exec (QUpdate now s) db =
     (if gate_blocks now s db then db else exec_update (update_of now db s) db)"
| "queue_exec (QCreate now i cp alive) db =
     admit_rows (snd (CreateAgentTask now i cp alive (tasks db))) db"
| "queue_exec (QInsert now i ins alive) db =
     admit_rows (snd (run_insert now i ins alive (tasks db))) db"
| "queue_exec (QRetry env parent) db =
     (case find (\<lambda>r. task_id r = parent) (tasks db) of
        None \<Rightarrow> db
      | Some p \<Rightarrow>
          if list_ex (\<lambda>r. task_id r = re_new_id env) (tasks db) then db
          else admit_rows (snd (MaybeRetryFailedTask env p (tasks db))) db)"
| "queue_exec (QFleet ags rts) db = db\<lparr>agents := ags, runtimes := rts\<rparr>"
| "queue_exec (QGates closed) db = db\<lparr>closed_gates := closed\<rparr>"

definition queue_run :: "queue_event list \<Rightarrow> taskdb \<Rightarrow> taskdb" where
  "queue_run es db = fold queue_exec es db"

definition empty_db :: taskdb where
  "empty_db = \<lparr>tasks = [], agents = [], runtimes = [], closed_gates = (\<lambda>_. False)\<rparr>"

lemma queue_run_simps [simp]:
  "queue_run [] db = db" "queue_run (e # es) db = queue_run es (queue_exec e db)"
  by (simp_all add: queue_run_def)

lemma queue_run_append: "queue_run (es @ fs) db = queue_run fs (queue_run es db)"
  by (simp add: queue_run_def)

section \<open>The abstract machine\<close>

fun legal_move :: "task_status \<Rightarrow> task_status \<Rightarrow> bool" where
  "legal_move Queued t = (t \<in> {Queued, Dispatched, Failed, Cancelled})"
| "legal_move Deferred t = (t \<in> {Deferred, Queued, Failed, Cancelled})"
| "legal_move Dispatched t =
     (t \<in> {Dispatched, Queued, WaitingLocalDirectory, Running, Failed, Cancelled})"
| "legal_move WaitingLocalDirectory t = (t \<in> {WaitingLocalDirectory, Running, Failed, Cancelled})"
| "legal_move Running t = (t \<in> {Running, Completed, Failed, Cancelled})"
| "legal_move WaitingCapacity t = (t \<in> {WaitingCapacity, Cancelled})"
| "legal_move Completed t = (t = Completed)"
| "legal_move Failed t = (t = Failed)"
| "legal_move Cancelled t = (t = Cancelled)"

definition row_ok :: "agent_task \<Rightarrow> bool" where
  "row_ok r \<longleftrightarrow>
     (status r \<in> {Queued, Deferred} \<longrightarrow> dispatched_at r = None \<and> started_at r = None)
     \<and> (status r \<in> {Dispatched, WaitingLocalDirectory} \<longrightarrow>
          dispatched_at r \<noteq> None \<and> started_at r = None \<and> prepare_lease_expires_at r \<noteq> None)
     \<and> (status r \<in> {Running, Completed} \<longrightarrow>
          dispatched_at r \<noteq> None \<and> started_at r \<noteq> None \<and> prepare_lease_expires_at r = None)
     \<and> (task_terminal r \<longleftrightarrow> completed_at r \<noteq> None)
     \<and> (status r = Failed \<longrightarrow> failure_reason r \<noteq> None)
     \<and> status r \<noteq> WaitingCapacity"

section \<open>Which rows a statement that selects by id can hit\<close>

definition ids_ok :: "agent_task list \<Rightarrow> bool" where
  "ids_ok ts \<longleftrightarrow> distinct (map task_id ts)"

lemma ids_okD: "ids_ok ts \<Longrightarrow> r \<in> set ts \<Longrightarrow> s \<in> set ts \<Longrightarrow> task_id r = task_id s \<Longrightarrow> r = s"
  unfolding ids_ok_def by (rule distinct_key_eq)

lemma claim_hit:
  assumes "ids_ok (tasks db)" and "r \<in> set (tasks db)"
    and "fst (ClaimAgentTask now ag rt lease stale locked db) r"
  shows "claim_candidate now ag rt stale db r \<and> \<not> locked (task_id r)
    \<and> claim_target now ag rt stale locked db = Some r"
proof -
  obtain t where t: "claim_target now ag rt stale locked db = Some t" "task_id t = task_id r"
    using assms(3) by (auto simp: ClaimAgentTask_def)
  from t(1) have "t \<in> set (tasks db) \<and> claim_candidate now ag rt stale db t \<and> \<not> locked (task_id t)"
    unfolding claim_target_def by (auto dest!: first_by_Some)
  with assms(1,2) t have "t = r" "claim_candidate now ag rt stale db t \<and> \<not> locked (task_id t)"
    using ids_okD by blast+
  with t(1) show ?thesis by simp
qed

lemma reclaim_hit:
  assumes "ids_ok (tasks db)" and "r \<in> set (tasks db)"
    and "fst (ReclaimStaleDispatchedTaskForRuntime now rt lease rec stale locked db) r"
  shows "reclaim_candidate now rt rec stale db r \<and> \<not> locked (task_id r)"
proof -
  obtain t where t: "first_by reclaim_key (filter (\<lambda>t. reclaim_candidate now rt rec stale db t
        \<and> \<not> locked (task_id t)) (tasks db)) = Some t" "task_id t = task_id r"
    using assms(3) by (auto simp: ReclaimStaleDispatchedTaskForRuntime_def Let_def)
  from first_by_Some[OF t(1)]
  have "t \<in> set (tasks db)" "reclaim_candidate now rt rec stale db t \<and> \<not> locked (task_id t)"
    by auto
  with assms(1,2) t(2) show ?thesis using ids_okD by metis
qed

lemma promote_hit:
  assumes "ids_ok (tasks db)" and "r \<in> set (tasks db)"
    and "fst (PromoteDueDeferredTasksForRuntime now rt stale db) r"
  shows "due_deferred now rt stale db r
    \<and> (issue_id r = None \<or> first_in_partition (filter (due_deferred now rt stale db) (tasks db)) r)"
proof -
  obtain t where "t \<in> set (tasks db)" "task_id t = task_id r" "due_deferred now rt stale db t"
    "issue_id t = None \<or> first_in_partition (filter (due_deferred now rt stale db) (tasks db)) t"
    using assms(3)
    by (auto simp: PromoteDueDeferredTasksForRuntime_def Let_def)
  with assms(1,2) show ?thesis using ids_okD by metis
qed

lemmas hit_status = claim_candidate_def reclaim_candidate_def due_deferred_def

lemma hit_Queued:
  "ids_ok (tasks db) \<Longrightarrow> r \<in> set (tasks db)
     \<Longrightarrow> fst (ClaimAgentTask now ag rt lease stale locked db) r \<Longrightarrow> status r = Queued"
  using claim_hit unfolding claim_candidate_def by blast

lemma hit_Dispatched:
  "ids_ok (tasks db) \<Longrightarrow> r \<in> set (tasks db)
     \<Longrightarrow> fst (ReclaimStaleDispatchedTaskForRuntime now rt lease rec stale locked db) r
     \<Longrightarrow> status r = Dispatched \<and> started_at r = None"
  using reclaim_hit unfolding reclaim_candidate_def by blast

lemma hit_Deferred:
  "ids_ok (tasks db) \<Longrightarrow> r \<in> set (tasks db)
     \<Longrightarrow> fst (PromoteDueDeferredTasksForRuntime now rt stale db) r \<Longrightarrow> status r = Deferred"
  using promote_hit unfolding due_deferred_def by blast


lemmas hit_stmt = hit_Queued hit_Dispatched hit_Deferred

section \<open>Every statement moves a row along the machine\<close>

lemma update_moves:
  assumes "ids_ok (tasks db)" and "r \<in> set (tasks db)" and "fst (update_of now db s) r"
  shows "legal_move (status r) (status (snd (update_of now db s) r))"
proof (cases s)
  case (SClaim ag rt lease stale locked)
  with assms hit_Queued have "status r = Queued" by simp
  with SClaim show ?thesis by (simp add: ClaimAgentTask_def)
next
  case (SReclaim rt lease rec stale locked)
  with assms hit_Dispatched have "status r = Dispatched" by simp
  with SReclaim show ?thesis by (simp add: ReclaimStaleDispatchedTaskForRuntime_def Let_def)
next
  case (SPromote rt stale)
  with assms hit_Deferred have "status r = Deferred" by simp
  with SPromote show ?thesis by (simp add: PromoteDueDeferredTasksForRuntime_def Let_def)
qed (use assms(3) in \<open>auto simp: update_defs Let_def expirable_queued_def reconnect_expired_def\<close>)

lemma update_row_ok:
  assumes "ids_ok (tasks db)" and "r \<in> set (tasks db)" and "fst (update_of now db s) r" and "row_ok r"
  shows "row_ok (snd (update_of now db s) r)"
proof (cases s)
  case (SClaim ag rt lease stale locked)
  with assms hit_Queued have "status r = Queued" by simp
  with SClaim assms(4) show ?thesis by (simp add: ClaimAgentTask_def row_ok_def task_terminal_def)
next
  case (SReclaim rt lease rec stale locked)
  with assms hit_Dispatched have "status r = Dispatched" by simp
  with SReclaim assms(4) show ?thesis
    by (simp add: ReclaimStaleDispatchedTaskForRuntime_def Let_def row_ok_def task_terminal_def)
next
  case (SPromote rt stale)
  with assms hit_Deferred have "status r = Deferred" by simp
  with SPromote assms(4) show ?thesis
    by (simp add: PromoteDueDeferredTasksForRuntime_def Let_def row_ok_def task_terminal_def)
next
  case (SFail i err reason rep)
  with assms(3,4) show ?thesis
    by (auto simp: FailAgentTask_def row_ok_def task_terminal_def coalesce_def split: option.splits)
qed (use assms(3,4) in \<open>auto simp: update_defs Let_def row_ok_def task_terminal_def
       expirable_queued_def reconnect_expired_def\<close>)

lemma update_slot_shrink:
  assumes "ids_ok (tasks db)" and "r \<in> set (tasks db)" and "fst (update_of now db s) r"
    and "\<And>rt stale. s \<noteq> SPromote rt stale"
  shows "pending_slot (snd (update_of now db s) r) = None
    \<or> pending_slot (snd (update_of now db s) r) = pending_slot r"
proof -
  have "occupies_slot (snd (update_of now db s) r) \<longrightarrow> occupies_slot r"
  proof (cases s)
    case (SClaim ag rt lease stale locked)
    with assms hit_Queued show ?thesis by (simp add: occupies_slot_def)
  next
    case (SReclaim rt lease rec stale locked)
    with assms hit_Dispatched show ?thesis by (simp add: occupies_slot_def)
  next
    case (SPromote rt stale)
    with assms(4) show ?thesis by blast
  qed (use assms(3) in \<open>auto simp: update_defs Let_def occupies_slot_def\<close>)
  then show ?thesis
    by (auto simp: pending_slot_def update_issue update_agent split: option.splits)
qed

lemma update_lane_shrink:
  assumes "ids_ok (tasks db)" and "r \<in> set (tasks db)" and "fst (update_of now db s) r"
    and "\<And>ag rt lease stale locked. s \<noteq> SClaim ag rt lease stale locked"
  shows "active_lane (snd (update_of now db s) r) = None
    \<or> active_lane (snd (update_of now db s) r) = active_lane r"
proof -
  have "status (snd (update_of now db s) r) \<in> {Dispatched, Running, WaitingLocalDirectory}
      \<longrightarrow> status r \<in> {Dispatched, Running, WaitingLocalDirectory}"
  proof (cases s)
    case (SClaim ag rt lease stale locked)
    with assms(4) show ?thesis by blast
  next
    case (SReclaim rt lease rec stale locked)
    with assms hit_Dispatched show ?thesis by simp
  next
    case (SPromote rt stale)
    then show ?thesis by (simp add: PromoteDueDeferredTasksForRuntime_def Let_def)
  qed (use assms(3) in \<open>auto simp: update_defs Let_def\<close>)
  then show ?thesis
    by (simp add: active_lane_def update_lane)
qed


section \<open>The unique indexes\<close>

lemma ids_ok_update: "ids_ok (tasks db) \<Longrightarrow> ids_ok (tasks (exec_update (update_of now db s) db))"
  by (simp add: ids_ok_def exec_update_def map_update_where update_rid)

lemma promote_slot_ok:
  assumes "ids_ok (tasks db)" and "slot_ok (tasks db)"
  shows "slot_ok (tasks (exec_update (PromoteDueDeferredTasksForRuntime now rt stale db) db))"
proof -
  let ?u = "PromoteDueDeferredTasksForRuntime now rt stale db"
  let ?due = "filter (due_deferred now rt stale db) (tasks db)"
  have set: "snd ?u r = r\<lparr>status := Queued\<rparr>" for r
    by (simp add: PromoteDueDeferredTasksForRuntime_def Let_def)
  have slot: "pending_slot (snd ?u r) = Some (i, a) \<longleftrightarrow> issue_id r = Some i \<and> agent_id r = a" for r i a
    by (simp add: set pending_slot_Some occupies_slot_def)
  have "unique_index task_id pending_slot (update_where (fst ?u) (snd ?u) (tasks db))"
  proof (rule unique_index_update_grow[OF assms(2)[unfolded slot_ok_def]])
    show "task_id (snd ?u r) = task_id r" for r
      by (simp add: set)
  next
    fix r s
    assume rs: "r \<in> set (tasks db)" "s \<in> set (tasks db)" "fst ?u r" "\<not> fst ?u s"
      and k: "pending_slot (snd ?u r) \<noteq> None" "pending_slot (snd ?u r) = pending_slot s"
    obtain i a where "pending_slot s = Some (i, a)" using k by (metis option.exhaust surj_pair)
    with k slot have "issue_id r = Some i" "agent_id r = a" "issue_id s = Some i" "agent_id s = a"
      "occupies_slot s" by (simp_all add: pending_slot_Some)
    moreover have "\<not> list_ex (\<lambda>occ. issue_id r \<noteq> None \<and> issue_id occ = issue_id r
        \<and> agent_id occ = agent_id r \<and> task_id occ \<noteq> task_id r \<and> occupies_slot occ) (tasks db)"
      using promote_hit[OF assms(1) rs(1,3)] unfolding due_deferred_def by blast
    ultimately show "task_id r = task_id s"
      using rs(2) by (auto simp: list_ex_iff)
  next
    fix r s
    assume rs: "r \<in> set (tasks db)" "s \<in> set (tasks db)" "fst ?u r" "fst ?u s"
      and k: "pending_slot (snd ?u r) \<noteq> None" "pending_slot (snd ?u r) = pending_slot (snd ?u s)"
    obtain i a where "pending_slot (snd ?u s) = Some (i, a)" using k by (metis option.exhaust surj_pair)
    with k slot have eq: "issue_id r = Some i" "agent_id r = agent_id s" "issue_id s = Some i" by metis+
    have "r \<in> set ?due" "s \<in> set ?due" "first_in_partition ?due r" "first_in_partition ?due s"
      using promote_hit[OF assms(1) rs(1,3)] promote_hit[OF assms(1) rs(2,4)] rs eq by auto
    with eq have "\<not> claim_key s < claim_key r" "\<not> claim_key r < claim_key s"
      unfolding first_in_partition_def list_ex_iff by simp_all
    then have "claim_key r = claim_key s" by (meson linorder_neqE)
    then show "task_id r = task_id s" by (simp add: claim_key_def)
  qed
  then show ?thesis by (simp add: slot_ok_def exec_update_def)
qed

lemma update_slot_ok:
  assumes "ids_ok (tasks db)" and "slot_ok (tasks db)"
  shows "slot_ok (tasks (exec_update (update_of now db s) db))"
proof (cases "\<exists>rt stale. s = SPromote rt stale")
  case True
  with promote_slot_ok[OF assms] show ?thesis by auto
next
  case False
  have "unique_index task_id pending_slot
      (update_where (fst (update_of now db s)) (snd (update_of now db s)) (tasks db))"
  proof (rule unique_index_update_shrink[OF assms(2)[unfolded slot_ok_def]])
    fix r assume "r \<in> set (tasks db)" "fst (update_of now db s) r"
    then show "pending_slot (snd (update_of now db s) r) = None
        \<or> pending_slot (snd (update_of now db s) r) = pending_slot r"
      by (rule update_slot_shrink[OF assms(1)]) (use False in blast)
  qed (rule update_rid)
  then show ?thesis by (simp add: slot_ok_def exec_update_def)
qed

lemma claim_lane_ok:
  assumes "ids_ok (tasks db)" and "lane_ok (tasks db)"
  shows "lane_ok (tasks (exec_update (ClaimAgentTask now ag rt lease stale locked db) db))"
proof -
  let ?u = "ClaimAgentTask now ag rt lease stale locked db"
  let ?s = "SClaim ag rt lease stale locked"
  have lane: "active_lane (snd ?u r) = Some (execution_lane_key r)" for r
    using update_lane[of now db ?s r]
    by (simp add: active_lane_def) (simp add: ClaimAgentTask_def)
  have "unique_index task_id active_lane (update_where (fst ?u) (snd ?u) (tasks db))"
  proof (rule unique_index_update_grow[OF assms(2)[unfolded lane_ok_def]])
    show "task_id (snd ?u r) = task_id r" for r
      by (simp add: ClaimAgentTask_def)
  next
    fix r s
    assume rs: "r \<in> set (tasks db)" "s \<in> set (tasks db)" "fst ?u r"
      and k: "active_lane (snd ?u r) = active_lane s"
    have "\<not> lane_busy db r" using claim_hit[OF assms(1) rs(1,3)] by (simp add: claim_candidate_def)
    moreover have "lane_busy db r"
    proof -
      have "active_lane s = Some (execution_lane_key r)" using k lane by simp
      then have "status s \<in> {Dispatched, Running, WaitingLocalDirectory, WaitingCapacity}"
        "execution_lane_key s = execution_lane_key r" by (auto simp: active_lane_Some)
      with rs(2) show ?thesis unfolding lane_busy_def list_ex_iff by blast
    qed
    ultimately show "task_id r = task_id s" by blast
  next
    fix r s
    assume "fst ?u r" "fst ?u s"
    then show "task_id r = task_id s" by (auto simp: ClaimAgentTask_def)
  qed
  then show ?thesis by (simp add: lane_ok_def exec_update_def)
qed

lemma update_lane_ok:
  assumes "ids_ok (tasks db)" and "lane_ok (tasks db)"
  shows "lane_ok (tasks (exec_update (update_of now db s) db))"
proof (cases "\<exists>ag rt lease stale locked. s = SClaim ag rt lease stale locked")
  case True
  with claim_lane_ok[OF assms] show ?thesis by auto
next
  case False
  have "unique_index task_id active_lane
      (update_where (fst (update_of now db s)) (snd (update_of now db s)) (tasks db))"
  proof (rule unique_index_update_shrink[OF assms(2)[unfolded lane_ok_def]])
    fix r assume "r \<in> set (tasks db)" "fst (update_of now db s) r"
    then show "active_lane (snd (update_of now db s) r) = None
        \<or> active_lane (snd (update_of now db s) r) = active_lane r"
      by (rule update_lane_shrink[OF assms(1)]) (use False in blast)
  qed (rule update_rid)
  then show ?thesis by (simp add: lane_ok_def exec_update_def)
qed

end
