(* ===== verification/TaskQueueSafety.thy ===== *)
theory TaskQueueSafety
  imports TaskQueueLife
begin

text \<open>
  What holds of the task table in every history: the invariant \<open>db_ok\<close> (primary key, the two
  partial unique indexes, the timestamps of every row, the retry budget), settled rows, and the
  contracts of \<open>Prelude\<close> discharged on the queue. The properties about claiming and leases
  are in \<open>TaskQueueClaim\<close>.
\<close>

section \<open>The invariant\<close>

definition budget_ok :: "agent_task \<Rightarrow> bool" where
  "budget_ok r \<longleftrightarrow> 1 \<le> attempt r \<and> attempt r \<le> max_attempts r \<and> max_attempts r \<le> 3"

definition rows_ok :: "agent_task list \<Rightarrow> bool" where
  "rows_ok ts \<longleftrightarrow> (\<forall>r \<in> set ts. row_ok r \<and> budget_ok r)"

definition db_ok :: "taskdb \<Rightarrow> bool" where
  "db_ok db \<longleftrightarrow> ids_ok (tasks db) \<and> slot_ok (tasks db) \<and> lane_ok (tasks db) \<and> rows_ok (tasks db)"

lemma update_budget: "budget_ok (snd (update_of now db s) r) = budget_ok r"
  by (simp add: budget_ok_def update_attempt update_max)

lemma update_rows_ok:
  assumes "ids_ok (tasks db)" and "rows_ok (tasks db)"
  shows "rows_ok (tasks (exec_update (update_of now db s) db))"
  using assms update_row_ok[OF assms(1)]
  by (auto simp: rows_ok_def exec_update_def in_update_where update_budget)

lemma db_ok_update: "db_ok db \<Longrightarrow> db_ok (exec_update (update_of now db s) db)"
  by (simp add: db_ok_def ids_ok_update update_slot_ok update_lane_ok update_rows_ok)

lemma ids_ok_append: "ids_ok ts \<Longrightarrow> \<not> list_ex (\<lambda>r. task_id r = task_id c) ts \<Longrightarrow> ids_ok (ts @ [c])"
  by (auto simp: ids_ok_def list_ex_iff)

lemma lane_ok_append: "lane_ok ts \<Longrightarrow> active_lane c = None \<Longrightarrow> lane_ok (ts @ [c])"
  unfolding lane_ok_def by (rule unique_index_append) simp_all

lemma rows_ok_append: "rows_ok ts \<Longrightarrow> row_ok c \<Longrightarrow> budget_ok c \<Longrightarrow> rows_ok (ts @ [c])"
  by (simp add: rows_ok_def)

lemma db_ok_append:
  assumes "db_ok db" and "\<not> list_ex (\<lambda>r. task_id r = task_id c) (tasks db)"
    and "\<not> slot_conflict c (tasks db)" and "active_lane c = None" and "row_ok c" and "budget_ok c"
  shows "db_ok (db\<lparr>tasks := tasks db @ [c]\<rparr>)"
  using assms
  by (simp add: db_ok_def ids_ok_append slot_ok_append lane_ok_append rows_ok_append)

lemma CreateAgentTask_cases:
  obtains "snd (CreateAgentTask now i cp alive ts) = ts"
  | c where "snd (CreateAgentTask now i cp alive ts) = ts @ [c]" "task_id c = i"
      "\<not> list_ex (\<lambda>r. task_id r = i) ts" "\<not> slot_conflict c ts"
      "active_lane c = None" "row_ok c" "budget_ok c"
proof (cases "snd (CreateAgentTask now i cp alive ts) = ts")
  case True
  with that(1) show thesis .
next
  case False
  show thesis
    by (rule that(2)[of "(blank_task i (cp_agent_id cp) now)
            \<lparr>runtime_id := cp_runtime_id cp, issue_id := cp_issue_id cp, status := Queued,
             priority := cp_priority cp, trigger_comment_id := cp_trigger_comment_id cp,
             coalesced_comment_ids := cp_coalesced cp, force_fresh_session := cp_force_fresh cp,
             context_col := blank_context\<lparr>issue_created_pending := cp_issue_created_pending cp\<rparr>,
             lineage := cp_lineage cp\<rparr>"])
      (use False in \<open>auto simp: CreateAgentTask_def Let_def active_lane_def row_ok_def
         task_terminal_def budget_ok_def blank_task_def split: if_splits\<close>)
qed

lemma retry_row_ok: "row_ok (retry_row i now fire m p)" "active_lane (retry_row i now fire m p) = None"
  by (auto simp: row_ok_def active_lane_def task_terminal_def retry_row_def blank_task_def Let_def)

lemma db_ok_tasks: "db_ok db \<Longrightarrow> db_ok (db\<lparr>tasks := tasks db\<rparr>)"
  by simp

lemma db_ok_admit: "db_ok db \<Longrightarrow> db_ok (db\<lparr>tasks := ts\<rparr>) \<Longrightarrow> db_ok (admit_rows ts db)"
  by (simp add: admit_rows_def)

lemma run_insert_cases:
  obtains "snd (run_insert now i ins alive ts) = ts"
  | c where "snd (run_insert now i ins alive ts) = ts @ [c]" "task_id c = i"
      "\<not> list_ex (\<lambda>r. task_id r = i) ts" "\<not> slot_conflict c ts"
      "active_lane c = None" "row_ok c" "budget_ok c"
proof (cases "inserted_row now i ins ts")
  case None
  with that(1) show thesis by (simp add: run_insert_def)
next
  case (Some c)
  note fresh = inserted_row_fresh[OF Some]
  show thesis
  proof (cases "snd (run_insert now i ins alive ts) = ts")
    case False
    with Some fresh that(2)[of c] show thesis
      by (auto simp: run_insert_def insert_row_def active_lane_def row_ok_def task_terminal_def budget_ok_def
          split: if_splits)
  qed (rule that(1))
qed

lemma db_ok_insert: "db_ok db \<Longrightarrow> db_ok (queue_exec (QInsert now i ins alive) db)"
  by (rule run_insert_cases[of now i ins alive "tasks db"]) (simp_all add: db_ok_append db_ok_admit)

lemma db_ok_create: "db_ok db \<Longrightarrow> db_ok (queue_exec (QCreate now i cp alive) db)"
  by (rule CreateAgentTask_cases[of now i cp alive "tasks db"]) (simp_all add: db_ok_append db_ok_admit)

lemma db_ok_retry:
  assumes ok: "db_ok db" and new: "\<not> list_ex (\<lambda>r. task_id r = re_new_id env) (tasks db)"
    and p: "p \<in> set (tasks db)"
  shows "db_ok (db\<lparr>tasks := snd (MaybeRetryFailedTask env p (tasks db))\<rparr>)"
proof (cases "\<exists>c ts'. MaybeRetryFailedTask env p (tasks db) = (Inr (Some c), ts')")
  case True
  then obtain c ts' where m: "MaybeRetryFailedTask env p (tasks db) = (Inr (Some c), ts')" by blast
  obtain reason q where q: "c = retry_row (re_new_id env) (re_now env) (retry_fire env reason p)
           (Some (retryAttemptCeiling reason (max_attempts p))) q" "ts' = tasks db @ [c]"
      "\<not> slot_conflict c (tasks db)"
    using MaybeRetry_child[OF m] by metis
  have ids: "distinct (map task_id (tasks db))" and "budget_ok p"
    using ok p by (simp_all add: db_ok_def ids_ok_def rows_ok_def)
  then have b: "budget_ok c"
    using MaybeRetry_budget(1-4)[OF m p ids] by (simp add: budget_ok_def)
  have "row_ok c" "active_lane c = None" "task_id c = re_new_id env"
    using q(1) retry_row_ok by simp_all
  with m q(2,3) ok new b show ?thesis by (simp add: db_ok_append)
next
  case False
  obtain out ts' where m: "MaybeRetryFailedTask env p (tasks db) = (out, ts')" by fastforce
  with False have "ts' = tasks db" using MaybeRetry_frame[OF m] by blast
  with m ok show ?thesis by simp
qed

lemma db_ok_exec: "db_ok db \<Longrightarrow> db_ok (queue_exec e db)"
proof (cases e)
  case (QRetry env parent)
  assume "db_ok db"
  with QRetry show ?thesis
    by (auto split: option.split dest!: find_Some_in intro!: db_ok_admit intro: db_ok_retry)
qed (simp_all add: db_ok_update db_ok_create db_ok_insert del: queue_exec.simps(2,3), simp_all add: db_ok_def)

lemma db_ok_run: "db_ok db \<Longrightarrow> db_ok (queue_run es db)"
  by (induction es arbitrary: db) (simp_all add: db_ok_exec)

lemma db_ok_empty: "db_ok empty_db"
  by (simp add: db_ok_def empty_db_def ids_ok_def slot_ok_def lane_ok_def rows_ok_def unique_index_def)

lemma db_ok_history: "db_ok (queue_run es empty_db)"
  by (rule db_ok_run[OF db_ok_empty])


section \<open>The table as keyed rows\<close>

interpretation task_keys: keyed_rows task_id "\<lambda>(now, db, s). snd (update_of now db s)"
  by unfold_locales (auto simp: update_rid)

lemma ids_ok_pk: "ids_ok ts \<longleftrightarrow> task_keys.pk_ok ts"
  by (simp add: ids_ok_def task_keys.pk_ok_def)

section \<open>Settled rows\<close>

definition settled :: "agent_task \<Rightarrow> bool" where
  "settled r \<longleftrightarrow> status r \<in> {Completed, Failed} \<or> status r = Cancelled \<and> session_id r \<noteq> None"

lemma update_settled:
  assumes "ids_ok (tasks db)" and "r \<in> set (tasks db)" and "settled r"
  shows "\<not> fst (update_of now db s) r"
proof
  assume hit: "fst (update_of now db s) r"
  from assms(3) have "status r \<in> {Completed, Failed, Cancelled}"
    "status r = Cancelled \<longrightarrow> session_id r \<noteq> None" by (auto simp: settled_def)
  with hit show False
  proof (cases s)
    case (SClaim ag rt lease stale locked)
    with hit hit_Queued assms settled_def show False by auto
  next
    case (SReclaim rt lease rec stale locked)
    with hit hit_Dispatched assms settled_def show False by auto
  next
    case (SPromote rt stale)
    with hit hit_Deferred assms settled_def show False by auto
  qed (auto simp: update_defs Let_def expirable_queued_def reconnect_expired_def)
qed

text \<open>What an event does to one row of a table it runs on.\<close>

fun row_event :: "taskdb \<times> queue_event \<Rightarrow> agent_task \<Rightarrow> agent_task" where
  "row_event (db, QUpdate now s) r =
     (if ids_ok (tasks db) \<and> r \<in> set (tasks db) \<and> fst (update_of now db s) r \<and> \<not> gate_blocks now s db
      then snd (update_of now db s) r else r)"
| "row_event (db, _) r = r"

interpretation task_life: row_lifecycle task_id settled row_event
proof
  fix a r
  show "task_id (row_event a r) = task_id r"
    by (cases "(a, r)" rule: row_event.cases) (simp_all add: update_rid)
  show "row_event a r = r" if "settled r"
    using that update_settled by (cases "(a, r)" rule: row_event.cases) auto
qed

lemma create_keeps: "set ts \<subseteq> set (snd (CreateAgentTask now i cp alive ts))"
  by (rule CreateAgentTask_cases[of now i cp alive ts]) auto

lemma insert_keeps: "set ts \<subseteq> set (snd (run_insert now i ins alive ts))"
  using run_insert_shape[of now i ins alive ts] by auto

lemma retry_keeps: "set ts \<subseteq> set (snd (MaybeRetryFailedTask env p ts))"
proof -
  obtain out ts' where m: "MaybeRetryFailedTask env p ts = (out, ts')" by fastforce
  show ?thesis
  proof (cases "\<exists>c. out = Inr (Some c)")
    case True
    with m have "\<exists>c. ts' = ts @ [c]" by (auto elim: MaybeRetry_child)
    with m show ?thesis by auto
  next
    case False
    with MaybeRetry_frame[OF m] m show ?thesis by auto
  qed
qed

lemma admit_keeps: "set (tasks db) \<subseteq> set ts \<Longrightarrow> set (tasks db) \<subseteq> set (tasks (admit_rows ts db))"
  by (simp add: admit_rows_def)

lemma queue_exec_row:
  assumes "ids_ok (tasks db)" and "r \<in> set (tasks db)"
  shows "row_event (db, e) r \<in> set (tasks (queue_exec e db))"
proof (cases e)
  case (QUpdate now s)
  with assms show ?thesis by (auto simp: exec_update_def in_update_where)
next
  case (QCreate now i cp alive)
  with subsetD[OF admit_keeps[OF create_keeps] assms(2)] show ?thesis by simp
next
  case (QInsert now i ins alive)
  with subsetD[OF admit_keeps[OF insert_keeps] assms(2)] show ?thesis by simp
next
  case (QRetry env parent)
  with subsetD[OF admit_keeps[OF retry_keeps] assms(2)] assms(2) show ?thesis by (simp split: option.split)
qed (use assms in simp_all)

lemma queue_run_row:
  "db_ok db \<Longrightarrow> r \<in> set (tasks db)
     \<Longrightarrow> \<exists>ops. map snd ops = es \<and> task_life.run ops r \<in> set (tasks (queue_run es db))"
proof (induction es arbitrary: db r)
  case (Cons e es)
  have "row_event (db, e) r \<in> set (tasks (queue_exec e db))"
    using Cons.prems queue_exec_row by (simp add: db_ok_def)
  from Cons.IH[OF db_ok_exec[OF Cons.prems(1)] this]
  obtain ops where "map snd ops = es"
    "task_life.run ops (row_event (db, e) r) \<in> set (tasks (queue_run es (queue_exec e db)))" by blast
  then show ?case by (intro exI[of _ "(db, e) # ops"]) simp
qed simp

section \<open>A concrete history\<close>

text \<open>Runtime 5 is online and bound to agent 7; task 1 on issue 4 is created, claimed, started and
  completed.\<close>

definition demo_fleet :: queue_event where
  "demo_fleet = QFleet
     [\<lparr>ag_id = 7, ag_workspace_id = 0, ag_runtime_id = Some 5, ag_owner_id = None, ag_archived_at = None\<rparr>]
     [\<lparr>rt_id = 5, rt_visibility = ''public'', rt_owner_id = None, rt_status = ''online'',
       rt_last_seen_at = Some 90, rt_updated_at = 0\<rparr>]"

definition demo_params :: create_params where
  "demo_params = \<lparr>cp_agent_id = 7, cp_runtime_id = Some 5, cp_issue_id = Some 4, cp_priority = 2,
     cp_trigger_comment_id = None, cp_coalesced = [], cp_force_fresh = False,
     cp_issue_created_pending = False, cp_lineage = 0\<rparr>"

definition demo_report :: run_report where
  "demo_report = \<lparr>rr_session_id = Some ''s'', rr_work_dir = None, rr_durable_work_dir = None,
     rr_branch_name = None, rr_retired_session_id = None, rr_session_rollout_missing = False\<rparr>"

definition demo_claimed :: "queue_event list" where
  "demo_claimed = [demo_fleet, QCreate 10 1 demo_params True,
     QUpdate 100 (SClaim 7 5 50 60 (\<lambda>_. False))]"

definition demo_done :: "queue_event list" where
  "demo_done = demo_claimed @ [QUpdate 110 (SStart 1), QUpdate 120 (SComplete 1 None demo_report)]"

definition first_task :: "queue_event list \<Rightarrow> agent_task" where
  "first_task es = hd (tasks (queue_run es empty_db))"

lemma demo_claimed_row:
  "first_task demo_claimed \<in> set (tasks (queue_run demo_claimed empty_db))"
  "status (first_task demo_claimed) = Dispatched"
  "dispatched_at (first_task demo_claimed) = Some 100"
  "prepare_lease_expires_at (first_task demo_claimed) = Some 150"
  by code_simp+

lemma demo_done_row:
  "first_task demo_done \<in> set (tasks (queue_run demo_done empty_db))"
  "status (first_task demo_done) = Completed" "settled (first_task demo_done)"
  by code_simp+

section \<open>Properties\<close>

text \<open>
  C6: no task is ever lost or doubled in its queue slot or execution lane. Whatever the history of
  statements, inserts, retries and fleet changes, from the empty table: task ids are distinct, an
  issue and agent never have two tasks queued or dispatched, an execution lane never has two tasks
  dispatched, running or waiting for their directory (the unique indexes of migrations 257 and 457
  are never violated by an UPDATE), every row's timestamps agree with its status, and no row
  exceeds its retry budget, which is at most three attempts.
\<close>

theorem slot_and_lane_exclusive:
  "let ts = tasks (queue_run es empty_db) in
     distinct (map task_id ts) \<and> slot_ok ts \<and> lane_ok ts
     \<and> list_all row_ok ts \<and> list_all (\<lambda>r. 1 \<le> attempt r \<and> attempt r \<le> max_attempts r \<and> max_attempts r \<le> 3) ts"
  using db_ok_history[of es]
  by (auto simp: db_ok_def ids_ok_def rows_ok_def budget_ok_def list_all_iff Let_def)





end
