(* ===== verification/TaskQueueClaim.thy ===== *)
theory TaskQueueClaim
  imports TaskQueueSafety
begin

text \<open>
  What claiming, leases and sweeps guarantee: the claim takes the best candidate and nothing else,
  sweeps respect a live prepare lease, a claim generation that was superseded cannot requeue the
  task, promotion makes progress, and the fleet cancellation leaves nothing in flight.
\<close>

section \<open>Claiming\<close>

definition dispatch_row :: "gtime \<Rightarrow> duration \<Rightarrow> agent_task \<Rightarrow> agent_task" where
  "dispatch_row now lease t =
     t\<lparr>status := Dispatched, dispatched_at := Some now,
       prepare_lease_expires_at := Some (now + lease)\<rparr>"

lemma claim_target_None:
  "claim_target now ag rt stale locked db = None
     \<longleftrightarrow> (\<forall>t \<in> set (tasks db). claim_candidate now ag rt stale db t \<longrightarrow> locked (task_id t))"
  by (auto simp: claim_target_def first_by_None filter_empty_conv)

lemma claim_target_Some:
  "claim_target now ag rt stale locked db = Some t \<Longrightarrow>
     t \<in> set (tasks db) \<and> claim_candidate now ag rt stale db t \<and> \<not> locked (task_id t)
     \<and> (\<forall>t' \<in> set (tasks db). claim_candidate now ag rt stale db t' \<longrightarrow> \<not> locked (task_id t')
          \<longrightarrow> claim_key t \<le> claim_key t')"
  unfolding claim_target_def by (drule first_by_Some) auto

lemma filter_one:
  "distinct (map k xs) \<Longrightarrow> x \<in> set xs \<Longrightarrow> filter (\<lambda>y. k x = k y) xs = [x]"
proof (induction xs)
  case (Cons a xs)
  show ?case
  proof (cases "x = a")
    case True
    with Cons.prems(1) have "filter (\<lambda>y. k x = k y) xs = []" by (auto simp: filter_empty_conv)
    with True show ?thesis by simp
  next
    case False
    with Cons.prems(2) have "k x \<in> k ` set xs" by simp
    with Cons.prems(1) have "k x \<noteq> k a" by auto
    with False Cons show ?thesis by simp
  qed
qed simp

lemma claim_rows:
  assumes "ids_ok (tasks db)" and "claim_target now ag rt stale locked db = Some t"
  shows "returning (ClaimAgentTask now ag rt lease stale locked db) db = [dispatch_row now lease t]"
    "tasks (exec_update (ClaimAgentTask now ag rt lease stale locked db) db)
       = map (\<lambda>r. if r = t then dispatch_row now lease t else r) (tasks db)"
    "queue_exec (QUpdate now (SClaim ag rt lease stale locked)) db
       = (if gate_rejects (closed_gates db) (dispatch_row now lease t) then db
          else db\<lparr>tasks := map (\<lambda>r. if r = t then dispatch_row now lease t else r) (tasks db)\<rparr>)"
proof -
  have t: "t \<in> set (tasks db)" using claim_target_Some[OF assms(2)] by blast
  have "filter (\<lambda>y. task_id t = task_id y) (tasks db) = [t]"
    using assms(1) t by (intro filter_one) (simp_all add: ids_ok_def)
  then show ret: "returning (ClaimAgentTask now ag rt lease stale locked db) db = [dispatch_row now lease t]"
    by (simp add: returning_def ClaimAgentTask_def assms(2) dispatch_row_def)
  have "(task_id t = task_id r) = (r = t)" if "r \<in> set (tasks db)" for r
    using ids_okD[OF assms(1) t that] by auto
  then show rows: "tasks (exec_update (ClaimAgentTask now ag rt lease stale locked db) db)
       = map (\<lambda>r. if r = t then dispatch_row now lease t else r) (tasks db)"
    by (auto simp: exec_update_def update_where_def ClaimAgentTask_def assms(2) dispatch_row_def)
  show "queue_exec (QUpdate now (SClaim ag rt lease stale locked)) db
       = (if gate_rejects (closed_gates db) (dispatch_row now lease t) then db
          else db\<lparr>tasks := map (\<lambda>r. if r = t then dispatch_row now lease t else r) (tasks db)\<rparr>)"
    using ret rows by (simp add: gate_blocks_def exec_update_def)
qed

section \<open>Sweeps\<close>

fun is_sweep :: "task_stmt \<Rightarrow> bool" where
  "is_sweep (SFailStale _ _ _ _) = True"
| "is_sweep (SReclaim _ _ _ _ _) = True"
| "is_sweep (SExpireQueued _ _ _) = True"
| "is_sweep (SReconnectExpired _ _ _ _) = True"
| "is_sweep (SPromote _ _) = True"
| "is_sweep (SCancelSuperseded _) = True"
| "is_sweep _ = False"

definition sweep_until :: "gtime \<Rightarrow> queue_event \<Rightarrow> bool" where
  "sweep_until L e = (case e of QUpdate now s \<Rightarrow> is_sweep s \<and> now \<le> L | _ \<Rightarrow> True)"

lemma not_before: "now \<le> L \<Longrightarrow> \<not> opt_before (Some L) now"
  by (simp add: opt_before_def)

lemma sweep_spares_lease:
  assumes "ids_ok (tasks db)" and "r \<in> set (tasks db)"
    and "status r = Dispatched" and "prepare_lease_expires_at r = Some L"
    and "is_sweep s" and "now \<le> L"
  shows "\<not> fst (update_of now db s) r"
proof
  assume hit: "fst (update_of now db s) r"
  with assms(5) show False
  proof (cases s)
    case (SReclaim rt lease rec stale locked)
    with hit reclaim_hit[OF assms(1,2)] have "reclaim_candidate now rt rec stale db r" by auto
    with assms(4) not_before[OF assms(6)] show False by (simp add: reclaim_candidate_def)
  next
    case (SPromote rt stale)
    with hit hit_Deferred[OF assms(1,2)] assms(3) show False by auto
  qed (use assms(3,4) hit not_before[OF assms(6)] in
      \<open>auto simp: update_defs Let_def expirable_queued_def reconnect_expired_def\<close>)
qed

lemma sweep_event_spares:
  assumes "db_ok db" and "r \<in> set (tasks db)"
    and "status r = Dispatched" and "prepare_lease_expires_at r = Some L" and "sweep_until L e"
  shows "row_event (db, e) r = r"
  using assms sweep_spares_lease[of db r L]
  by (cases e) (auto simp: sweep_until_def db_ok_def)

lemma sweep_run_spares:
  "db_ok db \<Longrightarrow> r \<in> set (tasks db) \<Longrightarrow> status r = Dispatched
     \<Longrightarrow> prepare_lease_expires_at r = Some L \<Longrightarrow> list_all (sweep_until L) fs
     \<Longrightarrow> r \<in> set (tasks (queue_run fs db))"
proof (induction fs arbitrary: db)
  case (Cons e fs)
  have "ids_ok (tasks db)" using Cons.prems(1) by (simp add: db_ok_def)
  from queue_exec_row[OF this Cons.prems(2), of e] sweep_event_spares[OF Cons.prems(1-4), of e]
    Cons.prems(5)
  have "r \<in> set (tasks (queue_exec e db))" by simp
  with Cons.IH[OF db_ok_exec[OF Cons.prems(1)]] Cons.prems(3-5) show ?case by simp
qed simp

section \<open>Claim generations\<close>

definition event_after :: "gtime \<Rightarrow> queue_event \<Rightarrow> bool" where
  "event_after d e = (case e of QUpdate now s \<Rightarrow> d < now | _ \<Rightarrow> True)"

definition newer_generation :: "gtime \<Rightarrow> agent_task \<Rightarrow> bool" where
  "newer_generation d r = (case dispatched_at r of None \<Rightarrow> True | Some x \<Rightarrow> d < x)"

lemma update_generation:
  "newer_generation d r \<Longrightarrow> d < now \<Longrightarrow> newer_generation d (snd (update_of now db s) r)"
  by (cases s) (simp_all add: update_defs Let_def newer_generation_def)

lemma event_generation:
  "newer_generation d r \<Longrightarrow> event_after d e \<Longrightarrow> newer_generation d (row_event (db, e) r)"
  by (cases e) (auto simp: event_after_def update_generation)

lemma run_generation:
  "newer_generation d r \<Longrightarrow> list_all (event_after d) (map snd ops)
     \<Longrightarrow> newer_generation d (task_life.run ops r)"
  by (induction ops arbitrary: r) (auto simp: event_generation)

section \<open>Promotion\<close>

lemma gate_blocks_row:
  assumes "gate_blocks now s db"
  obtains b i where "b \<in> set (tasks db)" "closed_gates db i" "issue_id b = Some i"
    "fst (update_of now db s) b"
  using assms
  by (auto simp: gate_blocks_def returning_def list_ex_iff gate_rejects_def update_issue
      split: option.splits)

lemma first_by_Some_ex: "xs \<noteq> [] \<Longrightarrow> \<exists>x. first_by k xs = Some x"
  by (metis first_by_None not_None_eq)

lemma due_first:
  assumes "t \<in> set (tasks db)" and "due_deferred now rt stale db t"
  obtains t' where "t' \<in> set (tasks db)" "due_deferred now rt stale db t'"
    "issue_id t' = issue_id t" "agent_id t' = agent_id t"
    "first_in_partition (filter (due_deferred now rt stale db) (tasks db)) t'"
proof -
  let ?due = "filter (due_deferred now rt stale db) (tasks db)"
  let ?part = "filter (\<lambda>s. issue_id s = issue_id t \<and> agent_id s = agent_id t) ?due"
  have "?part \<noteq> []" using assms by (auto simp: filter_empty_conv)
  then obtain t' where t': "first_by claim_key ?part = Some t'" using first_by_Some_ex by blast
  note m = first_by_Some[OF t']
  then have "first_in_partition ?due t'"
    by (auto simp: first_in_partition_def list_ex_iff simp flip: linorder_not_le)
  with m show thesis by (intro that[of t']) auto
qed

section \<open>Draining\<close>

definition on_fleet :: "uuid list \<Rightarrow> uuid list \<Rightarrow> agent_task \<Rightarrow> bool" where
  "on_fleet rts ags r \<longleftrightarrow>
     (case runtime_id r of None \<Rightarrow> False | Some rt \<Rightarrow> rt \<in> set rts) \<or> agent_id r \<in> set ags"

definition CountUndrainedTasksByRuntimeOrAgent :: "uuid list \<Rightarrow> uuid list \<Rightarrow> taskdb \<Rightarrow> nat" where
  "CountUndrainedTasksByRuntimeOrAgent rts ags db =
     length (filter (\<lambda>r. ((case runtime_id r of None \<Rightarrow> False | Some rt \<Rightarrow> rt \<in> set rts)
          \<or> agent_id r \<in> set ags) \<and> completed_at r = None) (tasks db))"

lemma fleet_cancelled:
  assumes "row_ok r"
  shows "\<not> (on_fleet rts ags r' \<and> completed_at r' = None)
    \<or> r' \<noteq> (if fst (CancelAgentTasksByRuntimeOrAgent now rts ags) r
            then snd (CancelAgentTasksByRuntimeOrAgent now rts ags) r else r)"
  using assms
  by (cases "status r")
    (auto simp: CancelAgentTasksByRuntimeOrAgent_def on_fleet_def row_ok_def task_terminal_def)

section \<open>Properties\<close>

lemma claim_key_le:
  "claim_key t \<le> claim_key t' \<longleftrightarrow>
     priority t' < priority t
     \<or> priority t' = priority t
       \<and> (created_at t < created_at t' \<or> created_at t = created_at t' \<and> task_id t \<le> task_id t')"
  by (auto simp: claim_key_def)

lemma claim_candidate_lane:
  assumes "claim_candidate now ag rt stale db t"
  shows "status t = Queued \<and> agent_id t = ag \<and> runtime_id t = Some rt
    \<and> list_all (\<lambda>a. execution_lane_key a \<noteq> execution_lane_key t \<or>
         status a \<in> {Queued, Deferred, Completed, Failed, Cancelled}) (tasks db)"
proof -
  have "x \<in> {Queued, Deferred, Completed, Failed, Cancelled}"
    if "x \<notin> {Dispatched, Running, WaitingLocalDirectory, WaitingCapacity}" for x :: task_status
    using that by (cases x) auto
  with assms show ?thesis
    unfolding claim_candidate_def lane_busy_def list_all_iff list_ex_iff by blast
qed

text \<open>
  C9: a claim takes the best candidate and touches nothing else. When every candidate (a queued,
  unfenced task of the live agent, on a healthy runtime it may use, whose lane is idle) is locked
  by another transaction, or there is none, the claim returns nothing and changes nothing.
  Otherwise it returns exactly one row: a queued task of that agent and runtime in whose execution
  lane nothing runs, such that every other unlocked candidate has a lower priority, or the same and
  is younger, or is as old with a higher id; it is dispatched now under a fresh prepare lease, and
  every other row is as it was. The transaction as a whole changes nothing when the dependency gate of
  that one row's issue is closed: no other candidate is tried.
\<close>

theorem claim_takes_best:
  assumes "distinct (map task_id (tasks db))"
  shows "case claim_target now ag rt stale locked db of
      None \<Rightarrow> (\<forall>t \<in> set (tasks db). claim_candidate now ag rt stale db t \<longrightarrow> locked (task_id t))
        \<and> returning (ClaimAgentTask now ag rt lease stale locked db) db = []
        \<and> queue_exec (QUpdate now (SClaim ag rt lease stale locked)) db = db
    | Some t \<Rightarrow> t \<in> set (tasks db) \<and> claim_candidate now ag rt stale db t \<and> \<not> locked (task_id t)
        \<and> status t = Queued \<and> agent_id t = ag \<and> runtime_id t = Some rt
        \<and> list_all (\<lambda>a. execution_lane_key a \<noteq> execution_lane_key t \<or>
             status a \<in> {Queued, Deferred, Completed, Failed, Cancelled}) (tasks db)
        \<and> (\<forall>t' \<in> set (tasks db). claim_candidate now ag rt stale db t' \<longrightarrow> \<not> locked (task_id t')
             \<longrightarrow> priority t' < priority t \<or> priority t' = priority t
                 \<and> (created_at t < created_at t' \<or> created_at t = created_at t' \<and> task_id t \<le> task_id t'))
        \<and> returning (ClaimAgentTask now ag rt lease stale locked db) db = [dispatch_row now lease t]
        \<and> queue_exec (QUpdate now (SClaim ag rt lease stale locked)) db
            = (if gate_rejects (closed_gates db) (dispatch_row now lease t) then db
               else db\<lparr>tasks := map (\<lambda>r. if r = t then dispatch_row now lease t else r) (tasks db)\<rparr>)"
proof (cases "claim_target now ag rt stale locked db")
  case None
  then show ?thesis
    using claim_target_None[of now ag rt stale locked db]
    by (simp add: returning_def exec_update_def update_where_none ClaimAgentTask_def gate_blocks_def)
next
  case (Some t)
  have "ids_ok (tasks db)" using assms by (simp add: ids_ok_def)
  note rows = claim_rows[OF this Some] and t = claim_target_Some[OF Some]
  then have "claim_candidate now ag rt stale db t" by blast
  from rows t claim_candidate_lane[OF this] Some show ?thesis by (simp add: claim_key_le)
qed

definition demo_queued :: taskdb where
  "demo_queued = queue_run [demo_fleet, QCreate 10 1 demo_params True,
     QCreate 11 2 (demo_params\<lparr>cp_issue_id := Some 3, cp_priority := 3\<rparr>) True] empty_db"

theorem claim_takes_best_witness:
  "map task_id (returning (ClaimAgentTask 100 7 5 50 60 (\<lambda>i. i = 2) demo_queued) demo_queued) = [1]
   \<and> list_ex (\<lambda>r. status r = Dispatched)
        (tasks (queue_exec (QUpdate 100 (SClaim 7 5 50 60 (\<lambda>i. i = 2))) demo_queued))"
proof -
  have d: "distinct (map task_id (tasks demo_queued))" by code_simp
  have t: "claim_target 100 7 5 60 (\<lambda>i. i = 2) demo_queued = Some (hd (tasks demo_queued))" by code_simp
  have "task_id (hd (tasks demo_queued)) = 1" by code_simp
  moreover have "closed_gates demo_queued = (\<lambda>_. False)"
    by (simp add: demo_queued_def demo_fleet_def empty_db_def admit_rows_def split: option.split)
  ultimately show ?thesis using claim_takes_best[OF d, where now = 100 and ag = 7 and rt = 5 and stale = 60
      and locked = "\<lambda>i. i = 2" and lease = 50] t
    by (auto simp: dispatch_row_def gate_rejects_def list_ex_iff split: option.splits)
qed



text \<open>
  C11: a superseded claim cannot undo its successor. Once a task was dispatched again at a time
  after \<open>d\<close>, the delayed requeue of a claimer that holds generation \<open>d\<close> (its claim failed to be
  built or delivered) changes nothing, no matter which later transactions ran in between.
\<close>

theorem stale_generation_fenced:
  assumes "r \<in> set (tasks (queue_run es empty_db))" and "dispatched_at r = Some d'" and "d < d'"
    and "list_all (event_after d) fs"
  shows "let db = queue_run (es @ fs) empty_db in
     exec_update (RequeueAgentTaskAfterClaimFailure (task_id r) rt d) db = db"
proof -
  let ?db = "queue_run (es @ fs) empty_db"
  have ids: "ids_ok (tasks ?db)" using db_ok_history by (simp add: db_ok_def)
  obtain ops where ops: "map snd ops = fs" and r': "task_life.run ops r \<in> set (tasks ?db)"
    using queue_run_row[OF db_ok_history assms(1), of fs] by (auto simp: queue_run_append)
  have "newer_generation d r" using assms(2,3) by (simp add: newer_generation_def)
  from run_generation[OF this, of ops] ops assms(4)
  have "newer_generation d (task_life.run ops r)" by simp
  moreover have "s = task_life.run ops r" if "s \<in> set (tasks ?db)" "task_id s = task_id r" for s
    using ids_okD[OF ids that(1) r'] that(2) task_life.run_rid by simp
  ultimately have "\<forall>s \<in> set (tasks ?db). \<not> fst (RequeueAgentTaskAfterClaimFailure (task_id r) rt d) s"
    by (auto simp: RequeueAgentTaskAfterClaimFailure_def newer_generation_def)
  then show ?thesis by (simp add: exec_update_def update_where_none)
qed

theorem stale_generation_fenced_witness:
  "let db = queue_run (demo_claimed @ [QUpdate 105 (SStart 1)]) empty_db in
     exec_update (RequeueAgentTaskAfterClaimFailure (task_id (first_task demo_claimed)) 5 40) db = db"
  by (rule stale_generation_fenced[OF demo_claimed_row(1,3)]) (simp_all add: event_after_def)

lemma promotion_blocker:
  assumes "gate_blocks now (SPromote rt stale) db"
  shows "\<exists>b \<in> set (tasks db). \<exists>i. issue_id b = Some i \<and> closed_gates db i
      \<and> task_id b \<in> task_id ` set (filter (due_deferred now rt stale db) (tasks db))"
proof -
  obtain b i where b: "b \<in> set (tasks db)" "closed_gates db i" "issue_id b = Some i"
    "fst (update_of now db (SPromote rt stale)) b" using gate_blocks_row[OF assms] by blast
  then have "task_id b \<in> task_id ` set (filter (due_deferred now rt stale db) (tasks db))"
    by (auto simp: PromoteDueDeferredTasksForRuntime_def Let_def)
  with b show ?thesis by blast
qed

text \<open>
  C12: promotion makes progress. When a deferred task of an issue is due and nothing of its agent
  occupies the issue's slot, the promotion statement leaves a task of that issue and agent queued
  that was deferred before; a due task without an issue is queued itself. The one exception is a
  statement the admission trigger aborts: some due task of the runtime has a closed dependency gate,
  and then nothing is promoted.
\<close>

theorem promotion_progress:
  assumes "t \<in> set (tasks db)" and "due_deferred now rt stale db t"
  shows "(\<exists>t' \<in> set (tasks db). status t' = Deferred \<and> issue_id t' = issue_id t
     \<and> (if issue_id t = None then t' = t else agent_id t' = agent_id t)
     \<and> t'\<lparr>status := Queued\<rparr> \<in> set (tasks (queue_exec (QUpdate now (SPromote rt stale)) db)))
   \<or> queue_exec (QUpdate now (SPromote rt stale)) db = db
     \<and> (\<exists>b \<in> set (tasks db). \<exists>i. issue_id b = Some i \<and> closed_gates db i
          \<and> task_id b \<in> task_id ` set (filter (due_deferred now rt stale db) (tasks db)))"
proof -
  obtain t' where t': "t' \<in> set (tasks db)" "due_deferred now rt stale db t'" "issue_id t' = issue_id t"
    "if issue_id t = None then t' = t else agent_id t' = agent_id t"
    "issue_id t' = None
     \<or> first_in_partition (filter (due_deferred now rt stale db) (tasks db)) t'"
  proof (cases "issue_id t = None")
    case True
    with assms that[of t] show thesis by simp
  next
    case False
    with due_first[OF assms] that show thesis by metis
  qed
  then have "fst (PromoteDueDeferredTasksForRuntime now rt stale db) t'"
    by (auto simp: PromoteDueDeferredTasksForRuntime_def Let_def)
  moreover have "snd (PromoteDueDeferredTasksForRuntime now rt stale db) t' = t'\<lparr>status := Queued\<rparr>"
    by (simp add: PromoteDueDeferredTasksForRuntime_def Let_def)
  ultimately have queued: "t'\<lparr>status := Queued\<rparr>
      \<in> set (tasks (exec_update (PromoteDueDeferredTasksForRuntime now rt stale db) db))"
    using t'(1) unfolding exec_update_def by (force simp: in_update_where)
  have deferred: "status t' = Deferred" using t'(2) by (simp add: due_deferred_def)
  show ?thesis
  proof (cases "gate_blocks now (SPromote rt stale) db")
    case True
    then have "queue_exec (QUpdate now (SPromote rt stale)) db = db" by simp
    with promotion_blocker[OF True] show ?thesis by blast
  next
    case False
    then have "queue_exec (QUpdate now (SPromote rt stale)) db
        = exec_update (PromoteDueDeferredTasksForRuntime now rt stale db) db" by simp
    with queued have "t'\<lparr>status := Queued\<rparr> \<in> set (tasks (queue_exec (QUpdate now (SPromote rt stale)) db))"
      by (simp only:)
    with deferred t'(1,3,4) show ?thesis by blast
  qed
qed

definition demo_deferred :: taskdb where
  "demo_deferred = (queue_run [demo_fleet] empty_db)\<lparr>tasks :=
     [(blank_task 1 7 0)\<lparr>runtime_id := Some 5, issue_id := Some 4, status := Deferred, fire_at := Some 80\<rparr>,
      (blank_task 2 7 0)\<lparr>runtime_id := Some 5, issue_id := Some 4, status := Deferred, fire_at := Some 90\<rparr>]\<rparr>"

theorem promotion_progress_witness:
  "\<exists>t' \<in> set (tasks demo_deferred). t'\<lparr>status := Queued\<rparr>
     \<in> set (tasks (queue_exec (QUpdate 100 (SPromote 5 60)) demo_deferred))"
proof -
  have due: "hd (tasks demo_deferred) \<in> set (tasks demo_deferred)"
    "due_deferred 100 5 60 demo_deferred (hd (tasks demo_deferred))" by code_simp+
  have "\<not> closed_gates demo_deferred i" for i
    by (simp add: demo_deferred_def demo_fleet_def empty_db_def)
  with promotion_progress[OF due] show ?thesis by blast
qed

text \<open>
  The runtime-delete gate never trips on the queue's own states. In every reachable table,
  after the fleet cancellation the count of undrained tasks of those runtimes and agents is zero,
  although the cancellation's status list does not name every status of the column.
\<close>

theorem fleet_cancel_drains:
  "CountUndrainedTasksByRuntimeOrAgent rts ags
     (exec_update (CancelAgentTasksByRuntimeOrAgent now rts ags) (queue_run es empty_db)) = 0"
proof -
  have "\<forall>r \<in> set (tasks (queue_run es empty_db)). row_ok r"
    using db_ok_history[of es] by (simp add: db_ok_def rows_ok_def)
  then show ?thesis
    using fleet_cancelled
    by (fastforce simp: CountUndrainedTasksByRuntimeOrAgent_def filter_empty_conv exec_update_def
        in_update_where on_fleet_def)
qed

end
