(* ===== verification/SchedSpec.thy ===== *)
theory SchedSpec
  imports GoStrings
begin

text \<open>
  The job specifications of the scheduler (\<^verbatim>\<open>server/internal/scheduler/spec.go\<close>): scopes,
  catch-up modes, the registration checks, the retry backoff and the plan grid.

  A job's scope provider and planning hook are functions that may fail (\<open>None\<close>). Handlers are
  not modelled as functions: their outcome is an input of \<open>SchedManager\<close>.
\<close>

section \<open>Data\<close>

datatype CatchUpMode = CatchUpLatestOnly | CatchUpEveryPlan | CatchUpUnknown int

record Scope =
  sc_kind :: string
  sc_id :: string

definition ScopeGlobal :: Scope where
  "ScopeGlobal = \<lparr>sc_kind = ''global'', sc_id = ''global''\<rparr>"

datatype exec_status = CronRunning | CronSuccess | CronFailed

text \<open>What the planner reads of the newest stored plan. A zero \<open>NextRetryAt\<close> is the
  column's NULL.\<close>

record LatestPlanInfo =
  lp_found :: bool
  lp_plan_time :: gtime
  lp_status :: "exec_status option"
  lp_attempt :: int
  lp_max_attempts :: int
  lp_next_retry_at :: gtime

record JobSpec =
  jb_name :: string
  jb_cadence :: duration
  jb_schedule_delay :: duration
  jb_catch_up_mode :: CatchUpMode
  jb_catch_up_window :: duration
  jb_max_plans_per_tick :: int
  jb_run_timeout :: duration
  jb_stale_timeout :: duration
  jb_heartbeat_interval :: duration
  jb_allow_stale_reentry :: bool
  jb_max_attempts :: int
  jb_retry_backoff :: "duration list"
  jb_scopes :: "(gtime \<Rightarrow> Scope list option) option"
  jb_plans_for_scope :: "(Scope \<Rightarrow> gtime \<Rightarrow> LatestPlanInfo \<Rightarrow> gtime list option) option"
  jb_has_handler :: bool

definition StaticScopes :: "Scope list \<Rightarrow> gtime \<Rightarrow> Scope list option" where
  "StaticScopes scopes = (\<lambda>_. Some scopes)"

section \<open>Registration\<close>

datatype spec_error =
    NameRequired | CadenceNotPositive | RunTimeoutNotPositive | StaleNotAboveRun
  | HeartbeatOutOfRange | MaxAttemptsBelowOne | ScopesRequired | HandlerRequired
  | MaxPlansNotPositive | DuplicateJobName

definition job_validate :: "JobSpec \<Rightarrow> spec_error option" where
  "job_validate j =
     (if TrimSpace (jb_name j) = [] then Some NameRequired
      else if jb_plans_for_scope j = None \<and> jb_cadence j \<le> 0 then Some CadenceNotPositive
      else if jb_run_timeout j \<le> 0 then Some RunTimeoutNotPositive
      else if jb_stale_timeout j \<le> jb_run_timeout j then Some StaleNotAboveRun
      else if jb_heartbeat_interval j \<le> 0 \<or> jb_stale_timeout j \<le> jb_heartbeat_interval j
        then Some HeartbeatOutOfRange
      else if jb_max_attempts j < 1 then Some MaxAttemptsBelowOne
      else if jb_scopes j = None then Some ScopesRequired
      else if \<not> jb_has_handler j then Some HandlerRequired
      else if jb_plans_for_scope j = None \<and> jb_catch_up_mode j = CatchUpEveryPlan
          \<and> jb_max_plans_per_tick j \<le> 0 then Some MaxPlansNotPositive
      else None)"

text \<open>The registry: the manager's map from names to specs.\<close>

type_synonym registry = "string \<rightharpoonup> JobSpec"

definition Register :: "JobSpec \<Rightarrow> registry \<Rightarrow> spec_error option \<times> registry" where
  "Register job jobs =
     (case job_validate job of
        Some e \<Rightarrow> (Some e, jobs)
      | None \<Rightarrow>
          if jobs (jb_name job) \<noteq> None then (Some DuplicateJobName, jobs)
          else (None, jobs(jb_name job \<mapsto> job)))"

section \<open>Backoff and the plan grid\<close>

definition job_retryDelay :: "JobSpec \<Rightarrow> int \<Rightarrow> duration" where
  "job_retryDelay j n =
     (if jb_retry_backoff j = [] then 0
      else
        let idx = n - 1;
            idx = (if idx < 0 then 0 else idx);
            idx = (if idx \<ge> int (length (jb_retry_backoff j))
                   then int (length (jb_retry_backoff j)) - 1 else idx)
        in jb_retry_backoff j ! nat idx)"

definition FloorPlan :: "gtime \<Rightarrow> duration \<Rightarrow> gtime" where
  "FloorPlan t c = (if c \<le> 0 then t else t - t mod c)"

section \<open>Facts\<close>

lemma FloorPlan_le: "FloorPlan t c \<le> t"
  by (simp add: FloorPlan_def)

lemma FloorPlan_grid: "0 < c \<Longrightarrow> FloorPlan t c mod c = 0"
  by (simp add: FloorPlan_def minus_mod_eq_mult_div)

lemma FloorPlan_next: "0 < c \<Longrightarrow> t < FloorPlan t c + c"
  using pos_mod_bound[of c t] by (simp add: FloorPlan_def)

lemma FloorPlan_id: "t mod c = 0 \<Longrightarrow> FloorPlan t c = t"
  by (simp add: FloorPlan_def)

text \<open>On the grid, nothing lies strictly between a plan and the next.\<close>

lemma grid_step:
  assumes "0 < c" and "x mod c = 0" and "y mod c = (0::int)" and "x < y"
  shows "x + c \<le> y"
proof -
  obtain a b where ab: "x = c * a" "y = c * b" using assms(2,3) by (meson mod_0_imp_dvd dvdE)
  with assms(1,4) have "a + 1 \<le> b" by simp
  with ab assms(1) have "c * (a + 1) \<le> c * b" by simp
  with ab show ?thesis by (simp add: algebra_simps)
qed

lemma FloorPlan_greatest:
  assumes "0 < c" and "p mod c = 0" and "p \<le> t"
  shows "p \<le> FloorPlan t c"
proof (rule ccontr)
  assume "\<not> p \<le> FloorPlan t c"
  then have "FloorPlan t c + c \<le> p"
    using grid_step[OF assms(1) FloorPlan_grid[OF assms(1)] assms(2)] by simp
  with FloorPlan_next[OF assms(1), of t] assms(3) show False by simp
qed

lemma retryDelay_mem:
  "jb_retry_backoff j \<noteq> [] \<Longrightarrow> job_retryDelay j n \<in> set (jb_retry_backoff j)"
  unfolding job_retryDelay_def Let_def by (auto intro!: nth_mem simp: nat_less_iff Suc_le_eq)

lemma validate_None:
  "job_validate j = None \<Longrightarrow>
     0 < jb_run_timeout j \<and> jb_run_timeout j < jb_stale_timeout j
     \<and> 0 < jb_heartbeat_interval j \<and> jb_heartbeat_interval j < jb_stale_timeout j
     \<and> 1 \<le> jb_max_attempts j \<and> (jb_plans_for_scope j = None \<longrightarrow> 0 < jb_cadence j)"
  by (auto simp: job_validate_def split: if_splits)

lemma Register_valid:
  "Register job jobs = (None, jobs') \<Longrightarrow>
     job_validate job = None \<and> jobs (jb_name job) = None \<and> jobs' = jobs(jb_name job \<mapsto> job)"
  by (simp add: Register_def split: option.splits if_splits)

end
