(* ===== verification/SchedDb.thy ===== *)
theory SchedDb
  imports SchedSpec
begin

text \<open>
  The table \<^verbatim>\<open>sys_cron_executions\<close> (migration 113) and the statements of
  \<^verbatim>\<open>server/internal/scheduler/db_ops.go\<close>: one row per planned execution, lease and audit entry at
  once. Each Go function is a function of the table; \<open>db_reply\<close> is what the connection does with
  a statement: it answers, it fails before the statement takes effect, or the statement takes effect
  and the answer is lost. Fresh ids and lease tokens (\<^verbatim>\<open>gen_random_uuid()\<close>, \<^verbatim>\<open>dbid.NewV7()\<close>)
  are arguments. A statement the table's constraints refuse fails and changes nothing.
\<close>

section \<open>Rows\<close>

record cron_row =
  cr_id :: uuid
  cr_job :: string
  cr_scope :: Scope
  cr_plan :: gtime
  cr_status :: exec_status
  cr_attempt :: int
  cr_max_attempts :: int
  cr_next_retry :: "gtime option"
  cr_runner :: string
  cr_token :: uuid
  cr_heartbeat :: gtime
  cr_stale_after :: gtime
  cr_started :: gtime
  cr_finished :: "gtime option"
  cr_duration_ms :: "int option"
  cr_rows_affected :: "int option"
  cr_result :: string
  cr_error_code :: "string option"
  cr_error_msg :: "string option"
  cr_updated :: gtime

type_synonym cron_key = "string \<times> Scope \<times> gtime"

definition cr_key :: "cron_row \<Rightarrow> cron_key" where
  "cr_key r = (cr_job r, cr_scope r, cr_plan r)"

datatype sched_error =
    ClaimInsertFailed | ClaimStealFailed | MarkStaleFailed | HeartbeatFailed
  | MarshalFailed | ResultTooLarge | FinishSuccessFailed | FinishFailureFailed
  | ErrLeaseLost | LatestPlanFailed | PlansHookFailed | UnknownCatchUpMode | ScopesFailed
  | DbNowFailed

definition staleSecs :: "duration \<Rightarrow> int" where
  "staleSecs stale = (let s = quot stale second in if s \<le> 0 then 1 else s)"

definition lease_length :: "duration \<Rightarrow> duration" where
  "lease_length stale = staleSecs stale * second"

section \<open>Claiming\<close>

record claim =
  cl_id :: uuid
  cl_token :: uuid
  cl_attempt :: int
  cl_won :: bool
  cl_stole :: bool
  cl_conflicted :: bool

definition no_claim :: claim where
  "no_claim = \<lparr>cl_id = 0, cl_token = 0, cl_attempt = 0, cl_won = False, cl_stole = False,
     cl_conflicted = False\<rparr>"

definition fresh_row ::
  "JobSpec \<Rightarrow> Scope \<Rightarrow> gtime \<Rightarrow> gtime \<Rightarrow> string \<Rightarrow> uuid \<Rightarrow> uuid \<Rightarrow> cron_row" where
  "fresh_row job scope plan now runner new_id tok =
     \<lparr>cr_id = new_id, cr_job = jb_name job, cr_scope = scope, cr_plan = plan,
      cr_status = CronRunning, cr_attempt = 1, cr_max_attempts = jb_max_attempts job,
      cr_next_retry = None, cr_runner = runner, cr_token = tok, cr_heartbeat = now,
      cr_stale_after = now + lease_length (jb_stale_timeout job), cr_started = now,
      cr_finished = None, cr_duration_ms = None, cr_rows_affected = None, cr_result = ''{}'',
      cr_error_code = None, cr_error_msg = None, cr_updated = now\<rparr>"

definition has_key :: "cron_key \<Rightarrow> cron_row list \<Rightarrow> bool" where
  "has_key k rows = list_ex (\<lambda>r. cr_key r = k) rows"

definition stealable :: "JobSpec \<Rightarrow> Scope \<Rightarrow> gtime \<Rightarrow> gtime \<Rightarrow> cron_row \<Rightarrow> bool" where
  "stealable job scope plan now r \<longleftrightarrow>
     cr_key r = (jb_name job, scope, plan)
     \<and> cr_attempt r < cr_max_attempts r
     \<and> (cr_status r = CronFailed
          \<and> (case cr_next_retry r of None \<Rightarrow> now | Some t \<Rightarrow> t) \<le> now
        \<or> cr_status r = CronRunning \<and> cr_stale_after r < now \<and> jb_allow_stale_reentry job)"

definition steal_row :: "JobSpec \<Rightarrow> gtime \<Rightarrow> string \<Rightarrow> uuid \<Rightarrow> cron_row \<Rightarrow> cron_row" where
  "steal_row job now runner tok r =
     r\<lparr>cr_status := CronRunning, cr_attempt := cr_attempt r + 1, cr_runner := runner,
       cr_token := tok, cr_heartbeat := now,
       cr_stale_after := now + lease_length (jb_stale_timeout job),
       cr_started := now, cr_finished := None, cr_duration_ms := None, cr_next_retry := None,
       cr_error_code := None, cr_error_msg := None, cr_updated := now\<rparr>"

definition tryClaim ::
  "JobSpec \<Rightarrow> Scope \<Rightarrow> gtime \<Rightarrow> gtime \<Rightarrow> string \<Rightarrow> uuid \<Rightarrow> uuid \<Rightarrow> db_reply \<Rightarrow> db_reply
     \<Rightarrow> cron_row list \<Rightarrow> (sched_error + claim) \<times> cron_row list" where
  "tryClaim job scope plan now runner new_id tok ins_reply steal_reply rows =
     (let k = (jb_name job, scope, plan);
          row = fresh_row job scope plan now runner new_id tok;
          inserts = (\<not> has_key k rows);
          refused = (ins_reply = Refused \<or> jb_max_attempts job < 1
                     \<or> list_ex (\<lambda>r. cr_id r = new_id) rows);
          rows' = (if inserts \<and> \<not> refused then rows @ [row] else rows)
      in if refused \<or> ins_reply = ReplyLost then (Inl ClaimInsertFailed, rows')
         else if inserts then
           (Inr (no_claim\<lparr>cl_id := new_id, cl_token := tok, cl_attempt := 1, cl_won := True\<rparr>), rows')
         else if steal_reply = Refused then (Inl ClaimStealFailed, rows)
         else
           let stolen = filter (stealable job scope plan now) rows;
               rows'' = update_where (stealable job scope plan now) (steal_row job now runner tok) rows
           in if steal_reply = ReplyLost then (Inl ClaimStealFailed, rows'')
              else (case stolen of
                  r # _ \<Rightarrow> (Inr (no_claim\<lparr>cl_id := cr_id r, cl_token := tok,
                              cl_attempt := cr_attempt r + 1, cl_stole := True\<rparr>), rows'')
                | [] \<Rightarrow> (Inr (no_claim\<lparr>cl_conflicted := True\<rparr>), rows)))"

section \<open>Sweeping and heartbeats\<close>

definition stale_of :: "string \<Rightarrow> gtime \<Rightarrow> cron_row \<Rightarrow> bool" where
  "stale_of job now r \<longleftrightarrow> cr_job r = job \<and> cr_status r = CronRunning \<and> cr_stale_after r < now"

definition stale_row :: "gtime \<Rightarrow> cron_row \<Rightarrow> cron_row" where
  "stale_row now r =
     r\<lparr>cr_status := CronFailed, cr_finished := Some now, cr_error_code := Some ''stale_timeout'',
       cr_error_msg := Some ''lease expired without heartbeat'', cr_updated := now\<rparr>"

definition markStaleAsFailed ::
  "string \<Rightarrow> gtime \<Rightarrow> db_reply \<Rightarrow> cron_row list \<Rightarrow> (sched_error + nat) \<times> cron_row list" where
  "markStaleAsFailed job now reply rows =
     (let rows' = update_where (stale_of job now) (stale_row now) rows in
      case reply of
        Refused \<Rightarrow> (Inl MarkStaleFailed, rows)
      | ReplyLost \<Rightarrow> (Inl MarkStaleFailed, rows')
      | Replied \<Rightarrow> (Inr (rows_affected (stale_of job now) rows), rows'))"

definition holds_lease :: "uuid \<Rightarrow> uuid \<Rightarrow> cron_row \<Rightarrow> bool" where
  "holds_lease i tok r \<longleftrightarrow> cr_id r = i \<and> cr_token r = tok \<and> cr_status r = CronRunning"

definition beat_row :: "gtime \<Rightarrow> duration \<Rightarrow> cron_row \<Rightarrow> cron_row" where
  "beat_row now stale r =
     r\<lparr>cr_heartbeat := now, cr_stale_after := now + lease_length stale, cr_updated := now\<rparr>"

text \<open>The statements a lease holder sends share one shape: an UPDATE guarded by id, token and
  RUNNING whose row count decides whether the lease is lost.\<close>

definition lease_update ::
  "uuid \<Rightarrow> uuid \<Rightarrow> (cron_row \<Rightarrow> cron_row) \<Rightarrow> sched_error \<Rightarrow> db_reply \<Rightarrow> cron_row list
     \<Rightarrow> sched_error option \<times> cron_row list" where
  "lease_update i tok f err reply rows =
     (let rows' = update_where (holds_lease i tok) f rows in
      case reply of
        Refused \<Rightarrow> (Some err, rows)
      | ReplyLost \<Rightarrow> (Some err, rows')
      | Replied \<Rightarrow>
          (if rows_affected (holds_lease i tok) rows = 0 then Some ErrLeaseLost else None, rows'))"

definition heartbeat ::
  "gtime \<Rightarrow> uuid \<Rightarrow> uuid \<Rightarrow> duration \<Rightarrow> db_reply \<Rightarrow> cron_row list
     \<Rightarrow> sched_error option \<times> cron_row list" where
  "heartbeat now i tok stale reply rows =
     lease_update i tok (beat_row now stale) HeartbeatFailed reply rows"

section \<open>Terminal writes\<close>

text \<open>A handler's result: the keys of its map with their values. \<open>marshal\<close> is \<^verbatim>\<open>json.Marshal\<close>.\<close>

record HandlerResult =
  hr_rows_affected :: int
  hr_result :: "(string \<times> string) list"

definition encodeResult ::
  "((string \<times> string) list \<Rightarrow> string option) \<Rightarrow> (string \<times> string) list \<Rightarrow> sched_error + string" where
  "encodeResult marshal m =
     (if m = [] then Inr ''{}''
      else case marshal m of
             None \<Rightarrow> Inl MarshalFailed
           | Some b \<Rightarrow> if length b > 16 * 1024 then Inl ResultTooLarge else Inr b)"

definition success_row :: "gtime \<Rightarrow> int \<Rightarrow> int \<Rightarrow> string \<Rightarrow> cron_row \<Rightarrow> cron_row" where
  "success_row now dur rows json r =
     r\<lparr>cr_status := CronSuccess, cr_finished := Some now, cr_duration_ms := Some dur,
       cr_rows_affected := Some rows, cr_result := json, cr_error_code := None,
       cr_error_msg := None, cr_updated := now\<rparr>"

definition finishSuccess ::
  "((string \<times> string) list \<Rightarrow> string option) \<Rightarrow> uuid \<Rightarrow> uuid \<Rightarrow> gtime \<Rightarrow> int \<Rightarrow> HandlerResult
     \<Rightarrow> db_reply \<Rightarrow> cron_row list \<Rightarrow> sched_error option \<times> cron_row list" where
  "finishSuccess marshal i tok now dur res reply rows =
     (case encodeResult marshal (hr_result res) of
        Inl e \<Rightarrow> (Some e, rows)
      | Inr json \<Rightarrow>
          lease_update i tok (success_row now dur (hr_rows_affected res) json)
            FinishSuccessFailed reply rows)"

text \<open>Text columns hold valid UTF-8: the server refuses a statement with any other value.\<close>

fun cont_byte :: "char \<Rightarrow> bool" where
  "cont_byte c = (let n = of_char c :: nat in 128 \<le> n \<and> n < 192)"

fun utf8_ok :: "string \<Rightarrow> bool" where
  "utf8_ok [] = True"
| "utf8_ok (c # cs) =
     (let n = of_char c :: nat in
      if n < 128 then utf8_ok cs
      else if 194 \<le> n \<and> n < 224 then
        (case cs of b # rest \<Rightarrow> cont_byte b \<and> utf8_ok rest | [] \<Rightarrow> False)
      else if 224 \<le> n \<and> n < 240 then
        (case cs of b1 # b2 # rest \<Rightarrow>
             cont_byte b1 \<and> cont_byte b2
             \<and> (n = 224 \<longrightarrow> 160 \<le> (of_char b1 :: nat)) \<and> (n = 237 \<longrightarrow> (of_char b1 :: nat) < 160)
             \<and> utf8_ok rest
         | _ \<Rightarrow> False)
      else if 240 \<le> n \<and> n < 245 then
        (case cs of b1 # b2 # b3 # rest \<Rightarrow>
             cont_byte b1 \<and> cont_byte b2 \<and> cont_byte b3
             \<and> (n = 240 \<longrightarrow> 144 \<le> (of_char b1 :: nat)) \<and> (n = 244 \<longrightarrow> (of_char b1 :: nat) < 144)
             \<and> utf8_ok rest
         | _ \<Rightarrow> False)
      else False)"

definition failure_row ::
  "gtime \<Rightarrow> int \<Rightarrow> gtime option \<Rightarrow> string \<Rightarrow> string \<Rightarrow> cron_row \<Rightarrow> cron_row" where
  "failure_row now dur next_retry code msg r =
     r\<lparr>cr_status := CronFailed, cr_finished := Some now, cr_duration_ms := Some dur,
       cr_next_retry := next_retry, cr_error_code := Some code, cr_error_msg := Some msg,
       cr_updated := now\<rparr>"

definition finishFailure ::
  "uuid \<Rightarrow> uuid \<Rightarrow> gtime \<Rightarrow> int \<Rightarrow> string \<Rightarrow> string \<Rightarrow> gtime \<Rightarrow> db_reply \<Rightarrow> cron_row list
     \<Rightarrow> sched_error option \<times> cron_row list" where
  "finishFailure i tok now dur code msg nextRetryAt reply rows =
     (let nextRetry = (if nextRetryAt = 0 then None else Some nextRetryAt);
          code' = (if code = [] then ''handler_error'' else code);
          msg' = (if length msg > 4000 then take 4000 msg else msg);
          reply' = (if utf8_ok code' \<and> utf8_ok msg' then reply else Refused)
      in lease_update i tok (failure_row now dur nextRetry code' msg') FinishFailureFailed reply' rows)"

section \<open>The newest plan\<close>

definition RetryEligible :: "gtime \<Rightarrow> LatestPlanInfo \<Rightarrow> bool" where
  "RetryEligible now i =
     (if \<not> lp_found i then False
      else if lp_status i \<noteq> Some CronFailed then False
      else if lp_attempt i \<ge> lp_max_attempts i then False
      else if lp_next_retry_at i = 0 then True
      else \<not> now < lp_next_retry_at i)"

definition no_plan_info :: LatestPlanInfo where
  "no_plan_info = \<lparr>lp_found = False, lp_plan_time = 0, lp_status = None, lp_attempt = 0,
     lp_max_attempts = 0, lp_next_retry_at = 0\<rparr>"

fun newest :: "cron_row list \<Rightarrow> cron_row option" where
  "newest [] = None"
| "newest (r # rs) =
     (case newest rs of None \<Rightarrow> Some r | Some s \<Rightarrow> if cr_plan r < cr_plan s then Some s else Some r)"

definition latestPlan :: "string \<Rightarrow> Scope \<Rightarrow> db_reply \<Rightarrow> cron_row list \<Rightarrow> sched_error + LatestPlanInfo" where
  "latestPlan job scope reply rows =
     (if reply \<noteq> Replied then Inl LatestPlanFailed
      else case newest (filter (\<lambda>r. cr_job r = job \<and> cr_scope r = scope) rows) of
        None \<Rightarrow> Inr no_plan_info
      | Some r \<Rightarrow> Inr \<lparr>lp_found = True, lp_plan_time = cr_plan r, lp_status = Some (cr_status r),
          lp_attempt = cr_attempt r, lp_max_attempts = cr_max_attempts r,
          lp_next_retry_at = (case cr_next_retry r of None \<Rightarrow> 0 | Some t \<Rightarrow> t)\<rparr>)"

section \<open>Facts\<close>

lemma staleSecs_pos: "1 \<le> staleSecs d"
  by (simp add: staleSecs_def Let_def)

lemma lease_length_pos: "second \<le> lease_length d"
proof -
  have "1 * second \<le> staleSecs d * second"
    by (rule mult_right_mono[OF staleSecs_pos]) (simp add: less_imp_le)
  then show ?thesis by (simp add: lease_length_def)
qed

lemma lease_length_whole:
  assumes "second dvd d" and "0 < d"
  shows "lease_length d = d"
proof -
  obtain k where k: "d = second * k" using assms(1) by blast
  then have "0 < k" using assms(2) by (simp add: zero_less_mult_iff second_def)
  moreover have "quot d second = k"
    using assms(2) k by (simp add: quot_nonneg second_def)
  ultimately show ?thesis
    by (simp add: lease_length_def staleSecs_def k mult.commute)
qed

lemma newest_None: "newest rs = None \<longleftrightarrow> rs = []"
  by (cases rs) (auto split: option.splits if_splits)

lemma newest_Some:
  "newest rs = Some r \<Longrightarrow> r \<in> set rs \<and> (\<forall>s \<in> set rs. cr_plan s \<le> cr_plan r)"
proof (induction rs arbitrary: r)
  case (Cons a rs)
  then show ?case
    by (cases "newest rs") (auto simp: newest_None split: if_splits)
qed simp

lemma utf8_ascii: "list_all (\<lambda>c. (of_char c :: nat) < 128) s \<Longrightarrow> utf8_ok (s @ t) = utf8_ok t"
  by (induction s) (simp_all add: Let_def)

end
