(* ===== verification/SchedManager.thy ===== *)
theory SchedManager
  imports SchedDb
begin

text \<open>
  One tick of the scheduler (\<^verbatim>\<open>server/internal/scheduler/manager.go\<close>): planning, claiming, running
  a claimed plan and writing its terminal state.

  The handler is not modelled: its outcome is part of the environment of a plan, as are the
  statements other sessions (and the plan's own heartbeats) run on the table meanwhile, the
  database time read afterwards, and what the connection does with each statement. A tick reads
  the database time once and uses it for every plan of the tick, as \<^verbatim>\<open>RunOnce\<close> does.
\<close>

section \<open>Planning\<close>

text \<open>The every-plan loop: from \<open>t\<close>, one cadence at a time, while not past \<open>latest\<close> and
  fewer than \<open>n\<close> plans are collected.\<close>

fun plans_from :: "nat \<Rightarrow> gtime \<Rightarrow> gtime \<Rightarrow> duration \<Rightarrow> gtime list" where
  "plans_from 0 t latest c = []"
| "plans_from (Suc n) t latest c = (if latest < t then [] else t # plans_from n (t + c) latest c)"

definition every_plan_start :: "JobSpec \<Rightarrow> gtime \<Rightarrow> gtime \<Rightarrow> LatestPlanInfo \<Rightarrow> gtime" where
  "every_plan_start job now latest info =
     (let oldestAllowed = (if jb_catch_up_window job \<le> 0 then latest else now - jb_catch_up_window job);
          start = (if lp_found info \<and> RetryEligible now info then lp_plan_time info
                   else if lp_found info then lp_plan_time info + jb_cadence job
                   else latest)
      in if start < oldestAllowed
         then (let s = FloorPlan oldestAllowed (jb_cadence job)
               in if s < oldestAllowed then s + jb_cadence job else s)
         else start)"

definition plansForTick ::
  "JobSpec \<Rightarrow> Scope \<Rightarrow> gtime \<Rightarrow> db_reply \<Rightarrow> cron_row list \<Rightarrow> sched_error + gtime list" where
  "plansForTick job scope now reply rows =
     (case jb_plans_for_scope job of
        Some hook \<Rightarrow>
          (case latestPlan (jb_name job) scope reply rows of
             Inl e \<Rightarrow> Inl e
           | Inr info \<Rightarrow>
               (case hook scope now info of
                  None \<Rightarrow> Inl PlansHookFailed
                | Some plans \<Rightarrow>
                    Inr (if 0 < jb_max_plans_per_tick job
                            \<and> jb_max_plans_per_tick job < int (length plans)
                         then take (nat (jb_max_plans_per_tick job)) plans else plans)))
      | None \<Rightarrow>
          (let eligible = now - jb_schedule_delay job;
               latest = FloorPlan eligible (jb_cadence job)
           in if eligible < latest then Inr []
              else (case jb_catch_up_mode job of
                  CatchUpLatestOnly \<Rightarrow> Inr [latest]
                | CatchUpEveryPlan \<Rightarrow>
                    (case latestPlan (jb_name job) scope reply rows of
                       Inl e \<Rightarrow> Inl e
                     | Inr info \<Rightarrow>
                         Inr (plans_from (nat (jb_max_plans_per_tick job))
                                (every_plan_start job now latest info) latest (jb_cadence job)))
                | CatchUpUnknown _ \<Rightarrow> Inl UnknownCatchUpMode)))"

section \<open>Running a claimed plan\<close>

record handler_err =
  he_deadline_exceeded :: bool
  he_canceled :: bool
  he_lease_lost :: bool
  he_handler_panic :: bool
  he_message :: string

datatype handler_outcome =
    HandlerReturned HandlerResult
  | HandlerError handler_err
  | HandlerPanicked string

definition classifyError :: "handler_err \<Rightarrow> string" where
  "classifyError e =
     (if he_deadline_exceeded e then ''run_timeout''
      else if he_canceled e then ''canceled''
      else if he_lease_lost e then ''lease_lost''
      else if he_handler_panic e then ''handler_panic''
      else ''handler_error'')"

text \<open>The deferred recover turns a panic into an error that wraps \<^verbatim>\<open>ErrHandlerPanic\<close>.\<close>

definition recovered :: "handler_outcome \<Rightarrow> handler_err + HandlerResult" where
  "recovered out =
     (case out of
        HandlerReturned res \<Rightarrow> Inr res
      | HandlerError e \<Rightarrow> Inl e
      | HandlerPanicked v \<Rightarrow> Inl
          \<lparr>he_deadline_exceeded = False, he_canceled = False, he_lease_lost = False,
           he_handler_panic = True, he_message = ''scheduler: handler panic: '' @ v\<rparr>)"

record plan_env =
  pe_runner :: string
  pe_new_id :: uuid
  pe_token :: uuid
  pe_insert :: db_reply
  pe_steal :: db_reply
  pe_meanwhile :: "cron_row list \<Rightarrow> cron_row list"
  pe_outcome :: handler_outcome
  pe_duration_ms :: int
  pe_finish_now :: gtime
  pe_finish :: db_reply
  pe_marshal :: "(string \<times> string) list \<Rightarrow> string option"

datatype plan_result =
    PlanClaimError sched_error
  | PlanSkipped
  | PlanFailed "sched_error option"
  | PlanSucceeded "sched_error option"

definition runClaimed ::
  "JobSpec \<Rightarrow> claim \<Rightarrow> plan_env \<Rightarrow> cron_row list \<Rightarrow> plan_result \<times> cron_row list" where
  "runClaimed job c env rows =
     (let rows' = pe_meanwhile env rows; dbTime = pe_finish_now env; dur = pe_duration_ms env in
      case recovered (pe_outcome env) of
        Inl e \<Rightarrow>
          (let nextRetry = (if cl_attempt c < jb_max_attempts job
                            then dbTime + job_retryDelay job (cl_attempt c) else 0);
               (err, rows'') = finishFailure (cl_id c) (cl_token c) dbTime dur (classifyError e)
                                 (he_message e) nextRetry (pe_finish env) rows'
           in (PlanFailed err, rows''))
      | Inr res \<Rightarrow>
          (let (err, rows'') = finishSuccess (pe_marshal env) (cl_id c) (cl_token c) dbTime dur res
                                 (pe_finish env) rows'
           in (PlanSucceeded err, rows'')))"

definition processPlan ::
  "JobSpec \<Rightarrow> Scope \<Rightarrow> gtime \<Rightarrow> gtime \<Rightarrow> plan_env \<Rightarrow> cron_row list \<Rightarrow> plan_result \<times> cron_row list" where
  "processPlan job scope plan now env rows =
     (case tryClaim job scope plan now (pe_runner env) (pe_new_id env) (pe_token env)
             (pe_insert env) (pe_steal env) rows of
        (Inl e, rows') \<Rightarrow> (PlanClaimError e, rows')
      | (Inr c, rows') \<Rightarrow>
          if cl_conflicted c \<and> \<not> cl_won c \<and> \<not> cl_stole c then (PlanSkipped, rows')
          else if \<not> cl_won c \<and> \<not> cl_stole c then (PlanSkipped, rows')
          else runClaimed job c env rows')"

section \<open>The tick\<close>

record tick_env =
  te_mark :: "string \<Rightarrow> db_reply"
  te_latest :: "string \<Rightarrow> Scope \<Rightarrow> db_reply"
  te_plan :: "string \<Rightarrow> Scope \<Rightarrow> gtime \<Rightarrow> plan_env"

fun runPlans ::
  "JobSpec \<Rightarrow> Scope \<Rightarrow> gtime \<Rightarrow> tick_env \<Rightarrow> gtime list \<Rightarrow> cron_row list \<Rightarrow> cron_row list" where
  "runPlans job scope now env [] rows = rows"
| "runPlans job scope now env (p # ps) rows =
     runPlans job scope now env ps
       (snd (processPlan job scope p now (te_plan env (jb_name job) scope p) rows))"

fun runScopes :: "JobSpec \<Rightarrow> gtime \<Rightarrow> tick_env \<Rightarrow> Scope list \<Rightarrow> cron_row list \<Rightarrow> cron_row list" where
  "runScopes job now env [] rows = rows"
| "runScopes job now env (s # ss) rows =
     runScopes job now env ss
       (case plansForTick job s now (te_latest env (jb_name job) s) rows of
          Inl _ \<Rightarrow> rows
        | Inr plans \<Rightarrow> runPlans job s now env plans rows)"

definition runJob ::
  "JobSpec \<Rightarrow> gtime \<Rightarrow> tick_env \<Rightarrow> cron_row list \<Rightarrow> sched_error option \<times> cron_row list" where
  "runJob job now env rows =
     (case (case jb_scopes job of None \<Rightarrow> None | Some f \<Rightarrow> f now) of
        None \<Rightarrow> (Some ScopesFailed, rows)
      | Some scopes \<Rightarrow>
          (let rows' = snd (markStaleAsFailed (jb_name job) now (te_mark env (jb_name job)) rows)
           in (None, runScopes job now env scopes rows')))"

text \<open>\<open>jobs\<close> is the registry's snapshot, in the order the map iteration gives it. A job's error is
  logged and the next job runs.\<close>

definition RunOnce ::
  "gtime option \<Rightarrow> JobSpec list \<Rightarrow> tick_env \<Rightarrow> cron_row list \<Rightarrow> sched_error option \<times> cron_row list" where
  "RunOnce now_reply jobs env rows =
     (case now_reply of
        None \<Rightarrow> (Some DbNowFailed, rows)
      | Some now \<Rightarrow> (None, fold (\<lambda>job rs. snd (runJob job now env rs)) jobs rows))"

section \<open>The plans of a tick\<close>

lemma plans_from_props:
  assumes "0 < c"
  shows "length (plans_from n t latest c) \<le> n"
    and "p \<in> set (plans_from n t latest c) \<Longrightarrow> t \<le> p \<and> p \<le> latest \<and> (\<exists>k. p = t + int k * c)"
    and "i < length (plans_from n t latest c) \<Longrightarrow> plans_from n t latest c ! i = t + int i * c"
proof (induction n arbitrary: t i)
  case (Suc n)
  {
    case 1
    show ?case using Suc(1)[of "t + c"] by simp
  next
    case 2
    show ?case
    proof (cases "p = t \<or> latest < t")
      case True
      with 2 show ?thesis by (auto intro: exI[of _ 0] split: if_splits)
    next
      case False
      with 2 have "p \<in> set (plans_from n (t + c) latest c)" by (simp split: if_splits)
      from Suc(2)[OF this] obtain k where "t + c \<le> p" "p \<le> latest" "p = t + c + int k * c" by blast
      with assms show ?thesis by (auto intro!: exI[of _ "Suc k"] simp: algebra_simps)
    qed
  next
    case 3
    show ?case
    proof (cases i)
      case 0
      with 3 show ?thesis by (simp split: if_splits)
    next
      case (Suc j)
      with 3 have "j < length (plans_from n (t + c) latest c)" "\<not> latest < t"
        by (simp_all split: if_splits)
      with Suc.IH(3)[of j "t + c"] Suc show ?thesis by (simp add: algebra_simps)
    qed
  }
qed simp_all

end
