(* ===== verification/SchedLease.thy ===== *)
theory SchedLease
  imports SchedManager
begin

text \<open>
  The lease protocol of the scheduler. \<open>cron_step\<close> is one statement sequence of one session on
  \<^verbatim>\<open>sys_cron_executions\<close>: a claim by any instance for any job, a stale sweep, a heartbeat or a
  terminal write by anyone who ever saw an id and a token, with any connection fault, at any time.
  Ghost state records every token ever generated and every grant (a claim the caller learned it
  won), so that at-most-once statements can be made about handler runs.

  \<open>lease_inv\<close> is the abstract specification: it is stated over the views
  (key, id, token, attempt, budget) of the rows and what the protocol does to them.
\<close>

section \<open>The updates as one family\<close>

datatype cron_op =
    OSteal JobSpec Scope gtime gtime string uuid
  | OMark string gtime
  | OBeat uuid uuid gtime duration
  | OSuccess uuid uuid gtime int int string
  | OFailure uuid uuid gtime int "gtime option" string string

fun op_where :: "cron_op \<Rightarrow> cron_row \<Rightarrow> bool" where
  "op_where (OSteal job scope plan now runner tok) r = stealable job scope plan now r"
| "op_where (OMark job now) r = stale_of job now r"
| "op_where (OBeat i tok now stale) r = holds_lease i tok r"
| "op_where (OSuccess i tok now dur n json) r = holds_lease i tok r"
| "op_where (OFailure i tok now dur retry code msg) r = holds_lease i tok r"

fun op_set :: "cron_op \<Rightarrow> cron_row \<Rightarrow> cron_row" where
  "op_set (OSteal job scope plan now runner tok) r = steal_row job now runner tok r"
| "op_set (OMark job now) r = stale_row now r"
| "op_set (OBeat i tok now stale) r = beat_row now stale r"
| "op_set (OSuccess i tok now dur n json) r = success_row now dur n json r"
| "op_set (OFailure i tok now dur retry code msg) r = failure_row now dur retry code msg r"

definition op_row :: "cron_op \<Rightarrow> cron_row \<Rightarrow> cron_row" where
  "op_row a r = (if op_where a r then op_set a r else r)"

lemmas row_defs = steal_row_def stale_row_def beat_row_def success_row_def failure_row_def

lemma op_set_key: "cr_key (op_set a r) = cr_key r"
  by (cases a) (simp_all add: row_defs cr_key_def)

lemma op_set_id: "cr_id (op_set a r) = cr_id r"
  by (cases a) (simp_all add: row_defs)

definition cron_settled :: "cron_row \<Rightarrow> bool" where
  "cron_settled r \<longleftrightarrow> cr_status r = CronSuccess
     \<or> cr_status r = CronFailed \<and> cr_max_attempts r \<le> cr_attempt r"

lemma op_where_open: "op_where a r \<Longrightarrow> \<not> cron_settled r"
  by (cases a) (auto simp: stealable_def stale_of_def holds_lease_def cron_settled_def)

interpretation cron_keys: keyed_rows cr_id op_set
  by unfold_locales (rule op_set_id)

interpretation cron_life: row_lifecycle cr_key cron_settled op_row
  by unfold_locales (auto simp: op_row_def op_set_key dest: op_where_open)

section \<open>What the Go functions do to the table\<close>

lemma map_op_row:
  "map (op_row (OSteal job scope plan t runner tok)) rows
     = update_where (stealable job scope plan t) (steal_row job t runner tok) rows"
  "map (op_row (OMark name t)) rows = update_where (stale_of name t) (stale_row t) rows"
  "map (op_row (OBeat i tok t stale)) rows = update_where (holds_lease i tok) (beat_row t stale) rows"
  "map (op_row (OSuccess i tok t dur n json)) rows
     = update_where (holds_lease i tok) (success_row t dur n json) rows"
  "map (op_row (OFailure i tok t dur retry code msg)) rows
     = update_where (holds_lease i tok) (failure_row t dur retry code msg) rows"
  by (simp_all add: update_where_def op_row_def)

lemma lease_update_effect:
  "snd (lease_update i tok f err reply rows) = rows
   \<or> snd (lease_update i tok f err reply rows) = update_where (holds_lease i tok) f rows"
  by (cases reply) (simp_all add: lease_update_def Let_def)

lemma heartbeat_effect:
  "snd (heartbeat now i tok stale reply rows) = rows
   \<or> snd (heartbeat now i tok stale reply rows) = map (op_row (OBeat i tok now stale)) rows"
  using lease_update_effect[of i tok "beat_row now stale" HeartbeatFailed reply rows]
  by (simp add: heartbeat_def map_op_row)

lemma finishSuccess_effect:
  "snd (finishSuccess marshal i tok now dur res reply rows) = rows
   \<or> (\<exists>json. snd (finishSuccess marshal i tok now dur res reply rows)
        = map (op_row (OSuccess i tok now dur (hr_rows_affected res) json)) rows)"
  using lease_update_effect[of i tok _ FinishSuccessFailed reply rows]
  by (auto simp: finishSuccess_def map_op_row split: sum.split)

lemma finishFailure_effect:
  "snd (finishFailure i tok now dur code msg retry reply rows) = rows
   \<or> (\<exists>retry' code' msg'. snd (finishFailure i tok now dur code msg retry reply rows)
        = map (op_row (OFailure i tok now dur retry' code' msg')) rows)"
  unfolding finishFailure_def Let_def
  using lease_update_effect[of i tok _ FinishFailureFailed _ rows]
  by (simp add: map_op_row) blast

lemma markStale_effect:
  "snd (markStaleAsFailed job now reply rows) = rows
   \<or> snd (markStaleAsFailed job now reply rows) = map (op_row (OMark job now)) rows"
  by (cases reply) (simp_all add: markStaleAsFailed_def Let_def map_op_row)

definition claim_granted :: "sched_error + claim \<Rightarrow> bool" where
  "claim_granted res = (case res of Inl _ \<Rightarrow> False | Inr c \<Rightarrow> cl_won c \<or> cl_stole c)"

lemma tryClaim_cases:
  assumes "tryClaim job scope plan now runner i tok ri rs rows = (res, rows')"
  obtains (same) "rows' = rows" "\<not> claim_granted res"
  | (insert) "rows' = rows @ [fresh_row job scope plan now runner i tok]"
      "\<not> has_key (jb_name job, scope, plan) rows" "1 \<le> jb_max_attempts job"
      "i \<notin> cr_id ` set rows"
      "claim_granted res \<Longrightarrow> res = Inr (no_claim\<lparr>cl_id := i, cl_token := tok, cl_attempt := 1, cl_won := True\<rparr>)"
  | (steal) r where "r \<in> set rows" "stealable job scope plan now r"
      "rows' = map (op_row (OSteal job scope plan now runner tok)) rows"
      "claim_granted res \<Longrightarrow> res = Inr (no_claim\<lparr>cl_id := cr_id r, cl_token := tok,
         cl_attempt := cr_attempt r + 1, cl_stole := True\<rparr>)"
proof (cases "ri = Refused \<or> jb_max_attempts job < 1 \<or> list_ex (\<lambda>r. cr_id r = i) rows")
  case True
  with assms have "rows' = rows" "\<not> claim_granted res"
    by (auto simp: tryClaim_def Let_def claim_granted_def)
  with same show thesis by blast
next
  case ok: False
  show thesis
  proof (cases "has_key (jb_name job, scope, plan) rows")
    case False
    with assms ok show thesis
      by (intro insert) (auto simp: tryClaim_def Let_def claim_granted_def list_ex_iff split: if_splits)
  next
    case key: True
    show thesis
    proof (cases "filter (stealable job scope plan now) rows")
      case Nil
      then have "update_where (stealable job scope plan now) (steal_row job now runner tok) rows = rows"
        by (intro update_where_none) (auto simp: filter_empty_conv)
      with Nil assms ok key have "rows' = rows" "\<not> claim_granted res"
        by (auto simp: tryClaim_def Let_def claim_granted_def no_claim_def split: if_splits)
      with same show thesis by blast
    next
      case (Cons r rs')
      then have "r \<in> set (filter (stealable job scope plan now) rows)" by simp
      then have r: "r \<in> set rows" "stealable job scope plan now r" by simp_all
      show thesis
      proof (cases "ri = ReplyLost \<or> rs = Refused")
        case True
        with assms ok key have "rows' = rows" "\<not> claim_granted res"
          by (auto simp: tryClaim_def Let_def claim_granted_def split: if_splits)
        with same show thesis by blast
      next
        case False
        with assms ok key Cons have
          "rows' = update_where (stealable job scope plan now) (steal_row job now runner tok) rows"
          "claim_granted res \<Longrightarrow> res = Inr (no_claim\<lparr>cl_id := cr_id r, cl_token := tok,
             cl_attempt := cr_attempt r + 1, cl_stole := True\<rparr>)"
          by (auto simp: tryClaim_def Let_def claim_granted_def split: if_splits)
        with steal[OF r] show thesis by (simp add: map_op_row)
      qed
    qed
  qed
qed


section \<open>The abstract lease table\<close>

datatype lease_view =
  LeaseView (lv_key: cron_key) (lv_id: uuid) (lv_token: uuid) (lv_attempt: int) (lv_max: int)

definition view :: "cron_row \<Rightarrow> lease_view" where
  "view r = LeaseView (cr_key r) (cr_id r) (cr_token r) (cr_attempt r) (cr_max_attempts r)"

definition lv_steal :: "cron_key \<Rightarrow> uuid \<Rightarrow> lease_view \<Rightarrow> lease_view" where
  "lv_steal k tok v =
     (if lv_key v = k then LeaseView (lv_key v) (lv_id v) tok (lv_attempt v + 1) (lv_max v) else v)"

type_synonym grant = "cron_key \<times> int \<times> uuid"

definition lease_rows_ok :: "lease_view list \<Rightarrow> uuid list \<Rightarrow> bool" where
  "lease_rows_ok vs toks \<longleftrightarrow>
     distinct (map lv_key vs) \<and> distinct (map lv_id vs) \<and> distinct (map lv_token vs)
     \<and> (\<forall>v \<in> set vs. lv_token v \<in> set toks \<and> 1 \<le> lv_attempt v \<and> lv_attempt v \<le> lv_max v)"

definition grant_ok :: "lease_view list \<Rightarrow> uuid list \<Rightarrow> grant \<Rightarrow> bool" where
  "grant_ok vs toks g \<longleftrightarrow>
     (case g of (k, a, t) \<Rightarrow> t \<in> set toks \<and> 1 \<le> a
        \<and> (\<exists>v \<in> set vs. lv_key v = k \<and> a \<le> lv_attempt v)
        \<and> (\<forall>v \<in> set vs. lv_token v = t \<longrightarrow> lv_key v = k \<and> lv_attempt v = a))"

definition grants_ok :: "lease_view list \<Rightarrow> uuid list \<Rightarrow> grant list \<Rightarrow> bool" where
  "grants_ok vs toks gs \<longleftrightarrow>
     distinct (map (\<lambda>(k, a, t). (k, a)) gs) \<and> (\<forall>g \<in> set gs. grant_ok vs toks g)"

definition lease_inv :: "lease_view list \<Rightarrow> uuid list \<Rightarrow> grant list \<Rightarrow> bool" where
  "lease_inv vs toks gs \<longleftrightarrow> lease_rows_ok vs toks \<and> grants_ok vs toks gs"

lemma grant_facts:
  "grants_ok vs toks gs \<Longrightarrow> (k, a, t) \<in> set gs \<Longrightarrow>
     t \<in> set toks \<and> 1 \<le> a \<and> (\<exists>v \<in> set vs. lv_key v = k \<and> a \<le> lv_attempt v)
     \<and> (\<forall>v \<in> set vs. lv_token v = t \<longrightarrow> lv_key v = k \<and> lv_attempt v = a)"
  by (fastforce simp: grants_ok_def grant_ok_def)

lemma lv_steal_simps [simp]:
  "lv_key (lv_steal k tok v) = lv_key v" "lv_id (lv_steal k tok v) = lv_id v"
  "lv_max (lv_steal k tok v) = lv_max v"
  "lv_token (lv_steal k tok v) = (if lv_key v = k then tok else lv_token v)"
  "lv_attempt (lv_steal k tok v) = (if lv_key v = k then lv_attempt v + 1 else lv_attempt v)"
  by (simp_all add: lv_steal_def)

lemma lease_inv_append:
  assumes "lease_inv vs toks gs" and "lv_key v \<notin> lv_key ` set vs" and "lv_id v \<notin> lv_id ` set vs"
    and "lv_token v \<notin> set toks" and "lv_attempt v = 1" and "1 \<le> lv_max v"
  shows "lease_inv (vs @ [v]) (lv_token v # toks) gs"
    and "lease_inv (vs @ [v]) (lv_token v # toks) ((lv_key v, 1, lv_token v) # gs)"
proof -
  have rows: "lease_rows_ok (vs @ [v]) (lv_token v # toks)"
    using assms by (auto simp: lease_inv_def lease_rows_ok_def)
  have old: "grant_ok (vs @ [v]) (lv_token v # toks) g" if "g \<in> set gs" for g
    using that assms(1,4) by (auto simp: lease_inv_def grants_ok_def grant_ok_def split: prod.splits)
  have new: "grant_ok (vs @ [v]) (lv_token v # toks) (lv_key v, 1, lv_token v)"
    using assms by (auto simp: grant_ok_def lease_inv_def lease_rows_ok_def)
  have fresh: "(lv_key v, a, t) \<notin> set gs" for a t
    using assms(1,2) grant_facts unfolding lease_inv_def by (metis image_eqI)
  show "lease_inv (vs @ [v]) (lv_token v # toks) gs"
    using rows old assms(1) by (auto simp: lease_inv_def grants_ok_def)
  then show "lease_inv (vs @ [v]) (lv_token v # toks) ((lv_key v, 1, lv_token v) # gs)"
    using new fresh by (auto simp: lease_inv_def grants_ok_def)
qed

lemma distinct_token_steal:
  assumes "distinct (map lv_key vs)" and "distinct (map lv_token vs)" and "tok \<notin> lv_token ` set vs"
  shows "distinct (map lv_token (map (lv_steal k tok) vs))"
  using assms
proof (induction vs)
  case (Cons v vs)
  show ?case
  proof (cases "lv_key v = k")
    case True
    with Cons.prems have "\<forall>w \<in> set vs. lv_key w \<noteq> k" by (metis distinct.simps(2) image_eqI list.set_map list.simps(9))
    then have "map (lv_steal k tok) vs = vs" by (intro map_idI) (simp add: lv_steal_def)
    with Cons.prems True show ?thesis by simp
  next
    case False
    with Cons show ?thesis by auto
  qed
qed simp

lemma lease_inv_steal:
  assumes "lease_inv vs toks gs" and "v \<in> set vs" and "lv_key v = k" and "lv_attempt v < lv_max v"
    and "tok \<notin> set toks"
  shows "lease_inv (map (lv_steal k tok) vs) (tok # toks) gs"
    and "lease_inv (map (lv_steal k tok) vs) (tok # toks) ((k, lv_attempt v + 1, tok) # gs)"
proof -
  have rows: "lease_rows_ok vs toks" and grants: "grants_ok vs toks gs"
    using assms(1) by (simp_all add: lease_inv_def)
  have one: "w = v" if "w \<in> set vs" "lv_key w = k" for w
    using that assms(2,3) rows distinct_key_eq[of lv_key vs w v] by (simp add: lease_rows_ok_def)
  have tok: "tok \<notin> lv_token ` set vs"
    using rows assms(5) by (auto simp: lease_rows_ok_def)
  have "lv_attempt w + 1 \<le> lv_max w" if "w \<in> set vs" "lv_key w = k" for w
    using one[OF that] assms(4) by simp
  then have rows': "lease_rows_ok (map (lv_steal k tok) vs) (tok # toks)"
    using rows distinct_token_steal[OF _ _ tok, of k]
    by (auto simp: lease_rows_ok_def comp_def)
  have old: "grant_ok (map (lv_steal k tok) vs) (tok # toks) g" if "g \<in> set gs" for g
    using that grants assms(5) by (fastforce simp: grants_ok_def grant_ok_def split: prod.splits)
  have new: "grant_ok (map (lv_steal k tok) vs) (tok # toks) (k, lv_attempt v + 1, tok)"
    using assms(2,3) rows tok one by (fastforce simp: grant_ok_def lease_rows_ok_def)
  have fresh: "(k, lv_attempt v + 1, t) \<notin> set gs" for t
  proof
    assume "(k, lv_attempt v + 1, t) \<in> set gs"
    from grant_facts[OF grants this] obtain w where "w \<in> set vs" "lv_key w = k"
      "lv_attempt v + 1 \<le> lv_attempt w" by blast
    with one show False by fastforce
  qed
  show "lease_inv (map (lv_steal k tok) vs) (tok # toks) gs"
    using rows' old grants by (auto simp: lease_inv_def grants_ok_def)
  then show "lease_inv (map (lv_steal k tok) vs) (tok # toks) ((k, lv_attempt v + 1, tok) # gs)"
    using new fresh by (auto simp: lease_inv_def grants_ok_def)
qed

lemma lease_inv_token: "lease_inv vs toks gs \<Longrightarrow> lease_inv vs (tok # toks) gs"
  by (auto simp: lease_inv_def lease_rows_ok_def grants_ok_def grant_ok_def split: prod.splits)


section \<open>The system\<close>

record cron_sys =
  cs_rows :: "cron_row list"
  cs_tokens :: "uuid list"
  cs_grants :: "grant list"

definition cron_init :: cron_sys where
  "cron_init = \<lparr>cs_rows = [], cs_tokens = [], cs_grants = []\<rparr>"

definition grant_of :: "sched_error + claim \<Rightarrow> cron_key \<Rightarrow> grant list" where
  "grant_of res k =
     (case res of Inl _ \<Rightarrow> []
      | Inr c \<Rightarrow> if cl_won c \<or> cl_stole c then [(k, cl_attempt c, cl_token c)] else [])"

inductive cron_step :: "cron_sys \<Rightarrow> cron_sys \<Rightarrow> bool" where
  step_claim: "tryClaim job scope plan now runner i tok ri rs (cs_rows s) = (res, rows')
     \<Longrightarrow> tok \<notin> set (cs_tokens s)
     \<Longrightarrow> cron_step s (s\<lparr>cs_rows := rows', cs_tokens := tok # cs_tokens s,
           cs_grants := grant_of res (jb_name job, scope, plan) @ cs_grants s\<rparr>)"
| step_sweep: "cron_step s (s\<lparr>cs_rows := snd (markStaleAsFailed job now reply (cs_rows s))\<rparr>)"
| step_beat: "cron_step s (s\<lparr>cs_rows := snd (heartbeat now i tok stale reply (cs_rows s))\<rparr>)"
| step_success: "cron_step s
     (s\<lparr>cs_rows := snd (finishSuccess marshal i tok now dur res reply (cs_rows s))\<rparr>)"
| step_failure: "cron_step s
     (s\<lparr>cs_rows := snd (finishFailure i tok now dur code msg retry reply (cs_rows s))\<rparr>)"

inductive cron_reach :: "cron_sys \<Rightarrow> bool" where
  reach_init: "cron_reach cron_init"
| reach_step: "cron_reach s \<Longrightarrow> cron_step s s' \<Longrightarrow> cron_reach s'"

lemmas cron_reach_init [simp] = reach_init

text \<open>Every step either applies one update to all rows or appends a fresh one.\<close>

lemma cron_step_rows:
  assumes "cron_step s s'"
  obtains (update) ops where "cs_rows s' = map (\<lambda>r. cron_life.run ops r) (cs_rows s)"
  | (append) r where "cs_rows s' = cs_rows s @ [r]" "cr_next_retry r = None"
  using assms
proof cases
  case (step_claim job scope plan now runner i tok ri rs res rows')
  from step_claim(2) show thesis
  proof (cases rule: tryClaim_cases)
    case same
    with step_claim update[of "[]"] show thesis by simp
  next
    case insert
    have "cr_next_retry (fresh_row job scope plan now runner i tok) = None" by (simp add: fresh_row_def)
    with insert step_claim append show thesis by simp
  next
    case (steal r)
    with step_claim update[of "[OSteal job scope plan now runner tok]"] show thesis by simp
  qed
next
  case (step_sweep job now reply)
  with markStale_effect[of job now reply "cs_rows s"] update[of "[]"] update[of "[OMark job now]"]
  show thesis by auto
next
  case (step_beat now i tok stale reply)
  with heartbeat_effect[of now i tok stale reply "cs_rows s"] update[of "[]"]
    update[of "[OBeat i tok now stale]"]
  show thesis by auto
next
  case (step_success marshal i tok now dur res reply)
  have "cs_rows s' = map (\<lambda>r. cron_life.run [OSuccess i tok now dur (hr_rows_affected res) json] r) (cs_rows s)
      \<Longrightarrow> thesis" for json by (rule update)
  with step_success finishSuccess_effect[of marshal i tok now dur res reply "cs_rows s"] update[of "[]"]
  show thesis by auto
next
  case (step_failure i tok now dur code msg retry reply)
  have "cs_rows s' = map (\<lambda>r. cron_life.run [OFailure i tok now dur retry' code' msg'] r) (cs_rows s)
      \<Longrightarrow> thesis" for retry' code' msg' by (rule update)
  with step_failure finishFailure_effect[of i tok now dur code msg retry reply "cs_rows s"] update[of "[]"]
  show thesis by auto
qed

section \<open>The concrete table refines the lease table\<close>

definition cron_inv :: "cron_sys \<Rightarrow> bool" where
  "cron_inv s \<longleftrightarrow> lease_inv (map view (cs_rows s)) (cs_tokens s) (cs_grants s)"

lemma view_simps [simp]:
  "lv_key (view r) = cr_key r" "lv_id (view r) = cr_id r" "lv_token (view r) = cr_token r"
  "lv_attempt (view r) = cr_attempt r" "lv_max (view r) = cr_max_attempts r"
  by (simp_all add: view_def)

lemma lease_update_view:
  "(\<And>r. view (f r) = view r) \<Longrightarrow> map view (snd (lease_update i tok f err reply rows)) = map view rows"
  using lease_update_effect[of i tok f err reply rows] by (auto simp: map_update_where)

lemma holder_view:
  "map view (snd (heartbeat now i tok stale reply rows)) = map view rows"
  "map view (snd (finishSuccess marshal i tok now dur res reply rows)) = map view rows"
  "map view (snd (finishFailure i tok now dur code msg retry reply rows)) = map view rows"
  "map view (snd (markStaleAsFailed job now reply rows)) = map view rows"
  unfolding heartbeat_def finishSuccess_def finishFailure_def Let_def
  by (auto intro!: lease_update_view simp: row_defs view_def cr_key_def markStaleAsFailed_def Let_def
      map_update_where split: sum.split db_reply.split)

lemma steal_view:
  assumes "distinct (map cr_key rows)" and "r \<in> set rows" and "stealable job scope plan now r"
  shows "map view (map (op_row (OSteal job scope plan now runner tok)) rows)
    = map (lv_steal (jb_name job, scope, plan) tok) (map view rows)"
proof -
  have "view (op_row (OSteal job scope plan now runner tok) q)
      = lv_steal (jb_name job, scope, plan) tok (view q)" if "q \<in> set rows" for q
  proof (cases "cr_key q = (jb_name job, scope, plan)")
    case True
    with assms that have "q = r" by (auto simp: stealable_def dest: distinct_key_eq)
    with assms(3) True show ?thesis
      by (simp add: op_row_def steal_row_def view_def lv_steal_def cr_key_def)
  next
    case False
    then show ?thesis by (simp add: op_row_def stealable_def lv_steal_def)
  qed
  then show ?thesis by simp
qed

lemma cron_inv_claim:
  assumes inv: "cron_inv s" and tok: "tok \<notin> set (cs_tokens s)"
    and c: "tryClaim job scope plan now runner i tok ri rs (cs_rows s) = (res, rows')"
  shows "lease_inv (map view rows') (tok # cs_tokens s)
     (grant_of res (jb_name job, scope, plan) @ cs_grants s)"
  using c
proof (cases rule: tryClaim_cases)
  case same
  with inv show ?thesis
    by (auto simp: cron_inv_def claim_granted_def grant_of_def lease_inv_token split: sum.splits)
next
  case insert
  let ?v = "view (fresh_row job scope plan now runner i tok)"
  have v: "lv_key ?v \<notin> lv_key ` set (map view (cs_rows s))"
    "lv_id ?v \<notin> lv_id ` set (map view (cs_rows s))"
    "lv_token ?v \<notin> set (cs_tokens s)" "lv_attempt ?v = 1" "1 \<le> lv_max ?v"
    using insert tok by (auto simp: fresh_row_def has_key_def cr_key_def list_ex_iff)
  note app = lease_inv_append[OF inv[unfolded cron_inv_def] v]
  show ?thesis
  proof (cases "claim_granted res")
    case True
    with insert app(2) show ?thesis
      by (simp add: grant_of_def no_claim_def fresh_row_def cr_key_def)
  next
    case False
    with insert app(1) show ?thesis
      by (auto simp: claim_granted_def grant_of_def fresh_row_def split: sum.splits)
  qed
next
  case (steal r)
  have d: "distinct (map cr_key (cs_rows s))"
    using inv by (simp add: cron_inv_def lease_inv_def lease_rows_ok_def comp_def)
  have v: "view r \<in> set (map view (cs_rows s))" "lv_key (view r) = (jb_name job, scope, plan)"
    "lv_attempt (view r) < lv_max (view r)"
    using steal(1,2) by (simp_all add: stealable_def)
  note st = lease_inv_steal[OF inv[unfolded cron_inv_def] v tok]
  note view = steal_view[OF d steal(1,2), of runner tok]
  show ?thesis
  proof (cases "claim_granted res")
    case True
    with steal(4) have "grant_of res (jb_name job, scope, plan)
        = [((jb_name job, scope, plan), lv_attempt (view r) + 1, tok)]"
      by (simp add: grant_of_def no_claim_def)
    then show ?thesis unfolding steal(3) view using st(2) by simp
  next
    case False
    then have "grant_of res (jb_name job, scope, plan) = []"
      by (auto simp: claim_granted_def grant_of_def split: sum.splits)
    then show ?thesis unfolding steal(3) view using st(1) by simp
  qed
qed

lemma cron_inv_step: "cron_step s s' \<Longrightarrow> cron_inv s \<Longrightarrow> cron_inv s'"
  by (cases rule: cron_step.cases, assumption)
    (simp_all add: cron_inv_def holder_view cron_inv_claim[unfolded cron_inv_def])

lemma cron_inv_reach: "cron_reach s \<Longrightarrow> cron_inv s"
proof (induction rule: cron_reach.induct)
  case reach_init
  show ?case by (simp add: cron_inv_def cron_init_def lease_inv_def lease_rows_ok_def grants_ok_def)
qed (rule cron_inv_step)

end
