(* ===== verification/SchedSafety.thy ===== *)
theory SchedSafety
  imports SchedLease
begin

text \<open>
  What the scheduler guarantees: how often a plan runs, what a lost lease can still do, what a
  SUCCESS row is, how a crashed plan is recovered, which plans a tick attempts, and how long a
  heartbeat protects a lease.
\<close>

section \<open>Grants\<close>

definition grants_for :: "cron_key \<Rightarrow> grant list \<Rightarrow> grant list" where
  "grants_for k gs = filter (\<lambda>g. fst g = k) gs"

lemma grants_ok_distinct:
  assumes "grants_ok vs toks gs"
  shows "distinct (map (fst \<circ> snd) (grants_for k gs))"
proof -
  have "distinct (map (\<lambda>(k, a, t). (k, a)) (grants_for k gs))"
    using assms by (simp add: grants_ok_def grants_for_def distinct_map_filter)
  moreover have "map (\<lambda>(k, a, t). (k, a)) (grants_for k gs) = map (Pair k) (map (fst \<circ> snd) (grants_for k gs))"
    by (auto simp: grants_for_def)
  ultimately have "distinct (map (Pair k) (map (fst \<circ> snd) (grants_for k gs)))" by simp
  then show ?thesis by (simp only: distinct_map)
qed

lemma distinct_int_bound:
  assumes "distinct xs" and "\<forall>x \<in> set xs. 1 \<le> x \<and> x \<le> (n::int)" and "0 \<le> n"
  shows "int (length xs) \<le> n"
proof -
  have "card (set xs) \<le> card {1..n}"
    using assms(2) by (intro card_mono) auto
  with assms(1,3) show ?thesis by (simp add: distinct_card)
qed

lemma cron_inv_rows:
  assumes "cron_inv s"
  shows "distinct (map cr_key (cs_rows s))" "distinct (map cr_id (cs_rows s))"
    "r \<in> set (cs_rows s) \<Longrightarrow> cr_token r \<in> set (cs_tokens s) \<and> 1 \<le> cr_attempt r \<and> cr_attempt r \<le> cr_max_attempts r"
  using assms by (auto simp: cron_inv_def lease_inv_def lease_rows_ok_def comp_def)

lemma cron_inv_grant:
  assumes "cron_inv s" and "(k, a, t) \<in> set (cs_grants s)"
  shows "t \<in> set (cs_tokens s)" "1 \<le> a" "\<exists>r \<in> set (cs_rows s). cr_key r = k \<and> a \<le> cr_attempt r"
    "r \<in> set (cs_rows s) \<Longrightarrow> cr_token r = t \<Longrightarrow> cr_key r = k \<and> cr_attempt r = a"
  using assms(1) grant_facts[OF _ assms(2), of "map view (cs_rows s)" "cs_tokens s"]
  by (auto simp: cron_inv_def lease_inv_def)

section \<open>Settled rows in the running system\<close>

lemma settled_step:
  assumes inv: "cron_inv s" and st: "cron_step s s'" and r: "r \<in> set (cs_rows s)" "cron_settled r"
  shows "r \<in> set (cs_rows s')" "grants_for (cr_key r) (cs_grants s') = grants_for (cr_key r) (cs_grants s)"
proof -
  show "r \<in> set (cs_rows s')"
    using st
  proof (cases rule: cron_step_rows)
    case (update ops)
    with r cron_life.run_terminal[OF r(2)] show ?thesis by (metis image_eqI image_set)
  qed (use r in simp)
  show "grants_for (cr_key r) (cs_grants s') = grants_for (cr_key r) (cs_grants s)"
    using st
  proof cases
    case (step_claim job scope plan now runner i tok ri rs res rows')
    show ?thesis
    proof (cases "cr_key r = (jb_name job, scope, plan)")
      case False
      with step_claim(1) show ?thesis
        by (auto simp: grants_for_def grant_of_def split: sum.splits)
    next
      case True
      from step_claim(2) have "\<not> claim_granted res"
      proof (cases rule: tryClaim_cases)
        case insert
        with True r(1) show ?thesis by (auto simp: has_key_def list_ex_iff)
      next
        case (steal q)
        with True r(1) have "q = r"
          using cron_inv_rows(1)[OF inv] by (auto simp: stealable_def dest: distinct_key_eq)
        with steal(2) r(2) show ?thesis by (auto simp: stealable_def cron_settled_def)
      qed
      with step_claim(1) show ?thesis
        by (auto simp: claim_granted_def grant_of_def split: sum.splits)
    qed
  qed simp_all
qed

lemma settled_steps:
  "cron_step\<^sup>*\<^sup>* s s' \<Longrightarrow> cron_inv s \<Longrightarrow> r \<in> set (cs_rows s) \<Longrightarrow> cron_settled r \<Longrightarrow>
     r \<in> set (cs_rows s') \<and> grants_for (cr_key r) (cs_grants s') = grants_for (cr_key r) (cs_grants s)
     \<and> cron_inv s'"
  by (induction rule: rtranclp_induct) (auto simp: settled_step cron_inv_step)

section \<open>Running rows carry no retry time\<close>

definition no_retry_time :: "cron_row \<Rightarrow> bool" where
  "no_retry_time r \<longleftrightarrow> (cr_status r = CronRunning \<longrightarrow> cr_next_retry r = None)"

lemma op_no_retry: "no_retry_time r \<Longrightarrow> no_retry_time (op_row a r)"
  by (cases a) (auto simp: op_row_def no_retry_time_def row_defs holds_lease_def stale_of_def)

lemma run_no_retry: "no_retry_time r \<Longrightarrow> no_retry_time (cron_life.run ops r)"
  by (induction ops arbitrary: r) (simp_all add: op_no_retry)

lemma reach_no_retry: "cron_reach s \<Longrightarrow> \<forall>r \<in> set (cs_rows s). no_retry_time r"
proof (induction rule: cron_reach.induct)
  case (reach_step s s')
  from reach_step.hyps(2) show ?case
  proof (cases rule: cron_step_rows)
    case (update ops)
    with reach_step.IH run_no_retry show ?thesis by auto
  next
    case (append r)
    with reach_step.IH show ?thesis by (auto simp: no_retry_time_def)
  qed
qed (simp add: cron_init_def)

section \<open>A lost lease\<close>

lemma lost_lease_no_rows:
  assumes "\<forall>r \<in> set rows. \<not> holds_lease i tok r"
  shows "snd (lease_update i tok f err reply rows) = rows"
    and "fst (lease_update i tok f err Replied rows) = Some ErrLeaseLost"
  using assms by (cases reply; simp add: lease_update_def update_where_none Let_def)+

lemma newer_grant_no_lease:
  assumes "cron_inv s" and "(k, a, t) \<in> set (cs_grants s)" and "(k, b, u) \<in> set (cs_grants s)"
    and "a < b" and "r \<in> set (cs_rows s)"
  shows "\<not> holds_lease i t r"
proof
  assume "holds_lease i t r"
  then have "cr_key r = k \<and> cr_attempt r = a"
    using cron_inv_grant(4)[OF assms(1,2,5)] by (simp add: holds_lease_def)
  moreover obtain q where "q \<in> set (cs_rows s)" "cr_key q = k" "b \<le> cr_attempt q"
    using cron_inv_grant(3)[OF assms(1,3)] by blast
  ultimately show False
    using distinct_key_eq[OF cron_inv_rows(1)[OF assms(1)], of r q] assms(4,5) by simp
qed

section \<open>Recovery\<close>

lemma mark_in:
  "r \<in> set rows \<Longrightarrow> stale_of job now r \<Longrightarrow>
     stale_row now r \<in> set (snd (markStaleAsFailed job now Replied rows))"
  by (auto simp: markStaleAsFailed_def Let_def in_update_where intro!: bexI[of _ r])

lemma tryClaim_steals:
  assumes "distinct (map cr_key rows)" and "r \<in> set rows" and "stealable job scope plan now r"
    and "1 \<le> jb_max_attempts job" and "i \<notin> cr_id ` set rows"
  shows "fst (tryClaim job scope plan now runner i tok Replied Replied rows)
    = Inr (no_claim\<lparr>cl_id := cr_id r, cl_token := tok, cl_attempt := cr_attempt r + 1, cl_stole := True\<rparr>)"
proof -
  let ?P = "stealable job scope plan now"
  obtain q qs where q: "filter ?P rows = q # qs"
    using assms(2,3) by (cases "filter ?P rows") (auto simp: filter_empty_conv)
  then have "q \<in> set (filter ?P rows)" by simp
  with assms(1-3) have "q = r" by (auto simp: stealable_def dest: distinct_key_eq)
  with q have "filter ?P rows = r # qs" by simp
  moreover have "has_key (jb_name job, scope, plan) rows"
    using assms(2,3) by (auto simp: has_key_def list_ex_iff stealable_def)
  moreover have "\<not> list_ex (\<lambda>r. cr_id r = i) rows"
    using assms(5) by (auto simp: list_ex_iff)
  ultimately show ?thesis
    using assms(4) by (simp add: tryClaim_def Let_def)
qed

section \<open>A concrete history\<close>

text \<open>A job is claimed at time 1000 seconds by one instance, which dies; 200 seconds later another
  instance sweeps, claims the plan again and finishes it.\<close>

definition demo_job :: JobSpec where
  "demo_job = \<lparr>jb_name = ''rollup'', jb_cadence = 60 * second, jb_schedule_delay = 0,
     jb_catch_up_mode = CatchUpEveryPlan, jb_catch_up_window = 3600 * second,
     jb_max_plans_per_tick = 3, jb_run_timeout = 100 * second, jb_stale_timeout = 120 * second,
     jb_heartbeat_interval = 30 * second, jb_allow_stale_reentry = False, jb_max_attempts = 3,
     jb_retry_backoff = [300 * second], jb_scopes = Some (StaticScopes [ScopeGlobal]),
     jb_plans_for_scope = None, jb_has_handler = True\<rparr>"

definition claim_step :: "JobSpec \<Rightarrow> gtime \<Rightarrow> gtime \<Rightarrow> uuid \<Rightarrow> uuid \<Rightarrow> cron_sys \<Rightarrow> cron_sys" where
  "claim_step job plan now i tok s =
     (let (res, rows') = tryClaim job ScopeGlobal plan now ''r'' i tok Replied Replied (cs_rows s)
      in s\<lparr>cs_rows := rows', cs_tokens := tok # cs_tokens s,
           cs_grants := grant_of res (jb_name job, ScopeGlobal, plan) @ cs_grants s\<rparr>)"

lemma claim_step_reach:
  "cron_reach s \<Longrightarrow> tok \<notin> set (cs_tokens s) \<Longrightarrow> cron_reach (claim_step job plan now i tok s)"
  by (rule reach_step, assumption) (auto simp: claim_step_def intro: step_claim split: prod.split)

definition demo_plan :: gtime where
  "demo_plan = 960 * second"

definition demo_sys1 :: cron_sys where
  "demo_sys1 = claim_step demo_job demo_plan (1000 * second) 1 101 cron_init"

definition demo_sys2 :: cron_sys where
  "demo_sys2 = claim_step demo_job demo_plan (1200 * second) 2 102
     (demo_sys1\<lparr>cs_rows := snd (markStaleAsFailed ''rollup'' (1200 * second) Replied (cs_rows demo_sys1))\<rparr>)"

definition demo_sys3 :: cron_sys where
  "demo_sys3 = demo_sys2\<lparr>cs_rows := snd (finishSuccess (\<lambda>_. None) 1 102 (1210 * second) 10
     \<lparr>hr_rows_affected = 1, hr_result = []\<rparr> Replied (cs_rows demo_sys2))\<rparr>"

definition demo_row :: "cron_sys \<Rightarrow> cron_row" where
  "demo_row s = hd (cs_rows s)"

lemma demo_reach: "cron_reach demo_sys1" "cron_reach demo_sys2" "cron_reach demo_sys3"
proof -
  show 1: "cron_reach demo_sys1"
    unfolding demo_sys1_def by (rule claim_step_reach[OF reach_init]) (simp add: cron_init_def)
  have "101 = (101::nat) \<and> set (cs_tokens demo_sys1) = {101}" by code_simp
  then show 2: "cron_reach demo_sys2"
    unfolding demo_sys2_def
    by (intro claim_step_reach reach_step[OF 1 step_sweep]) simp
  show "cron_reach demo_sys3"
    unfolding demo_sys3_def by (rule reach_step[OF 2 step_success])
qed

lemma demo_facts:
  "demo_row demo_sys1 \<in> set (cs_rows demo_sys1)"
  "cr_key (demo_row demo_sys1) = (jb_name demo_job, ScopeGlobal, demo_plan)"
  "cr_status (demo_row demo_sys1) = CronRunning" "cr_stale_after (demo_row demo_sys1) < 1200 * second"
  "cr_attempt (demo_row demo_sys1) < cr_max_attempts (demo_row demo_sys1)"
  "1 \<le> jb_max_attempts demo_job" "2 \<notin> cr_id ` set (cs_rows demo_sys1)"
  "demo_row demo_sys2 \<in> set (cs_rows demo_sys2)"
  "cs_grants demo_sys2 = [((''rollup'', ScopeGlobal, demo_plan), 2, 102),
     ((''rollup'', ScopeGlobal, demo_plan), 1, 101)]"
  "demo_row demo_sys3 \<in> set (cs_rows demo_sys3)" "cr_status (demo_row demo_sys3) = CronSuccess"
  by code_simp+

section \<open>Properties\<close>

text \<open>
  C14: a plan runs at most its number of attempts. In every reachable state, whichever instances
  raced and whatever statements failed or lost their answers, the grants of one plan (each the
  licence for one handler run) carry distinct attempt numbers and are no more than the attempt
  counter of the plan's row, which never exceeds its budget.
\<close>

theorem plan_runs_bounded:
  assumes "cron_reach s" and "r \<in> set (cs_rows s)"
  shows "int (length (grants_for (cr_key r) (cs_grants s))) \<le> cr_attempt r
     \<and> cr_attempt r \<le> cr_max_attempts r
     \<and> distinct (map (fst \<circ> snd) (grants_for (cr_key r) (cs_grants s)))"
proof -
  have inv: "cron_inv s" by (rule cron_inv_reach[OF assms(1)])
  then have d: "distinct (map (fst \<circ> snd) (grants_for (cr_key r) (cs_grants s)))"
    unfolding cron_inv_def lease_inv_def by (intro grants_ok_distinct) blast
  have "1 \<le> a \<and> a \<le> cr_attempt r" if "(cr_key r, a, t) \<in> set (cs_grants s)" for a t
    using cron_inv_grant(2,3)[OF inv that] distinct_key_eq[OF cron_inv_rows(1)[OF inv] _ assms(2)]
    by auto
  then have "\<forall>a \<in> set (map (fst \<circ> snd) (grants_for (cr_key r) (cs_grants s))). 1 \<le> a \<and> a \<le> cr_attempt r"
    by (auto simp: grants_for_def)
  from distinct_int_bound[OF d this] d cron_inv_rows(3)[OF inv assms(2)] show ?thesis by simp
qed

theorem plan_runs_bounded_witness:
  "int (length (grants_for (cr_key (demo_row demo_sys2)) (cs_grants demo_sys2)))
     \<le> cr_attempt (demo_row demo_sys2)"
  using plan_runs_bounded[OF demo_reach(2) demo_facts(8)] by blast

text \<open>
  C15: a lost lease can do nothing. Once a plan was granted again, the holder of an earlier grant,
  heartbeating or writing a terminal state under any id at any time, changes nothing, and a
  statement that is answered tells it that the lease is lost.
\<close>

theorem lost_lease_fenced:
  assumes "cron_reach s" and "(k, a, t) \<in> set (cs_grants s)" and "(k, b, u) \<in> set (cs_grants s)"
    and "a < b"
  shows "snd (heartbeat now i t stale reply (cs_rows s)) = cs_rows s
     \<and> snd (finishSuccess marshal i t now dur res reply (cs_rows s)) = cs_rows s
     \<and> snd (finishFailure i t now dur code msg retry reply (cs_rows s)) = cs_rows s
     \<and> fst (heartbeat now i t stale Replied (cs_rows s)) = Some ErrLeaseLost"
proof -
  have "\<forall>r \<in> set (cs_rows s). \<not> holds_lease i t r"
    using newer_grant_no_lease[OF cron_inv_reach[OF assms(1)] assms(2-4)] by blast
  note lost = lost_lease_no_rows[OF this]
  show ?thesis
    by (simp add: heartbeat_def finishSuccess_def finishFailure_def Let_def lost split: sum.split)
qed

theorem lost_lease_fenced_witness:
  "fst (heartbeat 5 1 101 7 Replied (cs_rows demo_sys2)) = Some ErrLeaseLost"
  using lost_lease_fenced[OF demo_reach(2), of "(''rollup'', ScopeGlobal, demo_plan)" 1 101 2 102 5 1 7]
  by (simp add: demo_facts(9))

text \<open>
  A finished plan is final. Once a plan's row is SUCCESS, or FAILED with its budget spent, no
  later step of any instance changes a column of the row or grants the plan again.
\<close>

theorem finished_plan_final:
  assumes "cron_reach s" and "cron_step\<^sup>*\<^sup>* s s'" and "r \<in> set (cs_rows s)"
    and "cr_status r = CronSuccess \<or> cr_status r = CronFailed \<and> cr_max_attempts r \<le> cr_attempt r"
  shows "r \<in> set (cs_rows s')
     \<and> grants_for (cr_key r) (cs_grants s') = grants_for (cr_key r) (cs_grants s)"
  using settled_steps[OF assms(2) cron_inv_reach[OF assms(1)] assms(3)] assms(4)
  by (simp add: cron_settled_def)

theorem finished_plan_final_witness:
  "demo_row demo_sys3 \<in> set (cs_rows (claim_step demo_job demo_plan (9000 * second) 3 103 demo_sys3))"
proof -
  have "103 \<notin> set (cs_tokens demo_sys3)" by code_simp
  then have "cron_step\<^sup>*\<^sup>* demo_sys3 (claim_step demo_job demo_plan (9000 * second) 3 103 demo_sys3)"
    by (intro r_into_rtranclp) (auto simp: claim_step_def intro: step_claim split: prod.split)
  from finished_plan_final[OF demo_reach(3) this demo_facts(10)] demo_facts(11) show ?thesis by blast
qed

text \<open>
  C17: a crashed run is recovered, for every job. When the lease of a plan with attempts left has
  gone stale, the next tick's sweep and claim at the plan (statements answered, fresh id) win it
  back with the next attempt. \<open>AllowStaleReentry\<close> does not matter: the sweep leaves the row FAILED
  with no retry time, which the claim's retry branch takes as due.
\<close>

theorem stale_plan_recovered:
  assumes "cron_reach s" and "r \<in> set (cs_rows s)" and "cr_key r = (jb_name job, scope, plan)"
    and "cr_status r = CronRunning" and "cr_stale_after r < now"
    and "cr_attempt r < cr_max_attempts r" and "1 \<le> jb_max_attempts job"
    and "i \<notin> cr_id ` set (cs_rows s)"
  shows "fst (tryClaim job scope plan now runner i tok Replied Replied
       (snd (markStaleAsFailed (jb_name job) now Replied (cs_rows s))))
     = Inr (no_claim\<lparr>cl_id := cr_id r, cl_token := tok, cl_attempt := cr_attempt r + 1, cl_stole := True\<rparr>)"
proof -
  let ?rows = "snd (markStaleAsFailed (jb_name job) now Replied (cs_rows s))"
  have inv: "cron_inv s" by (rule cron_inv_reach[OF assms(1)])
  have "map view ?rows = map view (cs_rows s)" by (rule holder_view)
  then have "map lv_key (map view ?rows) = map lv_key (map view (cs_rows s))"
    "map lv_id (map view ?rows) = map lv_id (map view (cs_rows s))" by simp_all
  then have keys: "map cr_key ?rows = map cr_key (cs_rows s)" "map cr_id ?rows = map cr_id (cs_rows s)"
    by (simp_all add: comp_def)
  from keys(2) have ids: "cr_id ` set ?rows = cr_id ` set (cs_rows s)" by (metis set_map)
  have "cr_next_retry r = None"
    using reach_no_retry[OF assms(1)] assms(2,4) by (auto simp: no_retry_time_def)
  then have st: "stealable job scope plan now (stale_row now r)"
    using assms(3,6) by (simp add: stealable_def stale_row_def cr_key_def)
  have mem: "stale_row now r \<in> set ?rows"
    by (rule mark_in[OF assms(2)]) (use assms(3-5) in \<open>simp add: stale_of_def cr_key_def\<close>)
  have "distinct (map cr_key ?rows)" using keys(1) cron_inv_rows(1)[OF inv] by simp
  from tryClaim_steals[OF this mem st assms(7), of i] ids assms(8)
  show ?thesis by (simp add: stale_row_def)
qed

theorem stale_plan_recovered_witness:
  "\<not> jb_allow_stale_reentry demo_job
   \<and> fst (tryClaim demo_job ScopeGlobal demo_plan (1200 * second) ''r'' 2 102 Replied Replied
       (snd (markStaleAsFailed (jb_name demo_job) (1200 * second) Replied (cs_rows demo_sys1))))
     = Inr (no_claim\<lparr>cl_id := cr_id (demo_row demo_sys1), cl_token := 102,
         cl_attempt := cr_attempt (demo_row demo_sys1) + 1, cl_stole := True\<rparr>)"
  using stale_plan_recovered[OF demo_reach(1) demo_facts(1-7)]
  by (simp add: demo_job_def)

end
