(* ===== verification/SchedPlan.thy ===== *)
theory SchedPlan
  imports SchedSafety
begin

text \<open>
  Which plans a tick attempts, how long a lease lasts, and where planning, leases and terminal
  writes fall short of what the package documents.
\<close>

section \<open>Complete planning\<close>

lemma plans_from_complete:
  "0 < c \<Longrightarrow> k < n \<Longrightarrow> t + int k * c \<le> latest \<Longrightarrow> t + int k * c \<in> set (plans_from n t latest c)"
proof (induction n arbitrary: t k)
  case (Suc n)
  have "0 \<le> int k * c" using Suc.prems(1) by simp
  with Suc.prems(3) have t: "\<not> latest < t" by linarith
  show ?case
  proof (cases k)
    case (Suc j)
    with Suc.prems have "t + c + int j * c \<in> set (plans_from n (t + c) latest c)"
      by (intro Suc.IH) (simp_all add: algebra_simps)
    with Suc t show ?thesis by (simp add: algebra_simps)
  qed (use t in simp)
qed simp

lemma plans_from_full:
  "0 < c \<Longrightarrow> int n * c + t \<le> latest + c \<Longrightarrow> length (plans_from n t latest c) = n"
proof (induction n arbitrary: t)
  case (Suc n)
  have "0 \<le> int n * c" using Suc.prems(1) by simp
  with Suc.prems(2) have "\<not> latest < t" by (simp add: algebra_simps)
  with Suc show ?case by (simp add: algebra_simps)
qed simp

lemma grid_diff:
  assumes "0 < c" and "x mod c = (0::int)" and "y mod c = 0" and "x \<le> y"
  obtains k where "y = x + int k * c"
proof -
  obtain a b where ab: "x = c * a" "y = c * b" using assms(2,3) by (meson mod_0_imp_dvd dvdE)
  with assms(1,4) have "a \<le> b" by simp
  with ab have "y = x + int (nat (b - a)) * c" by (simp add: algebra_simps)
  then show thesis using that by blast
qed

text \<open>The stored plans of a job in a scope, and the view of the newest.\<close>

definition stored :: "JobSpec \<Rightarrow> Scope \<Rightarrow> cron_row list \<Rightarrow> cron_row list" where
  "stored job scope rows = filter (\<lambda>r. cr_job r = jb_name job \<and> cr_scope r = scope) rows"

definition info_of :: "cron_row \<Rightarrow> LatestPlanInfo" where
  "info_of r = \<lparr>lp_found = True, lp_plan_time = cr_plan r, lp_status = Some (cr_status r),
     lp_attempt = cr_attempt r, lp_max_attempts = cr_max_attempts r,
     lp_next_retry_at = (case cr_next_retry r of None \<Rightarrow> 0 | Some t \<Rightarrow> t)\<rparr>"

lemma latestPlan_stored:
  "latestPlan (jb_name job) scope Replied rows
     = Inr (case newest (stored job scope rows) of None \<Rightarrow> no_plan_info | Some r \<Rightarrow> info_of r)"
  by (simp add: latestPlan_def stored_def info_of_def split: option.split)

text \<open>Where the every-plan loop starts: the oldest plan it may still claim.\<close>

lemma start_grid:
  assumes "0 < jb_cadence job" and "latest mod jb_cadence job = 0"
    and "lp_found info \<Longrightarrow> lp_plan_time info mod jb_cadence job = 0"
  shows "every_plan_start job now latest info mod jb_cadence job = 0"
  using assms FloorPlan_grid[OF assms(1)]
  by (auto simp: every_plan_start_def Let_def mod_add_eq[symmetric])

lemma start_window:
  assumes "0 < jb_cadence job" and "0 < jb_catch_up_window job"
  shows "now - jb_catch_up_window job \<le> every_plan_start job now latest info"
  using assms FloorPlan_next[OF assms(1), of "now - jb_catch_up_window job"]
  by (auto simp: every_plan_start_def Let_def)

lemma start_newest:
  assumes "0 < jb_cadence job" and "lp_found info"
  shows "lp_plan_time info \<le> every_plan_start job now latest info"
    and "\<not> RetryEligible now info \<Longrightarrow> lp_plan_time info < every_plan_start job now latest info"
  using assms FloorPlan_next[OF assms(1), of "now - jb_catch_up_window job"]
    FloorPlan_le[of "now - jb_catch_up_window job" "jb_cadence job"]
    FloorPlan_next[OF assms(1), of latest] FloorPlan_le[of latest "jb_cadence job"]
  by (auto simp: every_plan_start_def Let_def)

lemma start_least:
  assumes c: "0 < jb_cadence job" and w: "0 < jb_catch_up_window job"
    and grid: "p mod jb_cadence job = 0" "lp_plan_time info mod jb_cadence job = 0"
    and found: "lp_found info" and p: "now - jb_catch_up_window job \<le> p" "lp_plan_time info < p"
  shows "every_plan_start job now latest info \<le> p"
proof -
  have "lp_plan_time info + jb_cadence job \<le> p" by (rule grid_step[OF c grid(2,1) p(2)])
  moreover have "FloorPlan (now - jb_catch_up_window job) (jb_cadence job) < now - jb_catch_up_window job
      \<Longrightarrow> FloorPlan (now - jb_catch_up_window job) (jb_cadence job) + jb_cadence job \<le> p"
    using grid_step[OF c FloorPlan_grid[OF c] grid(1), of "now - jb_catch_up_window job"] p(1) by simp
  ultimately show ?thesis
    using found w p FloorPlan_le[of "now - jb_catch_up_window job" "jb_cadence job"]
    by (auto simp: every_plan_start_def Let_def)
qed

text \<open>The plans of a tick of an every-plan job without a hook.\<close>

lemma every_plan_eq:
  assumes "jb_plans_for_scope job = None" and "jb_catch_up_mode job = CatchUpEveryPlan"
    and "newest (stored job scope rows) = Some r"
  shows "plansForTick job scope now Replied rows
    = Inr (plans_from (nat (jb_max_plans_per_tick job))
        (every_plan_start job now (FloorPlan (now - jb_schedule_delay job) (jb_cadence job)) (info_of r))
        (FloorPlan (now - jb_schedule_delay job) (jb_cadence job)) (jb_cadence job))"
  using assms FloorPlan_le[of "now - jb_schedule_delay job" "jb_cadence job"]
  by (simp add: plansForTick_def latestPlan_stored Let_def)


lemma validate_every_plan:
  "job_validate job = None \<Longrightarrow> jb_plans_for_scope job = None \<Longrightarrow> jb_catch_up_mode job = CatchUpEveryPlan
     \<Longrightarrow> 0 < jb_cadence job \<and> 0 < jb_max_plans_per_tick job"
  by (auto simp: job_validate_def split: if_splits)

lemma stored_newest:
  assumes "distinct (map cr_key rows)" and "newest (stored job scope rows) = Some r"
    and "q \<in> set (stored job scope rows)"
  shows "cr_plan q \<le> cr_plan r" and "cr_plan q = cr_plan r \<Longrightarrow> q = r"
proof -
  have r: "r \<in> set (stored job scope rows)" "\<forall>s \<in> set (stored job scope rows). cr_plan s \<le> cr_plan r"
    using newest_Some[OF assms(2)] by blast+
  with assms(3) show "cr_plan q \<le> cr_plan r" by blast
  assume "cr_plan q = cr_plan r"
  with r(1) assms(3) have "cr_key q = cr_key r" by (simp add: stored_def cr_key_def)
  with r(1) assms(1,3) show "q = r" by (auto simp: stored_def dest: distinct_key_eq)
qed

section \<open>Properties\<close>

lemma plans_from_reaches:
  assumes c: "0 < c" and "start + int k * c \<le> latest"
  shows "start + int k * c \<in> set (plans_from n start latest c) \<or> length (plans_from n start latest c) = n"
proof (cases "k < n")
  case True
  with plans_from_complete[OF c True, of start latest] assms(2) show ?thesis by simp
next
  case False
  then have "int n * c \<le> int k * c" using c by (intro mult_right_mono) simp_all
  with assms(2) c have "int n * c + start \<le> latest + c" by linarith
  from plans_from_full[OF c this] show ?thesis by simp
qed



text \<open>
  C19: a heartbeat protects the lease until the next one. For a registered job whose stale timeout
  is a whole number of seconds, after an accepted heartbeat at \<open>t\<close> the plan's row is, at any time up
  to a heartbeat interval later, neither swept as stale nor claimable by any instance for any job.
\<close>

theorem heartbeat_protects_lease:
  assumes "job_validate job = None" and "second dvd jb_stale_timeout job"
    and "heartbeat t i tok (jb_stale_timeout job) Replied rows = (None, rows')"
    and "now \<le> t + jb_heartbeat_interval job"
  shows "\<exists>r \<in> set rows'. holds_lease i tok r \<and> (\<forall>name. \<not> stale_of name now r)
     \<and> (\<forall>job' scope plan. \<not> stealable job' scope plan now r)"
proof -
  have len: "lease_length (jb_stale_timeout job) = jb_stale_timeout job"
    using validate_None[OF assms(1)] by (intro lease_length_whole[OF assms(2)]) linarith
  obtain r where r: "r \<in> set rows" "holds_lease i tok r"
    using assms(3) by (auto simp: heartbeat_def lease_update_def Let_def split: if_splits)
  let ?r = "beat_row t (jb_stale_timeout job) r"
  have "rows' = update_where (holds_lease i tok) (beat_row t (jb_stale_timeout job)) rows"
    using assms(3) by (auto simp: heartbeat_def lease_update_def Let_def)
  with r have "?r \<in> set rows'" by (auto simp: in_update_where intro!: bexI[of _ r])
  moreover have "\<not> cr_stale_after ?r < now"
    using validate_None[OF assms(1)] assms(4) by (simp add: beat_row_def len)
  moreover have "holds_lease i tok ?r" using r(2) by (simp add: beat_row_def holds_lease_def)
  ultimately show ?thesis
    by (intro bexI[of _ ?r]) (auto simp: stale_of_def stealable_def holds_lease_def)
qed

theorem heartbeat_protects_lease_witness:
  "\<exists>r \<in> set (snd (heartbeat (1010 * second) 1 101 (120 * second) Replied (cs_rows demo_sys1))).
     holds_lease 1 101 r \<and> (\<forall>name. \<not> stale_of name (1040 * second) r)"
proof -
  have h: "job_validate demo_job = None" "jb_stale_timeout demo_job = 120 * second"
    "fst (heartbeat (1010 * second) 1 101 (jb_stale_timeout demo_job) Replied (cs_rows demo_sys1)) = None"
    "1040 * second \<le> 1010 * second + jb_heartbeat_interval demo_job"
    by code_simp+
  have "second dvd jb_stale_timeout demo_job" by (simp add: h(2))
  from heartbeat_protects_lease[OF h(1) this _ h(4), of 1 101 "cs_rows demo_sys1"] h(2,3)
  show ?thesis by (metis prod.collapse)
qed

text \<open>
  A job can pass registration with a lease shorter than its heartbeat interval. The stale
  timeout is cut to whole seconds when the lease is written, which registration does not know:
  here a 1.9 s timeout with a 1.5 s heartbeat is accepted, and the claimed plan is swept as stale
  before its first heartbeat is due.
\<close>

definition subsecond_job :: JobSpec where
  "subsecond_job = demo_job\<lparr>jb_run_timeout := 1600 * millisecond, jb_stale_timeout := 1900 * millisecond,
     jb_heartbeat_interval := 1500 * millisecond\<rparr>"

theorem subsecond_lease_expires:
  "job_validate subsecond_job = None
   \<and> (let rows = snd (tryClaim subsecond_job ScopeGlobal demo_plan (1000 * second) ''r'' 1 101
                        Replied Replied []);
          now = 1000 * second + 1400 * millisecond
      in rows \<noteq> [] \<and> now < 1000 * second + jb_heartbeat_interval subsecond_job
         \<and> fst (markStaleAsFailed (jb_name subsecond_job) now Replied rows) = Inr 1)"
  by code_simp

text \<open>
  An every-plan job abandons a failed plan in backoff. Whenever a newer plan of the job is
  stored, no tick at any time plans the older one again, although its row is FAILED with attempts
  left and, once the backoff has passed, the claim statement would grant it.
\<close>

theorem backoff_retry_stranded:
  assumes "job_validate job = None" "jb_plans_for_scope job = None"
      "jb_catch_up_mode job = CatchUpEveryPlan"
    and "q \<in> set (stored job scope rows)" and "q' \<in> set (stored job scope rows)"
    and "cr_plan q < cr_plan q'" and "cr_status q = CronFailed" and "cr_next_retry q = Some w"
    and "cr_attempt q < cr_max_attempts q"
  shows "(\<forall>now ps. plansForTick job scope now Replied rows = Inr ps \<longrightarrow> cr_plan q \<notin> set ps)
     \<and> (\<forall>now. w \<le> now \<longrightarrow> stealable job scope (cr_plan q) now q)"
proof -
  have c: "0 < jb_cadence job" using validate_every_plan[OF assms(1-3)] by simp
  have "stored job scope rows \<noteq> []" using assms(4) by auto
  then obtain r where r: "newest (stored job scope rows) = Some r"
    using newest_None by (metis not_None_eq)
  have lt: "cr_plan q < cr_plan r" using newest_Some[OF r] assms(5,6) by force
  have i: "lp_found (info_of r)" "lp_plan_time (info_of r) = cr_plan r" by (simp_all add: info_of_def)
  have "cr_plan q \<notin> set ps" if ps: "plansForTick job scope now Replied rows = Inr ps" for now ps
  proof
    assume "cr_plan q \<in> set ps"
    with ps every_plan_eq[OF assms(2,3) r, of now]
    have "every_plan_start job now (FloorPlan (now - jb_schedule_delay job) (jb_cadence job)) (info_of r)
        \<le> cr_plan q"
      using plans_from_props(2)[OF c] by auto
    with start_newest(1)[OF c i(1), of now "FloorPlan (now - jb_schedule_delay job) (jb_cadence job)"]
      i(2) lt show False by simp
  qed
  moreover have "stealable job scope (cr_plan q) now q" if "w \<le> now" for now
    using assms(4,7-9) that by (simp add: stealable_def stored_def cr_key_def)
  ultimately show ?thesis by blast
qed

definition failed_env :: plan_env where
  "failed_env = \<lparr>pe_runner = ''r'', pe_new_id = 1, pe_token = 101, pe_insert = Replied,
     pe_steal = Replied, pe_meanwhile = (\<lambda>rs. rs),
     pe_outcome = HandlerPanicked ''boom'', pe_duration_ms = 5, pe_finish_now = 1000 * second,
     pe_finish = Replied, pe_marshal = (\<lambda>_. None)\<rparr>"

definition done_env :: plan_env where
  "done_env = failed_env\<lparr>pe_new_id := 2, pe_token := 102, pe_finish_now := 1030 * second,
     pe_outcome := HandlerReturned \<lparr>hr_rows_affected = 0, hr_result = []\<rparr>\<rparr>"

definition stranded_rows :: "cron_row list" where
  "stranded_rows = snd (processPlan demo_job ScopeGlobal (1020 * second) (1025 * second) done_env
     (snd (processPlan demo_job ScopeGlobal demo_plan (1000 * second) failed_env [])))"

theorem backoff_retry_stranded_witness:
  "(case plansForTick demo_job ScopeGlobal (1400 * second) Replied stranded_rows of
      Inl _ \<Rightarrow> False | Inr ps \<Rightarrow> ps \<noteq> [] \<and> demo_plan \<notin> set ps)
   \<and> stealable demo_job ScopeGlobal demo_plan (1400 * second) (stranded_rows ! 0)"
proof -
  let ?q = "stranded_rows ! 0" and ?q' = "stranded_rows ! 1"
  have v: "job_validate demo_job = None" "jb_plans_for_scope demo_job = None"
    "jb_catch_up_mode demo_job = CatchUpEveryPlan"
    "?q \<in> set (stored demo_job ScopeGlobal stranded_rows)"
    "?q' \<in> set (stored demo_job ScopeGlobal stranded_rows)"
    "cr_plan ?q < cr_plan ?q'" "cr_status ?q = CronFailed"
    "cr_next_retry ?q = Some (1300 * second)" "cr_attempt ?q < cr_max_attempts ?q"
    by code_simp+
  have "cr_plan ?q = demo_plan" and "1300 * second \<le> 1400 * second" by code_simp+
  moreover have "case plansForTick demo_job ScopeGlobal (1400 * second) Replied stranded_rows of
      Inl _ \<Rightarrow> False | Inr ps \<Rightarrow> ps \<noteq> []" by code_simp
  ultimately show ?thesis
    using backoff_retry_stranded[OF v] by (auto split: sum.splits)
qed

text \<open>
  A plan can be claimed with a lease that has already run out. A tick claims all its plans at
  the database time it read once, while it runs their handlers one after the other. Here a
  registered job has three plans due; the first two handlers take 95 seconds each, within the run
  timeout, and finish; the third claim, made 190 seconds after the tick began, wins, and another
  instance's sweep at that moment closes the new lease as stale.
\<close>

definition tick_env_at :: "uuid \<Rightarrow> gtime \<Rightarrow> plan_env" where
  "tick_env_at i t = done_env\<lparr>pe_new_id := i, pe_token := 100 + i, pe_finish_now := t\<rparr>"

definition tick_two_done :: "cron_row list" where
  "tick_two_done =
     snd (processPlan demo_job ScopeGlobal (1080 * second) (1250 * second) (tick_env_at 3 (1440 * second))
       (snd (processPlan demo_job ScopeGlobal (1020 * second) (1250 * second) (tick_env_at 2 (1345 * second))
         (cs_rows demo_sys3))))"

theorem tick_clock_lease_stillborn:
  "job_validate demo_job = None
   \<and> plansForTick demo_job ScopeGlobal (1250 * second) Replied (cs_rows demo_sys3)
       = Inr [1020 * second, 1080 * second, 1140 * second]
   \<and> (1345 - 1250) * second \<le> jb_run_timeout demo_job \<and> (1440 - 1345) * second \<le> jb_run_timeout demo_job
   \<and> (let (res, rows) = tryClaim demo_job ScopeGlobal (1140 * second) (1250 * second) ''r'' 4 104
                           Replied Replied tick_two_done
      in claim_granted res \<and> fst (markStaleAsFailed ''rollup'' (1440 * second) Replied rows) = Inr 1)"
  by code_simp

text \<open>
  Two ordinary handler outcomes are never recorded. A handler that succeeds with a result that
  encodes to more than 16 KiB, and one that fails with a valid text the 4000-byte cut splits inside
  a character, leave the table exactly as the run found it, so the row stays RUNNING until it is
  swept as stale (and the plan runs again while attempts are left).
\<close>

theorem outcome_not_recorded:
  "(hr_result res \<noteq> [] \<and> pe_marshal env (hr_result res) = Some b \<and> 16 * 1024 < length b
      \<and> pe_outcome env = HandlerReturned res
    \<longrightarrow> runClaimed job c env rows = (PlanSucceeded (Some ResultTooLarge), pe_meanwhile env rows))
   \<and> (let msg = replicate 3999 (CHR 0x61) @ [CHR 0xC3, CHR 0xA9] in
      utf8_ok msg
      \<and> (pe_outcome env = HandlerError e \<and> he_message e = msg
         \<longrightarrow> runClaimed job c env rows = (PlanFailed (Some FinishFailureFailed), pe_meanwhile env rows)))"
proof -
  let ?a = "replicate 3999 (CHR 0x61)"
  have ascii: "list_all (\<lambda>c. (of_char c :: nat) < 128) ?a" by (simp add: list_all_iff)
  have tail: "utf8_ok [CHR 0xC3, CHR 0xA9]" "\<not> utf8_ok [CHR 0xC3]" by code_simp+
  have whole: "utf8_ok (?a @ [CHR 0xC3, CHR 0xA9])" using utf8_ascii[OF ascii] tail(1) by simp
  have "take 4000 (?a @ [CHR 0xC3, CHR 0xA9]) = ?a @ [CHR 0xC3]" by simp
  then have cut: "\<not> utf8_ok (take 4000 (?a @ [CHR 0xC3, CHR 0xA9]))"
    using utf8_ascii[OF ascii] tail(2) by simp
  have "runClaimed job c env rows = (PlanSucceeded (Some ResultTooLarge), pe_meanwhile env rows)"
    if "hr_result res \<noteq> []" "pe_marshal env (hr_result res) = Some b" "16 * 1024 < length b"
      "pe_outcome env = HandlerReturned res"
    using that by (simp add: runClaimed_def recovered_def finishSuccess_def encodeResult_def Let_def)
  moreover have "runClaimed job c env rows = (PlanFailed (Some FinishFailureFailed), pe_meanwhile env rows)"
    if "he_message e = ?a @ [CHR 0xC3, CHR 0xA9]" "pe_outcome env = HandlerError e"
    using that cut
    by (simp add: runClaimed_def recovered_def finishFailure_def lease_update_def Let_def split: prod.split)
  ultimately show ?thesis using whole by (simp add: Let_def)
qed

definition big_env :: plan_env where
  "big_env = done_env\<lparr>pe_marshal := (\<lambda>_. Some (replicate 16385 (CHR ''x''))),
     pe_outcome := HandlerReturned \<lparr>hr_rows_affected = 0, hr_result = [(''k'', ''v'')]\<rparr>\<rparr>"

theorem outcome_not_recorded_witness:
  "runClaimed demo_job no_claim big_env [] = (PlanSucceeded (Some ResultTooLarge), [])"
proof -
  have e: "hr_result \<lparr>hr_rows_affected = 0, hr_result = [(''k'', ''v'')]\<rparr> \<noteq> []"
    "16 * 1024 < length (replicate 16385 (CHR ''x''))"
    "pe_marshal big_env r = Some (replicate 16385 (CHR ''x''))"
    "pe_outcome big_env = HandlerReturned \<lparr>hr_rows_affected = 0, hr_result = [(''k'', ''v'')]\<rparr>"
    "pe_meanwhile big_env [] = []" for r
    by (simp_all add: big_env_def done_env_def failed_env_def)
  show ?thesis
    using outcome_not_recorded[THEN conjunct1, rule_format, OF conjI[OF e(1) conjI[OF e(3) conjI[OF e(2,4)]]],
        of demo_job no_claim "[]"] e(5) by simp
qed

end
