(* ===== verification/ReportStore.thy ===== *)
theory ReportStore
  imports GoStrings
begin

text \<open>
  The daemon's durable queue of terminal reports
  (\<^verbatim>\<open>server/internal/daemon/terminalreport/store.go\<close>): one file per execution in one directory.

  The directory is a list of named entries. A file either decodes to a report or does not, and may
  be unreadable (I/O or permissions); each write, rename and remove has an outcome \<open>io_result\<close>:
  done, failed without effect, or done with a failed sync (an error although the change is visible).
  JSON and SHA-256 are parameters: \<open>rc_canon\<close> is the canonical form of a body without its
  envelope, \<open>rc_sha\<close> the digest, \<open>rc_compact\<close> what \<^verbatim>\<open>json.Marshal\<close> makes of a raw body,
  \<open>rc_uuid\<close> the test that a string is a UUID in canonical text. \<open>codec_ok\<close> is the documented
  fact that compaction does not change the value. \<^verbatim>\<open>sort.Slice\<close> leaves the order of reports
  created at the same instant open; the model keeps directory order there.
\<close>

section \<open>Reports\<close>

record report_codec =
  rc_uuid :: "string \<Rightarrow> bool"
  rc_canon :: "string \<Rightarrow> string option"
  rc_sha :: "string \<Rightarrow> string"
  rc_compact :: "string \<Rightarrow> string option"

definition codec_ok :: "report_codec \<Rightarrow> bool" where
  "codec_ok co \<longleftrightarrow> (\<forall>b b'. rc_compact co b = Some b' \<longrightarrow> rc_canon co b' = rc_canon co b)"

record TerminalReportIdentity =
  ti_report_id :: string
  ti_claim_fence :: string
  ti_payload_sha :: string

record Report =
  rp_task_id :: string
  rp_kind :: string
  rp_identity :: TerminalReportIdentity
  rp_body :: string
  rp_created_at :: gtime

definition TerminalReportDigest :: "report_codec \<Rightarrow> string \<Rightarrow> string \<Rightarrow> string option" where
  "TerminalReportDigest co kind payload =
     (if kind \<noteq> ''complete'' \<and> kind \<noteq> ''fail'' then None
      else case rc_canon co payload of
             None \<Rightarrow> None
           | Some canonical \<Rightarrow> Some (rc_sha co (kind @ [CHR 0x0A] @ canonical)))"

definition fence_ok :: "string \<Rightarrow> bool" where
  "fence_ok s = (case Atoi s of None \<Rightarrow> False | Some n \<Rightarrow> 0 < n \<and> Itoa (nat n) = s)"

definition report_validate :: "report_codec \<Rightarrow> Report \<Rightarrow> bool" where
  "report_validate co r =
     (if \<not> rc_uuid co (rp_task_id r) then False
      else if \<not> rc_uuid co (ti_report_id (rp_identity r)) then False
      else if \<not> fence_ok (ti_claim_fence (rp_identity r)) then False
      else if rp_created_at r = 0 then False
      else case TerminalReportDigest co (rp_kind r) (rp_body r) of
             None \<Rightarrow> False
           | Some d \<Rightarrow> d = ti_payload_sha (rp_identity r))"

definition NewReport ::
  "report_codec \<Rightarrow> string \<Rightarrow> string \<Rightarrow> string \<Rightarrow> string \<Rightarrow> string \<Rightarrow> gtime \<Rightarrow> Report option" where
  "NewReport co new_id task fence kind body now =
     (case TerminalReportDigest co kind body of
        None \<Rightarrow> None
      | Some d \<Rightarrow>
          let r = \<lparr>rp_task_id = task, rp_kind = kind,
                   rp_identity = \<lparr>ti_report_id = new_id, ti_claim_fence = fence, ti_payload_sha = d\<rparr>,
                   rp_body = body, rp_created_at = now\<rparr>
          in if report_validate co r then Some r else None)"

definition report_filename :: "Report \<Rightarrow> string" where
  "report_filename r = rp_task_id r @ ''-'' @ ti_claim_fence (rp_identity r) @ ''.json''"

section \<open>The directory\<close>

datatype file_content = Decodes Report | Undecodable

datatype dir_entry = File bool file_content | Subdir

type_synonym dir = "(string \<times> dir_entry) list"

datatype io_result = IoDone | IoFailed | IoUnsynced

definition dir_del :: "string \<Rightarrow> dir \<Rightarrow> dir" where
  "dir_del n d = filter (\<lambda>e. fst e \<noteq> n) d"

definition dir_put :: "string \<Rightarrow> dir_entry \<Rightarrow> dir \<Rightarrow> dir" where
  "dir_put n e d = dir_del n d @ [(n, e)]"

definition durableRename :: "io_result \<Rightarrow> string \<Rightarrow> string \<Rightarrow> dir \<Rightarrow> bool \<times> dir" where
  "durableRename io from to d =
     (case map_of d from of
        None \<Rightarrow> (False, d)
      | Some e \<Rightarrow>
          if io = IoFailed \<or> map_of d to = Some Subdir then (False, d)
          else (io = IoDone, dir_put to e (dir_del from d)))"

text \<open>\<open>ReadPathError\<close> covers every error of \<^verbatim>\<open>os.ReadFile\<close> except a missing file; reading a
  directory is one of them.\<close>

datatype read_result = ReadOk Report | ReadMissing | ReadPathError | ReadInvalid

definition readReport :: "report_codec \<Rightarrow> string \<Rightarrow> dir \<Rightarrow> read_result" where
  "readReport co path d =
     (case map_of d path of
        None \<Rightarrow> ReadMissing
      | Some Subdir \<Rightarrow> ReadPathError
      | Some (File False _) \<Rightarrow> ReadPathError
      | Some (File True Undecodable) \<Rightarrow> ReadInvalid
      | Some (File True (Decodes r)) \<Rightarrow> if report_validate co r then ReadOk r else ReadInvalid)"

section \<open>Saving\<close>

datatype store_error =
    InvalidReport | ConflictingReport | ReadExistingFailed | RetainedForDiagnosis | StatFailed
  | MarshalReportFailed | PersistFailed

text \<open>\<open>stat_ok\<close> is what the two \<^verbatim>\<open>os.Stat\<close> calls do on an I/O error; they find a missing file
  missing.\<close>

definition Save ::
  "report_codec \<Rightarrow> bool \<Rightarrow> io_result \<Rightarrow> Report \<Rightarrow> dir \<Rightarrow> (store_error + Report) \<times> dir" where
  "Save co stat_ok io r d =
     (if \<not> report_validate co r then (Inl InvalidReport, d)
      else
        let path = report_filename r in
        case readReport co path d of
          ReadOk existing \<Rightarrow>
            if rp_kind existing \<noteq> rp_kind r
               \<or> ti_payload_sha (rp_identity existing) \<noteq> ti_payload_sha (rp_identity r)
            then (Inl ConflictingReport, d)
            else (Inr existing, d)
        | ReadPathError \<Rightarrow> (Inl ReadExistingFailed, d)
        | ReadInvalid \<Rightarrow> (Inl ReadExistingFailed, d)
        | ReadMissing \<Rightarrow>
            if \<not> stat_ok then (Inl StatFailed, d)
            else if map_of d (path @ ''.rejected'') \<noteq> None then (Inl RetainedForDiagnosis, d)
            else if map_of d (path @ ''.corrupt'') \<noteq> None then (Inl RetainedForDiagnosis, d)
            else
              (case rc_compact co (rp_body r) of
                 None \<Rightarrow> (Inl MarshalReportFailed, d)
               | Some body \<Rightarrow>
                   let d' = dir_put path (File True (Decodes (r\<lparr>rp_body := body\<rparr>))) d in
                   (case io of
                      IoDone \<Rightarrow> (Inr r, d')
                    | IoFailed \<Rightarrow> (Inl PersistFailed, d)
                    | IoUnsynced \<Rightarrow> (Inl PersistFailed, d'))))"

section \<open>Reading the queue\<close>

record pending_out =
  po_reports :: "Report list"
  po_failures :: "string list"
  po_dir :: dir

definition pending_entry ::
  "report_codec \<Rightarrow> (string \<Rightarrow> io_result) \<Rightarrow> string \<times> dir_entry \<Rightarrow> pending_out \<Rightarrow> pending_out" where
  "pending_entry co io entry out =
     (case entry of (name, e) \<Rightarrow>
       if e = Subdir \<or> \<not> HasSuffix name ''.json'' then out
       else
         let corrupt = out\<lparr>po_failures := po_failures out @ [name],
               po_dir := snd (durableRename (io name) name (name @ ''.corrupt'') (po_dir out))\<rparr>
         in case readReport co name (po_dir out) of
              ReadOk r \<Rightarrow>
                if name \<noteq> report_filename r then corrupt
                else out\<lparr>po_reports := po_reports out @ [r]\<rparr>
            | ReadInvalid \<Rightarrow> corrupt
            | ReadMissing \<Rightarrow> out\<lparr>po_failures := po_failures out @ [name]\<rparr>
            | ReadPathError \<Rightarrow> out\<lparr>po_failures := po_failures out @ [name]\<rparr>)"

definition Pending ::
  "report_codec \<Rightarrow> bool \<Rightarrow> (string \<Rightarrow> io_result) \<Rightarrow> dir \<Rightarrow> pending_out option" where
  "Pending co readdir_ok io d =
     (if \<not> readdir_ok then None
      else
        let out = fold (pending_entry co io) d \<lparr>po_reports = [], po_failures = [], po_dir = d\<rparr>
        in Some (out\<lparr>po_reports := sort_key rp_created_at (po_reports out)\<rparr>))"

section \<open>Settling a report\<close>

definition store_matches :: "report_codec \<Rightarrow> string \<Rightarrow> Report \<Rightarrow> dir \<Rightarrow> bool" where
  "store_matches co path r d =
     (case readReport co path d of
        ReadOk current \<Rightarrow> rp_identity current = rp_identity r
      | _ \<Rightarrow> False)"

definition Confirm :: "report_codec \<Rightarrow> io_result \<Rightarrow> Report \<Rightarrow> dir \<Rightarrow> bool \<times> dir" where
  "Confirm co io r d =
     (if \<not> report_validate co r then (False, d)
      else if \<not> store_matches co (report_filename r) r d then (False, d)
      else case io of
             IoFailed \<Rightarrow> (False, d)
           | IoDone \<Rightarrow> (True, dir_del (report_filename r) d)
           | IoUnsynced \<Rightarrow> (False, dir_del (report_filename r) d))"

definition Reject :: "report_codec \<Rightarrow> io_result \<Rightarrow> Report \<Rightarrow> dir \<Rightarrow> bool \<times> dir" where
  "Reject co io r d =
     (if \<not> report_validate co r then (False, d)
      else if \<not> store_matches co (report_filename r) r d then (False, d)
      else durableRename io (report_filename r) (report_filename r @ ''.rejected'') d)"

section \<open>Facts\<close>

lemma map_of_del [simp]: "map_of (dir_del n d) m = (if m = n then None else map_of d m)"
  by (induction d) (auto simp: dir_del_def)

lemma map_of_put [simp]: "map_of (dir_put n e d) m = (if m = n then Some e else map_of d m)"
  by (auto simp: dir_put_def map_add_def split: option.split)

lemma json_suffix [simp]: "HasSuffix (report_filename r) ''.json''"
  by (simp add: HasSuffix_iff report_filename_def)

lemma not_json [simp]:
  "\<not> HasSuffix (n @ ''.rejected'') ''.json''" "\<not> HasSuffix (n @ ''.corrupt'') ''.json''"
  by (auto simp: HasSuffix_def)

lemma not_name [simp]:
  "n @ ''.rejected'' \<noteq> report_filename r" "n @ ''.corrupt'' \<noteq> report_filename r"
  by (metis json_suffix not_json)+

text \<open>A retained diagnosis file never sits beside a queue entry of the same name.\<close>

definition dir_ok :: "dir \<Rightarrow> bool" where
  "dir_ok d \<longleftrightarrow>
     (\<forall>n. HasSuffix n ''.json'' \<longrightarrow> map_of d n \<noteq> None
        \<longrightarrow> map_of d (n @ ''.corrupt'') = None \<and> map_of d (n @ ''.rejected'') = None)"

lemma Save_dir:
  "snd (Save co st io r d) = d
   \<or> (\<exists>body. snd (Save co st io r d)
          = dir_put (report_filename r) (File True (Decodes (r\<lparr>rp_body := body\<rparr>))) d
        \<and> rc_compact co (rp_body r) = Some body \<and> report_validate co r
        \<and> map_of d (report_filename r) = None
        \<and> map_of d (report_filename r @ ''.corrupt'') = None
        \<and> map_of d (report_filename r @ ''.rejected'') = None)"
proof (cases "readReport co (report_filename r) d")
  case ReadMissing
  then have "map_of d (report_filename r) = None"
    by (auto simp: readReport_def split: option.splits dir_entry.splits bool.splits
        file_content.splits if_splits)
  then show ?thesis
    by (cases io; cases "rc_compact co (rp_body r)") (auto simp: Save_def Let_def ReadMissing)
qed (simp_all add: Save_def Let_def)

lemma Save_keeps: "map_of d n = Some e \<Longrightarrow> map_of (snd (Save co st io r d)) n = Some e"
  using Save_dir[of co st io r d] by auto

lemma Save_dir_ok: "dir_ok d \<Longrightarrow> dir_ok (snd (Save co st io r d))"
  using Save_dir[of co st io r d] by (auto simp: dir_ok_def split: if_splits)

lemma rename_dir_ok:
  "dir_ok d \<Longrightarrow> \<not> HasSuffix to ''.json'' \<Longrightarrow> to = from @ ''.corrupt'' \<or> to = from @ ''.rejected''
     \<Longrightarrow> dir_ok (snd (durableRename io from to d))"
  by (auto simp: dir_ok_def durableRename_def split: option.split)

lemma Confirm_dir_ok: "dir_ok d \<Longrightarrow> dir_ok (snd (Confirm co io r d))"
  by (auto simp: Confirm_def dir_ok_def split: io_result.split)

lemma Reject_dir_ok: "dir_ok d \<Longrightarrow> dir_ok (snd (Reject co io r d))"
  by (auto simp: Reject_def intro: rename_dir_ok)

section \<open>Reading keeps everything\<close>

definition bad_entry :: "report_codec \<Rightarrow> string \<Rightarrow> dir_entry \<Rightarrow> bool" where
  "bad_entry co n e \<longleftrightarrow>
     HasSuffix n ''.json''
     \<and> (e = File True Undecodable
        \<or> (\<exists>r. e = File True (Decodes r) \<and> (\<not> report_validate co r \<or> n \<noteq> report_filename r)))"

text \<open>What the scan has done so far, with \<open>es\<close> still to visit.\<close>

definition scan_inv :: "report_codec \<Rightarrow> dir \<Rightarrow> dir \<Rightarrow> pending_out \<Rightarrow> bool" where
  "scan_inv co d es out \<longleftrightarrow>
     dir_ok (po_dir out)
     \<and> (\<forall>n e. map_of d n = Some e \<longrightarrow> map_of (po_dir out) n = Some e
          \<or> bad_entry co n e \<and> n \<notin> fst ` set es \<and> map_of (po_dir out) (n @ ''.corrupt'') = Some e)
     \<and> (\<forall>r. r \<in> set (po_reports out) \<longleftrightarrow> (\<exists>e. map_of d (report_filename r) = Some e
          \<and> report_filename r \<notin> fst ` set es \<and> e = File True (Decodes r) \<and> report_validate co r))"

lemma rename_keeps:
  assumes "dir_ok d" and "HasSuffix n ''.json''" and "map_of d n = Some e"
  shows "map_of d m = Some f \<Longrightarrow> m \<noteq> n \<Longrightarrow> map_of (snd (durableRename io n (n @ ''.corrupt'') d)) m = Some f"
    and "map_of (snd (durableRename io n (n @ ''.corrupt'') d)) n = Some e
       \<or> map_of (snd (durableRename io n (n @ ''.corrupt'') d)) (n @ ''.corrupt'') = Some e"
  using assms by (auto simp: durableRename_def dir_ok_def)

lemma scan_corrupt:
  assumes inv: "scan_inv co d ((n, e) # es) out" and e: "map_of d n = Some e" and bad: "bad_entry co n e"
    and n: "n \<notin> fst ` set es"
  shows "scan_inv co d es (out\<lparr>po_failures := fs,
     po_dir := snd (durableRename io n (n @ ''.corrupt'') (po_dir out))\<rparr>)"
proof -
  let ?d = "snd (durableRename io n (n @ ''.corrupt'') (po_dir out))"
  have cur: "map_of (po_dir out) n = Some e" and ok: "dir_ok (po_dir out)"
    and json: "HasSuffix n ''.json''"
    using inv e bad by (auto simp: scan_inv_def bad_entry_def)
  note keeps = rename_keeps[OF ok json cur, where io = io]
  have "dir_ok ?d" by (rule rename_dir_ok[OF ok]) simp_all
  moreover have "map_of ?d m = Some f
      \<or> bad_entry co m f \<and> m \<notin> fst ` set es \<and> map_of ?d (m @ ''.corrupt'') = Some f"
    if m: "map_of d m = Some f" for m f
  proof (cases "m = n")
    case True
    with m e bad n keeps(2) show ?thesis by auto
  next
    case False
    from inv m consider "map_of (po_dir out) m = Some f"
      | "bad_entry co m f" "m \<notin> fst ` set es" "map_of (po_dir out) (m @ ''.corrupt'') = Some f"
      by (auto simp: scan_inv_def)
    then show ?thesis
    proof cases
      case 1
      with keeps(1) False show ?thesis by blast
    next
      case 2
      have "m @ ''.corrupt'' \<noteq> n" using json by auto
      with keeps(1) 2 show ?thesis by blast
    qed
  qed
  moreover have "r \<in> set (po_reports out) \<longleftrightarrow> (\<exists>f. map_of d (report_filename r) = Some f
      \<and> report_filename r \<notin> fst ` set es \<and> f = File True (Decodes r) \<and> report_validate co r)" for r
    using inv e bad by (auto simp: scan_inv_def bad_entry_def)
  ultimately show ?thesis by (simp add: scan_inv_def)
qed

lemma scan_skip:
  assumes "scan_inv co d ((n, e) # es) out" and "map_of d n = Some e"
    and "\<And>r. e = File True (Decodes r) \<Longrightarrow> n = report_filename r \<Longrightarrow> \<not> report_validate co r"
  shows "scan_inv co d es (out\<lparr>po_failures := fs\<rparr>)"
  using assms by (auto simp: scan_inv_def)

definition queued :: "report_codec \<Rightarrow> dir \<Rightarrow> Report \<Rightarrow> bool" where
  "queued co d r \<longleftrightarrow>
     map_of d (report_filename r) = Some (File True (Decodes r)) \<and> report_validate co r"

lemma scan_entry:
  assumes inv: "scan_inv co d ((n, e) # es) out" and e: "map_of d n = Some e" and n: "n \<notin> fst ` set es"
  shows "scan_inv co d es (pending_entry co io (n, e) out)"
proof -
  have cur: "map_of (po_dir out) n = Some e"
    using inv e by (auto simp: scan_inv_def)
  have skip: "scan_inv co d es (out\<lparr>po_failures := fs\<rparr>)"
    if "\<And>r. e = File True (Decodes r) \<Longrightarrow> n = report_filename r \<Longrightarrow> \<not> report_validate co r" for fs
    by (rule scan_skip[OF inv e that])
  consider "e = Subdir" | c where "e = File False c" | "e = File True Undecodable"
    | r where "e = File True (Decodes r)"
    by (metis (full_types) dir_entry.exhaust file_content.exhaust)
  then show ?thesis
  proof cases
    case 1
    with skip[of "po_failures out"] show ?thesis by (simp add: pending_entry_def)
  next
    case 2
    with skip[of "po_failures out"] skip[of "po_failures out @ [n]"] cur show ?thesis
      by (simp add: pending_entry_def readReport_def Let_def)
  next
    case 3
    with skip[of "po_failures out"] cur scan_corrupt[OF inv e _ n] show ?thesis
      by (simp add: pending_entry_def readReport_def Let_def bad_entry_def)
  next
    case (4 r)
    show ?thesis
    proof (cases "n = report_filename r \<and> report_validate co r")
      case True
      have "scan_inv co d es (out\<lparr>po_reports := po_reports out @ [r]\<rparr>)"
        using inv e 4 True n by (auto simp: scan_inv_def)
      with 4 True cur show ?thesis by (simp add: pending_entry_def readReport_def Let_def)
    next
      case False
      with 4 skip[of "po_failures out"] cur scan_corrupt[OF inv e _ n] show ?thesis
        by (auto simp: pending_entry_def readReport_def Let_def bad_entry_def)
    qed
  qed
qed

lemma scan_fold:
  "scan_inv co d es out \<Longrightarrow> distinct (map fst es) \<Longrightarrow> set es \<subseteq> set d \<Longrightarrow> distinct (map fst d)
     \<Longrightarrow> scan_inv co d [] (fold (pending_entry co io) es out)"
proof (induction es arbitrary: out)
  case (Cons x es)
  obtain n e where x: "x = (n, e)" by fastforce
  with Cons.prems have "map_of d n = Some e" "n \<notin> fst ` set es" by (auto intro: map_of_is_SomeI)
  with scan_entry Cons x show ?case by simp
qed simp

lemma Pending_inv:
  assumes "Pending co ok io d = Some out" and "dir_ok d" and "distinct (map fst d)"
  shows "dir_ok (po_dir out)"
    and "map_of d n = Some e \<Longrightarrow> map_of (po_dir out) n = Some e
       \<or> bad_entry co n e \<and> map_of (po_dir out) (n @ ''.corrupt'') = Some e"
    and "r \<in> set (po_reports out) \<longleftrightarrow> queued co d r"
    and "sorted (map rp_created_at (po_reports out))"
proof -
  let ?init = "\<lparr>po_reports = [], po_failures = [], po_dir = d\<rparr>"
  have "map_of d m = Some f \<Longrightarrow> m \<in> fst ` set d" for m f by (force dest: map_of_SomeD)
  then have "scan_inv co d d ?init" using assms(2) by (auto simp: scan_inv_def)
  from scan_fold[OF this assms(3) _ assms(3), of io]
  have inv: "scan_inv co d [] (fold (pending_entry co io) d ?init)" by simp
  have out: "po_dir out = po_dir (fold (pending_entry co io) d ?init)"
    "po_reports out = sort_key rp_created_at (po_reports (fold (pending_entry co io) d ?init))"
    using assms(1) by (auto simp: Pending_def Let_def split: if_splits)
  from inv out show "dir_ok (po_dir out)"
    "map_of d n = Some e \<Longrightarrow> map_of (po_dir out) n = Some e
       \<or> bad_entry co n e \<and> map_of (po_dir out) (n @ ''.corrupt'') = Some e"
    "r \<in> set (po_reports out) \<longleftrightarrow> queued co d r"
    by (auto simp: scan_inv_def queued_def)
  show "sorted (map rp_created_at (po_reports out))" using out(2) by simp
qed

lemma queued_not_bad: "queued co d r \<Longrightarrow> \<not> bad_entry co (report_filename r) (File True (Decodes r))"
  by (simp add: queued_def bad_entry_def)

lemma Pending_keeps_queued:
  "Pending co ok io d = Some out \<Longrightarrow> dir_ok d \<Longrightarrow> distinct (map fst d) \<Longrightarrow> queued co d r
     \<Longrightarrow> queued co (po_dir out) r"
  using Pending_inv(2)[of co ok io d out "report_filename r" "File True (Decodes r)"] queued_not_bad[of co d r]
  by (simp add: queued_def)

section \<open>Names stay distinct\<close>

lemma distinct_del: "distinct (map fst d) \<Longrightarrow> distinct (map fst (dir_del n d))"
  by (simp add: dir_del_def distinct_map_filter)

lemma distinct_put: "distinct (map fst d) \<Longrightarrow> distinct (map fst (dir_put n e d))"
  by (auto simp: dir_put_def distinct_del dir_del_def distinct_map_filter)

lemma distinct_rename: "distinct (map fst d) \<Longrightarrow> distinct (map fst (snd (durableRename io a b d)))"
  by (simp add: durableRename_def distinct_del distinct_put split: option.split)

lemma distinct_store_ops:
  assumes "distinct (map fst d)"
  shows "distinct (map fst (snd (Save co st io r d)))" "distinct (map fst (snd (Confirm co io r d)))"
    "distinct (map fst (snd (Reject co io r d)))"
proof -
  show "distinct (map fst (snd (Save co st io r d)))"
    using Save_dir[of co st io r d] assms distinct_put by metis
  show "distinct (map fst (snd (Confirm co io r d)))"
    using assms by (simp add: Confirm_def distinct_del split: io_result.split)
  show "distinct (map fst (snd (Reject co io r d)))"
    using assms by (simp add: Reject_def distinct_rename)
qed

lemma distinct_pending_entry:
  "distinct (map fst (po_dir out)) \<Longrightarrow> distinct (map fst (po_dir (pending_entry co io x out)))"
  by (auto simp: pending_entry_def Let_def distinct_rename split: prod.split read_result.split)

lemma distinct_Pending:
  assumes "Pending co ok io d = Some out" and "distinct (map fst d)"
  shows "distinct (map fst (po_dir out))"
proof -
  have "distinct (map fst (po_dir (fold (pending_entry co io) es out)))"
    if "distinct (map fst (po_dir out))" for es out
    using that by (induction es arbitrary: out) (simp_all add: distinct_pending_entry)
  from this[of "\<lparr>po_reports = [], po_failures = [], po_dir = d\<rparr>" d] assms show ?thesis
    by (auto simp: Pending_def Let_def split: if_splits)
qed

definition dir_wf :: "dir \<Rightarrow> bool" where
  "dir_wf d \<longleftrightarrow> distinct (map fst d) \<and> dir_ok d"

lemma dir_wf_ops:
  assumes "dir_wf d"
  shows "dir_wf (snd (Save co st io r d))" "dir_wf (snd (Confirm co io' r d))"
    "dir_wf (snd (Reject co io' r d))" "Pending co ok ios d = Some out \<Longrightarrow> dir_wf (po_dir out)"
  using assms
  by (auto simp: dir_wf_def distinct_store_ops Save_dir_ok Confirm_dir_ok Reject_dir_ok
      dest: distinct_Pending Pending_inv(1))

end
