(* ===== verification/ReportSender.thy ===== *)
theory ReportSender
  imports ReportStore
begin

text \<open>
  The delivery loop of terminal reports (\<^verbatim>\<open>server/internal/daemon/terminalreport/sender.go\<close>) and
  the contract it relies on. \<open>durable_queue\<close> states that contract: a step of the queue keeps every
  report pending or held for diagnosis, unless the step confirms it. It is interpreted on the
  store, and \<open>Flush\<close> is shown to be a sequence of the store's steps that confirms only reports the
  server acknowledged.

  The transport is a parameter (one answer per report), as are the settlement handler's outcome,
  the clock and the reports other goroutines save while a request is in flight.
\<close>

section \<open>The contract\<close>

locale durable_queue =
  fixes wf :: "'d \<Rightarrow> bool"
    and kept :: "'d \<Rightarrow> 'r \<Rightarrow> bool"
    and step :: "'op \<Rightarrow> 'd \<Rightarrow> 'd"
    and confirms :: "'op \<Rightarrow> 'r \<Rightarrow> bool"
  assumes wf_step: "wf d \<Longrightarrow> wf (step a d)"
    and kept_step: "wf d \<Longrightarrow> kept d r \<Longrightarrow> \<not> confirms a r \<Longrightarrow> kept (step a d) r"
begin

lemma wf_run: "wf d \<Longrightarrow> wf (fold step as d)"
  by (induction as arbitrary: d) (simp_all add: wf_step)

lemma kept_run:
  "wf d \<Longrightarrow> kept d r \<Longrightarrow> (\<And>a. a \<in> set as \<Longrightarrow> \<not> confirms a r) \<Longrightarrow> kept (fold step as d) r"
proof (induction as arbitrary: d)
  case (Cons a as)
  have "kept (step a d) r" by (rule kept_step) (use Cons.prems in auto)
  with Cons.IH[OF wf_step[OF Cons.prems(1)]] Cons.prems(3) show ?case by simp
qed simp

lemma lost_confirmed:
  "wf d \<Longrightarrow> kept d r \<Longrightarrow> \<not> kept (fold step as d) r \<Longrightarrow> \<exists>a \<in> set as. confirms a r"
  using kept_run by blast

end

section \<open>The store keeps it\<close>

datatype report_op =
    OpSave bool io_result Report
  | OpConfirm io_result Report
  | OpReject io_result Report
  | OpScan bool "string \<Rightarrow> io_result"

fun report_step :: "report_codec \<Rightarrow> report_op \<Rightarrow> dir \<Rightarrow> dir" where
  "report_step co (OpSave st io r) d = snd (Save co st io r d)"
| "report_step co (OpConfirm io r) d = snd (Confirm co io r d)"
| "report_step co (OpReject io r) d = snd (Reject co io r d)"
| "report_step co (OpScan ok io) d =
     (case Pending co ok io d of None \<Rightarrow> d | Some out \<Rightarrow> po_dir out)"

definition held :: "dir \<Rightarrow> Report \<Rightarrow> bool" where
  "held d r \<longleftrightarrow> map_of d (report_filename r @ ''.rejected'') = Some (File True (Decodes r))"

definition kept_report :: "report_codec \<Rightarrow> dir \<Rightarrow> Report \<Rightarrow> bool" where
  "kept_report co d r \<longleftrightarrow> queued co d r \<or> held d r"

fun op_confirms :: "report_op \<Rightarrow> Report \<Rightarrow> bool" where
  "op_confirms (OpConfirm io q) r \<longleftrightarrow>
     report_filename q = report_filename r \<and> rp_identity q = rp_identity r"
| "op_confirms _ r \<longleftrightarrow> False"

lemma matches_queued:
  "store_matches co (report_filename q) q d \<Longrightarrow> queued co d r \<Longrightarrow> report_filename q = report_filename r
     \<Longrightarrow> rp_identity q = rp_identity r"
  by (auto simp: store_matches_def queued_def readReport_def)

lemma matches_present: "store_matches co n q d \<Longrightarrow> map_of d n \<noteq> None"
  by (auto simp: store_matches_def readReport_def split: option.splits)

lemma Confirm_dir:
  "snd (Confirm co io q d) = d
   \<or> snd (Confirm co io q d) = dir_del (report_filename q) d
     \<and> store_matches co (report_filename q) q d"
  by (simp add: Confirm_def split: io_result.split)

lemma Confirm_keeps:
  assumes "kept_report co d r" and "\<not> op_confirms (OpConfirm io q) r"
  shows "kept_report co (snd (Confirm co io q d)) r"
proof (cases "snd (Confirm co io q d) = d")
  case False
  then have d: "snd (Confirm co io q d) = dir_del (report_filename q) d"
    and m: "store_matches co (report_filename q) q d"
    using Confirm_dir by metis+
  show ?thesis
  proof (cases "report_filename q = report_filename r")
    case True
    with assms(2) have "\<not> queued co d r" using matches_queued[OF m] by auto
    with assms(1) d show ?thesis by (simp add: kept_report_def held_def)
  next
    case False
    with assms(1) d show ?thesis by (simp add: kept_report_def held_def queued_def)
  qed
qed (use assms(1) in simp)

lemma Reject_keeps:
  assumes wf: "dir_wf d" and k: "kept_report co d r"
  shows "kept_report co (snd (Reject co io q d)) r"
proof (cases "report_validate co q \<and> store_matches co (report_filename q) q d")
  case True
  have "map_of d (report_filename q) \<noteq> None" using True matches_present by blast
  with wf have none: "map_of d (report_filename q @ ''.rejected'') = None"
    by (simp add: dir_wf_def dir_ok_def)
  show ?thesis
  proof (cases "report_filename q = report_filename r")
    case same: True
    with none k have "queued co d r" by (auto simp: kept_report_def held_def)
    with True same show ?thesis
      by (auto simp: Reject_def durableRename_def kept_report_def queued_def held_def split: option.split)
  next
    case False
    with True none k show ?thesis
      by (auto simp: Reject_def durableRename_def kept_report_def queued_def held_def split: option.split)
  qed
qed (use k in \<open>simp add: Reject_def\<close>)

lemma Save_kept: "kept_report co d r \<Longrightarrow> kept_report co (snd (Save co st io q d)) r"
  by (auto simp: kept_report_def queued_def held_def Save_keeps)

lemma Scan_keeps:
  assumes "dir_wf d" and "kept_report co d r" and "Pending co ok io d = Some out"
  shows "kept_report co (po_dir out) r"
proof -
  have "held d r \<Longrightarrow> held (po_dir out) r"
    using Pending_inv(2)[OF assms(3), of "report_filename r @ ''.rejected''"] assms(1)
    by (auto simp: held_def dir_wf_def bad_entry_def)
  with assms Pending_keeps_queued show ?thesis by (auto simp: kept_report_def dir_wf_def)
qed

interpretation report_queue: durable_queue dir_wf "kept_report co" "report_step co" op_confirms
proof
  fix d a r
  show "dir_wf (report_step co a d)" if "dir_wf d"
    using that by (cases a) (auto simp: dir_wf_ops split: option.split)
  show "kept_report co (report_step co a d) r"
    if "dir_wf d" "kept_report co d r" "\<not> op_confirms a r"
  proof (cases a)
    case (OpConfirm io q)
    with that Confirm_keeps[of co d r io q] show ?thesis by simp
  qed (use that in \<open>auto simp: Save_kept Reject_keeps Scan_keeps split: option.split\<close>)
qed

section \<open>The sender\<close>

record TerminalReportAck =
  ak_identity :: TerminalReportIdentity
  ak_task_id :: string
  ak_status :: string
  ak_task_status :: string

definition validateAck :: "Report \<Rightarrow> TerminalReportAck \<Rightarrow> bool" where
  "validateAck r ack \<longleftrightarrow>
     \<not> (ak_identity ack \<noteq> rp_identity r \<or> ak_task_id ack \<noteq> rp_task_id r \<or> ak_status ack \<noteq> ''accepted''
        \<or> (ak_task_status ack \<noteq> ''completed'' \<and> ak_task_status ack \<noteq> ''failed''))"

definition report_retryDelay :: "nat \<Rightarrow> duration" where
  "report_retryDelay attempts = (if attempts \<ge> 6 then minute else second * 2 ^ attempts)"

text \<open>What the transport answers: an acknowledgement, a validated protocol rejection
  (\<^verbatim>\<open>PermanentError\<close>), or any other error.\<close>

datatype send_result = SendAck TerminalReportAck | SendPermanent | SendFailed

record flush_env =
  fe_ctx_err :: bool
  fe_now :: gtime
  fe_send :: send_result
  fe_saves :: "(bool \<times> io_result \<times> Report) list"
  fe_settle :: "bool option"
  fe_io :: io_result
  fe_after :: gtime

record retryState =
  rs_attempts :: nat
  rs_after :: gtime

record sender =
  sd_dir :: dir
  sd_retries :: "string \<rightharpoonup> retryState"
  sd_pending :: nat
  sd_oldest :: gtime

definition setStats :: "Report list \<Rightarrow> sender \<Rightarrow> sender" where
  "setStats reports s =
     s\<lparr>sd_pending := length reports,
       sd_oldest := (case reports of [] \<Rightarrow> 0 | r # _ \<Rightarrow> rp_created_at r)\<rparr>"

definition back_off :: "flush_env \<Rightarrow> string \<Rightarrow> retryState \<Rightarrow> sender \<Rightarrow> sender" where
  "back_off fe i st s =
     (let n = rs_attempts st + 1 in
      s\<lparr>sd_retries := (sd_retries s)(i \<mapsto>
          \<lparr>rs_attempts = n, rs_after = fe_after fe + report_retryDelay n\<rparr>)\<rparr>)"

definition save_all :: "report_codec \<Rightarrow> (bool \<times> io_result \<times> Report) list \<Rightarrow> dir \<Rightarrow> dir" where
  "save_all co saves d = fold (\<lambda>(st, io, r). report_step co (OpSave st io r)) saves d"

text \<open>One report of the loop; the boolean says that the call's error mentions it.\<close>

definition flush_report ::
  "report_codec \<Rightarrow> flush_env \<Rightarrow> Report \<Rightarrow> sender \<Rightarrow> bool \<times> sender" where
  "flush_report co fe r s =
     (let i = ti_report_id (rp_identity r);
          st = (case sd_retries s i of Some x \<Rightarrow> x | None \<Rightarrow> \<lparr>rs_attempts = 0, rs_after = 0\<rparr>)
      in if fe_now fe < rs_after st then (False, s)
         else
           let s = s\<lparr>sd_dir := save_all co (fe_saves fe) (sd_dir s)\<rparr>;
               forget = (\<lambda>s. s\<lparr>sd_retries := (sd_retries s)(i := None)\<rparr>)
           in (case fe_send fe of
                 SendAck ack \<Rightarrow>
                   if validateAck r ack then
                     (case Confirm co (fe_io fe) r (sd_dir s) of
                        (True, d) \<Rightarrow> (False, forget (s\<lparr>sd_dir := d\<rparr>))
                      | (False, d) \<Rightarrow> (True, s\<lparr>sd_dir := d\<rparr>))
                   else (False, back_off fe i st s)
               | SendPermanent \<Rightarrow>
                   if fe_settle fe = Some False then (True, back_off fe i st s)
                   else
                     (case Reject co (fe_io fe) r (sd_dir s) of
                        (True, d) \<Rightarrow> (False, forget (s\<lparr>sd_dir := d\<rparr>))
                      | (False, d) \<Rightarrow> (True, s\<lparr>sd_dir := d\<rparr>))
               | SendFailed \<Rightarrow> (False, back_off fe i st s)))"

text \<open>The loop over the pending reports; the first boolean says it ran to its end.\<close>

fun flush_loop ::
  "report_codec \<Rightarrow> (Report \<Rightarrow> flush_env) \<Rightarrow> Report list \<Rightarrow> bool \<times> sender \<Rightarrow> bool \<times> bool \<times> sender" where
  "flush_loop co env [] (failed, s) = (True, failed, s)"
| "flush_loop co env (r # rs) (failed, s) =
     (if fe_ctx_err (env r) then (False, True, s)
      else let (f, s') = flush_report co (env r) r s in flush_loop co env rs (failed \<or> f, s'))"

definition pending_reports :: "pending_out option \<Rightarrow> Report list" where
  "pending_reports p = (case p of None \<Rightarrow> [] | Some out \<Rightarrow> po_reports out)"

definition pending_failed :: "pending_out option \<Rightarrow> bool" where
  "pending_failed p = (case p of None \<Rightarrow> True | Some out \<Rightarrow> po_failures out \<noteq> [])"

definition Flush ::
  "report_codec \<Rightarrow> (Report \<Rightarrow> flush_env) \<Rightarrow> bool \<Rightarrow> (string \<Rightarrow> io_result) \<Rightarrow> bool \<Rightarrow> (string \<Rightarrow> io_result)
     \<Rightarrow> sender \<Rightarrow> bool \<times> sender" where
  "Flush co env ok io ok' io' s =
     (let p = Pending co ok io (sd_dir s);
          reports = pending_reports p;
          s = setStats reports (s\<lparr>sd_dir := report_step co (OpScan ok io) (sd_dir s)\<rparr>);
          (finished, failed, s) = flush_loop co env reports (pending_failed p, s)
      in if \<not> finished then (True, s)
         else
           let q = Pending co ok' io' (sd_dir s)
           in (failed \<or> pending_failed q,
               setStats (pending_reports q) (s\<lparr>sd_dir := report_step co (OpScan ok' io') (sd_dir s)\<rparr>)))"

section \<open>A flush is a sequence of queue steps\<close>

definition acked :: "flush_env \<Rightarrow> Report \<Rightarrow> bool" where
  "acked fe r \<longleftrightarrow> (\<exists>ack. fe_send fe = SendAck ack \<and> validateAck r ack)"

definition honest_op :: "(Report \<Rightarrow> flush_env) \<Rightarrow> report_op \<Rightarrow> bool" where
  "honest_op env a \<longleftrightarrow> (\<forall>io q. a = OpConfirm io q \<longrightarrow> acked (env q) q)"

definition honest_run :: "report_codec \<Rightarrow> (Report \<Rightarrow> flush_env) \<Rightarrow> dir \<Rightarrow> dir \<Rightarrow> bool" where
  "honest_run co env d d' \<longleftrightarrow> (\<exists>ops. d' = fold (report_step co) ops d \<and> (\<forall>a \<in> set ops. honest_op env a))"

lemma honest_refl [simp]: "honest_run co env d d"
  unfolding honest_run_def by (rule exI[of _ "[]"]) simp

lemma honest_trans: "honest_run co env d d' \<Longrightarrow> honest_run co env d' d'' \<Longrightarrow> honest_run co env d d''"
  unfolding honest_run_def
proof (elim exE conjE)
  fix as bs
  assume "d' = fold (report_step co) as d" "d'' = fold (report_step co) bs d'"
    "\<forall>a \<in> set as. honest_op env a" "\<forall>a \<in> set bs. honest_op env a"
  then show "\<exists>ops. d'' = fold (report_step co) ops d \<and> (\<forall>a \<in> set ops. honest_op env a)"
    by (intro exI[of _ "as @ bs"]) auto
qed

lemma honest_step: "honest_op env a \<Longrightarrow> honest_run co env d (report_step co a d)"
  unfolding honest_run_def by (rule exI[of _ "[a]"]) simp

lemma honest_saves: "honest_run co env d (save_all co saves d)"
proof (induction saves arbitrary: d)
  case (Cons x saves)
  obtain st io r where x: "x = (st, io, r)" by (cases x)
  have "honest_run co env d (report_step co (OpSave st io r) d)"
    by (rule honest_step) (simp add: honest_op_def)
  from honest_trans[OF this Cons.IH] x show ?case by (simp add: save_all_def)
qed (simp add: save_all_def)

lemma back_off_dir [simp]: "sd_dir (back_off fe i st s) = sd_dir s"
  by (simp add: back_off_def Let_def)

lemma honest_flush_report: "honest_run co env (sd_dir s) (sd_dir (snd (flush_report co (env r) r s)))"
proof -
  let ?d = "save_all co (fe_saves (env r)) (sd_dir s)"
  have saves: "honest_run co env (sd_dir s) ?d" by (rule honest_saves)
  have conf: "honest_run co env ?d (snd (Confirm co (fe_io (env r)) r ?d))" if "acked (env r) r"
    using honest_step[of env "OpConfirm (fe_io (env r)) r" co ?d] that by (simp add: honest_op_def)
  have rej: "honest_run co env ?d (snd (Reject co (fe_io (env r)) r ?d))"
    using honest_step[of env "OpReject (fe_io (env r)) r" co ?d] by (simp add: honest_op_def)
  show ?thesis
  proof (cases "fe_send (env r)")
    case (SendAck ack)
    with saves honest_trans[OF saves conf] show ?thesis
      by (auto simp: flush_report_def Let_def acked_def split: prod.splits bool.splits)
  next
    case SendPermanent
    with saves honest_trans[OF saves rej] show ?thesis
      by (auto simp: flush_report_def Let_def split: prod.splits bool.splits)
  next
    case SendFailed
    with saves show ?thesis by (simp add: flush_report_def Let_def)
  qed
qed

lemma honest_flush_loop:
  "honest_run co env (sd_dir s) (sd_dir (snd (snd (flush_loop co env rs (failed, s)))))"
proof (induction rs arbitrary: failed s)
  case (Cons r rs)
  obtain f s' where f: "flush_report co (env r) r s = (f, s')" by fastforce
  have "honest_run co env (sd_dir s) (sd_dir s')" using honest_flush_report[of co env s r] f by simp
  from honest_trans[OF this Cons.IH] f show ?case by simp
qed simp

lemma honest_scan: "honest_run co env d (report_step co (OpScan ok io) d)"
  by (rule honest_step) (simp add: honest_op_def)

lemma honest_Flush: "honest_run co env (sd_dir s) (sd_dir (snd (Flush co env ok io ok' io' s)))"
proof -
  let ?p = "Pending co ok io (sd_dir s)"
  let ?s1 = "setStats (pending_reports ?p) (s\<lparr>sd_dir := report_step co (OpScan ok io) (sd_dir s)\<rparr>)"
  obtain fin failed s2 where l: "flush_loop co env (pending_reports ?p) (pending_failed ?p, ?s1) = (fin, failed, s2)"
    by (metis prod_cases3)
  have "honest_run co env (sd_dir s) (sd_dir ?s1)" using honest_scan by (simp add: setStats_def)
  from honest_trans[OF this honest_flush_loop, of "pending_reports ?p" "pending_failed ?p"] l
  have 2: "honest_run co env (sd_dir s) (sd_dir s2)" by simp
  have "honest_run co env (sd_dir s2) (report_step co (OpScan ok' io') (sd_dir s2))" by (rule honest_scan)
  with 2 l show ?thesis
    by (auto simp: Flush_def Let_def setStats_def intro: honest_trans split: prod.splits)
qed

section \<open>Properties\<close>

text \<open>
  A flush loses no result. A report pending before a flush is afterwards pending or kept
  beside the queue as rejected, unless the server acknowledged, with the report's own identity
  (id, fence and payload digest), the report or an equal-identity report of the same execution.
  This holds for any answers, I/O failures, handler outcomes and concurrent saves.
\<close>

theorem flush_loses_nothing:
  assumes "dir_wf (sd_dir s)" and "queued co (sd_dir s) r"
    and "(out, s') = Flush co env ok io ok' io' s"
  shows "queued co (sd_dir s') r \<or> held (sd_dir s') r
     \<or> (\<exists>q ack. rp_task_id q = rp_task_id r \<and> rp_identity q = rp_identity r
          \<and> fe_send (env q) = SendAck ack \<and> ak_identity ack = rp_identity r
          \<and> ak_task_id ack = rp_task_id r \<and> ak_status ack = ''accepted'')"
proof (cases "\<exists>q ack. rp_task_id q = rp_task_id r \<and> rp_identity q = rp_identity r
          \<and> fe_send (env q) = SendAck ack \<and> ak_identity ack = rp_identity r
          \<and> ak_task_id ack = rp_task_id r \<and> ak_status ack = ''accepted''")
  case neg: False
  have "sd_dir s' = sd_dir (snd (Flush co env ok io ok' io' s))" using assms(3) by (metis snd_conv)
  then obtain ops where ops: "sd_dir s' = fold (report_step co) ops (sd_dir s)"
    "\<forall>a \<in> set ops. honest_op env a"
    using honest_Flush[of co env s ok io ok' io'] by (auto simp: honest_run_def)
  have "\<not> op_confirms a r" if "a \<in> set ops" for a
  proof
    assume c: "op_confirms a r"
    then obtain io q where q: "a = OpConfirm io q" "report_filename q = report_filename r"
      "rp_identity q = rp_identity r" by (cases a) auto
    then have "rp_task_id q = rp_task_id r" by (simp add: report_filename_def)
    moreover have "acked (env q) q" using ops(2) that q(1) by (auto simp: honest_op_def)
    ultimately show False using neg q(3) by (auto simp: acked_def validateAck_def)
  qed
  with report_queue.kept_run[OF assms(1), of co r ops] assms(2) ops(1)
  have "kept_report co (sd_dir s') r" by (simp add: kept_report_def)
  then show ?thesis unfolding kept_report_def by blast
qed blast

text \<open>A codec for the examples: any text is a UUID and a body, the digest is the text itself.\<close>

definition demo_codec :: report_codec where
  "demo_codec = \<lparr>rc_uuid = (\<lambda>_. True), rc_canon = Some, rc_sha = (\<lambda>s. s), rc_compact = Some\<rparr>"

definition demo_report_for :: "string \<Rightarrow> string \<Rightarrow> Report" where
  "demo_report_for task body =
     \<lparr>rp_task_id = task, rp_kind = ''complete'',
      rp_identity = \<lparr>ti_report_id = ''r'' @ task, ti_claim_fence = ''33'',
                     ti_payload_sha = ''complete'' @ [CHR 0x0A] @ body\<rparr>,
      rp_body = body, rp_created_at = 5\<rparr>"

definition demo_sender :: sender where
  "demo_sender = \<lparr>sd_dir = snd (Save demo_codec True IoDone (demo_report_for ''a'' ''{}'') []),
     sd_retries = Map.empty, sd_pending = 0, sd_oldest = 0\<rparr>"

definition lost_answer :: flush_env where
  "lost_answer = \<lparr>fe_ctx_err = False, fe_now = 10, fe_send = SendFailed, fe_saves = [],
     fe_settle = None, fe_io = IoDone, fe_after = 11\<rparr>"

definition demo_flushed :: "bool \<times> sender" where
  "demo_flushed = Flush demo_codec (\<lambda>_. lost_answer) True (\<lambda>_. IoDone) True (\<lambda>_. IoDone) demo_sender"

theorem flush_loses_nothing_witness:
  "queued demo_codec (sd_dir (snd demo_flushed)) (demo_report_for ''a'' ''{}'')
   \<or> held (sd_dir (snd demo_flushed)) (demo_report_for ''a'' ''{}'')"
proof -
  have "dir_ok []" "distinct (map fst ([] :: dir))" by (simp_all add: dir_ok_def)
  then have wf: "dir_wf (sd_dir demo_sender)"
    unfolding demo_sender_def by (simp add: dir_wf_ops(1) dir_wf_def[of "[]"])
  have q: "queued demo_codec (sd_dir demo_sender) (demo_report_for ''a'' ''{}'')" by code_simp
  have "fe_send lost_answer = SendFailed" by (simp add: lost_answer_def)
  moreover have "(fst demo_flushed, snd demo_flushed) = Flush demo_codec (\<lambda>_. lost_answer) True
      (\<lambda>_. IoDone) True (\<lambda>_. IoDone) demo_sender" by (simp add: demo_flushed_def)
  ultimately show ?thesis using flush_loses_nothing[OF wf q] by fastforce
qed

text \<open>
  The first durable result of an execution stands. When a save returns a report, the file of
  the execution holds a valid report of the same kind and payload under the returned identity, and
  no later sequence of saves changes that file: repeating the result returns the first report, a
  contradicting one is refused.
\<close>

theorem first_result_stands:
  assumes "codec_ok co" and "Save co st io r d = (Inr saved, d')"
  shows "\<exists>q. readReport co (report_filename r) (save_all co saves d') = ReadOk q
     \<and> rp_identity q = rp_identity saved \<and> rp_kind q = rp_kind r
     \<and> ti_payload_sha (rp_identity q) = ti_payload_sha (rp_identity r)
     \<and> (\<forall>st' io' r'. report_filename r' = report_filename r \<longrightarrow> report_validate co r' \<longrightarrow>
          fst (Save co st' io' r' (save_all co saves d'))
            = (if rp_kind r' = rp_kind r \<and> ti_payload_sha (rp_identity r') = ti_payload_sha (rp_identity r)
               then Inr q else Inl ConflictingReport))"
proof -
  obtain q where q: "map_of d' (report_filename r) = Some (File True (Decodes q))" "report_validate co q"
    "rp_identity q = rp_identity saved" "rp_kind q = rp_kind r"
    "ti_payload_sha (rp_identity q) = ti_payload_sha (rp_identity r)"
  proof (cases "readReport co (report_filename r) d")
    case (ReadOk existing)
    then have "map_of d (report_filename r) = Some (File True (Decodes existing))" "report_validate co existing"
      by (auto simp: readReport_def split: option.splits dir_entry.splits bool.splits
          file_content.splits if_splits)
    with ReadOk assms(2) that show thesis by (auto simp: Save_def Let_def split: if_splits)
  next
    case ReadMissing
    then obtain body where b: "rc_compact co (rp_body r) = Some body" "saved = r" "report_validate co r"
      "d' = dir_put (report_filename r) (File True (Decodes (r\<lparr>rp_body := body\<rparr>))) d"
      using assms(2) by (auto simp: Save_def Let_def split: if_splits option.splits io_result.splits)
    have "rc_canon co body = rc_canon co (rp_body r)" using b(1) assms(1) by (simp add: codec_ok_def)
    then have "TerminalReportDigest co (rp_kind r) body = TerminalReportDigest co (rp_kind r) (rp_body r)"
      by (simp add: TerminalReportDigest_def)
    then have "report_validate co (r\<lparr>rp_body := body\<rparr>)"
      using b(3) by (auto simp: report_validate_def split: option.splits if_splits)
    with b that show thesis by simp
  qed (use assms(2) in \<open>auto simp: Save_def Let_def split: if_splits\<close>)
  have "map_of (save_all co saves d') (report_filename r) = Some (File True (Decodes q))"
    using q(1) unfolding save_all_def
    by (induction saves arbitrary: d') (auto simp: Save_keeps)
  then have "readReport co (report_filename r) (save_all co saves d') = ReadOk q"
    using q(2) by (simp add: readReport_def)
  with q show ?thesis by (auto simp: Save_def Let_def)
qed

theorem first_result_stands_witness:
  "fst (Save demo_codec True IoDone (demo_report_for ''a'' ''[]'') (sd_dir demo_sender)) = Inl ConflictingReport"
proof -
  let ?r = "demo_report_for ''a'' ''{}''" and ?r' = "demo_report_for ''a'' ''[]''"
  have ok: "codec_ok demo_codec" by (simp add: codec_ok_def demo_codec_def)
  have s: "Save demo_codec True IoDone ?r [] = (Inr ?r, sd_dir demo_sender)" by code_simp
  have f: "report_filename ?r' = report_filename ?r" "report_validate demo_codec ?r'"
    "ti_payload_sha (rp_identity ?r') \<noteq> ti_payload_sha (rp_identity ?r)" by code_simp+
  have "save_all demo_codec [] (sd_dir demo_sender) = sd_dir demo_sender" by (simp add: save_all_def)
  with first_result_stands[OF ok s, of "[]"] f show ?thesis by auto
qed

text \<open>
  Reading the queue finds every pending report and destroys nothing. The reports returned are
  exactly the valid, correctly named ones, oldest first; every directory entry is still there
  under its name or, if it was damaged or misnamed but readable, under the name with .corrupt.
\<close>

theorem pending_complete:
  assumes "dir_wf d" and "Pending co True io d = Some out"
  shows "set (po_reports out) = {r. queued co d r} \<and> sorted (map rp_created_at (po_reports out))
     \<and> (\<forall>n e. map_of d n = Some e \<longrightarrow> map_of (po_dir out) n = Some e
          \<or> (\<forall>c. e \<noteq> File False c)
            \<and> (\<forall>r. e = File True (Decodes r) \<longrightarrow> \<not> (n = report_filename r \<and> report_validate co r))
            \<and> map_of (po_dir out) (n @ ''.corrupt'') = Some e)"
proof -
  have wf: "dir_ok d" "distinct (map fst d)" using assms(1) by (simp_all add: dir_wf_def)
  note inv = Pending_inv[OF assms(2) wf]
  have "map_of (po_dir out) n = Some e
      \<or> (\<forall>c. e \<noteq> File False c)
        \<and> (\<forall>r. e = File True (Decodes r) \<longrightarrow> \<not> (n = report_filename r \<and> report_validate co r))
        \<and> map_of (po_dir out) (n @ ''.corrupt'') = Some e" if "map_of d n = Some e" for n e
    using inv(2)[OF that] by (auto simp: bad_entry_def)
  with inv(3,4) show ?thesis by blast
qed

theorem pending_complete_witness:
  "set (po_reports (the (Pending demo_codec True (\<lambda>_. IoDone) (sd_dir demo_sender))))
     = {r. queued demo_codec (sd_dir demo_sender) r}"
proof -
  have "dir_wf []" by (simp add: dir_wf_def dir_ok_def)
  then have wf: "dir_wf (sd_dir demo_sender)" unfolding demo_sender_def by (simp add: dir_wf_ops(1))
  have "Pending demo_codec True (\<lambda>_. IoDone) (sd_dir demo_sender)
      = Some (the (Pending demo_codec True (\<lambda>_. IoDone) (sd_dir demo_sender)))"
    by (simp add: Pending_def Let_def)
  from pending_complete[OF wf this] show ?thesis by blast
qed

end
