(* ===== verification/IssueStatus.thy ===== *)
theory IssueStatus
  imports GoStrings "HOL-Library.Product_Lexorder"
begin

text \<open>
  The per-workspace issue status catalog (\<^verbatim>\<open>server/internal/issuestatus/issuestatus.go\<close>): deriving
  a storage key from a display name, and resolving a status to the category whose behaviour it
  carries. The catalog of one workspace is the list of its rows of \<^verbatim>\<open>issue_status\<close>; the queries
  the package calls (\<^verbatim>\<open>pkg/db/queries/issue_status.sql\<close>) are functions of it that may fail. Rows
  of one category and position come in insertion order (the query breaks ties by key).

  Names are byte strings. \<open>slugify\<close> treats every byte outside the key alphabet alike, so ranging
  over bytes or over runes gives the same slug.
\<close>

section \<open>The built-in statuses\<close>

definition Backlog :: string where "Backlog = ''backlog''"
definition Todo :: string where "Todo = ''todo''"
definition InProgress :: string where "InProgress = ''in_progress''"
definition InReview :: string where "InReview = ''in_review''"
definition Done :: string where "Done = ''done''"
definition Blocked :: string where "Blocked = ''blocked''"
definition StatusCancelled :: string where "StatusCancelled = ''cancelled''"

lemmas status_defs = Backlog_def Todo_def InProgress_def InReview_def Done_def Blocked_def
  StatusCancelled_def

definition RequiresExecutor :: "string \<Rightarrow> bool" where
  "RequiresExecutor category =
     (if category = InProgress \<or> category = InReview \<or> category = Blocked then True else False)"

definition canonicalOrder :: "string list" where
  "canonicalOrder = [Backlog, Todo, InProgress, InReview, Done, Blocked, StatusCancelled]"

definition canonicalRank :: "string \<Rightarrow> nat option" where
  "canonicalRank = map_of (zip canonicalOrder [0..<length canonicalOrder])"

definition IsBuiltIn :: "string \<Rightarrow> bool" where
  "IsBuiltIn key \<longleftrightarrow> canonicalRank key \<noteq> None"

definition IsCategory :: "string \<Rightarrow> bool" where
  "IsCategory value = IsBuiltIn value"

definition CategoryRank :: "string \<Rightarrow> nat" where
  "CategoryRank category =
     (case canonicalRank category of Some rank \<Rightarrow> rank | None \<Rightarrow> length canonicalOrder)"

section \<open>Keys\<close>

datatype status_error =
    KeyRequired | KeyPattern | KeyBuiltIn string | UnknownCategory | NoUnusedKey | SlicePanic
  | ErrUnknownStatus | QueryFailed

definition key_byte :: "char \<Rightarrow> bool" where
  "key_byte c \<longleftrightarrow> is_lower c \<or> is_digit c \<or> c = CHR ''_''"

definition keyPattern :: "string \<Rightarrow> bool" where
  "keyPattern s \<longleftrightarrow>
     s \<noteq> [] \<and> length s \<le> 32 \<and> (is_lower (hd s) \<or> is_digit (hd s)) \<and> list_all key_byte s"

definition ValidateKey :: "string \<Rightarrow> status_error + string" where
  "ValidateKey k =
     (let key = ToLower (TrimSpace k) in
      if key = [] then Inl KeyRequired
      else if \<not> keyPattern key then Inl KeyPattern
      else if IsBuiltIn key then Inl (KeyBuiltIn key)
      else Inr key)"

definition maxKeyLen :: nat where
  "maxKeyLen = 32"

fun slug_scan :: "string \<Rightarrow> bool \<Rightarrow> string \<Rightarrow> string" where
  "slug_scan b lastUnderscore [] = b"
| "slug_scan b lastUnderscore (r # rs) =
     (if is_lower r \<or> is_digit r then slug_scan (b @ [r]) False rs
      else if \<not> lastUnderscore \<and> 0 < length b then slug_scan (b @ [CHR ''_'']) True rs
      else slug_scan b lastUnderscore rs)"

definition slugify :: "string \<Rightarrow> string" where
  "slugify name =
     (let slug = trim_byte (CHR ''_'') (slug_scan [] False (ToLower (TrimSpace name)))
      in if maxKeyLen < length slug then trim_byte (CHR ''_'') (take maxKeyLen slug) else slug)"

text \<open>The keys a workspace owns, as Go's map from keys to booleans: entries with distinct keys.\<close>

type_synonym taken_map = "(string \<times> bool) list"

definition keyOccupied :: "string \<Rightarrow> taken_map \<Rightarrow> bool" where
  "keyOccupied key taken =
     (if IsBuiltIn key then True
      else case map_of taken key of Some b \<Rightarrow> b | None \<Rightarrow> False)"

text \<open>A negative limit is a slice bound out of range (\<open>None\<close>).\<close>

definition truncateForSuffix :: "string \<Rightarrow> nat \<Rightarrow> string option" where
  "truncateForSuffix base suffixLen =
     (let limit = int maxKeyLen - int suffixLen in
      if int (length base) \<le> limit then Some base
      else if limit < 0 then None
      else Some (trim_right_byte (CHR ''_'') (take (nat limit) base)))"

definition key_suffix :: "nat \<Rightarrow> string" where
  "key_suffix n = ''_'' @ Itoa n"

text \<open>The scan of \<open>firstFreeKey\<close>: \<open>k\<close> ordinals are left, from \<open>n\<close>.\<close>

fun free_from :: "string \<Rightarrow> taken_map \<Rightarrow> nat \<Rightarrow> nat \<Rightarrow> status_error + string" where
  "free_from base taken n 0 = Inl NoUnusedKey"
| "free_from base taken n (Suc k) =
     (case truncateForSuffix base (length (key_suffix n)) of
        None \<Rightarrow> Inl SlicePanic
      | Some b \<Rightarrow>
          if \<not> keyOccupied (b @ key_suffix n) taken then ValidateKey (b @ key_suffix n)
          else free_from base taken (n + 1) k)"

definition firstFreeKey :: "string \<Rightarrow> taken_map \<Rightarrow> status_error + string" where
  "firstFreeKey base taken =
     (if \<not> keyOccupied base taken then ValidateKey base
      else
        let limit = length taken + length canonicalOrder + 2
        in free_from base taken 2 (limit + 1 - 2))"

definition DeriveKey :: "string \<Rightarrow> string \<Rightarrow> taken_map \<Rightarrow> status_error + string" where
  "DeriveKey name category taken =
     (let slug = slugify name in
      if slug \<noteq> [] then
        (if IsBuiltIn slug then Inl (KeyBuiltIn slug) else firstFreeKey slug taken)
      else if \<not> IsCategory category then Inl UnknownCategory
      else firstFreeKey category taken)"

section \<open>The catalog\<close>

record status_row =
  st_key :: string
  st_name :: string
  st_category :: string
  st_is_system :: bool
  st_position :: int
  st_archived :: bool

type_synonym catalog = "status_row list"

definition GetIssueStatusEntryByKey :: "string \<Rightarrow> catalog \<Rightarrow> status_row option" where
  "GetIssueStatusEntryByKey key cat = find (\<lambda>r. st_key r = key) cat"

definition ListIssueStatusEntries :: "bool \<Rightarrow> catalog \<Rightarrow> status_row list" where
  "ListIssueStatusEntries include_archived cat =
     sort_key (\<lambda>r. (CategoryRank (st_category r), st_position r))
       (filter (\<lambda>r. include_archived \<or> \<not> st_archived r) cat)"

definition ListIssueStatusKeysByCategories :: "string list \<Rightarrow> catalog \<Rightarrow> string list" where
  "ListIssueStatusKeysByCategories cats cat =
     map st_key (filter (\<lambda>r. st_category r \<in> set cats) cat)"

definition seed_names :: "string list" where
  "seed_names = [''Backlog'', ''Todo'', ''In Progress'', ''In Review'', ''Done'', ''Blocked'', ''Cancelled'']"

definition seed_row :: "string \<Rightarrow> string \<Rightarrow> status_row" where
  "seed_row key name = \<lparr>st_key = key, st_name = name, st_category = key, st_is_system = True,
     st_position = 0, st_archived = False\<rparr>"

definition SeedIssueStatusEntries :: "catalog \<Rightarrow> catalog" where
  "SeedIssueStatusEntries cat =
     fold (\<lambda>(key, name) c. if list_ex (\<lambda>r. st_key r = key) c then c else c @ [seed_row key name])
       (zip canonicalOrder seed_names) cat"

definition CreateIssueStatusEntry :: "string \<Rightarrow> string \<Rightarrow> string \<Rightarrow> catalog \<Rightarrow> status_row option \<times> catalog" where
  "CreateIssueStatusEntry key name category cat =
     (if \<not> keyPattern key \<or> \<not> IsCategory category \<or> list_ex (\<lambda>r. st_key r = key) cat then (None, cat)
      else
        let pos = fold max (map (\<lambda>r. st_position r + 1) (filter (\<lambda>r. st_category r = category) cat)) 0;
            r = \<lparr>st_key = key, st_name = name, st_category = category, st_is_system = False,
                 st_position = pos, st_archived = False\<rparr>
        in (Some r, cat @ [r]))"

definition ArchiveIssueStatusEntry :: "string \<Rightarrow> catalog \<Rightarrow> catalog" where
  "ArchiveIssueStatusEntry key cat =
     update_where (\<lambda>r. st_key r = key \<and> \<not> st_is_system r \<and> \<not> st_archived r)
       (\<lambda>r. r\<lparr>st_archived := True\<rparr>) cat"

section \<open>Resolving\<close>

text \<open>A read of the catalog: the rows, or a failed query.\<close>

type_synonym catalog_read = "catalog option"

definition Effective :: "catalog_read \<Rightarrow> string \<Rightarrow> string" where
  "Effective q status =
     (if IsBuiltIn status then status
      else case (case q of None \<Rightarrow> None | Some cat \<Rightarrow> GetIssueStatusEntryByKey status cat) of
             None \<Rightarrow> status
           | Some entry \<Rightarrow> if \<not> IsCategory (st_category entry) then status else st_category entry)"

definition EffectiveAndName :: "catalog_read \<Rightarrow> string \<Rightarrow> string \<times> string" where
  "EffectiveAndName q status =
     (if IsBuiltIn status then (status, [])
      else case (case q of None \<Rightarrow> None | Some cat \<Rightarrow> GetIssueStatusEntryByKey status cat) of
             None \<Rightarrow> (status, [])
           | Some entry \<Rightarrow>
               if \<not> IsCategory (st_category entry) then (status, st_name entry)
               else (st_category entry, st_name entry))"

definition builtInEntry :: "string \<Rightarrow> status_row" where
  "builtInEntry key = \<lparr>st_key = key, st_name = [], st_category = key, st_is_system = True,
     st_position = 0, st_archived = False\<rparr>"

definition Resolve :: "catalog_read \<Rightarrow> string \<Rightarrow> status_error + status_row" where
  "Resolve q status =
     (let key = ToLower (TrimSpace status) in
      if key = [] then Inl ErrUnknownStatus
      else case q of
        None \<Rightarrow> Inl QueryFailed
      | Some cat \<Rightarrow>
          (case GetIssueStatusEntryByKey key cat of
             None \<Rightarrow> if IsBuiltIn key then Inr (builtInEntry key) else Inl ErrUnknownStatus
           | Some entry \<Rightarrow> if st_archived entry then Inl ErrUnknownStatus else Inr entry))"

definition ActiveKeys :: "catalog_read \<Rightarrow> status_error + string list" where
  "ActiveKeys q =
     (case q of
        None \<Rightarrow> Inl QueryFailed
      | Some cat \<Rightarrow>
          (let keys = map st_key (ListIssueStatusEntries False cat)
           in Inr (keys @ filter (\<lambda>key. key \<notin> set keys) canonicalOrder)))"

definition ActiveKeyLabels :: "catalog_read \<Rightarrow> status_error + string list" where
  "ActiveKeyLabels q =
     (case q of
        None \<Rightarrow> Inl QueryFailed
      | Some cat \<Rightarrow>
          (let entries = ListIssueStatusEntries False cat;
               label = (\<lambda>e. if IsBuiltIn (st_key e) \<or> TrimSpace (st_name e) = [] then st_key e
                            else st_key e @ '' ('' @ st_name e @ '')'')
           in Inr (map label entries @ filter (\<lambda>key. key \<notin> set (map st_key entries)) canonicalOrder)))"

section \<open>The resolver\<close>

record Resolver =
  rv_categories :: "string \<rightharpoonup> string"
  rv_names :: "string \<rightharpoonup> string"
  rv_loaded :: bool

definition NewResolver :: Resolver where
  "NewResolver = \<lparr>rv_categories = Map.empty, rv_names = Map.empty, rv_loaded = False\<rparr>"

definition resolver_load :: "catalog_read \<Rightarrow> Resolver \<Rightarrow> Resolver" where
  "resolver_load q r =
     (if rv_loaded r then r
      else
        let r = r\<lparr>rv_loaded := True\<rparr> in
        case q of
          None \<Rightarrow> r
        | Some cat \<Rightarrow>
            let entries = ListIssueStatusEntries True cat
            in r\<lparr>rv_categories := foldl (\<lambda>m e. m(st_key e \<mapsto> st_category e)) Map.empty entries,
                 rv_names := foldl (\<lambda>m e. m(st_key e \<mapsto> st_name e)) Map.empty entries\<rparr>)"

definition resolver_Effective :: "catalog_read \<Rightarrow> string \<Rightarrow> Resolver \<Rightarrow> string \<times> Resolver" where
  "resolver_Effective q status r =
     (if IsBuiltIn status then (status, r)
      else
        let r = resolver_load q r in
        case rv_categories r status of
          None \<Rightarrow> (status, r)
        | Some category \<Rightarrow> (if \<not> IsCategory category then status else category, r))"

definition resolver_Name :: "catalog_read \<Rightarrow> string \<Rightarrow> Resolver \<Rightarrow> string \<times> Resolver" where
  "resolver_Name q status r =
     (if IsBuiltIn status then ([], r)
      else
        let r = resolver_load q r
        in (case rv_names r status of None \<Rightarrow> [] | Some n \<Rightarrow> n, r))"

section \<open>Categories as sets of keys\<close>

definition ExpandCategories :: "catalog_read \<Rightarrow> string list \<Rightarrow> status_error + string list" where
  "ExpandCategories q categories =
     (let valid = filter IsCategory categories in
      if valid = [] then Inr []
      else case q of
        None \<Rightarrow> Inl QueryFailed
      | Some cat \<Rightarrow>
          (let step = (\<lambda>out k. if k \<in> set out then out else out @ [k]);
               keys = ListIssueStatusKeysByCategories valid cat
           in Inr (foldl step (foldl step [] keys) valid)))"

definition CustomKeyCategories :: "catalog_read \<Rightarrow> status_error + (string \<rightharpoonup> string)" where
  "CustomKeyCategories q =
     (case q of
        None \<Rightarrow> Inl QueryFailed
      | Some cat \<Rightarrow>
          Inr (foldl (\<lambda>m e. if IsBuiltIn (st_key e) \<or> \<not> IsCategory (st_category e) then m
                           else m(st_key e \<mapsto> st_category e))
                 Map.empty (ListIssueStatusEntries True cat)))"

end
