(* ===== verification/StatusKeys.thy ===== *)
theory StatusKeys
  imports IssueStatus
begin

text \<open>
  Key derivation: every slug is in the key alphabet, candidates of the scan are distinct and valid,
  and by the pigeonhole principle the scan always finds a free one. The bound on the number of keys
  a workspace owns (\<open>10 ^ 28\<close>) only keeps the ordinal's decimal text shorter than a key.
\<close>

section \<open>The alphabet\<close>

definition alnum :: "char \<Rightarrow> bool" where
  "alnum c \<longleftrightarrow> is_lower c \<or> is_digit c"

lemma key_byte_plain: "key_byte c \<Longrightarrow> plain_byte c"
  by (auto simp: key_byte_def plain_byte_intros)

lemma alnum_key_byte: "alnum c \<Longrightarrow> key_byte c"
  by (auto simp: alnum_def key_byte_def)

lemma alnum_not_underscore: "\<not> alnum (CHR ''_'')"
  by (simp add: alnum_def is_lower_def is_digit_def)

lemma keyPattern_alt:
  "keyPattern s \<longleftrightarrow> s \<noteq> [] \<and> length s \<le> 32 \<and> alnum (hd s) \<and> list_all key_byte s"
  by (auto simp: keyPattern_def alnum_def)

lemma ValidateKey_pattern: "keyPattern s \<Longrightarrow> \<not> IsBuiltIn s \<Longrightarrow> ValidateKey s = Inr s"
proof -
  assume p: "keyPattern s" "\<not> IsBuiltIn s"
  then have "\<forall>c \<in> set s. plain_byte c"
    by (auto simp: keyPattern_def list_all_iff intro: key_byte_plain)
  then have "ToLower (TrimSpace s) = s" by (simp add: TrimSpace_plain ToLower_plain)
  with p show ?thesis by (simp add: ValidateKey_def keyPattern_def)
qed

lemma ValidateKey_Inr: "ValidateKey x = Inr k \<Longrightarrow> keyPattern k \<and> \<not> IsBuiltIn k"
  by (auto simp: ValidateKey_def Let_def split: if_splits)

lemma builtin_iff: "IsBuiltIn k \<longleftrightarrow> k \<in> set canonicalOrder"
proof -
  have "map fst (zip canonicalOrder [0..<length canonicalOrder]) = canonicalOrder" by simp
  then show ?thesis
    unfolding IsBuiltIn_def canonicalRank_def map_of_eq_None_iff by (metis set_map)
qed

lemma builtin_pattern: "IsBuiltIn k \<Longrightarrow> keyPattern k"
proof -
  have "list_all keyPattern canonicalOrder" by code_simp
  then show "IsBuiltIn k \<Longrightarrow> keyPattern k" by (simp add: builtin_iff list_all_iff)
qed

section \<open>Slugs\<close>

lemma slug_scan_bytes: "list_all key_byte b \<Longrightarrow> list_all key_byte (slug_scan b u s)"
  by (induction b u s rule: slug_scan.induct) (auto simp: key_byte_def)

lemma slug_scan_hd: "(b \<noteq> [] \<longrightarrow> alnum (hd b)) \<Longrightarrow> slug_scan b u s \<noteq> [] \<longrightarrow> alnum (hd (slug_scan b u s))"
proof (induction b u s rule: slug_scan.induct)
  case (2 b u r rs)
  show ?case
  proof (cases "is_lower r \<or> is_digit r")
    case True
    have "alnum (hd (b @ [r]))" using "2.prems" True by (cases b) (auto simp: alnum_def)
    with 2 True show ?thesis by simp
  next
    case False
    have "b @ [CHR ''_''] \<noteq> [] \<longrightarrow> 0 < length b \<longrightarrow> alnum (hd (b @ [CHR ''_'']))"
      using "2.prems" by (cases b) auto
    with 2 False show ?thesis by simp
  qed
qed simp

lemma trim_byte_hd:
  assumes "s \<noteq> []" and "hd s \<noteq> c"
  shows "trim_byte c s \<noteq> []" "hd (trim_byte c s) = hd s" "trim_byte c s = trim_right_byte c s"
proof -
  have "trim_left_byte c s = s" using assms by (cases s) (auto simp: trim_left_byte_def)
  then show "trim_byte c s = trim_right_byte c s" by (simp add: trim_byte_def)
  with hd_trim_right_byte[OF assms] show "trim_byte c s \<noteq> []" "hd (trim_byte c s) = hd s" by simp_all
qed

lemma trim_byte_Nil [simp]: "trim_byte c [] = []"
  by (simp add: trim_byte_def trim_left_byte_def trim_right_byte_def)

definition slug_base :: "string \<Rightarrow> string" where
  "slug_base name = trim_byte (CHR ''_'') (slug_scan [] False (ToLower (TrimSpace name)))"

lemma slug_base_ok:
  "slug_base name = [] \<or> alnum (hd (slug_base name)) \<and> list_all key_byte (slug_base name)"
proof (cases "slug_scan [] False (ToLower (TrimSpace name)) = []")
  case False
  let ?s = "slug_scan [] False (ToLower (TrimSpace name))"
  have hd: "alnum (hd ?s)" using slug_scan_hd[of "[]"] False by blast
  then have "hd ?s \<noteq> CHR ''_''" using alnum_not_underscore by metis
  note t = trim_byte_hd[OF False this]
  have "list_all key_byte (trim_byte (CHR ''_'') ?s)"
    using slug_scan_bytes[of "[]"] set_trim_byte[of "CHR ''_''" ?s] by (auto simp: list_all_iff)
  with t hd show ?thesis by (simp add: slug_base_def)
qed (simp add: slug_base_def)

lemma slugify_ok: "slugify name = [] \<or> keyPattern (slugify name)"
proof (cases "slug_base name = []")
  case True
  then show ?thesis by (simp add: slugify_def slug_base_def)
next
  case False
  with slug_base_ok have ok: "alnum (hd (slug_base name))" "list_all key_byte (slug_base name)" by blast+
  show ?thesis
  proof (cases "32 < length (slug_base name)")
    case True
    let ?t = "take 32 (slug_base name)"
    have t: "?t \<noteq> []" "hd ?t = hd (slug_base name)" using False by (simp_all add: hd_take)
    then have "hd ?t \<noteq> CHR ''_''" using ok(1) alnum_not_underscore by metis
    note tr = trim_byte_hd[OF t(1) this]
    have "length (trim_byte (CHR ''_'') ?t) \<le> 32"
      using tr(3) length_trim_right_byte[of "CHR ''_''" ?t] by simp
    moreover have "list_all key_byte (trim_byte (CHR ''_'') ?t)"
      using ok(2) set_trim_byte[of "CHR ''_''" ?t] set_take_subset[of 32 "slug_base name"]
      by (auto simp: list_all_iff)
    ultimately show ?thesis
      using tr t ok(1) True by (simp add: slugify_def slug_base_def maxKeyLen_def keyPattern_alt)
  next
    case short: False
    with ok \<open>slug_base name \<noteq> []\<close> show ?thesis
      by (simp add: slugify_def slug_base_def maxKeyLen_def keyPattern_alt Let_def)
  qed
qed

section \<open>Candidates\<close>

lemma key_suffix_length: "n < 10 ^ 29 \<Longrightarrow> length (key_suffix n) \<le> 30"
  using Itoa_length[of n 29] by (simp add: key_suffix_def)

lemma key_suffix_bytes: "list_all key_byte (key_suffix n)"
  using Itoa_digits by (auto simp: key_suffix_def list_all_iff key_byte_def)

lemma truncate_ok:
  assumes "keyPattern base" and "n < 10 ^ 29"
  obtains b where "truncateForSuffix base (length (key_suffix n)) = Some b"
    "keyPattern (b @ key_suffix n)"
proof -
  let ?k = "length (key_suffix n)"
  have k: "?k \<le> 30" by (rule key_suffix_length[OF assms(2)])
  have base: "base \<noteq> []" "alnum (hd base)" "list_all key_byte base"
    using assms(1) by (simp_all add: keyPattern_alt)
  show thesis
  proof (cases "int (length base) \<le> int 32 - int ?k")
    case True
    with base k have "keyPattern (base @ key_suffix n)"
      using key_suffix_bytes by (simp add: keyPattern_alt)
    with True that show thesis by (simp add: truncateForSuffix_def maxKeyLen_def)
  next
    case False
    let ?t = "take (nat (int 32 - int ?k)) base"
    have t: "?t \<noteq> []" "hd ?t = hd base" using base(1) k by (simp_all add: hd_take)
    then have nu: "hd ?t \<noteq> CHR ''_''" using base(2) alnum_not_underscore by metis
    note tr = hd_trim_right_byte[OF t(1) nu]
    have "length (trim_right_byte (CHR ''_'') ?t) + ?k \<le> 32"
      using length_trim_right_byte[of "CHR ''_''" ?t] k by (auto simp: nat_le_iff)
    moreover have "list_all key_byte (trim_right_byte (CHR ''_'') ?t)"
      using base(3) set_trim_right_byte[of "CHR ''_''" ?t] set_take_subset[of _ base]
      by (fastforce simp: list_all_iff)
    ultimately have "keyPattern (trim_right_byte (CHR ''_'') ?t @ key_suffix n)"
      using tr t(2) base(2) key_suffix_bytes by (simp add: keyPattern_alt)
    with False k that show thesis by (simp add: truncateForSuffix_def maxKeyLen_def Let_def)
  qed
qed

definition candidate :: "string \<Rightarrow> nat \<Rightarrow> string" where
  "candidate base n = the (truncateForSuffix base (length (key_suffix n))) @ key_suffix n"

lemma candidate_pattern: "keyPattern base \<Longrightarrow> n < 10 ^ 29 \<Longrightarrow> keyPattern (candidate base n)"
  by (rule truncate_ok[of base n]) (simp_all add: candidate_def)

lemma underscore_split:
  assumes "a @ CHR ''_'' # x = b @ CHR ''_'' # y" and "CHR ''_'' \<notin> set x" and "CHR ''_'' \<notin> set y"
  shows "x = y"
proof -
  have split: "takeWhile (\<lambda>c. c \<noteq> CHR ''_'') (rev (c @ CHR ''_'' # z)) = rev z"
    if "CHR ''_'' \<notin> set z" for c z
  proof -
    have "\<forall>w \<in> set (rev z). w \<noteq> CHR ''_''" using that by auto
    then have "takeWhile (\<lambda>c. c \<noteq> CHR ''_'') (rev z @ CHR ''_'' # rev c)
        = rev z @ takeWhile (\<lambda>c. c \<noteq> CHR ''_'') (CHR ''_'' # rev c)"
      by (intro takeWhile_append2) blast
    then show ?thesis by simp
  qed
  show ?thesis using split[OF assms(2), of a] split[OF assms(3), of b] assms(1) by simp
qed

lemma candidate_inj: "candidate base m = candidate base n \<Longrightarrow> m = n"
proof -
  assume eq: "candidate base m = candidate base n"
  have "CHR ''_'' \<notin> set (Itoa k)" for k
    using Itoa_digits[of "CHR ''_''" k] by (auto simp: is_digit_def)
  with eq have "Itoa m = Itoa n"
    unfolding candidate_def key_suffix_def by (auto dest: underscore_split)
  then show "m = n" by (rule Itoa_inj)
qed

lemma free_from_finds:
  assumes "keyPattern base" and "n + k \<le> 10 ^ 29"
    and "\<exists>m. n \<le> m \<and> m < n + k \<and> \<not> keyOccupied (candidate base m) taken"
  shows "\<exists>m. n \<le> m \<and> m < n + k \<and> \<not> keyOccupied (candidate base m) taken
    \<and> free_from base taken n k = Inr (candidate base m)"
  using assms(2,3)
proof (induction k arbitrary: n)
  case (Suc k)
  obtain b where b: "truncateForSuffix base (length (key_suffix n)) = Some b"
    using truncate_ok[OF assms(1), of n] Suc.prems(1) by auto
  then have c: "candidate base n = b @ key_suffix n" by (simp add: candidate_def)
  show ?case
  proof (cases "keyOccupied (candidate base n) taken")
    case True
    with Suc.prems(2) have "\<exists>m. n + 1 \<le> m \<and> m < n + 1 + k \<and> \<not> keyOccupied (candidate base m) taken"
      by (metis Suc_eq_plus1 Suc_leI add_Suc_right add_Suc_shift le_neq_implies_less plus_nat.simps(2))
    from Suc.IH[OF _ this] Suc.prems(1) obtain m where
      "n + 1 \<le> m" "m < n + 1 + k" "\<not> keyOccupied (candidate base m) taken"
      "free_from base taken (n + 1) k = Inr (candidate base m)" by auto
    with True b c show ?thesis by (intro exI[of _ m]) simp
  next
    case False
    then have "\<not> IsBuiltIn (candidate base n)" by (simp add: keyOccupied_def split: if_splits)
    with candidate_pattern[OF assms(1), of n] Suc.prems(1)
    have "ValidateKey (candidate base n) = Inr (candidate base n)"
      by (intro ValidateKey_pattern) simp_all
    with False b c show ?thesis by (intro exI[of _ n]) simp
  qed
qed auto

section \<open>The pigeonhole\<close>

definition owned_keys :: "taken_map \<Rightarrow> string set" where
  "owned_keys taken = set canonicalOrder \<union> fst ` set taken"

lemma occupied_owned: "keyOccupied k taken \<Longrightarrow> k \<in> owned_keys taken"
  by (auto simp: keyOccupied_def owned_keys_def builtin_iff split: if_splits option.splits
      dest: map_of_SomeD intro: rev_image_eqI)

lemma owned_card: "card (owned_keys taken) \<le> length taken + length canonicalOrder"
proof -
  have "card (owned_keys taken) \<le> card (set canonicalOrder) + card (fst ` set taken)"
    unfolding owned_keys_def by (rule card_Un_le)
  moreover have "card (fst ` set taken) \<le> length taken"
    by (metis card_image_le card_length finite_set le_trans)
  ultimately show ?thesis using card_length[of canonicalOrder] by linarith
qed

lemma some_candidate_free:
  "\<exists>m. 2 \<le> m \<and> m < 2 + (length taken + length canonicalOrder + 1) \<and> \<not> keyOccupied (candidate base m) taken"
proof (rule ccontr)
  let ?N = "length taken + length canonicalOrder + 1"
  assume "\<not> ?thesis"
  then have "candidate base ` {2..<2 + ?N} \<subseteq> owned_keys taken"
    by (auto intro!: occupied_owned)
  moreover have "finite (owned_keys taken)" by (simp add: owned_keys_def)
  ultimately have "card (candidate base ` {2..<2 + ?N}) \<le> card (owned_keys taken)"
    by (rule card_mono[rotated])
  moreover have "inj_on (candidate base) {2..<2 + ?N}"
    by (rule inj_onI) (rule candidate_inj)
  then have "card (candidate base ` {2..<2 + ?N}) = ?N" by (simp add: card_image)
  ultimately show False using owned_card[of taken] by simp
qed

lemma firstFreeKey_total:
  assumes "keyPattern base" and "length taken < 10 ^ 28"
  shows "\<exists>key. firstFreeKey base taken = Inr key \<and> keyPattern key \<and> \<not> keyOccupied key taken
     \<and> (\<not> keyOccupied base taken \<longrightarrow> key = base)"
proof (cases "keyOccupied base taken")
  case False
  then have "\<not> IsBuiltIn base" by (simp add: keyOccupied_def split: if_splits)
  with False assms(1) show ?thesis by (simp add: firstFreeKey_def ValidateKey_pattern)
next
  case True
  have len: "length canonicalOrder = 7" by (simp add: canonicalOrder_def)
  have k: "length taken + length canonicalOrder + 2 + 1 - 2 = length taken + length canonicalOrder + 1"
    by simp
  have "2 + (length taken + length canonicalOrder + 1) \<le> 10 ^ 29" using assms(2) len by simp
  from free_from_finds[OF assms(1) this some_candidate_free] obtain m where
    m: "m < 2 + (length taken + length canonicalOrder + 1)" "\<not> keyOccupied (candidate base m) taken"
      "free_from base taken 2 (length taken + length canonicalOrder + 1) = Inr (candidate base m)" by blast
  have "m < 10 ^ 29" using m(1) assms(2) len by simp
  with m True candidate_pattern[OF assms(1)] show ?thesis
    unfolding firstFreeKey_def Let_def k by simp
qed

end
