(* ===== verification/StatusCatalog.thy ===== *)
theory StatusCatalog
  imports StatusKeys
begin

text \<open>
  The catalog of a workspace over its life (seeding, creating with a validated or derived key,
  archiving) and what the package's readers make of it: the single-shot resolver, the cached one,
  and the expansion of categories to keys are views of one function from keys to categories.
\<close>

section \<open>The life of a catalog\<close>

definition catalog_taken :: "catalog \<Rightarrow> taken_map" where
  "catalog_taken cat = map (\<lambda>r. (st_key r, True)) cat"

inductive catalog_reach :: "catalog \<Rightarrow> bool" where
  cat_empty: "catalog_reach []"
| cat_seed: "catalog_reach cat \<Longrightarrow> catalog_reach (SeedIssueStatusEntries cat)"
| cat_explicit: "catalog_reach cat \<Longrightarrow> ValidateKey k = Inr key
     \<Longrightarrow> catalog_reach (snd (CreateIssueStatusEntry key name category cat))"
| cat_derived: "catalog_reach cat \<Longrightarrow> DeriveKey name category (catalog_taken cat) = Inr key
     \<Longrightarrow> catalog_reach (snd (CreateIssueStatusEntry key name category cat))"
| cat_archive: "catalog_reach cat \<Longrightarrow> catalog_reach (ArchiveIssueStatusEntry key cat)"

definition catalog_ok :: "catalog \<Rightarrow> bool" where
  "catalog_ok cat \<longleftrightarrow> distinct (map st_key cat)
     \<and> (\<forall>r \<in> set cat. IsCategory (st_category r) \<and> (IsBuiltIn (st_key r) \<longrightarrow> st_category r = st_key r))"

lemma catalog_ok_append:
  assumes "catalog_ok cat" and "\<not> list_ex (\<lambda>q. st_key q = st_key r) cat" and "IsCategory (st_category r)"
    and "IsBuiltIn (st_key r) \<Longrightarrow> st_category r = st_key r"
  shows "catalog_ok (cat @ [r])"
  using assms by (auto simp: catalog_ok_def list_ex_iff)

lemma catalog_ok_seed: "catalog_ok cat \<Longrightarrow> catalog_ok (SeedIssueStatusEntries cat)"
proof -
  have "catalog_ok cat \<Longrightarrow> list_all (\<lambda>(k, n). IsBuiltIn k) ks
      \<Longrightarrow> catalog_ok (fold (\<lambda>(key, name) c. if list_ex (\<lambda>r. st_key r = key) c then c else c @ [seed_row key name]) ks cat)"
    for ks
  proof (induction ks arbitrary: cat)
    case (Cons x ks)
    obtain k n where x: "x = (k, n)" by fastforce
    have "catalog_ok (if list_ex (\<lambda>r. st_key r = k) cat then cat else cat @ [seed_row k n])"
      using Cons.prems x catalog_ok_append[of cat "seed_row k n"] by (simp add: seed_row_def IsCategory_def)
    with Cons x show ?case by simp
  qed simp
  moreover have "list_all (\<lambda>(k, n). IsBuiltIn k) (zip canonicalOrder seed_names)" by code_simp
  ultimately show "catalog_ok cat \<Longrightarrow> catalog_ok (SeedIssueStatusEntries cat)"
    unfolding SeedIssueStatusEntries_def by blast
qed

lemma catalog_ok_create:
  "catalog_ok cat \<Longrightarrow> \<not> IsBuiltIn key \<Longrightarrow> catalog_ok (snd (CreateIssueStatusEntry key name category cat))"
  by (auto simp: CreateIssueStatusEntry_def Let_def intro: catalog_ok_append)

lemma catalog_ok_archive: "catalog_ok cat \<Longrightarrow> catalog_ok (ArchiveIssueStatusEntry key cat)"
  by (auto simp: catalog_ok_def ArchiveIssueStatusEntry_def map_update_where in_update_where)

lemma free_from_Inr: "free_from base taken n k = Inr key \<Longrightarrow> \<exists>x. ValidateKey x = Inr key"
  by (induction base taken n k rule: free_from.induct) (auto split: option.splits if_splits)

lemma DeriveKey_Inr: "DeriveKey name category taken = Inr key \<Longrightarrow> \<exists>x. ValidateKey x = Inr key"
  by (auto simp: DeriveKey_def firstFreeKey_def Let_def simp del: free_from.simps
      split: if_splits dest: free_from_Inr)

lemma catalog_reach_ok: "catalog_reach cat \<Longrightarrow> catalog_ok cat"
proof (induction rule: catalog_reach.induct)
  case cat_empty
  show ?case by (simp add: catalog_ok_def)
next
  case (cat_explicit cat k key name category)
  then show ?case by (auto intro: catalog_ok_create dest: ValidateKey_Inr)
next
  case (cat_derived cat name category key)
  then show ?case by (auto intro: catalog_ok_create dest!: ValidateKey_Inr DeriveKey_Inr)
qed (simp_all add: catalog_ok_seed catalog_ok_archive)

section \<open>Lookups\<close>

lemma get_entry:
  assumes "distinct (map st_key cat)"
  shows "GetIssueStatusEntryByKey k cat = Some r \<longleftrightarrow> r \<in> set cat \<and> st_key r = k"
proof
  assume "GetIssueStatusEntryByKey k cat = Some r"
  then show "r \<in> set cat \<and> st_key r = k"
    using find_Some_in unfolding GetIssueStatusEntryByKey_def by fastforce
next
  assume r: "r \<in> set cat \<and> st_key r = k"
  then obtain q where "find (\<lambda>r. st_key r = k) cat = Some q"
    by (cases "find (\<lambda>r. st_key r = k) cat") (auto simp: find_None_iff)
  moreover from find_Some_in[OF this] r have "q = r"
    by (intro distinct_key_eq[OF assms]) simp_all
  ultimately show "GetIssueStatusEntryByKey k cat = Some r"
    by (simp add: GetIssueStatusEntryByKey_def)
qed

lemma get_entry_None: "GetIssueStatusEntryByKey k cat = None \<longleftrightarrow> k \<notin> st_key ` set cat"
  by (auto simp: GetIssueStatusEntryByKey_def find_None_iff)

lemma fold_map_upd:
  assumes "distinct (map st_key es)"
  shows "foldl (\<lambda>m e. m(st_key e \<mapsto> f e)) m es k
    = (case find (\<lambda>e. st_key e = k) es of None \<Rightarrow> m k | Some e \<Rightarrow> Some (f e))"
  using assms
proof (induction es arbitrary: m)
  case (Cons e es)
  have "st_key e = k \<Longrightarrow> find (\<lambda>e. st_key e = k) es = None"
    using Cons.prems by (auto simp: find_None_iff intro: rev_image_eqI)
  with Cons show ?case by (auto split: option.split)
qed simp

lemma list_all_entries: "set (ListIssueStatusEntries True cat) = set cat"
  by (simp add: ListIssueStatusEntries_def)

lemma entries_distinct:
  "distinct (map st_key cat) \<Longrightarrow> distinct (map st_key (ListIssueStatusEntries True cat))"
  by (simp add: ListIssueStatusEntries_def distinct_map)

lemma find_entries:
  assumes "distinct (map st_key cat)"
  shows "find (\<lambda>e. st_key e = k) (ListIssueStatusEntries True cat) = GetIssueStatusEntryByKey k cat"
proof (cases "GetIssueStatusEntryByKey k cat")
  case None
  then have "GetIssueStatusEntryByKey k (ListIssueStatusEntries True cat) = None"
    by (simp add: get_entry_None list_all_entries)
  with None show ?thesis by (simp add: GetIssueStatusEntryByKey_def)
next
  case (Some r)
  then have "GetIssueStatusEntryByKey k (ListIssueStatusEntries True cat) = Some r"
    using get_entry[OF assms] get_entry[OF entries_distinct[OF assms]] by (simp add: list_all_entries)
  with Some show ?thesis by (simp add: GetIssueStatusEntryByKey_def)
qed

section \<open>The resolver caches the function\<close>

definition resolver_ok :: "catalog \<Rightarrow> Resolver \<Rightarrow> bool" where
  "resolver_ok cat r \<longleftrightarrow> rv_loaded r \<longrightarrow>
     (\<forall>k. rv_categories r k = map_option st_category (GetIssueStatusEntryByKey k cat)
        \<and> rv_names r k = map_option st_name (GetIssueStatusEntryByKey k cat))"

lemma resolver_load_ok:
  assumes "distinct (map st_key cat)" and "resolver_ok cat r"
  shows "resolver_ok cat (resolver_load (Some cat) r)" "rv_loaded (resolver_load (Some cat) r)"
  using assms
  by (auto simp: resolver_ok_def resolver_load_def Let_def find_entries
      fold_map_upd[OF entries_distinct[OF assms(1)]] split: option.split)

lemma resolver_Effective_ok:
  assumes "distinct (map st_key cat)" and "resolver_ok cat r"
  shows "fst (resolver_Effective (Some cat) k r) = Effective (Some cat) k"
    "resolver_ok cat (snd (resolver_Effective (Some cat) k r))"
  using resolver_load_ok[OF assms] assms(2)
  by (auto simp: resolver_Effective_def Effective_def resolver_ok_def Let_def split: option.split)

lemma resolver_Name_ok:
  assumes "distinct (map st_key cat)" and "resolver_ok cat r"
  shows "fst (resolver_Name (Some cat) k r) = snd (EffectiveAndName (Some cat) k)"
    "resolver_ok cat (snd (resolver_Name (Some cat) k r))"
  using resolver_load_ok[OF assms] assms(2)
  by (auto simp: resolver_Name_def EffectiveAndName_def resolver_ok_def Let_def split: option.split)

text \<open>A list endpoint: each row asks the same resolver for its category and its name.\<close>

fun resolve_rows :: "catalog_read \<Rightarrow> string list \<Rightarrow> Resolver \<Rightarrow> (string \<times> string) list" where
  "resolve_rows q [] r = []"
| "resolve_rows q (k # ks) r =
     (let (c, r1) = resolver_Effective q k r; (n, r2) = resolver_Name q k r1
      in (c, n) # resolve_rows q ks r2)"

lemma resolve_rows_ok:
  "distinct (map st_key cat) \<Longrightarrow> resolver_ok cat r \<Longrightarrow>
     resolve_rows (Some cat) ks r = map (EffectiveAndName (Some cat)) ks"
proof (induction ks arbitrary: r)
  case (Cons k ks)
  obtain c r1 where 1: "resolver_Effective (Some cat) k r = (c, r1)" by fastforce
  obtain n r2 where 2: "resolver_Name (Some cat) k r1 = (n, r2)" by fastforce
  have c: "c = Effective (Some cat) k" "resolver_ok cat r1"
    using resolver_Effective_ok[OF Cons.prems, of k] 1 by simp_all
  have n: "n = snd (EffectiveAndName (Some cat) k)" "resolver_ok cat r2"
    using resolver_Name_ok[OF Cons.prems(1) c(2), of k] 2 by simp_all
  have "Effective (Some cat) k = fst (EffectiveAndName (Some cat) k)"
    by (auto simp: Effective_def EffectiveAndName_def split: option.split)
  with 1 2 c n Cons.IH[OF Cons.prems(1) n(2)] show ?case by (simp add: Let_def)
qed simp

section \<open>Expansion\<close>

lemma foldl_add_set:
  "set (foldl (\<lambda>out k. if k \<in> set out then out else out @ [k]) out ks) = set out \<union> set ks"
  by (induction ks arbitrary: out) auto

lemma foldl_add_distinct:
  "distinct out \<Longrightarrow> distinct (foldl (\<lambda>out k. if k \<in> set out then out else out @ [k]) out ks)"
  by (induction ks arbitrary: out) auto

section \<open>Properties\<close>



text \<open>
  The cached resolver is the single-shot one. For a catalog reached by seeding, creating and
  archiving, resolving any list of statuses through one resolver, asking for the category and the
  name of each, gives row by row what the package-level lookup gives.
\<close>

theorem resolver_equals_lookup:
  assumes "catalog_reach cat"
  shows "resolve_rows (Some cat) ks NewResolver = map (EffectiveAndName (Some cat)) ks"
proof -
  have "distinct (map st_key cat)" using catalog_reach_ok[OF assms] by (simp add: catalog_ok_def)
  then show ?thesis by (rule resolve_rows_ok) (simp add: resolver_ok_def NewResolver_def)
qed

text \<open>
  Expanding categories gives exactly their keys. In a reachable catalog the expansion of a list
  of categories has no duplicates, and a status that is built in or in the catalog, archived or
  not, is in it just when its effective status is one of the listed categories: filtering by the
  expansion is filtering by behaviour, and an effective status is always a built-in one.
\<close>

theorem expand_is_effective:
  assumes "catalog_reach cat" and "ExpandCategories (Some cat) cats = Inr out"
    and "IsBuiltIn k \<or> k \<in> st_key ` set cat"
  shows "distinct out \<and> IsBuiltIn (Effective (Some cat) k)
     \<and> (k \<in> set out \<longleftrightarrow> Effective (Some cat) k \<in> set cats)"
proof -
  let ?valid = "filter IsCategory cats"
  have ok: "catalog_ok cat" by (rule catalog_reach_ok[OF assms(1)])
  then have dist: "distinct (map st_key cat)" by (simp add: catalog_ok_def)
  let ?step = "\<lambda>out k. if k \<in> set out then out else out @ [k]"
  have o: "out = (if ?valid = [] then []
      else foldl ?step (foldl ?step [] (ListIssueStatusKeysByCategories ?valid cat)) ?valid)"
    using assms(2) by (simp add: ExpandCategories_def Let_def split: if_splits)
  have out: "set out = st_key ` {r \<in> set cat. st_category r \<in> set ?valid} \<union> set ?valid"
  proof (cases "?valid = []")
    case True
    then show ?thesis unfolding o by simp
  next
    case False
    then have "set out = set (ListIssueStatusKeysByCategories ?valid cat) \<union> set ?valid"
      unfolding o by (simp only: if_False foldl_add_set) simp
    then show ?thesis by (simp add: ListIssueStatusKeysByCategories_def)
  qed
  have dout: "distinct out" unfolding o by (simp add: foldl_add_distinct)
  show ?thesis
  proof (cases "IsBuiltIn k")
    case True
    have "k \<in> st_key ` {r \<in> set cat. st_category r \<in> set ?valid} \<Longrightarrow> k \<in> set ?valid"
      using ok True by (auto simp: catalog_ok_def)
    with True out dout show ?thesis by (auto simp: Effective_def IsCategory_def)
  next
    case False
    with assms(3) obtain r where r: "r \<in> set cat" "st_key r = k" by auto
    then have get: "GetIssueStatusEntryByKey k cat = Some r" using get_entry[OF dist] by blast
    have cat: "IsCategory (st_category r)" using ok r(1) by (simp add: catalog_ok_def)
    have eff: "Effective (Some cat) k = st_category r" using False get cat by (simp add: Effective_def)
    have "k \<in> st_key ` {q \<in> set cat. st_category q \<in> set ?valid} \<longleftrightarrow> st_category r \<in> set ?valid"
    proof
      assume "k \<in> st_key ` {q \<in> set cat. st_category q \<in> set ?valid}"
      then obtain q where "q \<in> set cat" "st_key q = k" "st_category q \<in> set ?valid" by blast
      moreover from this r have "q = r" by (intro distinct_key_eq[OF dist]) simp_all
      ultimately show "st_category r \<in> set ?valid" by blast
    qed (use r in blast)
    moreover have "k \<notin> set ?valid" using False by (simp add: IsCategory_def)
    ultimately have "k \<in> set out \<longleftrightarrow> st_category r \<in> set ?valid" unfolding out by blast
    with eff cat dout show ?thesis by (simp add: IsCategory_def)
  qed
qed

definition demo_catalog :: catalog where
  "demo_catalog = snd (CreateIssueStatusEntry ''human_review'' ''Human review'' ''in_review''
     (SeedIssueStatusEntries []))"

lemma demo_catalog_reach: "catalog_reach demo_catalog"
proof -
  have "ValidateKey '' Human_Review '' = Inr ''human_review''" by code_simp
  then show ?thesis unfolding demo_catalog_def by (intro cat_explicit cat_seed cat_empty)
qed

theorem resolver_equals_lookup_witness:
  "resolve_rows (Some demo_catalog) [''todo'', ''human_review''] NewResolver
     = map (EffectiveAndName (Some demo_catalog)) [''todo'', ''human_review'']"
  by (rule resolver_equals_lookup[OF demo_catalog_reach])

theorem expand_is_effective_witness:
  "''human_review'' \<in> set [''in_review'', ''human_review''] \<longleftrightarrow>
     Effective (Some demo_catalog) ''human_review'' \<in> set [''in_review'']"
proof -
  have e: "ExpandCategories (Some demo_catalog) [''in_review''] = Inr [''in_review'', ''human_review'']"
    "''human_review'' \<in> st_key ` set demo_catalog"
    by code_simp+
  from expand_is_effective[OF demo_catalog_reach e(1)] e(2) show ?thesis by blast
qed

end
