(* ===== verification/FeatureFlag.thy ===== *)
theory FeatureFlag
  imports GoStrings "HOL-Library.Word"
begin

unbundle bit_operations_syntax

text \<open>
  The feature flag library (\<^verbatim>\<open>server/pkg/featureflag\<close>): rules and their evaluation, the hash that
  buckets percent rollouts, the static, environment and chain providers, and the service in front
  of them. A provider is its lookup function; the process environment is a parameter of the
  environment provider, the parsed YAML (\<^verbatim>\<open>gopkg.in/yaml.v3\<close>) one of the loader. Logging is left
  out.
\<close>

section \<open>Evaluation context\<close>

record EvalContext =
  ec_user_id :: string
  ec_workspace_id :: string
  ec_attributes :: "string \<rightharpoonup> string"

definition zero_context :: EvalContext where
  "zero_context = \<lparr>ec_user_id = [], ec_workspace_id = [], ec_attributes = Map.empty\<rparr>"

definition ec_lookup :: "EvalContext \<Rightarrow> string \<Rightarrow> string option" where
  "ec_lookup ec name =
     (if name = ''user_id'' then (if ec_user_id ec \<noteq> [] then Some (ec_user_id ec) else None)
      else if name = ''workspace_id'' then
        (if ec_workspace_id ec \<noteq> [] then Some (ec_workspace_id ec) else None)
      else case ec_attributes ec name of
             None \<Rightarrow> None
           | Some v \<Rightarrow> if v = [] then None else Some v)"

section \<open>Buckets\<close>

text \<open>FNV-1a over 32-bit words.\<close>

definition fnv_offset :: "32 word" where
  "fnv_offset = 2166136261"

definition fnv_prime :: "32 word" where
  "fnv_prime = 16777619"

definition fnv1a :: "string \<Rightarrow> 32 word \<Rightarrow> 32 word" where
  "fnv1a bytes h = foldl (\<lambda>h c. (h XOR of_nat (of_char c)) * fnv_prime) h bytes"

definition bucketFor :: "string \<Rightarrow> string \<Rightarrow> int" where
  "bucketFor key identifier =
     uint (fnv1a identifier (fnv1a [CHR 0x00] (fnv1a key fnv_offset)) mod 100)"

definition inPercent :: "string \<Rightarrow> string \<Rightarrow> int \<Rightarrow> bool" where
  "inPercent key identifier percent =
     (if percent \<le> 0 then False
      else if percent \<ge> 100 then True
      else bucketFor key identifier < percent)"

section \<open>Rules\<close>

record PercentRollout =
  pr_percent :: int
  pr_by :: string

record Rule =
  ru_default :: bool
  ru_variant :: string
  ru_allow :: "string list"
  ru_allow_by :: string
  ru_deny :: "string list"
  ru_deny_by :: string
  ru_percent :: "PercentRollout option"

datatype reason = ReasonStatic | ReasonPercent | ReasonOverride | ReasonDefault | ReasonError

record Decision =
  dc_key :: string
  dc_enabled :: bool
  dc_variant :: string
  dc_reason :: reason
  dc_source :: string

definition boolToVariant :: "bool \<Rightarrow> string" where
  "boolToVariant b = (if b then ''on'' else ''off'')"

definition variantEnabled :: "string \<Rightarrow> bool" where
  "variantEnabled v = (if v = [] \<or> v = ''off'' \<or> v = ''false'' \<or> v = ''0'' then False else True)"

definition orDefault :: "string \<Rightarrow> string \<Rightarrow> string" where
  "orDefault v d = (if v = [] then d else v)"

definition decisionFromRule :: "string \<Rightarrow> Rule \<Rightarrow> bool \<Rightarrow> reason \<Rightarrow> Decision" where
  "decisionFromRule key rule enabled reason =
     (let variant = boolToVariant enabled;
          variant = (if enabled \<and> ru_variant rule \<noteq> [] then ru_variant rule else variant)
      in \<lparr>dc_key = key, dc_enabled = enabled, dc_variant = variant, dc_reason = reason,
          dc_source = ''static''\<rparr>)"

definition listed :: "EvalContext \<Rightarrow> string list \<Rightarrow> string \<Rightarrow> bool" where
  "listed ec entries by =
     (entries \<noteq> [] \<and> (case ec_lookup ec by of None \<Rightarrow> False | Some v \<Rightarrow> v \<in> set entries))"

definition evaluateRule :: "string \<Rightarrow> Rule \<Rightarrow> EvalContext \<Rightarrow> Decision" where
  "evaluateRule key rule ec =
     (if listed ec (ru_deny rule) (orDefault (ru_deny_by rule) ''user_id'')
      then decisionFromRule key rule False ReasonStatic
      else if listed ec (ru_allow rule) (orDefault (ru_allow_by rule) ''user_id'')
      then decisionFromRule key rule True ReasonStatic
      else case ru_percent rule of
        Some pr \<Rightarrow>
          (let by = orDefault (pr_by pr) ''user_id'';
               identifier = (case ec_lookup ec by of Some v \<Rightarrow> v | None \<Rightarrow> [])
           in if inPercent key identifier (pr_percent pr)
              then decisionFromRule key rule True ReasonPercent
              else decisionFromRule key rule False ReasonPercent)
      | None \<Rightarrow> decisionFromRule key rule (ru_default rule) ReasonStatic)"

section \<open>Providers\<close>

type_synonym flag_provider_fn = "EvalContext \<Rightarrow> string \<Rightarrow> Decision option"

type_synonym rules = "string \<rightharpoonup> Rule"

definition static_Set :: "string \<Rightarrow> Rule \<Rightarrow> rules \<Rightarrow> rules" where
  "static_Set key rule rules = rules(key \<mapsto> rule)"

definition static_LoadRules :: "rules \<Rightarrow> rules \<Rightarrow> rules" where
  "static_LoadRules new rules = new"

definition static_Lookup :: "rules \<Rightarrow> flag_provider_fn" where
  "static_Lookup rules ec key =
     (case rules key of None \<Rightarrow> None | Some rule \<Rightarrow> Some (evaluateRule key rule ec))"

fun env_scan :: "string \<Rightarrow> bool \<Rightarrow> string \<Rightarrow> string" where
  "env_scan b prevUnderscore [] = b"
| "env_scan b prevUnderscore (r # rs) =
     (if is_upper r \<or> is_digit r then env_scan (b @ [r]) False rs
      else if is_lower r then env_scan (b @ [upper_byte r]) False rs
      else if \<not> prevUnderscore then env_scan (b @ [CHR ''_'']) True rs
      else env_scan b prevUnderscore rs)"

definition flagKeyToEnv :: "string \<Rightarrow> string" where
  "flagKeyToEnv key = trim_byte (CHR ''_'') (env_scan [] False key)"

definition env_decision :: "string \<Rightarrow> bool \<Rightarrow> string \<Rightarrow> reason \<Rightarrow> Decision" where
  "env_decision key enabled variant reason =
     \<lparr>dc_key = key, dc_enabled = enabled, dc_variant = variant, dc_reason = reason,
      dc_source = ''env''\<rparr>"

definition env_Lookup :: "string \<Rightarrow> (string \<Rightarrow> string option) \<Rightarrow> flag_provider_fn" where
  "env_Lookup prefix getenv ec key =
     (case getenv (prefix @ flagKeyToEnv key) of
        None \<Rightarrow> None
      | Some raw \<Rightarrow>
          (let trimmed = TrimSpace raw in
           if trimmed = [] then Some (env_decision key False ''off'' ReasonStatic)
           else if HasSuffix trimmed ''%'' then
             (case Atoi (TrimSpace (TrimSuffix trimmed ''%'')) of
                None \<Rightarrow> Some (env_decision key False ''off'' ReasonError)
              | Some pct \<Rightarrow>
                  if pct < 0 \<or> pct > 100 then Some (env_decision key False ''off'' ReasonError)
                  else
                    let ident = (case ec_lookup ec ''user_id'' of Some v \<Rightarrow> v | None \<Rightarrow> []);
                        enabled = inPercent key ident pct
                    in Some (env_decision key enabled (boolToVariant enabled) ReasonPercent))
           else if ToLower trimmed \<in> set [''true'', ''on'', ''1'', ''yes'']
             then Some (env_decision key True ''on'' ReasonStatic)
           else if ToLower trimmed \<in> set [''false'', ''off'', ''0'', ''no'']
             then Some (env_decision key False ''off'' ReasonStatic)
           else Some (env_decision key True trimmed ReasonStatic)))"

text \<open>A nil provider is \<open>None\<close>; the chain drops it.\<close>

definition NewChainProvider :: "flag_provider_fn option list \<Rightarrow> flag_provider_fn list" where
  "NewChainProvider ps = map the (filter (\<lambda>p. p \<noteq> None) ps)"

fun chain_Lookup :: "flag_provider_fn list \<Rightarrow> flag_provider_fn" where
  "chain_Lookup [] ec key = None"
| "chain_Lookup (p # ps) ec key =
     (case p ec key of Some d \<Rightarrow> Some d | None \<Rightarrow> chain_Lookup ps ec key)"

section \<open>The service\<close>

text \<open>A nil service and a service without provider are both \<open>None\<close>.\<close>

type_synonym flag_service = "flag_provider_fn option"

definition defaultDecision :: "string \<Rightarrow> string \<Rightarrow> bool \<Rightarrow> Decision" where
  "defaultDecision key variant enabled =
     \<lparr>dc_key = key, dc_enabled = enabled, dc_variant = variant, dc_reason = ReasonDefault,
      dc_source = ''default''\<rparr>"

definition service_Decision :: "flag_service \<Rightarrow> EvalContext \<Rightarrow> string \<Rightarrow> bool \<Rightarrow> Decision" where
  "service_Decision s ec key defaultVal =
     (case s of
        None \<Rightarrow> defaultDecision key (boolToVariant defaultVal) defaultVal
      | Some p \<Rightarrow>
          (case p ec key of
             None \<Rightarrow> defaultDecision key (boolToVariant defaultVal) defaultVal
           | Some d \<Rightarrow> d\<lparr>dc_key := key\<rparr>))"

definition decisionWithVariantDefault :: "flag_service \<Rightarrow> EvalContext \<Rightarrow> string \<Rightarrow> string \<Rightarrow> Decision" where
  "decisionWithVariantDefault s ec key defaultVariant =
     (case s of
        None \<Rightarrow> defaultDecision key defaultVariant (variantEnabled defaultVariant)
      | Some p \<Rightarrow>
          (case p ec key of
             None \<Rightarrow> defaultDecision key defaultVariant (variantEnabled defaultVariant)
           | Some d \<Rightarrow> d\<lparr>dc_key := key\<rparr>))"

definition IsEnabled :: "flag_service \<Rightarrow> EvalContext \<Rightarrow> string \<Rightarrow> bool \<Rightarrow> bool" where
  "IsEnabled s ec key defaultVal = dc_enabled (service_Decision s ec key defaultVal)"

definition Variant :: "flag_service \<Rightarrow> EvalContext \<Rightarrow> string \<Rightarrow> string \<Rightarrow> string" where
  "Variant s ec key defaultVal = dc_variant (decisionWithVariantDefault s ec key defaultVal)"

section \<open>Loading\<close>

record percentConfig =
  pc_percent :: int
  pc_by :: string

record ruleConfig =
  rc_default :: "bool option"
  rc_variant :: string
  rc_allow :: "string list"
  rc_allow_by :: string
  rc_deny :: "string list"
  rc_deny_by :: string
  rc_percent :: "percentConfig option"

definition toRule :: "ruleConfig \<Rightarrow> Rule" where
  "toRule rc =
     \<lparr>ru_default = (case rc_default rc of Some b \<Rightarrow> b | None \<Rightarrow> False),
      ru_variant = rc_variant rc, ru_allow = rc_allow rc, ru_allow_by = rc_allow_by rc,
      ru_deny = rc_deny rc, ru_deny_by = rc_deny_by rc,
      ru_percent = map_option (\<lambda>pc. \<lparr>pr_percent = pc_percent pc, pr_by = pc_by pc\<rparr>) (rc_percent rc)\<rparr>"

definition parseRulesYAML ::
  "(string \<Rightarrow> (string \<rightharpoonup> ruleConfig) option) \<Rightarrow> string \<Rightarrow> rules option" where
  "parseRulesYAML unmarshal data =
     (if TrimSpace data = [] then Some Map.empty
      else map_option (\<lambda>raw key. map_option toRule (raw key)) (unmarshal data))"

definition NewServiceFromEnv ::
  "(string \<Rightarrow> (string \<rightharpoonup> ruleConfig) option) \<Rightarrow> (string \<Rightarrow> string option) \<Rightarrow> (string \<Rightarrow> string option)
     \<Rightarrow> flag_service option" where
  "NewServiceFromEnv unmarshal readFile getenv =
     (let env = Some (env_Lookup ''FF_'' getenv);
          path = TrimSpace (case getenv ''ORVILO_FEATURE_FLAGS_FILE'' of Some v \<Rightarrow> v | None \<Rightarrow> [])
      in if path = [] then Some (Some (chain_Lookup (NewChainProvider [env])))
         else case readFile path of
           None \<Rightarrow> None
         | Some data \<Rightarrow>
             (case parseRulesYAML unmarshal data of
                None \<Rightarrow> None
              | Some rules \<Rightarrow>
                  Some (Some (chain_Lookup (NewChainProvider
                    [env, Some (static_Lookup (static_LoadRules rules Map.empty))])))))"

end
