(* ===== verification/FlagSafety.thy ===== *)
theory FlagSafety
  imports FeatureFlag
begin

text \<open>
  What the service relies on of a provider, as a contract interpreted on the three providers, and
  what it guarantees to callers: switches that cannot be bypassed, rollouts that only grow, and the
  places where the documentation of the package promises something else.
\<close>

section \<open>The contract of a provider\<close>

definition decision_ok :: "string \<Rightarrow> Decision \<Rightarrow> bool" where
  "decision_ok key d \<longleftrightarrow>
     dc_key d = key \<and> (dc_enabled d \<longrightarrow> dc_variant d \<noteq> []) \<and> (\<not> dc_enabled d \<longrightarrow> dc_variant d = ''off'')
     \<and> (dc_reason d = ReasonError \<longrightarrow> \<not> dc_enabled d)"

locale flag_provider =
  fixes lookup :: flag_provider_fn
  assumes lookup_ok: "lookup ec key = Some d \<Longrightarrow> decision_ok key d"
begin

lemma decision_coherent:
  "decision_ok key (service_Decision (Some lookup) ec key defaultVal)"
proof (cases "lookup ec key")
  case None
  then show ?thesis
    by (simp add: service_Decision_def decision_ok_def defaultDecision_def boolToVariant_def)
next
  case (Some d)
  with lookup_ok[OF Some] show ?thesis by (simp add: service_Decision_def decision_ok_def)
qed

lemma disabled_variant:
  assumes "\<not> IsEnabled (Some lookup) ec key b" and "lookup ec key = Some d"
  shows "Variant (Some lookup) ec key v = ''off''"
  using assms(1) lookup_ok[OF assms(2)]
  by (simp add: IsEnabled_def Variant_def service_Decision_def decisionWithVariantDefault_def
      decision_ok_def assms(2))

lemma error_disabled:
  assumes "lookup ec key = Some d" and "dc_reason d = ReasonError"
  shows "\<not> IsEnabled (Some lookup) ec key b"
  using lookup_ok[OF assms(1)] assms
  by (simp add: IsEnabled_def service_Decision_def decision_ok_def)

end

lemma decisionFromRule_ok: "reason \<noteq> ReasonError \<Longrightarrow> decision_ok key (decisionFromRule key rule b reason)"
  by (simp add: decision_ok_def decisionFromRule_def Let_def boolToVariant_def)

lemma evaluateRule_ok: "decision_ok key (evaluateRule key rule ec)"
  by (simp add: evaluateRule_def Let_def decisionFromRule_ok split: option.split)

lemma static_ok: "static_Lookup rules ec key = Some d \<Longrightarrow> decision_ok key d"
  by (auto simp: static_Lookup_def evaluateRule_ok split: option.splits)

lemma env_ok: "env_Lookup prefix getenv ec key = Some d \<Longrightarrow> decision_ok key d"
  by (auto simp: env_Lookup_def Let_def decision_ok_def env_decision_def boolToVariant_def
      split: option.splits if_splits)

lemma standard_ok:
  "chain_Lookup [env_Lookup prefix getenv, static_Lookup rules] ec key = Some d \<Longrightarrow> decision_ok key d"
  by (auto split: option.splits dest: env_ok static_ok)

interpretation static_provider: flag_provider "static_Lookup rules"
  by unfold_locales (rule static_ok)

interpretation env_provider: flag_provider "env_Lookup prefix getenv"
  by unfold_locales (rule env_ok)

interpretation standard_chain: flag_provider "chain_Lookup [env_Lookup prefix getenv, static_Lookup rules]"
  by unfold_locales (rule standard_ok)

section \<open>Buckets\<close>

lemma bucket_range: "0 \<le> bucketFor key i \<and> bucketFor key i < 100"
proof -
  have "uint (w mod 100) < 100" for w :: "32 word"
    by (simp add: uint_mod)
  then show ?thesis by (simp add: bucketFor_def)
qed

lemma inPercent_mono: "inPercent key i p \<Longrightarrow> p \<le> q \<Longrightarrow> inPercent key i q"
  by (auto simp: inPercent_def split: if_splits)

lemma inPercent_clamp: "inPercent key i p = inPercent key i (max 0 (min 100 p))"
  by (simp add: inPercent_def)

definition with_percent :: "Rule \<Rightarrow> int \<Rightarrow> string \<Rightarrow> Rule" where
  "with_percent rule p by = rule\<lparr>ru_percent := Some \<lparr>pr_percent = p, pr_by = by\<rparr>\<rparr>"

lemma evaluate_percent:
  "dc_enabled (evaluateRule key (with_percent rule p by) ec) \<longleftrightarrow>
     \<not> listed ec (ru_deny rule) (orDefault (ru_deny_by rule) ''user_id'')
     \<and> (listed ec (ru_allow rule) (orDefault (ru_allow_by rule) ''user_id'')
        \<or> inPercent key (case ec_lookup ec (orDefault by ''user_id'') of Some v \<Rightarrow> v | None \<Rightarrow> []) p)"
  by (simp add: evaluateRule_def with_percent_def decisionFromRule_def Let_def)

section \<open>Properties\<close>


definition demo_rule :: Rule where
  "demo_rule = \<lparr>ru_default = True, ru_variant = ''v2'', ru_allow = [], ru_allow_by = [],
     ru_deny = [''u1''], ru_deny_by = [], ru_percent = None\<rparr>"


text \<open>
  A rollout only grows. Raising a rule's percentage never switches the flag off for a context
  that had it, below 0 and above 100 it is the empty and the full rollout, and an environment
  override of \<open>p%\<close> picks exactly the users a bare rule with that percentage picks.
\<close>

theorem rollout_grows:
  assumes "p \<le> q"
  shows "(dc_enabled (evaluateRule key (with_percent rule p by) ec)
          \<longrightarrow> dc_enabled (evaluateRule key (with_percent rule q by) ec))
     \<and> (ru_deny rule = [] \<and> 100 \<le> q \<longrightarrow> dc_enabled (evaluateRule key (with_percent rule q by) ec))
     \<and> (ru_allow rule = [] \<and> p \<le> 0 \<longrightarrow> \<not> dc_enabled (evaluateRule key (with_percent rule p by) ec))
     \<and> (0 \<le> p \<and> p \<le> 100 \<and> ru_deny rule = [] \<and> ru_allow rule = []
          \<and> getenv (''FF_'' @ flagKeyToEnv key) = Some raw \<and> HasSuffix (TrimSpace raw) ''%''
          \<and> Atoi (TrimSpace (TrimSuffix (TrimSpace raw) ''%'')) = Some p
        \<longrightarrow> map_option dc_enabled (env_Lookup ''FF_'' getenv ec key)
              = Some (dc_enabled (evaluateRule key (with_percent rule p ''user_id'') ec)))"
proof -
  have "TrimSpace raw \<noteq> []" if "HasSuffix (TrimSpace raw) ''%''"
    using that by (auto simp: HasSuffix_iff)
  then show ?thesis
    using assms inPercent_mono[of key _ p q]
    by (auto simp: evaluate_percent env_Lookup_def env_decision_def Let_def listed_def orDefault_def
        inPercent_def split: option.splits)
qed

theorem rollout_grows_witness:
  "dc_enabled (evaluateRule ''f'' (with_percent demo_rule 100 []) zero_context)"
proof -
  have "dc_enabled (evaluateRule ''f'' (with_percent demo_rule 99 []) zero_context)" by code_simp
  with rollout_grows[of 99 100 "''f''" demo_rule "[]" zero_context] show ?thesis by simp
qed

text \<open>
  A malformed override is a hard off. A percent override that does not parse or lies outside
  [0, 100] gives an error decision that hides every less specific layer and is off with variant
  \<open>off\<close>, for every context and whatever default the caller passes, also True.
\<close>

theorem malformed_override_off:
  assumes "getenv (''FF_'' @ flagKeyToEnv key) = Some raw" and "HasSuffix (TrimSpace raw) ''%''"
    and "case Atoi (TrimSpace (TrimSuffix (TrimSpace raw) ''%'')) of None \<Rightarrow> True | Some p \<Rightarrow> p < 0 \<or> 100 < p"
  shows "service_Decision (Some (chain_Lookup [env_Lookup ''FF_'' getenv, static_Lookup rules])) ec key b
       = env_decision key False ''off'' ReasonError
     \<and> \<not> IsEnabled (Some (chain_Lookup [env_Lookup ''FF_'' getenv, static_Lookup rules])) ec key True
     \<and> Variant (Some (chain_Lookup [env_Lookup ''FF_'' getenv, static_Lookup rules])) ec key v = ''off''"
proof -
  have "TrimSpace raw \<noteq> []" using assms(2) by (auto simp: HasSuffix_iff)
  then have "env_Lookup ''FF_'' getenv ec key = Some (env_decision key False ''off'' ReasonError)"
    using assms by (auto simp: env_Lookup_def Let_def split: option.splits)
  then show ?thesis
    by (simp add: service_Decision_def IsEnabled_def Variant_def decisionWithVariantDefault_def env_decision_def)
qed

theorem malformed_override_off_witness:
  "\<not> IsEnabled (Some (chain_Lookup [env_Lookup ''FF_'' [''FF_NEW_UI'' \<mapsto> ''abc%''], static_Lookup Map.empty]))
     zero_context ''new-ui'' True"
proof -
  have e: "[''FF_NEW_UI'' \<mapsto> ''abc%''] (''FF_'' @ flagKeyToEnv ''new-ui'') = Some ''abc%''"
    "HasSuffix (TrimSpace ''abc%'') ''%''"
    "case Atoi (TrimSpace (TrimSuffix (TrimSpace ''abc%'') ''%'')) of None \<Rightarrow> True | Some p \<Rightarrow> p < 0 \<or> 100 < p"
    by code_simp+
  show ?thesis
    using malformed_override_off[where getenv = "[''FF_NEW_UI'' \<mapsto> ''abc%'']" and key = "''new-ui''"
        and raw = "''abc%''" and rules = Map.empty and ec = zero_context, OF e] by blast
qed

text \<open>
  An evaluation context without any identifier is not always off. The zero context matches no
  allow or deny entry, but a percent rule buckets it by the empty identifier: a 100 percent rollout
  has it on, and so has a partial one whose key sends the empty identifier below the percentage.
\<close>

theorem zero_context_rolls_in:
  "dc_enabled (evaluateRule key (with_percent (demo_rule\<lparr>ru_deny := []\<rparr>) 100 by) zero_context)
   \<and> (dc_enabled (evaluateRule key (with_percent (demo_rule\<lparr>ru_deny := []\<rparr>) p by) zero_context)
        \<longleftrightarrow> 0 < p \<and> (100 \<le> p \<or> bucketFor key [] < p))
   \<and> \<not> listed zero_context entries any"
  by (auto simp: evaluate_percent listed_def ec_lookup_def zero_context_def inPercent_def demo_rule_def
      split: if_splits)

end
