(* ===== verification/GraphPlan.thy ===== *)
theory GraphPlan
  imports GoStrings
begin

text \<open>
  The validation of a dependency-graph plan (\<^verbatim>\<open>server/internal/handler/dependency_graph.go\<close>,
  \<^verbatim>\<open>validateDependencyGraphPlan\<close> and its helpers): the checks on the texts, roles and edges of
  the request in the order of the code, the two graph searches per edge (cycles, redundant edges),
  and the layering of the tasks into waves. Tasks are numbered by their position in the request.
  Nil and empty slices are one value, as in the code. JSON decoding and UUID parsing belong to
  libraries: they are the fields of \<open>graph_codec\<close>.
\<close>

section \<open>The request\<close>

record role_input =
  rl_type :: string
  rl_id :: string

record task_input =
  tk_temp_id :: string
  tk_title :: string
  tk_description :: string
  tk_criteria :: "string list"
  tk_context :: string
  tk_outputs :: "string list"
  tk_owner :: "role_input option"
  tk_executor :: "role_input option"
  tk_candidates :: "role_input list"
  tk_reviewer :: "role_input option"
  tk_runtime_id :: "string option"
  tk_model_id :: "string option"

record edge_input =
  eg_from :: string
  eg_to :: string
  eg_type :: string
  eg_reason :: string
  eg_consumed :: string

record apply_input =
  in_goal :: string
  in_parent :: string
  in_tasks :: "task_input list"
  in_edges :: "edge_input list"

text \<open>\<open>gc_parse\<close> and \<open>gc_text\<close> read and write a UUID; \<open>gc_json\<close> decodes a JSON text into whether it
  is an object and its canonical text. \<open>gc_uuid\<close> is the canonical text of a UUID's text.\<close>

record graph_codec =
  gc_parse :: "string \<Rightarrow> uuid option"
  gc_text :: "uuid \<Rightarrow> string"
  gc_json :: "string \<Rightarrow> (bool \<times> string) option"

definition gc_uuid :: "graph_codec \<Rightarrow> string \<Rightarrow> string option" where
  "gc_uuid co s = map_option (gc_text co) (gc_parse co s)"

definition dependencyGraphMaxTasks :: nat where "dependencyGraphMaxTasks = 128"
definition dependencyGraphMaxEdges :: nat where "dependencyGraphMaxEdges = 512"
definition dependencyGraphMaxGoal :: nat where "dependencyGraphMaxGoal = 8000"
definition dependencyGraphMaxTempID :: nat where "dependencyGraphMaxTempID = 64"
definition dependencyGraphMaxTitle :: nat where "dependencyGraphMaxTitle = 500"
definition dependencyGraphMaxDescription :: nat where "dependencyGraphMaxDescription = 30000"
definition dependencyGraphMaxTextItem :: nat where "dependencyGraphMaxTextItem = 2000"
definition dependencyGraphMaxEdgeReason :: nat where "dependencyGraphMaxEdgeReason = 4000"
definition dependencyGraphHardType :: string where "dependencyGraphHardType = ''hard''"

datatype plan_error =
    TextRequired string | TextTooLong string nat | TextPadded string
  | ParentNotUUID | NoTasks | TooManyTasks | TooManyEdges
  | DuplicateTempID string | NoCriteria string | NoOutputs string | DuplicateOutput string string
  | BadJSON string | NotJSONObject string
  | BadRoleType string | BadRoleID string | BadExecutorType string | BadOwnerType string
  | TargetIncomplete string | BadRuntimeID string
  | EdgeNotHard string | UnknownFrom string string | UnknownTo string string
  | SelfDependency string | DuplicateEdge string string | OutputNotProduced string string string
  | GraphCyclic | RedundantEdge string string

text \<open>A sequence of checks that returns at the first error.\<close>

fun first_error :: "'e option list \<Rightarrow> 'e option" where
  "first_error [] = None"
| "first_error (None # cs) = first_error cs"
| "first_error (Some e # cs) = Some e"

definition bracketed :: "string \<Rightarrow> nat \<Rightarrow> string" where
  "bracketed name i = name @ ''['' @ Itoa i @ '']''"

section \<open>Texts, roles and targets\<close>

definition validateDependencyGraphText :: "string \<Rightarrow> string \<Rightarrow> nat \<Rightarrow> bool \<Rightarrow> plan_error option" where
  "validateDependencyGraphText value field maxLength required =
     (if required \<and> TrimSpace value = [] then Some (TextRequired field)
      else if maxLength < RuneCountInString value then Some (TextTooLong field maxLength)
      else if value \<noteq> TrimSpace value then Some (TextPadded field)
      else None)"

definition canonicalDependencyGraphJSON ::
  "graph_codec \<Rightarrow> string \<Rightarrow> string \<Rightarrow> bool \<Rightarrow> plan_error + string" where
  "canonicalDependencyGraphJSON co raw field requireObject =
     (case gc_json co (if raw = [] then ''{}'' else raw) of
        None \<Rightarrow> Inl (BadJSON field)
      | Some (is_object, canonical) \<Rightarrow>
          if requireObject \<and> \<not> is_object then Inl (NotJSONObject field) else Inr canonical)"

definition validateDependencyGraphRoleShape ::
  "graph_codec \<Rightarrow> role_input option \<Rightarrow> string \<Rightarrow> plan_error + role_input option" where
  "validateDependencyGraphRoleShape co role field =
     (case role of
        None \<Rightarrow> Inr None
      | Some r \<Rightarrow>
          if rl_type r \<noteq> ''member'' \<and> rl_type r \<noteq> ''agent'' \<and> rl_type r \<noteq> ''team''
          then Inl (BadRoleType field)
          else case gc_uuid co (rl_id r) of
            None \<Rightarrow> Inl (BadRoleID field)
          | Some u \<Rightarrow> Inr (Some (r\<lparr>rl_id := u\<rparr>)))"

definition validateDependencyGraphExecutorShape ::
  "graph_codec \<Rightarrow> role_input option \<Rightarrow> string \<Rightarrow> plan_error + role_input option" where
  "validateDependencyGraphExecutorShape co executor field =
     (case validateDependencyGraphRoleShape co executor field of
        Inl e \<Rightarrow> Inl e
      | Inr None \<Rightarrow> Inr None
      | Inr (Some r) \<Rightarrow>
          if rl_type r \<noteq> ''agent'' \<and> rl_type r \<noteq> ''team'' then Inl (BadExecutorType field)
          else Inr (Some r))"

definition validateDependencyGraphOwnerShape ::
  "graph_codec \<Rightarrow> role_input option \<Rightarrow> string \<Rightarrow> plan_error + role_input option" where
  "validateDependencyGraphOwnerShape co owner field =
     (case validateDependencyGraphRoleShape co owner field of
        Inl e \<Rightarrow> Inl e
      | Inr None \<Rightarrow> Inr None
      | Inr (Some r) \<Rightarrow> if rl_type r \<noteq> ''member'' then Inl (BadOwnerType field) else Inr (Some r))"

definition validateDependencyGraphExecutionTarget ::
  "graph_codec \<Rightarrow> string option \<Rightarrow> string option \<Rightarrow> string \<Rightarrow> plan_error option" where
  "validateDependencyGraphExecutionTarget co runtimeID modelID field =
     (case (runtimeID, modelID) of
        (None, None) \<Rightarrow> None
      | (Some rt, Some md) \<Rightarrow>
          if gc_uuid co rt = None then Some (BadRuntimeID field)
          else validateDependencyGraphText md (field @ ''.model_id'') 255 True
      | _ \<Rightarrow> Some (TargetIncomplete field))"

section \<open>Tasks\<close>

definition check_result :: "'e + 'a \<Rightarrow> 'e option" where
  "check_result r = (case r of Inl e \<Rightarrow> Some e | Inr _ \<Rightarrow> None)"

fun check_texts :: "string \<Rightarrow> nat \<Rightarrow> string list \<Rightarrow> plan_error option" where
  "check_texts field i [] = None"
| "check_texts field i (c # cs) =
     (case validateDependencyGraphText c (bracketed field i) dependencyGraphMaxTextItem True of
        Some e \<Rightarrow> Some e | None \<Rightarrow> check_texts field (Suc i) cs)"

fun check_outputs :: "string \<Rightarrow> nat \<Rightarrow> string list \<Rightarrow> string list \<Rightarrow> plan_error option" where
  "check_outputs field i seen [] = None"
| "check_outputs field i seen (c # cs) =
     (case validateDependencyGraphText c (bracketed field i) dependencyGraphMaxTextItem True of
        Some e \<Rightarrow> Some e
      | None \<Rightarrow> if c \<in> set seen then Some (DuplicateOutput field c)
                else check_outputs field (Suc i) (c # seen) cs)"

fun check_candidates :: "graph_codec \<Rightarrow> string \<Rightarrow> nat \<Rightarrow> role_input list \<Rightarrow> plan_error option" where
  "check_candidates co field i [] = None"
| "check_candidates co field i (r # rs) =
     (case check_result (validateDependencyGraphExecutorShape co (Some r) (bracketed field i)) of
        Some e \<Rightarrow> Some e | None \<Rightarrow> check_candidates co field (Suc i) rs)"

definition check_task :: "graph_codec \<Rightarrow> nat \<Rightarrow> string list \<Rightarrow> task_input \<Rightarrow> plan_error option" where
  "check_task co index seen t =
     (let field = bracketed ''tasks'' index in
      first_error
        [validateDependencyGraphText (tk_temp_id t) (field @ ''.temp_id'') dependencyGraphMaxTempID True,
         if tk_temp_id t \<in> set seen then Some (DuplicateTempID (tk_temp_id t)) else None,
         validateDependencyGraphText (tk_title t) (field @ ''.title'') dependencyGraphMaxTitle True,
         validateDependencyGraphText (tk_description t) (field @ ''.description'')
           dependencyGraphMaxDescription False,
         if tk_criteria t = [] then Some (NoCriteria field) else None,
         check_texts (field @ ''.acceptance_criteria'') 0 (tk_criteria t),
         if tk_outputs t = [] then Some (NoOutputs field) else None,
         check_outputs (field @ ''.outputs'') 0 [] (tk_outputs t),
         check_result (canonicalDependencyGraphJSON co (tk_context t) (field @ ''.context'') True),
         check_result (validateDependencyGraphOwnerShape co (tk_owner t) (field @ ''.owner'')),
         check_result (validateDependencyGraphExecutorShape co (tk_executor t) (field @ ''.executor'')),
         check_candidates co (field @ ''.candidate_executors'') 0 (tk_candidates t),
         check_result (validateDependencyGraphRoleShape co (tk_reviewer t) (field @ ''.reviewer'')),
         validateDependencyGraphExecutionTarget co (tk_runtime_id t) (tk_model_id t) field])"

fun check_tasks :: "graph_codec \<Rightarrow> nat \<Rightarrow> string list \<Rightarrow> task_input list \<Rightarrow> plan_error option" where
  "check_tasks co index seen [] = None"
| "check_tasks co index seen (t # ts) =
     (case check_task co index seen t of
        Some e \<Rightarrow> Some e
      | None \<Rightarrow> check_tasks co (Suc index) (tk_temp_id t # seen) ts)"

text \<open>What the code writes back into an accepted request: canonical ids and contexts.\<close>

definition canonical_role :: "graph_codec \<Rightarrow> role_input \<Rightarrow> role_input" where
  "canonical_role co r = (case gc_uuid co (rl_id r) of None \<Rightarrow> r | Some u \<Rightarrow> r\<lparr>rl_id := u\<rparr>)"

definition canonical_task :: "graph_codec \<Rightarrow> task_input \<Rightarrow> task_input" where
  "canonical_task co t =
     t\<lparr>tk_context := (case canonicalDependencyGraphJSON co (tk_context t) [] True of
                        Inl _ \<Rightarrow> tk_context t | Inr c \<Rightarrow> c),
       tk_owner := map_option (canonical_role co) (tk_owner t),
       tk_executor := map_option (canonical_role co) (tk_executor t),
       tk_candidates := map (canonical_role co) (tk_candidates t),
       tk_reviewer := map_option (canonical_role co) (tk_reviewer t)\<rparr>"

section \<open>Edges\<close>

text \<open>\<open>taskIndexes\<close>: the position of a temp id among those of the tasks.\<close>

fun index_of :: "string list \<Rightarrow> string \<Rightarrow> nat option" where
  "index_of [] x = None"
| "index_of (y # ys) x = (if y = x then Some 0 else map_option Suc (index_of ys x))"

text \<open>The state of the edge loop: for every task its outgoing edges as (target, edge index), its
  in-degree, and the pairs seen so far, in order.\<close>

record edge_state =
  es_adjacency :: "(nat \<times> nat) list list"
  es_indegree :: "int list"
  es_pairs :: "(nat \<times> nat) list"

definition check_edge ::
  "task_input list \<Rightarrow> (nat \<times> nat) list \<Rightarrow> nat \<Rightarrow> edge_input \<Rightarrow> plan_error + nat \<times> nat" where
  "check_edge ts pairs edgeIndex e =
     (let field = bracketed ''edges'' edgeIndex; names = map tk_temp_id ts in
      case first_error
        [validateDependencyGraphText (eg_from e) (field @ ''.from'') dependencyGraphMaxTempID True,
         validateDependencyGraphText (eg_to e) (field @ ''.to'') dependencyGraphMaxTempID True,
         if eg_type e \<noteq> dependencyGraphHardType then Some (EdgeNotHard field) else None,
         validateDependencyGraphText (eg_reason e) (field @ ''.reason'') dependencyGraphMaxEdgeReason True,
         validateDependencyGraphText (eg_consumed e) (field @ ''.consumed_output'')
           dependencyGraphMaxTextItem True] of
        Some err \<Rightarrow> Inl err
      | None \<Rightarrow>
          (case (index_of names (eg_from e), index_of names (eg_to e)) of
             (None, _) \<Rightarrow> Inl (UnknownFrom field (eg_from e))
           | (_, None) \<Rightarrow> Inl (UnknownTo field (eg_to e))
           | (Some from, Some to) \<Rightarrow>
               if from = to then Inl (SelfDependency field)
               else if (from, to) \<in> set pairs then Inl (DuplicateEdge (eg_from e) (eg_to e))
               else if eg_consumed e \<notin> set (tk_outputs (ts ! from))
               then Inl (OutputNotProduced field (eg_consumed e) (eg_from e))
               else Inr (from, to)))"

definition add_edge :: "nat \<Rightarrow> nat \<times> nat \<Rightarrow> edge_state \<Rightarrow> edge_state" where
  "add_edge edgeIndex p st =
     st\<lparr>es_adjacency := (es_adjacency st)[fst p := es_adjacency st ! fst p @ [(snd p, edgeIndex)]],
        es_indegree := (es_indegree st)[snd p := es_indegree st ! snd p + 1],
        es_pairs := es_pairs st @ [p]\<rparr>"

fun add_edges :: "task_input list \<Rightarrow> nat \<Rightarrow> edge_input list \<Rightarrow> edge_state \<Rightarrow> plan_error + edge_state" where
  "add_edges ts edgeIndex [] st = Inr st"
| "add_edges ts edgeIndex (e # es) st =
     (case check_edge ts (es_pairs st) edgeIndex e of
        Inl err \<Rightarrow> Inl err
      | Inr p \<Rightarrow> add_edges ts (Suc edgeIndex) es (add_edge edgeIndex p st))"

definition no_edges :: "nat \<Rightarrow> edge_state" where
  "no_edges n = \<lparr>es_adjacency = replicate n [], es_indegree = replicate n 0, es_pairs = []\<rparr>"

section \<open>Searching\<close>

text \<open>The worklist search: \<open>queue\<close> and \<open>seen\<close> as in the code. Task numbers are always inside the
  adjacency table.\<close>

definition successors :: "(nat \<times> nat) list list \<Rightarrow> nat \<Rightarrow> nat \<Rightarrow> nat list" where
  "successors adj ignored u =
     (if u < length adj then map fst (filter (\<lambda>(v, k). k \<noteq> ignored) (adj ! u)) else [])"

function search :: "(nat \<times> nat) list list \<Rightarrow> nat \<Rightarrow> nat \<Rightarrow> nat list \<Rightarrow> nat list \<Rightarrow> bool" where
  "search adj target ignored [] seen = False"
| "search adj target ignored (u # queue) seen =
     (if u = target then True
      else if u \<in> set seen then search adj target ignored queue seen
      else search adj target ignored (queue @ successors adj ignored u) (u # seen))"
  by pat_completeness auto

text \<open>A node outside the table has no successors, so a step either shortens the queue or marks one
  more node of the table.\<close>

termination
proof (relation "inv_image (finite_psubset <*lex*> less_than)
     (\<lambda>(adj, target, ignored, queue, seen). ({..<length adj} - set seen, length queue))", goal_cases)
  case 1
  show ?case by (intro wf_inv_image wf_lex_prod wf_finite_psubset wf_less_than)
next
  case (3 adj target ignored u queue seen)
  then show ?case
    by (cases "u < length adj") (auto simp: finite_psubset_def successors_def)
qed (auto simp: finite_psubset_def)

definition dependencyGraphHasPath :: "(nat \<times> nat) list list \<Rightarrow> nat \<Rightarrow> nat \<Rightarrow> nat \<Rightarrow> bool" where
  "dependencyGraphHasPath adj source target ignoredEdge = search adj target ignoredEdge [source] []"

section \<open>Waves\<close>

text \<open>The inner loops of one wave: every dependent of a finished task loses one open prerequisite and
  joins the next wave when it has none left. Indices outside the tables do not occur (the code would
  panic on them); the model passes over them.\<close>

fun release :: "(nat \<times> nat) list \<Rightarrow> int list \<Rightarrow> nat list \<Rightarrow> int list \<times> nat list" where
  "release [] deg nxt = (deg, nxt)"
| "release ((v, k) # es) deg nxt =
     (if v < length deg then
        let d = deg ! v - 1 in release es (deg[v := d]) (if d = 0 then nxt @ [v] else nxt)
      else release es deg nxt)"

fun release_all ::
  "(nat \<times> nat) list list \<Rightarrow> nat list \<Rightarrow> int list \<Rightarrow> nat list \<Rightarrow> int list \<times> nat list" where
  "release_all adj [] deg nxt = (deg, nxt)"
| "release_all adj (u # us) deg nxt =
     (let (deg', nxt') = release (if u < length adj then adj ! u else []) deg nxt
      in release_all adj us deg' nxt')"

definition positive :: "int list \<Rightarrow> nat" where
  "positive deg = length (filter (\<lambda>d. 0 < d) deg)"

lemma positive_update:
  assumes "v < length deg"
  shows "positive (deg[v := x]) + (if 0 < deg ! v then 1 else 0) = positive deg + (if 0 < x then 1 else 0)"
  using assms
proof (induction deg arbitrary: v)
  case (Cons d deg)
  then show ?case by (cases v) (auto simp: positive_def)
qed simp

lemma release_positive:
  assumes "release es deg nxt = (deg', nxt')"
  shows "length deg' = length deg" and "positive deg' + length nxt' \<le> positive deg + length nxt"
proof -
  have "length deg' = length deg \<and> positive deg' + length nxt' \<le> positive deg + length nxt"
    using assms
  proof (induction es deg nxt rule: release.induct)
    case (2 v k es deg nxt)
    let ?d = "deg ! v - 1"
    have step: "positive (deg[v := ?d]) + length (if ?d = 0 then nxt @ [v] else nxt)
        \<le> positive deg + length nxt" if "v < length deg"
      using positive_update[OF that, of ?d] by (cases "?d = 0") (auto split: if_splits)
    show ?case
    proof (cases "v < length deg")
      case True
      with 2 step show ?thesis by (auto simp: Let_def)
    next
      case False
      with 2 show ?thesis by simp
    qed
  qed simp
  then show "length deg' = length deg" "positive deg' + length nxt' \<le> positive deg + length nxt" by auto
qed

lemma release_all_positive:
  assumes "release_all adj us deg nxt = (deg', nxt')"
  shows "length deg' = length deg" and "positive deg' + length nxt' \<le> positive deg + length nxt"
proof -
  have "length deg' = length deg \<and> positive deg' + length nxt' \<le> positive deg + length nxt"
    using assms
  proof (induction adj us deg nxt rule: release_all.induct)
    case (2 adj u us deg nxt)
    obtain d n where r: "release (if u < length adj then adj ! u else []) deg nxt = (d, n)" by fastforce
    from 2(1)[OF r[symmetric] refl] 2(2) r release_positive[OF r] show ?case by auto
  qed simp
  then show "length deg' = length deg" "positive deg' + length nxt' \<le> positive deg + length nxt" by auto
qed

text \<open>The wave loop, with the number of tasks visited.\<close>

function waves_from :: "(nat \<times> nat) list list \<Rightarrow> nat list \<Rightarrow> int list \<Rightarrow> nat list list \<times> nat" where
  "waves_from adj current deg =
     (if current = [] then ([], 0)
      else let (deg', nxt) = release_all adj current deg [];
               (waves, visited) = waves_from adj nxt deg'
           in (current # waves, length current + visited))"
  by auto

termination
proof (relation "measure (\<lambda>(adj, current, deg). positive deg + length current)", goal_cases)
  case (2 adj current deg x deg' nxt)
  then show ?case
    using release_all_positive(2)[of adj current deg "[]" deg' nxt] by (cases current) auto
qed simp

declare waves_from.simps [simp del]

definition roots :: "int list \<Rightarrow> nat list" where
  "roots deg = filter (\<lambda>i. deg ! i = 0) [0..<length deg]"

section \<open>Validation\<close>

definition validateDependencyGraphPlan ::
  "graph_codec \<Rightarrow> apply_input \<Rightarrow> plan_error + string list list \<times> apply_input" where
  "validateDependencyGraphPlan co input =
     (let ts = in_tasks input; names = map tk_temp_id ts in
      case first_error
        [validateDependencyGraphText (in_goal input) ''goal'' dependencyGraphMaxGoal True,
         if gc_uuid co (in_parent input) = None then Some ParentNotUUID else None,
         if ts = [] then Some NoTasks else None,
         if dependencyGraphMaxTasks < length ts then Some TooManyTasks else None,
         if dependencyGraphMaxEdges < length (in_edges input) then Some TooManyEdges else None,
         check_tasks co 0 [] ts] of
        Some e \<Rightarrow> Inl e
      | None \<Rightarrow>
          (case add_edges ts 0 (in_edges input) (no_edges (length ts)) of
             Inl e \<Rightarrow> Inl e
           | Inr st \<Rightarrow>
               let adj = es_adjacency st; numbered = enumerate 0 (es_pairs st) in
               if list_ex (\<lambda>(k, from, to). dependencyGraphHasPath adj to from k) numbered
               then Inl GraphCyclic
               else (case find (\<lambda>(k, from, to). dependencyGraphHasPath adj from to k) numbered of
                  Some (k, from, to) \<Rightarrow> Inl (RedundantEdge (names ! from) (names ! to))
                | None \<Rightarrow>
                    (let (waves, visited) = waves_from adj (roots (es_indegree st)) (es_indegree st) in
                     if visited \<noteq> length ts then Inl GraphCyclic
                     else Inr (map (map ((!) names)) waves,
                            input\<lparr>in_parent := (case gc_uuid co (in_parent input) of
                                                 None \<Rightarrow> in_parent input | Some u \<Rightarrow> u),
                              in_tasks := map (canonical_task co) ts\<rparr>)))))"

end
