(* ===== verification/GraphWaves.thy ===== *)
theory GraphWaves
  imports GraphPlan
begin

text \<open>
  The graph side of plan validation: what the edge loop builds, that the worklist search decides
  reachability, that the per-edge searches decide acyclicity and transitive reduction, and that the
  wave loop layers an acyclic graph completely.
\<close>

section \<open>What the edge loop builds\<close>

definition pairs_ok :: "nat \<Rightarrow> (nat \<times> nat) list \<Rightarrow> bool" where
  "pairs_ok n ps \<longleftrightarrow> distinct ps \<and> (\<forall>(u, v) \<in> set ps. u < n \<and> v < n \<and> u \<noteq> v)"

definition out_edges :: "(nat \<times> nat) list \<Rightarrow> nat \<Rightarrow> (nat \<times> nat) list" where
  "out_edges ps u = map (\<lambda>(k, p). (snd p, k)) (filter (\<lambda>(k, p). fst p = u) (enumerate 0 ps))"

definition state_of :: "nat \<Rightarrow> (nat \<times> nat) list \<Rightarrow> edge_state" where
  "state_of n ps =
     \<lparr>es_adjacency = map (out_edges ps) [0..<n],
      es_indegree = map (\<lambda>v. int (length (filter (\<lambda>p. snd p = v) ps))) [0..<n],
      es_pairs = ps\<rparr>"

lemma state_of_simps [simp]:
  "es_pairs (state_of n ps) = ps" "es_adjacency (state_of n ps) = map (out_edges ps) [0..<n]"
  "es_indegree (state_of n ps) = map (\<lambda>v. int (length (filter (\<lambda>p. snd p = v) ps))) [0..<n]"
  by (simp_all add: state_of_def)

lemma no_edges_state: "no_edges n = state_of n []"
  by (simp add: no_edges_def state_of_def out_edges_def list_eq_iff_nth_eq)

lemma out_edges_snoc:
  "out_edges (ps @ [p]) u = out_edges ps u @ (if fst p = u then [(snd p, length ps)] else [])"
  by (simp add: out_edges_def enumerate_append_eq)

lemma add_edge_state:
  assumes "fst p < n" and "snd p < n"
  shows "add_edge (length ps) p (state_of n ps) = state_of n (ps @ [p])"
  using assms
  by (auto simp: add_edge_def state_of_def out_edges_snoc list_eq_iff_nth_eq nth_list_update)

lemma index_of_Some: "index_of ys x = Some i \<Longrightarrow> i < length ys \<and> ys ! i = x"
  by (induction ys arbitrary: i) (auto split: if_splits)

lemma index_of_nth: "distinct ys \<Longrightarrow> i < length ys \<Longrightarrow> index_of ys (ys ! i) = Some i"
  by (induction ys arbitrary: i) (auto simp: nth_Cons split: nat.splits)

lemma check_edge_ok:
  assumes "check_edge ts ps k e = Inr p"
  shows "fst p < length ts \<and> snd p < length ts \<and> fst p \<noteq> snd p \<and> p \<notin> set ps
    \<and> tk_temp_id (ts ! fst p) = eg_from e \<and> tk_temp_id (ts ! snd p) = eg_to e
    \<and> eg_consumed e \<in> set (tk_outputs (ts ! fst p))"
  using assms
  by (auto simp: check_edge_def Let_def split: option.splits if_splits dest!: index_of_Some)

definition edge_names :: "edge_input \<Rightarrow> string \<times> string" where
  "edge_names e = (eg_from e, eg_to e)"

lemma add_edges_state:
  assumes "add_edges ts (length ps) es (state_of (length ts) ps) = Inr st" and "pairs_ok (length ts) ps"
  obtains qs where "st = state_of (length ts) (ps @ qs)" "pairs_ok (length ts) (ps @ qs)"
    "map (map_prod ((!) (map tk_temp_id ts)) ((!) (map tk_temp_id ts))) qs = map edge_names es"
proof -
  have "\<exists>qs. st = state_of (length ts) (ps @ qs) \<and> pairs_ok (length ts) (ps @ qs)
      \<and> map (map_prod ((!) (map tk_temp_id ts)) ((!) (map tk_temp_id ts))) qs = map edge_names es"
    using assms
  proof (induction es arbitrary: ps)
    case (Cons e es)
    then obtain p where p: "check_edge ts ps (length ps) e = Inr p" by (auto split: sum.splits)
    note pk = check_edge_ok[OF p]
    have ok: "pairs_ok (length ts) (ps @ [p])"
      using Cons.prems(2) pk by (auto simp: pairs_ok_def)
    have "add_edges ts (length (ps @ [p])) es (state_of (length ts) (ps @ [p])) = Inr st"
      using Cons.prems(1) p pk by (simp add: add_edge_state)
    from Cons.IH[OF this ok] obtain qs where
      "st = state_of (length ts) ((ps @ [p]) @ qs)" "pairs_ok (length ts) ((ps @ [p]) @ qs)"
      "map (map_prod ((!) (map tk_temp_id ts)) ((!) (map tk_temp_id ts))) qs = map edge_names es"
      by blast
    with pk show ?case
      by (intro exI[of _ "p # qs"]) (auto simp: edge_names_def map_prod_def split: prod.splits)
  qed auto
  with that show thesis by blast
qed

section \<open>The worklist search\<close>

definition step_rel :: "(nat \<times> nat) list list \<Rightarrow> nat \<Rightarrow> (nat \<times> nat) set" where
  "step_rel adj ignored = {(u, v). v \<in> set (successors adj ignored u)}"

lemma seen_escape:
  assumes "(s, t) \<in> (step_rel adj ign)\<^sup>*" and "s \<in> S" and "t \<notin> S"
    and "\<And>x y. x \<in> S \<Longrightarrow> y \<in> set (successors adj ign x) \<Longrightarrow> y \<in> S \<union> Q"
  shows "\<exists>q \<in> Q. (q, t) \<in> (step_rel adj ign)\<^sup>*"
  using assms(1,2)
proof (induction rule: converse_rtrancl_induct)
  case base
  with assms(3) show ?case by simp
next
  case (step x y)
  with assms(4) have "y \<in> S \<union> Q" unfolding step_rel_def by blast
  with step.IH step.hyps(2) show ?case by blast
qed

lemma search_reaches:
  assumes "t \<notin> set seen"
    and "\<And>x y. x \<in> set seen \<Longrightarrow> y \<in> set (successors adj ign x) \<Longrightarrow> y \<in> set seen \<union> set queue"
  shows "search adj t ign queue seen \<longleftrightarrow> (\<exists>q \<in> set queue. (q, t) \<in> (step_rel adj ign)\<^sup>*)"
  using assms
proof (induction adj t ign queue seen rule: search.induct)
  case (2 adj t ign u queue seen)
  let ?R = "(step_rel adj ign)\<^sup>*"
  consider (hit) "u = t" | (old) "u \<noteq> t" "u \<in> set seen" | (new) "u \<noteq> t" "u \<notin> set seen" by blast
  then show ?case
  proof cases
    case hit
    then show ?thesis by simp
  next
    case old
    have "search adj t ign queue seen \<longleftrightarrow> (\<exists>q \<in> set queue. (q, t) \<in> ?R)"
      by (rule "2.IH"(1)[OF old "2.prems"(1)]) (use "2.prems"(2) old(2) in force)
    moreover have "\<exists>q \<in> set queue. (q, t) \<in> ?R" if "(u, t) \<in> ?R"
      by (rule seen_escape[OF that old(2) "2.prems"(1)]) (use "2.prems"(2) old(2) in force)
    ultimately show ?thesis using old by auto
  next
    case new
    have "search adj t ign (queue @ successors adj ign u) (u # seen)
        \<longleftrightarrow> (\<exists>q \<in> set (queue @ successors adj ign u). (q, t) \<in> ?R)"
      by (rule "2.IH"(2)[OF new]) (use "2.prems" new(1) in auto)
    moreover have "(u, t) \<in> ?R \<longleftrightarrow> (\<exists>q \<in> set (successors adj ign u). (q, t) \<in> ?R)"
      using new(1) by (auto simp: step_rel_def elim: converse_rtranclE intro: converse_rtrancl_into_rtrancl)
    ultimately show ?thesis using new by auto
  qed
qed simp

lemma path_iff: "dependencyGraphHasPath adj s t ign \<longleftrightarrow> (s, t) \<in> (step_rel adj ign)\<^sup>*"
  unfolding dependencyGraphHasPath_def by (subst search_reaches) auto

lemma step_rel_state:
  assumes "pairs_ok n ps" and "k < length ps"
  shows "step_rel (es_adjacency (state_of n ps)) k = set ps - {ps ! k}"
proof -
  have "(u, v) \<in> step_rel (es_adjacency (state_of n ps)) k \<longleftrightarrow> u < n \<and> (\<exists>j < length ps. j \<noteq> k \<and> ps ! j = (u, v))"
    for u v
    by (force simp: step_rel_def successors_def out_edges_def in_set_enumerate_eq)
  moreover have "(\<exists>j < length ps. j \<noteq> k \<and> ps ! j = x) \<longleftrightarrow> x \<in> set ps - {ps ! k}" for x
    using assms by (auto simp: pairs_ok_def in_set_conv_nth nth_eq_iff_index_eq)
  ultimately show ?thesis
    using assms(1) by (auto simp: pairs_ok_def)
qed

section \<open>Acyclic and reduced\<close>

lemma rtrancl_avoid: "(x, u) \<in> E\<^sup>* \<Longrightarrow> (x, u) \<in> (E - {(u, v)})\<^sup>*"
proof (induction rule: converse_rtrancl_induct)
  case (step x y)
  show ?case
  proof (cases "(x, y) = (u, v)")
    case True
    then show ?thesis by simp
  next
    case False
    with step show ?thesis by (meson DiffI converse_rtrancl_into_rtrancl singletonD)
  qed
qed simp

lemma cyclic_edge: "acyclic E \<longleftrightarrow> (\<forall>(u, v) \<in> E. (v, u) \<notin> (E - {(u, v)})\<^sup>*)"
proof
  assume a: "acyclic E"
  show "\<forall>(u, v) \<in> E. (v, u) \<notin> (E - {(u, v)})\<^sup>*"
  proof clarify
    fix u v assume uv: "(u, v) \<in> E" and "(v, u) \<in> (E - {(u, v)})\<^sup>*"
    then have "(v, u) \<in> E\<^sup>*" using rtrancl_mono[of "E - {(u, v)}" E] by blast
    with uv have "(u, u) \<in> E\<^sup>+" by (rule rtrancl_into_trancl2)
    with a show False by (simp add: acyclic_def)
  qed
next
  assume r: "\<forall>(u, v) \<in> E. (v, u) \<notin> (E - {(u, v)})\<^sup>*"
  show "acyclic E"
    unfolding acyclic_def
  proof (intro allI notI)
    fix x assume "(x, x) \<in> E\<^sup>+"
    then obtain y where "(x, y) \<in> E" "(y, x) \<in> E\<^sup>*" by (metis tranclD)
    from rtrancl_avoid[OF this(2), of y] r this(1) show False by blast
  qed
qed

definition reduced :: "('a \<times> 'a) set \<Rightarrow> bool" where
  "reduced E \<longleftrightarrow> (\<forall>(u, v) \<in> E. (u, v) \<notin> (E - {(u, v)})\<^sup>+)"

lemma enumerate_ex:
  "(\<exists>x \<in> set (enumerate 0 ps). P x) \<longleftrightarrow> (\<exists>k < length ps. P (k, ps ! k))"
  by (auto simp: in_set_enumerate_eq Bex_def)

lemma set_ex_nth: "(\<exists>x \<in> set ps. P x) \<longleftrightarrow> (\<exists>k < length ps. P (ps ! k))"
  by (metis in_set_conv_nth)

lemma cyclic_check:
  assumes "pairs_ok n ps"
  shows "list_ex (\<lambda>(k, from, to). dependencyGraphHasPath (es_adjacency (state_of n ps)) to from k)
           (enumerate 0 ps) \<longleftrightarrow> \<not> acyclic (set ps)"
proof -
  have "list_ex (\<lambda>(k, from, to). dependencyGraphHasPath (es_adjacency (state_of n ps)) to from k)
           (enumerate 0 ps)
      \<longleftrightarrow> (\<exists>k < length ps. (snd (ps ! k), fst (ps ! k)) \<in> (set ps - {ps ! k})\<^sup>*)"
    unfolding list_ex_iff enumerate_ex path_iff
    by (intro ex_cong1 conj_cong refl) (simp only: case_prod_beta fst_conv snd_conv path_iff step_rel_state[OF assms])
  also have "\<dots> \<longleftrightarrow> \<not> acyclic (set ps)"
    unfolding cyclic_edge using set_ex_nth[of ps "\<lambda>(u, v). (v, u) \<in> (set ps - {(u, v)})\<^sup>*"]
    by (simp add: case_prod_beta)
  finally show ?thesis .
qed

lemma reduced_check:
  assumes "pairs_ok n ps"
  shows "find (\<lambda>(k, from, to). dependencyGraphHasPath (es_adjacency (state_of n ps)) from to k)
           (enumerate 0 ps) = None \<longleftrightarrow> reduced (set ps)"
proof -
  have ne: "fst p \<noteq> snd p" if "p \<in> set ps" for p using assms that by (auto simp: pairs_ok_def)
  have "find (\<lambda>(k, from, to). dependencyGraphHasPath (es_adjacency (state_of n ps)) from to k)
           (enumerate 0 ps) = None
      \<longleftrightarrow> \<not> (\<exists>k < length ps. (fst (ps ! k), snd (ps ! k)) \<in> (set ps - {ps ! k})\<^sup>*)"
    unfolding find_None_iff enumerate_ex[unfolded Bex_def]
    by (intro arg_cong[of _ _ Not] ex_cong1 conj_cong refl)
      (simp only: case_prod_beta fst_conv snd_conv path_iff step_rel_state[OF assms])
  also have "\<dots> \<longleftrightarrow> \<not> (\<exists>p \<in> set ps. (fst p, snd p) \<in> (set ps - {p})\<^sup>+)"
    unfolding set_ex_nth[of ps "\<lambda>p. (fst p, snd p) \<in> (set ps - {p})\<^sup>*", symmetric]
    by (intro arg_cong[of _ _ Not] bex_cong refl) (use ne in \<open>meson rtranclD trancl_into_rtrancl\<close>)
  also have "\<dots> \<longleftrightarrow> reduced (set ps)"
    by (simp add: reduced_def case_prod_beta)
  finally show ?thesis .
qed

section \<open>Layering\<close>

text \<open>The specification of the waves of a graph on \<open>{..<n}\<close>: from the finished tasks \<open>D\<close>, the next wave is
  all tasks whose prerequisites are finished, until there is none.\<close>

definition ready :: "nat \<Rightarrow> (nat \<times> nat) set \<Rightarrow> nat set \<Rightarrow> nat set" where
  "ready n E D = {v. v < n \<and> v \<notin> D \<and> E\<inverse> `` {v} \<subseteq> D}"

fun layers :: "nat \<Rightarrow> (nat \<times> nat) set \<Rightarrow> nat set \<Rightarrow> nat list list \<Rightarrow> bool" where
  "layers n E D [] \<longleftrightarrow> ready n E D = {}"
| "layers n E D (w # ws) \<longleftrightarrow>
     w \<noteq> [] \<and> distinct w \<and> set w = ready n E D \<and> layers n E (D \<union> set w) ws"

definition downset :: "nat \<Rightarrow> (nat \<times> nat) set \<Rightarrow> nat set \<Rightarrow> bool" where
  "downset n E D \<longleftrightarrow> D \<subseteq> {..<n} \<and> (\<forall>v \<in> D. E\<inverse> `` {v} \<subseteq> D)"

lemma downset_ready: "downset n E D \<Longrightarrow> downset n E (D \<union> ready n E D)"
  by (auto simp: downset_def ready_def)

text \<open>The inner loops. \<open>open_prereqs\<close> is what the in-degree table holds.\<close>

definition open_prereqs :: "nat \<Rightarrow> (nat \<times> nat) set \<Rightarrow> nat set \<Rightarrow> int list \<Rightarrow> bool" where
  "open_prereqs n E D deg \<longleftrightarrow>
     length deg = n \<and> (\<forall>v < n. deg ! v = int (card (E\<inverse> `` {v} - D)))"

lemma release_result:
  assumes "distinct (map fst es)" and "\<forall>v \<in> set (map fst es). v < length deg"
  shows "release es deg nxt =
     (map (\<lambda>v. if v \<in> set (map fst es) then deg ! v - 1 else deg ! v) [0..<length deg],
      nxt @ filter (\<lambda>v. deg ! v = 1) (map fst es))"
  using assms
proof (induction es deg nxt rule: release.induct)
  case (1 deg nxt)
  show ?case by (simp add: map_nth)
next
  case (2 v k es deg nxt)
  have v: "v < length deg" "v \<notin> set (map fst es)" using "2.prems" by auto
  have f: "filter (\<lambda>w. deg[v := deg ! v - 1] ! w = 1) (map fst es) = filter (\<lambda>w. deg ! w = 1) (map fst es)"
  proof (intro filter_cong refl)
    fix w assume "w \<in> set (map fst es)"
    with v(2) have "w \<noteq> v" by blast
    then show "(deg[v := deg ! v - 1] ! w = 1) = (deg ! w = 1)" by simp
  qed
  let ?d = "deg ! v - 1" and ?n = "if deg ! v - 1 = 0 then nxt @ [v] else nxt"
  have "release es (deg[v := ?d]) ?n =
     (map (\<lambda>w. if w \<in> set (map fst es) then deg[v := ?d] ! w - 1 else deg[v := ?d] ! w)
        [0..<length (deg[v := ?d])],
      ?n @ filter (\<lambda>w. deg[v := ?d] ! w = 1) (map fst es))"
    by (rule "2.IH"(1)[OF v(1) refl]) (use "2.prems" in auto)
  moreover have "map (\<lambda>w. if w \<in> set (map fst es) then deg[v := ?d] ! w - 1 else deg[v := ?d] ! w)
        [0..<length (deg[v := ?d])]
      = map (\<lambda>w. if w \<in> set (map fst ((v, k) # es)) then deg ! w - 1 else deg ! w) [0..<length deg]"
    using v by (intro map_cong) (auto simp: nth_list_update)
  moreover have "?n @ filter (\<lambda>w. deg ! w = 1) (map fst es)
      = nxt @ filter (\<lambda>w. deg ! w = 1) (map fst ((v, k) # es))" by simp
  ultimately show ?case using v(1) unfolding release.simps Let_def f by (simp only: if_True)
qed

lemma out_edges_targets:
  assumes "pairs_ok n ps"
  shows "set (map fst (out_edges ps u)) = set ps `` {u}" and "distinct (map fst (out_edges ps u))"
proof -
  have *: "map fst (out_edges ps u) = map snd (filter (\<lambda>p. fst p = u) ps)"
    unfolding out_edges_def
    by (induction ps rule: rev_induct) (auto simp: enumerate_append_eq case_prod_beta)
  show "set (map fst (out_edges ps u)) = set ps `` {u}" unfolding * by force
  show "distinct (map fst (out_edges ps u))"
    unfolding * using assms
    by (auto simp: pairs_ok_def distinct_map inj_on_def prod_eq_iff)
qed

lemma release_step:
  assumes ok: "pairs_ok n ps" and u: "u < n" "u \<notin> S" and inv: "open_prereqs n (set ps) S deg"
    and r: "release (out_edges ps u) deg nxt = (deg', nxt')"
  shows "open_prereqs n (set ps) (insert u S) deg'"
    and "\<exists>new. nxt' = nxt @ new \<and> distinct new
       \<and> set new = {v. v < n \<and> (set ps)\<inverse> `` {v} \<subseteq> insert u S \<and> \<not> (set ps)\<inverse> `` {v} \<subseteq> S}"
proof -
  let ?E = "set ps"
  note targets = out_edges_targets[OF ok, of u]
  have len: "length deg = n" and deg: "\<And>v. v < n \<Longrightarrow> deg ! v = int (card (?E\<inverse> `` {v} - S))"
    using inv by (auto simp: open_prereqs_def)
  have lt: "\<forall>v \<in> ?E `` {u}. v < n" using ok by (auto simp: pairs_ok_def)
  have fin: "finite (?E\<inverse> `` {v})" for v by (rule finite_Image) simp
  have d': "deg' = map (\<lambda>v. if v \<in> ?E `` {u} then deg ! v - 1 else deg ! v) [0..<n]"
    and n': "nxt' = nxt @ filter (\<lambda>v. deg ! v = 1) (map fst (out_edges ps u))"
    using release_result[OF targets(2), of deg nxt] lt r unfolding targets(1) len by auto
  have card1: "int (card (?E\<inverse> `` {v} - insert u S))
      = (if v \<in> ?E `` {u} then int (card (?E\<inverse> `` {v} - S)) - 1 else int (card (?E\<inverse> `` {v} - S)))" for v
  proof (cases "v \<in> ?E `` {u}")
    case True
    with u(2) have "u \<in> ?E\<inverse> `` {v} - S" by auto
    moreover have "?E\<inverse> `` {v} - insert u S = (?E\<inverse> `` {v} - S) - {u}" by auto
    ultimately show ?thesis
      using True card_Suc_Diff1[OF finite_Diff[OF fin]] by (metis add_diff_cancel_left' of_nat_Suc)
  next
    case False
    then have "?E\<inverse> `` {v} - insert u S = ?E\<inverse> `` {v} - S" by auto
    with False show ?thesis by simp
  qed
  show "open_prereqs n ?E (insert u S) deg'"
    unfolding open_prereqs_def d' by (simp add: card1 deg)
  have "v \<in> ?E `` {u} \<and> deg ! v = 1
      \<longleftrightarrow> v < n \<and> ?E\<inverse> `` {v} \<subseteq> insert u S \<and> \<not> ?E\<inverse> `` {v} \<subseteq> S" for v
  proof (cases "v < n")
    case True
    have "int (card (?E\<inverse> `` {v} - insert u S)) = deg ! v - 1" if "v \<in> ?E `` {u}"
      using card1[of v] deg[OF True] that by simp
    then have "v \<in> ?E `` {u} \<and> deg ! v = 1 \<longleftrightarrow> v \<in> ?E `` {u} \<and> card (?E\<inverse> `` {v} - insert u S) = 0"
      by (metis eq_iff_diff_eq_0 of_nat_eq_0_iff)
    also have "\<dots> \<longleftrightarrow> v \<in> ?E `` {u} \<and> ?E\<inverse> `` {v} \<subseteq> insert u S" using fin by auto
    also have "\<dots> \<longleftrightarrow> ?E\<inverse> `` {v} \<subseteq> insert u S \<and> \<not> ?E\<inverse> `` {v} \<subseteq> S" using u(2) by auto
    finally show ?thesis using True by simp
  qed (use lt in auto)
  with targets n' show "\<exists>new. nxt' = nxt @ new \<and> distinct new
       \<and> set new = {v. v < n \<and> ?E\<inverse> `` {v} \<subseteq> insert u S \<and> \<not> ?E\<inverse> `` {v} \<subseteq> S}"
    by (intro exI[of _ "filter (\<lambda>v. deg ! v = 1) (map fst (out_edges ps u))"]) auto
qed

lemma release_all_step:
  assumes "pairs_ok n ps" and "distinct us" and "set us \<subseteq> {..<n}" and "set us \<inter> S = {}"
    and "D \<subseteq> S" and "open_prereqs n (set ps) S deg" and "distinct nxt"
    and "set nxt = {v. v < n \<and> (set ps)\<inverse> `` {v} \<subseteq> S \<and> \<not> (set ps)\<inverse> `` {v} \<subseteq> D}"
    and "release_all (map (out_edges ps) [0..<n]) us deg nxt = (deg', nxt')"
  shows "open_prereqs n (set ps) (S \<union> set us) deg' \<and> distinct nxt'
    \<and> set nxt' = {v. v < n \<and> (set ps)\<inverse> `` {v} \<subseteq> S \<union> set us \<and> \<not> (set ps)\<inverse> `` {v} \<subseteq> D}"
  using assms
proof (induction us arbitrary: S deg nxt)
  case (Cons u us)
  let ?E = "set ps"
  have u: "u < n" "u \<notin> S" using Cons.prems(3,4) by auto
  obtain d1 n1 where r: "release (out_edges ps u) deg nxt = (d1, n1)" by fastforce
  note s = release_step[OF Cons.prems(1) u Cons.prems(6) r]
  obtain new where new: "n1 = nxt @ new" "distinct new"
    "set new = {v. v < n \<and> ?E\<inverse> `` {v} \<subseteq> insert u S \<and> \<not> ?E\<inverse> `` {v} \<subseteq> S}" using s(2) by blast
  have "distinct n1" using new Cons.prems(7,8) by auto
  moreover have "set n1 = {v. v < n \<and> ?E\<inverse> `` {v} \<subseteq> insert u S \<and> \<not> ?E\<inverse> `` {v} \<subseteq> D}"
    using new(1,3) Cons.prems(5,8) by auto
  moreover have "release_all (map (out_edges ps) [0..<n]) us d1 n1 = (deg', nxt')"
    using Cons.prems(9) u r by simp
  ultimately have "open_prereqs n ?E (insert u S \<union> set us) deg' \<and> distinct nxt'
      \<and> set nxt' = {v. v < n \<and> ?E\<inverse> `` {v} \<subseteq> insert u S \<union> set us \<and> \<not> ?E\<inverse> `` {v} \<subseteq> D}"
    using Cons.prems(2,3,4,5) s(1) by (intro Cons.IH[OF Cons.prems(1)]) auto
  then show ?case by simp
qed simp

lemma waves_layers:
  assumes "pairs_ok n ps" and "downset n (set ps) D" and "distinct cur"
    and "set cur = ready n (set ps) D" and "open_prereqs n (set ps) D deg"
  shows "layers n (set ps) D (fst (waves_from (map (out_edges ps) [0..<n]) cur deg))
    \<and> snd (waves_from (map (out_edges ps) [0..<n]) cur deg)
        = length (concat (fst (waves_from (map (out_edges ps) [0..<n]) cur deg)))"
  using assms
proof (induction "map (out_edges ps) [0..<n]" cur deg arbitrary: D rule: waves_from.induct)
  case (1 cur deg)
  let ?E = "set ps" and ?adj = "map (out_edges ps) [0..<n]"
  show ?case
  proof (cases "cur = []")
    case True
    with "1.prems" show ?thesis by (simp add: waves_from.simps[of _ "[]"])
  next
    case False
    obtain deg' nxt where r: "release_all ?adj cur deg [] = (deg', nxt)" by fastforce
    have cur: "set cur \<subseteq> {..<n}" "set cur \<inter> D = {}" using "1.prems"(4) by (auto simp: ready_def)
    have step: "open_prereqs n ?E (D \<union> set cur) deg' \<and> distinct nxt
        \<and> set nxt = {v. v < n \<and> ?E\<inverse> `` {v} \<subseteq> D \<union> set cur \<and> \<not> ?E\<inverse> `` {v} \<subseteq> D}"
      by (rule release_all_step[OF "1.prems"(1,3) cur order_refl "1.prems"(5) _ _ r]) auto
    have next_ready: "set nxt = ready n ?E (D \<union> set cur)"
      using step "1.prems"(2,4) by (auto simp: ready_def downset_def)
    have down: "downset n ?E (D \<union> set cur)"
      using downset_ready[OF "1.prems"(2)] "1.prems"(4) by simp
    from "1.hyps"[OF False r[symmetric] refl "1.prems"(1) down _ next_ready] step
    have "layers n ?E (D \<union> set cur) (fst (waves_from ?adj nxt deg'))
      \<and> snd (waves_from ?adj nxt deg') = length (concat (fst (waves_from ?adj nxt deg')))" by blast
    with False r "1.prems"(3,4) show ?thesis
      by (simp add: waves_from.simps[of _ cur] case_prod_beta)
  qed
qed

end
