(* ===== verification/GraphPlanSafety.thy ===== *)
theory GraphPlanSafety
  imports GraphWaves
begin

text \<open>
  What an accepted plan is: the properties of \<open>validateDependencyGraphPlan\<close>, stated on the request's
  own temp ids and edges.
\<close>

section \<open>Layers\<close>

lemma layers_nth:
  "layers n E D ws \<Longrightarrow> i < length ws
     \<Longrightarrow> ws ! i \<noteq> [] \<and> distinct (ws ! i) \<and> set (ws ! i) = ready n E (D \<union> set (concat (take i ws)))"
proof (induction ws arbitrary: D i)
  case (Cons w ws)
  then show ?case by (cases i) (auto simp: Un_assoc)
qed simp

lemma layers_distinct: "layers n E D ws \<Longrightarrow> distinct (concat ws) \<and> set (concat ws) \<inter> D = {}"
proof (induction ws arbitrary: D)
  case (Cons w ws)
  then have w: "distinct w" "set w = ready n E D" and "layers n E (D \<union> set w) ws" by auto
  from Cons.IH[OF this(3)] have "distinct (concat ws)" "set (concat ws) \<inter> (D \<union> set w) = {}" by auto
  moreover have "set w \<inter> D = {}" using w(2) by (auto simp: ready_def)
  ultimately show ?case using w(1) by auto
qed simp

lemma layers_range: "layers n E D ws \<Longrightarrow> set (concat ws) \<subseteq> {..<n}"
  by (induction ws arbitrary: D) (auto simp: ready_def)

lemma layers_complete:
  assumes "layers n E D ws" and "acyclic E" and "finite E" and "E \<subseteq> {..<n} \<times> {..<n}" and "D \<subseteq> {..<n}"
  shows "D \<union> set (concat ws) = {..<n}"
  using assms(1,5)
proof (induction ws arbitrary: D)
  case Nil
  show ?case
  proof (rule ccontr)
    assume "D \<union> set (concat []) \<noteq> {..<n}"
    with Nil.prems(2) obtain a where "a \<in> {..<n} - D" by auto
    then obtain z where z: "z \<in> {..<n} - D" "\<And>y. (y, z) \<in> E \<Longrightarrow> y \<notin> {..<n} - D"
      using wfE_min[OF finite_acyclic_wf[OF assms(3,2)]] by metis
    with assms(4) have "z \<in> ready n E D" by (auto simp: ready_def)
    with Nil.prems(1) show False by simp
  qed
next
  case (Cons w ws)
  then have "layers n E (D \<union> set w) ws" "D \<union> set w \<subseteq> {..<n}" by (auto simp: ready_def)
  from Cons.IH[OF this] show ?case by auto
qed

lemma layers_forward:
  assumes "layers n E {} ws" and "j < length ws" and "v \<in> set (ws ! j)" and "(u, v) \<in> E"
  shows "\<exists>i < j. u \<in> set (ws ! i)"
proof -
  have "u \<in> set (concat (take j ws))" using layers_nth[OF assms(1,2)] assms(3,4) by (auto simp: ready_def)
  then show ?thesis using assms(2) by (auto simp: in_set_conv_nth) (metis nth_mem)
qed

lemma layers_tight:
  assumes "layers n E {} ws" and "Suc i < length ws" and "v \<in> set (ws ! Suc i)"
  shows "\<exists>u \<in> set (ws ! i). (u, v) \<in> E"
proof (rule ccontr)
  assume none: "\<not> (\<exists>u \<in> set (ws ! i). (u, v) \<in> E)"
  have "set (concat (take (Suc i) ws)) = set (concat (take i ws)) \<union> set (ws ! i)"
    using assms(2) by (simp add: take_Suc_conv_app_nth)
  with layers_nth[OF assms(1,2)] assms(3) none
  have "v \<in> ready n E ({} \<union> set (concat (take i ws)))" and "v \<notin> set (ws ! i)"
    by (auto simp: ready_def)
  with layers_nth[OF assms(1) Suc_lessD[OF assms(2)]] show False by simp
qed

section \<open>Renaming\<close>

lemma trancl_map_prod:
  assumes "inj_on f A" and "E \<subseteq> A \<times> A" and "x \<in> A" and "y \<in> A"
  shows "(f x, f y) \<in> (map_prod f f ` E)\<^sup>+ \<longleftrightarrow> (x, y) \<in> E\<^sup>+"
proof
  have *: "\<exists>b \<in> A. t = f b \<and> (x, b) \<in> E\<^sup>+" if "(f x, t) \<in> (map_prod f f ` E)\<^sup>+" for t
    using that
  proof (induction rule: trancl_induct)
    case (base t)
    then obtain c d where cd: "(c, d) \<in> E" "f x = f c" "t = f d" by auto
    with assms(2) have "c \<in> A" "d \<in> A" by auto
    with cd(2) assms(1,3) have "c = x" by (auto dest: inj_onD)
    with cd \<open>d \<in> A\<close> show ?case by blast
  next
    case (step t s)
    then obtain b where b: "b \<in> A" "t = f b" "(x, b) \<in> E\<^sup>+" by blast
    from step.hyps(2) obtain c d where cd: "(c, d) \<in> E" "t = f c" "s = f d" by auto
    with assms(2) have "c \<in> A" "d \<in> A" by auto
    with b cd(2) assms(1) have "c = b" by (auto dest: inj_onD)
    with b(3) cd(1) have "(x, d) \<in> E\<^sup>+" by (auto intro: trancl_into_trancl)
    with \<open>d \<in> A\<close> cd(3) show ?case by blast
  qed
  assume "(f x, f y) \<in> (map_prod f f ` E)\<^sup>+"
  from *[OF this] assms(1,4) show "(x, y) \<in> E\<^sup>+" by (auto dest: inj_onD)
next
  assume "(x, y) \<in> E\<^sup>+"
  then show "(f x, f y) \<in> (map_prod f f ` E)\<^sup>+"
  proof (induction rule: trancl_induct)
    case (step y z)
    then show ?case by (meson map_prod_imageI trancl.trancl_into_trancl)
  qed force
qed

lemma acyclic_map_prod:
  assumes "inj_on f A" and "E \<subseteq> A \<times> A"
  shows "acyclic (map_prod f f ` E) \<longleftrightarrow> acyclic E"
proof -
  have "\<exists>x \<in> A. z = f x" if "(z, z) \<in> (map_prod f f ` E)\<^sup>+" for z
    using tranclD[OF that] assms(2) by auto
  moreover have "z \<in> A" if "(z, z) \<in> E\<^sup>+" for z using tranclD[OF that] assms(2) by auto
  ultimately show ?thesis
    unfolding acyclic_def using trancl_map_prod[OF assms] by metis
qed

lemma reduced_map_prod:
  assumes "inj_on f A" and "E \<subseteq> A \<times> A"
  shows "reduced (map_prod f f ` E) \<longleftrightarrow> reduced E"
proof -
  have "map_prod f f ` E - {(f u, f v)} = map_prod f f ` (E - {(u, v)})" if "(u, v) \<in> E" for u v
  proof -
    have "inj_on (map_prod f f) (A \<times> A)" by (rule map_prod_inj_on[OF assms(1,1)])
    then have "inj_on (map_prod f f) E" using assms(2) by (rule inj_on_subset)
    with that have "map_prod f f ` (E - {(u, v)}) = map_prod f f ` E - map_prod f f ` {(u, v)}"
      by (intro inj_on_image_set_diff[of _ E]) auto
    then show ?thesis by simp
  qed
  moreover have "(f u, f v) \<in> (map_prod f f ` (E - {(u, v)}))\<^sup>+ \<longleftrightarrow> (u, v) \<in> (E - {(u, v)})\<^sup>+"
    if "(u, v) \<in> E" for u v
    by (rule trancl_map_prod[OF assms(1)]) (use assms(2) that in auto)
  ultimately show ?thesis unfolding reduced_def by fastforce
qed

section \<open>Validation\<close>

lemma check_tasks_distinct:
  "check_tasks co i seen ts = None
     \<Longrightarrow> distinct (map tk_temp_id ts) \<and> set (map tk_temp_id ts) \<inter> set seen = {}"
proof (induction co i seen ts rule: check_tasks.induct)
  case (2 co i seen t ts)
  then have "check_task co i seen t = None" by (simp split: option.splits)
  then have "tk_temp_id t \<notin> set seen"
    unfolding check_task_def Let_def
    by (cases "validateDependencyGraphText (tk_temp_id t) (bracketed ''tasks'' i @ ''.temp_id'')
         dependencyGraphMaxTempID True") (auto split: if_splits)
  moreover have "distinct (map tk_temp_id ts) \<and> set (map tk_temp_id ts) \<inter> set (tk_temp_id t # seen) = {}"
    using 2 by (simp split: option.splits)
  ultimately show ?case by auto
qed simp

text \<open>The checks before the graph searches.\<close>

definition plan_error_before_graph :: "graph_codec \<Rightarrow> apply_input \<Rightarrow> plan_error option" where
  "plan_error_before_graph co input =
     first_error
        [validateDependencyGraphText (in_goal input) ''goal'' dependencyGraphMaxGoal True,
         if gc_uuid co (in_parent input) = None then Some ParentNotUUID else None,
         if in_tasks input = [] then Some NoTasks else None,
         if dependencyGraphMaxTasks < length (in_tasks input) then Some TooManyTasks else None,
         if dependencyGraphMaxEdges < length (in_edges input) then Some TooManyEdges else None,
         check_tasks co 0 [] (in_tasks input),
         check_result (add_edges (in_tasks input) 0 (in_edges input) (no_edges (length (in_tasks input))))]"

lemma first_error_append: "first_error (xs @ ys) = (case first_error xs of None \<Rightarrow> first_error ys | e \<Rightarrow> e)"
  by (induction xs rule: first_error.induct) auto

lemma first_error_None: "first_error xs = None \<longleftrightarrow> (\<forall>x \<in> set xs. x = None)"
  by (induction xs rule: first_error.induct) auto

abbreviation plan_edges :: "apply_input \<Rightarrow> (string \<times> string) set" where
  "plan_edges input \<equiv> edge_names ` set (in_edges input)"

lemma roots_ready:
  assumes "pairs_ok n ps"
  shows "distinct (roots (es_indegree (state_of n ps)))"
    and "set (roots (es_indegree (state_of n ps))) = ready n (set ps) {}"
proof -
  have "filter (\<lambda>p. snd p = v) ps = [] \<longleftrightarrow> (set ps)\<inverse> `` {v} = {}" for v
    unfolding filter_empty_conv by force
  then show "set (roots (es_indegree (state_of n ps))) = ready n (set ps) {}"
    by (auto simp: roots_def ready_def simp del: filter_empty_conv)
qed (simp add: roots_def)

lemma open_prereqs_start:
  assumes "pairs_ok n ps"
  shows "open_prereqs n (set ps) {} (es_indegree (state_of n ps))"
proof -
  have "length (filter (\<lambda>p. snd p = v) ps) = card ((set ps)\<inverse> `` {v})" for v
  proof -
    have "inj_on fst (set (filter (\<lambda>p. snd p = v) ps))" by (auto simp: inj_on_def prod_eq_iff)
    moreover have "fst ` set (filter (\<lambda>p. snd p = v) ps) = (set ps)\<inverse> `` {v}" by force
    ultimately have "card (set (filter (\<lambda>p. snd p = v) ps)) = card ((set ps)\<inverse> `` {v})"
      by (metis card_image)
    with assms show ?thesis by (simp add: pairs_ok_def distinct_card del: set_filter)
  qed
  then show ?thesis by (simp add: open_prereqs_def)
qed

lemma validate_result:
  assumes "plan_error_before_graph co input = None"
  obtains ps ws where
    "pairs_ok (length (in_tasks input)) ps" "distinct (map tk_temp_id (in_tasks input))"
    "map (map_prod ((!) (map tk_temp_id (in_tasks input))) ((!) (map tk_temp_id (in_tasks input)))) ps
       = map edge_names (in_edges input)"
    "layers (length (in_tasks input)) (set ps) {} ws"
    "\<not> acyclic (set ps) \<Longrightarrow> validateDependencyGraphPlan co input = Inl GraphCyclic"
    "acyclic (set ps) \<Longrightarrow> \<not> reduced (set ps)
       \<Longrightarrow> \<exists>a b. validateDependencyGraphPlan co input = Inl (RedundantEdge a b)"
    "acyclic (set ps) \<Longrightarrow> reduced (set ps)
       \<Longrightarrow> \<exists>canon. validateDependencyGraphPlan co input
             = Inr (map (map ((!) (map tk_temp_id (in_tasks input)))) ws, canon)"
proof -
  let ?ts = "in_tasks input" and ?n = "length (in_tasks input)"
  obtain st where st: "add_edges ?ts 0 (in_edges input) (no_edges ?n) = Inr st"
    using assms by (cases "add_edges ?ts 0 (in_edges input) (no_edges ?n)")
      (auto simp: plan_error_before_graph_def first_error_None check_result_def)
  have "add_edges ?ts (length ([] :: (nat \<times> nat) list)) (in_edges input) (state_of ?n []) = Inr st"
    using st by (simp add: no_edges_state)
  from add_edges_state[OF this] obtain ps where ps: "st = state_of ?n ps" "pairs_ok ?n ps"
    "map (map_prod ((!) (map tk_temp_id ?ts)) ((!) (map tk_temp_id ?ts))) ps = map edge_names (in_edges input)"
    by (auto simp: pairs_ok_def)
  let ?adj = "map (out_edges ps) [0..<?n]"
  let ?w = "waves_from ?adj (roots (es_indegree st)) (es_indegree st)"
  have w: "layers ?n (set ps) {} (fst ?w)" "snd ?w = length (concat (fst ?w))"
    using waves_layers[OF ps(2) _ roots_ready[OF ps(2)] open_prereqs_start[OF ps(2)]] ps(1)
    by (simp_all add: downset_def)
  have E: "set ps \<subseteq> {..<?n} \<times> {..<?n}" using ps(2) by (auto simp: pairs_ok_def)
  have visited: "snd ?w = ?n" if "acyclic (set ps)"
  proof -
    have "set (concat (fst ?w)) = {..<?n}" using layers_complete[OF w(1) that _ E] by simp
    then show ?thesis using w(2) layers_distinct[OF w(1)] distinct_card[of "concat (fst ?w)"] by simp
  qed
  have pre: "first_error
        [validateDependencyGraphText (in_goal input) ''goal'' dependencyGraphMaxGoal True,
         if gc_uuid co (in_parent input) = None then Some ParentNotUUID else None,
         if ?ts = [] then Some NoTasks else None,
         if dependencyGraphMaxTasks < length ?ts then Some TooManyTasks else None,
         if dependencyGraphMaxEdges < length (in_edges input) then Some TooManyEdges else None,
         check_tasks co 0 [] ?ts] = None"
    using assms unfolding plan_error_before_graph_def first_error_None by simp
  have names: "distinct (map tk_temp_id ?ts)"
    using pre check_tasks_distinct[of co 0 "[]" ?ts] by (simp add: first_error_None)
  note check = cyclic_check[OF ps(2)] reduced_check[OF ps(2)]
  note unfolded = validateDependencyGraphPlan_def Let_def pre st ps(1) option.case sum.case state_of_simps(1)
  show thesis
  proof (rule that[OF ps(2) names ps(3) w(1)])
    show "validateDependencyGraphPlan co input = Inl GraphCyclic" if "\<not> acyclic (set ps)"
      unfolding unfolded using that check(1) by simp
    show "\<exists>a b. validateDependencyGraphPlan co input = Inl (RedundantEdge a b)"
      if "acyclic (set ps)" "\<not> reduced (set ps)"
      unfolding unfolded using that check by (auto split: option.split)
    show "\<exists>canon. validateDependencyGraphPlan co input
             = Inr (map (map ((!) (map tk_temp_id ?ts))) (fst ?w), canon)"
      if "acyclic (set ps)" "reduced (set ps)"
      unfolding unfolded using that check visited[OF that(1)] ps(1) by (simp add: case_prod_beta)
  qed
qed

lemma plan_edges_pairs:
  assumes "pairs_ok (length names) ps" and "distinct names"
    and "map (map_prod ((!) names) ((!) names)) ps = map edge_names (in_edges input)"
  shows "acyclic (plan_edges input) \<longleftrightarrow> acyclic (set ps)"
    and "reduced (plan_edges input) \<longleftrightarrow> reduced (set ps)"
proof -
  have "plan_edges input = map_prod ((!) names) ((!) names) ` set ps"
    using arg_cong[OF assms(3), of set] by simp
  moreover have "inj_on ((!) names) {..<length names}" using assms(2) by (auto simp: inj_on_nth)
  moreover have "set ps \<subseteq> {..<length names} \<times> {..<length names}" using assms(1) by (auto simp: pairs_ok_def)
  ultimately show "acyclic (plan_edges input) \<longleftrightarrow> acyclic (set ps)"
    and "reduced (plan_edges input) \<longleftrightarrow> reduced (set ps)"
    by (simp_all add: acyclic_map_prod reduced_map_prod)
qed

lemma validate_early_error:
  assumes "plan_error_before_graph co input = Some e"
  shows "validateDependencyGraphPlan co input = Inl e"
proof -
  let ?ts = "in_tasks input"
  let ?add = "add_edges ?ts 0 (in_edges input) (no_edges (length ?ts))"
  let ?cs = "[validateDependencyGraphText (in_goal input) ''goal'' dependencyGraphMaxGoal True,
         if gc_uuid co (in_parent input) = None then Some ParentNotUUID else None,
         if ?ts = [] then Some NoTasks else None,
         if dependencyGraphMaxTasks < length ?ts then Some TooManyTasks else None,
         if dependencyGraphMaxEdges < length (in_edges input) then Some TooManyEdges else None,
         check_tasks co 0 [] ?ts]"
  have "first_error (?cs @ [check_result ?add]) = Some e"
    using assms by (simp only: plan_error_before_graph_def append.simps)
  then have "first_error ?cs = Some e \<or> first_error ?cs = None \<and> ?add = Inl e"
    unfolding first_error_append
    by (cases "first_error ?cs"; cases ?add) (simp_all add: check_result_def)
  then show ?thesis
    unfolding validateDependencyGraphPlan_def Let_def by (elim disjE conjE) (simp_all only: option.case sum.case)
qed

lemma add_edges_hard:
  "add_edges ts k es st = Inr st' \<Longrightarrow> \<forall>e \<in> set es. eg_type e = dependencyGraphHardType"
proof (induction ts k es st rule: add_edges.induct)
  case (2 ts k e es st)
  then obtain p where p: "check_edge ts (es_pairs st) k e = Inr p" by (auto split: sum.splits)
  then have "eg_type e = dependencyGraphHardType"
    by (auto simp: check_edge_def Let_def first_error_None split: option.splits if_splits)
  with 2 p show ?case by simp
qed simp

text \<open>
  C34: A dependency-graph plan is judged by its graph alone once its texts, roles and edges are well
  formed: it is refused as cyclic when its edges, as relations between temp ids, contain a cycle;
  refused as redundant when an edge is implied by a path of other edges; accepted otherwise. The final
  count of visited tasks never refuses a plan the searches let through. An ill-formed plan is refused
  with its first error.
\<close>

theorem plan_accepted_iff_acyclic_reduced:
  "case plan_error_before_graph co input of
     Some e \<Rightarrow> validateDependencyGraphPlan co input = Inl e
   | None \<Rightarrow>
       (validateDependencyGraphPlan co input = Inl GraphCyclic) = (\<not> acyclic (plan_edges input))
     \<and> (\<exists>r. validateDependencyGraphPlan co input = Inr r)
         = (acyclic (plan_edges input) \<and> reduced (plan_edges input))
     \<and> (\<exists>a b. validateDependencyGraphPlan co input = Inl (RedundantEdge a b))
         = (acyclic (plan_edges input) \<and> \<not> reduced (plan_edges input))"
proof (cases "plan_error_before_graph co input")
  case None
  from validate_result[OF this] obtain ps ws where r:
    "pairs_ok (length (map tk_temp_id (in_tasks input))) ps" "distinct (map tk_temp_id (in_tasks input))"
    "map (map_prod ((!) (map tk_temp_id (in_tasks input))) ((!) (map tk_temp_id (in_tasks input)))) ps
       = map edge_names (in_edges input)"
    "\<not> acyclic (set ps) \<Longrightarrow> validateDependencyGraphPlan co input = Inl GraphCyclic"
    "acyclic (set ps) \<Longrightarrow> \<not> reduced (set ps)
       \<Longrightarrow> \<exists>a b. validateDependencyGraphPlan co input = Inl (RedundantEdge a b)"
    "acyclic (set ps) \<Longrightarrow> reduced (set ps)
       \<Longrightarrow> \<exists>r. validateDependencyGraphPlan co input = Inr r"
    by (metis length_map)
  from r(4-6) show ?thesis
    unfolding None option.case plan_edges_pairs[OF r(1-3)]
    by (cases "acyclic (set ps)"; cases "reduced (set ps)") auto
qed (simp add: validate_early_error)

section \<open>The waves\<close>

lemma validate_Inr:
  assumes "validateDependencyGraphPlan co input = Inr (waves, canon)"
  obtains ps ws where
    "pairs_ok (length (in_tasks input)) ps" "distinct (map tk_temp_id (in_tasks input))"
    "map (map_prod ((!) (map tk_temp_id (in_tasks input))) ((!) (map tk_temp_id (in_tasks input)))) ps
       = map edge_names (in_edges input)"
    "layers (length (in_tasks input)) (set ps) {} ws" "acyclic (set ps)"
    "waves = map (map ((!) (map tk_temp_id (in_tasks input)))) ws"
proof -
  have None: "plan_error_before_graph co input = None"
    using validate_early_error[of co input] assms by (cases "plan_error_before_graph co input") auto
  from validate_result[OF None] show thesis
    using assms that by (metis Inl_Inr_False prod.inject sum.inject(2))
qed

lemma canonical_temp_id [simp]: "tk_temp_id (canonical_task co t) = tk_temp_id t"
  by (simp add: canonical_task_def)

text \<open>The request the code goes on with, and the shape of its edges.\<close>

lemma validate_canon:
  assumes "validateDependencyGraphPlan co input = Inr (waves, canon)"
  shows "in_edges canon = in_edges input" "map tk_temp_id (in_tasks canon) = map tk_temp_id (in_tasks input)"
    "in_tasks canon \<noteq> []" "distinct (map tk_temp_id (in_tasks input))"
    "\<forall>e \<in> set (in_edges input). eg_type e = dependencyGraphHardType"
    "distinct (map edge_names (in_edges input))"
proof -
  note def = validateDependencyGraphPlan_def Let_def
  from assms show "in_edges canon = in_edges input"
    "map tk_temp_id (in_tasks canon) = map tk_temp_id (in_tasks input)"
    unfolding def by (auto split: option.splits sum.splits prod.splits if_splits)
  from assms have "in_tasks canon = map (canonical_task co) (in_tasks input) \<and> in_tasks input \<noteq> []
      \<and> (\<exists>st. add_edges (in_tasks input) 0 (in_edges input) (no_edges (length (in_tasks input))) = Inr st)"
    unfolding def by (auto split: option.splits sum.splits prod.splits if_splits simp: first_error_None)
  then show "in_tasks canon \<noteq> []" "\<forall>e \<in> set (in_edges input). eg_type e = dependencyGraphHardType"
    using add_edges_hard by auto
  from validate_Inr[OF assms] obtain ps where ps: "pairs_ok (length (in_tasks input)) ps"
    "distinct (map tk_temp_id (in_tasks input))"
    "map (map_prod ((!) (map tk_temp_id (in_tasks input))) ((!) (map tk_temp_id (in_tasks input)))) ps
       = map edge_names (in_edges input)" by metis
  then show "distinct (map tk_temp_id (in_tasks input))" by blast
  let ?n = "length (in_tasks input)" and ?f = "(!) (map tk_temp_id (in_tasks input))"
  have "inj_on ?f {..<?n}" using ps(2) by (auto simp: inj_on_nth)
  then have "inj_on (map_prod ?f ?f) ({..<?n} \<times> {..<?n})" by (intro map_prod_inj_on)
  moreover have "set ps \<subseteq> {..<?n} \<times> {..<?n}" "distinct ps" using ps(1) by (auto simp: pairs_ok_def)
  ultimately show "distinct (map edge_names (in_edges input))"
    unfolding ps(3)[symmetric] by (auto simp: distinct_map intro: inj_on_subset)
qed

lemma edge_pair:
  assumes "map (map_prod f f) ps = map edge_names es"
  shows "e \<in> set es \<Longrightarrow> \<exists>p \<in> set ps. eg_from e = f (fst p) \<and> eg_to e = f (snd p)"
    and "p \<in> set ps \<Longrightarrow> \<exists>e \<in> set es. eg_from e = f (fst p) \<and> eg_to e = f (snd p)"
proof -
  have *: "map_prod f f ` set ps = edge_names ` set es" using arg_cong[OF assms, of set] by simp
  show "\<exists>p \<in> set ps. eg_from e = f (fst p) \<and> eg_to e = f (snd p)" if "e \<in> set es"
  proof -
    have "edge_names e \<in> map_prod f f ` set ps" unfolding * using that by simp
    then show ?thesis by (force simp: edge_names_def map_prod_def)
  qed
  show "\<exists>e \<in> set es. eg_from e = f (fst p) \<and> eg_to e = f (snd p)" if "p \<in> set ps"
  proof -
    have "map_prod f f p \<in> edge_names ` set es" unfolding *[symmetric] using that by simp
    then show ?thesis by (auto simp: edge_names_def map_prod_def case_prod_beta)
  qed
qed

lemma accepted_waves:
  assumes "validateDependencyGraphPlan co input = Inr (waves, canon)"
  shows "distinct (concat waves) \<and> set (concat waves) = set (map tk_temp_id (in_tasks input))
    \<and> length (concat waves) = length (in_tasks input) \<and> [] \<notin> set waves
    \<and> (\<forall>e \<in> set (in_edges input).
         \<exists>j < length waves. eg_to e \<in> set (waves ! j) \<and> (\<exists>i < j. eg_from e \<in> set (waves ! i)))
    \<and> (\<forall>i v. Suc i < length waves \<and> v \<in> set (waves ! Suc i)
         \<longrightarrow> (\<exists>e \<in> set (in_edges input). eg_to e = v \<and> eg_from e \<in> set (waves ! i)))"
proof -
  let ?n = "length (in_tasks input)"
  define names where "names = map tk_temp_id (in_tasks input)"
  from validate_Inr[OF assms] obtain ps ws where r: "pairs_ok ?n ps" "distinct names"
    "map (map_prod ((!) names) ((!) names)) ps = map edge_names (in_edges input)"
    "layers ?n (set ps) {} ws" "acyclic (set ps)" and waves: "waves = map (map ((!) names)) ws"
    unfolding names_def by blast
  have n: "length names = ?n" by (simp add: names_def)
  have E: "set ps \<subseteq> {..<?n} \<times> {..<?n}" using r(1) by (auto simp: pairs_ok_def)
  have all: "set (concat ws) = {..<?n}" using layers_complete[OF r(4,5) _ E] by simp
  have d: "distinct (concat ws)" using layers_distinct[OF r(4)] by simp
  have c: "concat waves = map ((!) names) (concat ws)" by (simp add: waves map_concat)
  have "inj_on ((!) names) (set (concat ws))" unfolding all using r(2) n by (auto simp: inj_on_nth)
  with d c have "distinct (concat waves)" by (simp only: distinct_map)
  moreover have "set (concat waves) = set names"
    unfolding c set_map all using n by (auto simp: set_conv_nth)
  moreover have "length (concat waves) = ?n"
    using distinct_card[OF d] all c by simp
  moreover have "[] \<notin> set waves"
    using layers_nth[OF r(4)] by (auto simp: waves in_set_conv_nth)
  moreover have "\<exists>j < length waves. eg_to e \<in> set (waves ! j) \<and> (\<exists>i < j. eg_from e \<in> set (waves ! i))"
    if e: "e \<in> set (in_edges input)" for e
  proof -
    obtain p where p: "p \<in> set ps" "eg_from e = names ! fst p" "eg_to e = names ! snd p"
      using edge_pair(1)[OF r(3) e] by blast
    then have "snd p \<in> set (concat ws)" using E all by auto
    then obtain j where j: "j < length ws" "snd p \<in> set (ws ! j)" by (auto simp: in_set_conv_nth) (metis nth_mem)
    from layers_forward[OF r(4) j, of "fst p"] p(1) obtain i where "i < j" "fst p \<in> set (ws ! i)" by auto
    with j p have "eg_to e \<in> set (waves ! j)" "eg_from e \<in> set (waves ! i)" by (auto simp: waves)
    with \<open>i < j\<close> j(1) show ?thesis unfolding waves length_map by blast
  qed
  moreover have "\<exists>e \<in> set (in_edges input). eg_to e = v \<and> eg_from e \<in> set (waves ! i)"
    if i: "Suc i < length waves" and v: "v \<in> set (waves ! Suc i)" for i v
  proof -
    from i v obtain x where x: "x \<in> set (ws ! Suc i)" "v = names ! x" by (auto simp: waves)
    from layers_tight[OF r(4) _ x(1)] i obtain u where u: "u \<in> set (ws ! i)" "(u, x) \<in> set ps"
      by (auto simp: waves)
    from edge_pair(2)[OF r(3) u(2)] u(1) x(2) i show ?thesis by (force simp: waves)
  qed
  ultimately show ?thesis unfolding names_def by blast
qed

text \<open>
  C35: The waves of an accepted plan are a complete, minimal schedule of its tasks: every task appears in
  exactly one wave, no wave is empty, every prerequisite lies in an earlier wave than its dependent, and
  every task after the first wave has a prerequisite in the wave just before it, so that no task waits
  longer than its dependencies force it to.
\<close>

theorem plan_waves:
  assumes "validateDependencyGraphPlan co input = Inr (waves, canon)"
  shows "distinct (concat waves) \<and> set (concat waves) = set (map tk_temp_id (in_tasks input))
    \<and> length (concat waves) = length (in_tasks input) \<and> [] \<notin> set waves
    \<and> (\<forall>e \<in> set (in_edges input).
         \<exists>j < length waves. eg_to e \<in> set (waves ! j) \<and> (\<exists>i < j. eg_from e \<in> set (waves ! i)))
    \<and> (\<forall>i v. Suc i < length waves \<and> v \<in> set (waves ! Suc i)
         \<longrightarrow> (\<exists>e \<in> set (in_edges input). eg_to e = v \<and> eg_from e \<in> set (waves ! i)))"
  by (rule accepted_waves[OF assms])

definition demo_graph_codec :: graph_codec where
  "demo_graph_codec = \<lparr>gc_parse = (\<lambda>s. Some (length s)), gc_text = (\<lambda>n. replicate n (CHR ''p'')), gc_json = (\<lambda>s. Some (True, s))\<rparr>"

definition demo_task :: "string \<Rightarrow> task_input" where
  "demo_task name =
     \<lparr>tk_temp_id = name, tk_title = ''t'', tk_description = [], tk_criteria = [''c''], tk_context = [],
      tk_outputs = [''o''], tk_owner = None, tk_executor = None, tk_candidates = [], tk_reviewer = None,
      tk_runtime_id = None, tk_model_id = None\<rparr>"

definition demo_edge :: "string \<Rightarrow> string \<Rightarrow> edge_input" where
  "demo_edge a b = \<lparr>eg_from = a, eg_to = b, eg_type = ''hard'', eg_reason = ''r'', eg_consumed = ''o''\<rparr>"

definition demo_input :: apply_input where
  "demo_input =
     \<lparr>in_goal = ''g'', in_parent = ''p'', in_tasks = [demo_task ''c'', demo_task ''a'', demo_task ''b''],
      in_edges = [demo_edge ''a'' ''b'', demo_edge ''b'' ''c'']\<rparr>"

lemma demo_texts [simp]:
  "TrimSpace [] = []" "TrimSpace ''a'' = ''a''" "TrimSpace ''b'' = ''b''" "TrimSpace ''c'' = ''c''"
  "TrimSpace ''g'' = ''g''" "TrimSpace ''o'' = ''o''" "TrimSpace ''r'' = ''r''" "TrimSpace ''t'' = ''t''"
  "RuneCountInString [] = 0" "RuneCountInString ''a'' = 1" "RuneCountInString ''b'' = 1"
  "RuneCountInString ''c'' = 1" "RuneCountInString ''g'' = 1" "RuneCountInString ''o'' = 1"
  "RuneCountInString ''r'' = 1" "RuneCountInString ''t'' = 1"
  by code_simp+

lemmas plan_bounds =
  dependencyGraphMaxTasks_def dependencyGraphMaxEdges_def dependencyGraphMaxGoal_def
  dependencyGraphMaxTempID_def dependencyGraphMaxTitle_def dependencyGraphMaxDescription_def
  dependencyGraphMaxTextItem_def dependencyGraphMaxEdgeReason_def dependencyGraphHardType_def

lemma demo_tasks_ok: "check_tasks demo_graph_codec 0 [] (in_tasks demo_input) = None"
  by (simp add: demo_input_def demo_task_def demo_graph_codec_def check_task_def Let_def plan_bounds
      validateDependencyGraphText_def check_result_def canonicalDependencyGraphJSON_def
      validateDependencyGraphOwnerShape_def validateDependencyGraphExecutorShape_def
      validateDependencyGraphRoleShape_def validateDependencyGraphExecutionTarget_def)

lemma demo_edges_ok:
  "add_edges (in_tasks demo_input) 0 (in_edges demo_input) (no_edges 3)
     = Inr \<lparr>es_adjacency = [[], [(2, 0)], [(0, 1)]], es_indegree = [1, 0, 1], es_pairs = [(1, 2), (2, 0)]\<rparr>"
  by (simp add: demo_input_def demo_task_def demo_edge_def check_edge_def Let_def plan_bounds
      validateDependencyGraphText_def no_edges_def add_edge_def numeral_eq_Suc)

definition demo_adjacency :: "(nat \<times> nat) list list" where
  "demo_adjacency = [[], [(2, 0)], [(0, 1)]]"

lemma demo_searches:
  "\<not> list_ex (\<lambda>(k, from, to). dependencyGraphHasPath demo_adjacency to from k) (enumerate 0 [(1, 2), (2, 0)])"
  "find (\<lambda>(k, from, to). dependencyGraphHasPath demo_adjacency from to k) (enumerate 0 [(1, 2), (2, 0)]) = None"
  "waves_from demo_adjacency (roots [1, 0, 1]) [1, 0, 1] = ([[1], [2], [0]], 3)"
  by code_simp+

lemma demo_accepted:
  "validateDependencyGraphPlan demo_graph_codec demo_input
     = Inr ([[''a''], [''b''], [''c'']], demo_input\<lparr>in_tasks := map (canonical_task demo_graph_codec) (in_tasks demo_input)\<rparr>)"
proof -
  have n: "length (in_tasks demo_input) = 3" "map tk_temp_id (in_tasks demo_input) = [''c'', ''a'', ''b'']"
    by (simp_all add: demo_input_def demo_task_def)
  have early: "first_error
        [validateDependencyGraphText (in_goal demo_input) ''goal'' dependencyGraphMaxGoal True,
         if gc_uuid demo_graph_codec (in_parent demo_input) = None then Some ParentNotUUID else None,
         if in_tasks demo_input = [] then Some NoTasks else None,
         if dependencyGraphMaxTasks < length (in_tasks demo_input) then Some TooManyTasks else None,
         if dependencyGraphMaxEdges < length (in_edges demo_input) then Some TooManyEdges else None,
         check_tasks demo_graph_codec 0 [] (in_tasks demo_input)] = None"
    unfolding demo_tasks_ok by (simp add: demo_input_def demo_graph_codec_def gc_uuid_def validateDependencyGraphText_def plan_bounds)
  show ?thesis
    unfolding validateDependencyGraphPlan_def Let_def early option.case
    unfolding n demo_edges_ok sum.case edge_state.simps demo_adjacency_def[symmetric] demo_searches
    using demo_searches(1) by (simp add: demo_input_def demo_graph_codec_def gc_uuid_def numeral_eq_Suc)
qed

theorem plan_waves_witness:
  "distinct (concat [[''a''], [''b''], [''c'']]) \<and> length (concat [[''a''], [''b''], [''c'']]) = length (in_tasks demo_input)"
  using plan_waves[OF demo_accepted] by blast

end
