(* ===== verification/GraphDb.thy ===== *)
theory GraphDb
  imports GraphPlan TaskQueueLife IssueStatus "HOL-Library.List_Lexorder" "HOL-Library.Char_ord"
begin

text \<open>
  The tables of the dependency graphs and the statements that run on them
  (\<^verbatim>\<open>server/pkg/db/generated/dependency_graph.sql.go\<close>, migrations 340, 465 to 476 and 601): plans,
  nodes and edges, the columns of \<^verbatim>\<open>issue\<close> they read, the gate function, the trigger that guards
  active issues, promotion, admission and the lists of ready issues. The task queue and the fleet are
  those of \<open>TaskModel\<close>; its admission trigger reads \<open>dependency_graph_issue_gate_open\<close> (\<open>sync_gates\<close>).
  Ids are drawn in increasing order, as \<^verbatim>\<open>dbid.NewV7\<close> does. The display position of an issue and the
  columns a graph never reads are left out; the stored request columns of a node are its \<open>task_input\<close>.
\<close>

section \<open>Tables\<close>

record graph_issue =
  is_id :: uuid
  is_workspace :: uuid
  is_title :: string
  is_status :: string
  is_priority :: string
  is_executor_type :: "string option"
  is_executor_id :: "uuid option"
  is_parent :: "uuid option"
  is_number :: int
  is_revision :: int
  is_last_activity :: "gtime option"
  is_updated_at :: gtime

datatype plan_status = PlanActive | PlanSuperseded | PlanCancelled

record plan_row =
  pl_id :: uuid
  pl_workspace :: uuid
  pl_parent :: uuid
  pl_key :: string
  pl_hash :: string
  pl_goal :: string
  pl_status :: plan_status
  pl_updated_at :: gtime
  pl_attention :: bool
  pl_reason :: "string option"

record node_row =
  nd_id :: uuid
  nd_plan :: uuid
  nd_workspace :: uuid
  nd_temp_id :: string
  nd_issue :: uuid
  nd_task :: task_input
  nd_executor_type :: "string option"
  nd_executor_id :: "uuid option"
  nd_wave :: int

record edge_row =
  ed_id :: uuid
  ed_plan :: uuid
  ed_workspace :: uuid
  ed_from :: uuid
  ed_to :: uuid
  ed_type :: string
  ed_reason :: string
  ed_consumed :: string

record team_row =
  tm_id :: uuid
  tm_workspace :: uuid
  tm_leader :: uuid
  tm_archived_at :: "gtime option"

record workspace_row =
  ws_id :: uuid
  ws_issue_counter :: int
  ws_default_agent :: "uuid option"
  ws_members :: "uuid list"
  ws_runtimes :: "uuid list"
  ws_catalog :: catalog

record graphdb =
  g_issues :: "graph_issue list"
  g_plans :: "plan_row list"
  g_nodes :: "node_row list"
  g_edges :: "edge_row list"
  g_outbox :: "(uuid \<times> uuid \<times> uuid) list"
  g_teams :: "team_row list"
  g_workspaces :: "workspace_row list"
  g_queue :: taskdb
  g_next :: uuid

definition find_workspace :: "graphdb \<Rightarrow> uuid \<Rightarrow> workspace_row option" where
  "find_workspace db ws = find (\<lambda>w. ws_id w = ws) (g_workspaces db)"

definition catalog_of :: "graphdb \<Rightarrow> uuid \<Rightarrow> catalog" where
  "catalog_of db ws = (case find_workspace db ws of None \<Rightarrow> [] | Some w \<Rightarrow> ws_catalog w)"

definition GetIssue :: "graphdb \<Rightarrow> uuid \<Rightarrow> graph_issue option" where
  "GetIssue db i = find (\<lambda>r. is_id r = i) (g_issues db)"

definition GetIssueInWorkspace :: "graphdb \<Rightarrow> uuid \<Rightarrow> uuid \<Rightarrow> graph_issue option" where
  "GetIssueInWorkspace db i ws = find (\<lambda>r. is_id r = i \<and> is_workspace r = ws) (g_issues db)"

section \<open>Effective status and gate\<close>

definition issue_effective_status :: "graphdb \<Rightarrow> uuid \<Rightarrow> string \<Rightarrow> string" where
  "issue_effective_status db ws key =
     (if key \<in> set canonicalOrder then key
      else case find (\<lambda>s. st_key s = key \<and> st_category s \<in> set canonicalOrder) (catalog_of db ws) of
             None \<Rightarrow> key
           | Some s \<Rightarrow> st_category s)"

definition effective :: "graphdb \<Rightarrow> graph_issue \<Rightarrow> string" where
  "effective db i = issue_effective_status db (is_workspace i) (is_status i)"

definition plan_active :: "graphdb \<Rightarrow> uuid \<Rightarrow> uuid \<Rightarrow> bool" where
  "plan_active db p ws \<longleftrightarrow>
     list_ex (\<lambda>r. pl_id r = p \<and> pl_workspace r = ws \<and> pl_status r = PlanActive) (g_plans db)"

definition issue_done :: "graphdb \<Rightarrow> uuid \<Rightarrow> uuid \<Rightarrow> bool" where
  "issue_done db i ws \<longleftrightarrow>
     list_ex (\<lambda>r. is_id r = i \<and> is_workspace r = ws \<and> effective db r = Done) (g_issues db)"

definition dependency_graph_issue_gate_open :: "graphdb \<Rightarrow> uuid \<Rightarrow> uuid \<Rightarrow> bool" where
  "dependency_graph_issue_gate_open db ws i \<longleftrightarrow>
     \<not> list_ex (\<lambda>e. ed_workspace e = ws \<and> ed_to e = i \<and> plan_active db (ed_plan e) (ed_workspace e)
                     \<and> \<not> issue_done db (ed_from e) (ed_workspace e)) (g_edges db)"

text \<open>The task trigger looks the issue up first; a missing issue has no workspace, and its gate is
  closed.\<close>

definition gate_closed :: "graphdb \<Rightarrow> uuid \<Rightarrow> bool" where
  "gate_closed db i =
     (case GetIssue db i of None \<Rightarrow> True
      | Some r \<Rightarrow> \<not> dependency_graph_issue_gate_open db (is_workspace r) i)"

definition sync_gates :: "graphdb \<Rightarrow> graphdb" where
  "sync_gates db = db\<lparr>g_queue := (g_queue db)\<lparr>closed_gates := gate_closed db\<rparr>\<rparr>"

section \<open>The trigger on issues\<close>

datatype guard_error = StatusUnknown | ActiveExecutorRequired

definition enforce_issue_active_executor :: "graphdb \<Rightarrow> graph_issue \<Rightarrow> guard_error option" where
  "enforce_issue_active_executor db i =
     (case (if is_status i \<in> set canonicalOrder then Some (is_status i)
            else map_option st_category
                   (find (\<lambda>s. st_key s = is_status i) (catalog_of db (is_workspace i)))) of
        None \<Rightarrow> Some StatusUnknown
      | Some category \<Rightarrow>
          if RequiresExecutor category
             \<and> (is_executor_id i = None \<or> is_executor_type i \<notin> {Some ''agent'', Some ''team''})
          then Some ActiveExecutorRequired else None)"

text \<open>An UPDATE of issues under the trigger: \<open>None\<close> when a written row is refused, else the rows it
  returns.\<close>

definition update_issues ::
  "(graph_issue \<Rightarrow> bool) \<Rightarrow> (graph_issue \<Rightarrow> graph_issue) \<Rightarrow> graphdb \<Rightarrow> (graph_issue list \<times> graphdb) option" where
  "update_issues P f db =
     (let hit = map f (filter P (g_issues db)) in
      if list_ex (\<lambda>i. enforce_issue_active_executor db i \<noteq> None) hit then None
      else Some (hit, db\<lparr>g_issues := update_where P f (g_issues db)\<rparr>))"

definition touch_status :: "gtime \<Rightarrow> string \<Rightarrow> graph_issue \<Rightarrow> graph_issue" where
  "touch_status now key i =
     i\<lparr>is_status := key, is_revision := is_revision i + 1,
       is_last_activity := Some (max (case is_last_activity i of None \<Rightarrow> is_updated_at i | Some t \<Rightarrow> t) now),
       is_updated_at := now\<rparr>"

definition UpdateIssueStatus ::
  "gtime \<Rightarrow> uuid \<Rightarrow> string \<Rightarrow> uuid \<Rightarrow> graphdb \<Rightarrow> (graph_issue list \<times> graphdb) option" where
  "UpdateIssueStatus now i key ws db =
     update_issues (\<lambda>r. is_id r = i \<and> is_workspace r = ws)
       (\<lambda>r. if is_status r \<noteq> key then touch_status now key r else r\<lparr>is_updated_at := now\<rparr>) db"

section \<open>Promotion\<close>

definition PromoteReadyDependencyGraphIssuesForPlan ::
  "gtime \<Rightarrow> uuid \<Rightarrow> uuid \<Rightarrow> graphdb \<Rightarrow> (graph_issue list \<times> graphdb) option" where
  "PromoteReadyDependencyGraphIssuesForPlan now ws plan db =
     update_issues
       (\<lambda>target. is_workspace target = ws \<and> effective db target = Blocked
          \<and> list_ex (\<lambda>n. plan_active db (nd_plan n) (nd_workspace n)
               \<and> nd_plan n = plan \<and> nd_workspace n = ws \<and> nd_issue n = is_id target) (g_nodes db)
          \<and> dependency_graph_issue_gate_open db ws (is_id target))
       (touch_status now Todo) db"

definition PromoteReadyDependencyGraphDependents ::
  "gtime \<Rightarrow> uuid \<Rightarrow> uuid \<Rightarrow> graphdb \<Rightarrow> (graph_issue list \<times> graphdb) option" where
  "PromoteReadyDependencyGraphDependents now ws prerequisite db =
     update_issues
       (\<lambda>target. is_workspace target = ws \<and> effective db target = Blocked
          \<and> list_ex (\<lambda>e. plan_active db (ed_plan e) (ed_workspace e)
               \<and> ed_workspace e = ws \<and> ed_from e = prerequisite \<and> ed_to e = is_id target) (g_edges db)
          \<and> dependency_graph_issue_gate_open db ws (is_id target))
       (touch_status now Todo) db"

text \<open>The agent that executes an issue: the leader of an unarchived team, or the executor itself.\<close>

definition live_team :: "graphdb \<Rightarrow> graph_issue \<Rightarrow> team_row option" where
  "live_team db i =
     find (\<lambda>t. is_executor_id i = Some (tm_id t) \<and> tm_workspace t = is_workspace i
              \<and> tm_archived_at t = None) (g_teams db)"

definition executing_agent :: "graphdb \<Rightarrow> graph_issue \<Rightarrow> uuid option" where
  "executing_agent db i =
     (if is_executor_type i = Some ''team'' then map_option tm_leader (live_team db i)
      else is_executor_id i)"

definition on_runtime :: "graphdb \<Rightarrow> uuid \<Rightarrow> graph_issue \<Rightarrow> bool" where
  "on_runtime db rt i \<longleftrightarrow>
     list_ex (\<lambda>a. ag_workspace_id a = is_workspace i \<and> executing_agent db i = Some (ag_id a)
                  \<and> ag_runtime_id a = Some rt \<and> ag_archived_at a = None) (agents (g_queue db))"

definition PromoteReadyDependencyGraphIssuesForRuntime ::
  "gtime \<Rightarrow> uuid \<Rightarrow> graphdb \<Rightarrow> (graph_issue list \<times> graphdb) option" where
  "PromoteReadyDependencyGraphIssuesForRuntime now rt db =
     update_issues
       (\<lambda>target. on_runtime db rt target \<and> effective db target = Blocked
          \<and> is_executor_type target \<in> {Some ''agent'', Some ''team''}
          \<and> list_ex (\<lambda>n. plan_active db (nd_plan n) (nd_workspace n)
               \<and> nd_workspace n = is_workspace target \<and> nd_issue n = is_id target) (g_nodes db)
          \<and> dependency_graph_issue_gate_open db (is_workspace target) (is_id target))
       (touch_status now Todo) db"

section \<open>Ready issues\<close>

definition runnable_executor :: "graphdb \<Rightarrow> graph_issue \<Rightarrow> bool" where
  "runnable_executor db i \<longleftrightarrow>
     is_executor_type i = Some ''agent'' \<and> is_executor_id i \<noteq> None
     \<or> is_executor_type i = Some ''team'' \<and> live_team db i \<noteq> None"

definition has_pending :: "graphdb \<Rightarrow> graph_issue \<Rightarrow> bool" where
  "has_pending db i \<longleftrightarrow>
     list_ex (\<lambda>t. issue_id t = Some (is_id i) \<and> executing_agent db i = Some (agent_id t)
        \<and> status t \<in> {Queued, Dispatched, Running, WaitingLocalDirectory, WaitingCapacity, Deferred})
       (tasks (g_queue db))"

text \<open>The three lists differ in the rows they keep (\<open>keep\<close>): the nodes of one plan, of one workspace,
  or those executed on one runtime.\<close>

definition ready_issues :: "(node_row \<Rightarrow> graph_issue \<Rightarrow> bool) \<Rightarrow> graphdb \<Rightarrow> uuid list" where
  "ready_issues keep db =
     map (\<lambda>(n, i). is_id i)
       (sort_key (\<lambda>(n, i). (nd_wave n, nd_temp_id n))
         (filter (\<lambda>(n, i). plan_active db (nd_plan n) (nd_workspace n)
              \<and> is_id i = nd_issue n \<and> is_workspace i = nd_workspace n \<and> keep n i
              \<and> runnable_executor db i \<and> effective db i = Todo
              \<and> dependency_graph_issue_gate_open db (is_workspace i) (is_id i)
              \<and> \<not> has_pending db i)
           (List.product (g_nodes db) (g_issues db))))"

definition ListReadyDependencyGraphIssueIDsForPlan :: "uuid \<Rightarrow> uuid \<Rightarrow> graphdb \<Rightarrow> uuid list" where
  "ListReadyDependencyGraphIssueIDsForPlan ws plan =
     ready_issues (\<lambda>n i. nd_workspace n = ws \<and> nd_plan n = plan)"

definition ListReadyDependencyGraphIssueIDsForWorkspace :: "uuid \<Rightarrow> graphdb \<Rightarrow> uuid list" where
  "ListReadyDependencyGraphIssueIDsForWorkspace ws = ready_issues (\<lambda>n i. nd_workspace n = ws)"

definition ListReadyDependencyGraphIssueIDsForRuntime :: "uuid \<Rightarrow> graphdb \<Rightarrow> uuid list" where
  "ListReadyDependencyGraphIssueIDsForRuntime rt db = ready_issues (\<lambda>n i. on_runtime db rt i) db"

section \<open>Admission and attention\<close>

definition AdmitReadyDependencyGraphIssue ::
  "gtime \<Rightarrow> uuid \<Rightarrow> uuid \<Rightarrow> graphdb \<Rightarrow> (graph_issue list \<times> graphdb) option" where
  "AdmitReadyDependencyGraphIssue now i ws db =
     update_issues
       (\<lambda>r. is_id r = i \<and> is_workspace r = ws \<and> effective db r = Todo
          \<and> is_executor_type r \<in> {Some ''agent'', Some ''team''} \<and> is_executor_id r \<noteq> None
          \<and> dependency_graph_issue_gate_open db (is_workspace r) (is_id r))
       (touch_status now InProgress) db"

definition MarkDependencyGraphAttentionForPrerequisite ::
  "gtime \<Rightarrow> uuid \<Rightarrow> uuid \<Rightarrow> string option \<Rightarrow> graphdb \<Rightarrow> uuid list \<times> graphdb" where
  "MarkDependencyGraphAttentionForPrerequisite now ws prerequisite why db =
     (let P = (\<lambda>p. pl_workspace p = ws \<and> pl_status p = PlanActive
             \<and> list_ex (\<lambda>e. ed_plan e = pl_id p \<and> ed_workspace e = pl_workspace p
                            \<and> ed_from e = prerequisite) (g_edges db))
      in (map pl_id (filter P (g_plans db)),
          db\<lparr>g_plans := update_where P (\<lambda>p. p\<lparr>pl_attention := True, pl_reason := why, pl_updated_at := now\<rparr>)
               (g_plans db)\<rparr>))"

section \<open>Plans\<close>

definition GetActiveDependencyGraphPlanForParent :: "graphdb \<Rightarrow> uuid \<Rightarrow> uuid \<Rightarrow> plan_row option" where
  "GetActiveDependencyGraphPlanForParent db ws parent =
     find (\<lambda>p. pl_workspace p = ws \<and> pl_parent p = parent \<and> pl_status p = PlanActive) (g_plans db)"

definition GetDependencyGraphPlanByIdempotency :: "graphdb \<Rightarrow> uuid \<Rightarrow> string \<Rightarrow> plan_row option" where
  "GetDependencyGraphPlanByIdempotency db ws key =
     find (\<lambda>p. pl_workspace p = ws \<and> pl_key p = key) (g_plans db)"

definition GetDependencyGraphPlanForUpdate :: "graphdb \<Rightarrow> uuid \<Rightarrow> uuid \<Rightarrow> plan_row option" where
  "GetDependencyGraphPlanForUpdate db p ws = find (\<lambda>r. pl_id r = p \<and> pl_workspace r = ws) (g_plans db)"

definition UpdateDependencyGraphPlanStatus ::
  "gtime \<Rightarrow> uuid \<Rightarrow> uuid \<Rightarrow> plan_status \<Rightarrow> graphdb \<Rightarrow> graphdb" where
  "UpdateDependencyGraphPlanStatus now p ws st db =
     db\<lparr>g_plans := update_where (\<lambda>r. pl_id r = p \<and> pl_workspace r = ws)
          (\<lambda>r. r\<lparr>pl_status := st, pl_updated_at := now\<rparr>) (g_plans db)\<rparr>"

definition ListDependencyGraphNodesByPlan :: "uuid \<Rightarrow> uuid \<Rightarrow> graphdb \<Rightarrow> node_row list" where
  "ListDependencyGraphNodesByPlan plan ws db =
     sort_key (\<lambda>n. (nd_wave n, nd_temp_id n, nd_id n))
       (filter (\<lambda>n. nd_plan n = plan \<and> nd_workspace n = ws) (g_nodes db))"

definition ListDependencyGraphEdgesByPlan :: "uuid \<Rightarrow> uuid \<Rightarrow> graphdb \<Rightarrow> edge_row list" where
  "ListDependencyGraphEdgesByPlan plan ws db =
     sort_key (\<lambda>e. (ed_from e, ed_to e, ed_id e))
       (filter (\<lambda>e. ed_plan e = plan \<and> ed_workspace e = ws) (g_edges db))"

text \<open>The inserts with the unique indexes of migrations 466 to 472 and the CHECKs of 465; \<open>None\<close> is a
  constraint violation.\<close>

definition CreateDependencyGraphPlan :: "plan_row \<Rightarrow> graphdb \<Rightarrow> graphdb option" where
  "CreateDependencyGraphPlan p db =
     (if list_ex (\<lambda>q. pl_id q = pl_id p
           \<or> pl_workspace q = pl_workspace p \<and> pl_key q = pl_key p
           \<or> pl_workspace q = pl_workspace p \<and> pl_parent q = pl_parent p
              \<and> pl_status q = PlanActive \<and> pl_status p = PlanActive) (g_plans db)
      then None else Some (db\<lparr>g_plans := g_plans db @ [p]\<rparr>))"

definition CreateDependencyGraphNode :: "node_row \<Rightarrow> graphdb \<Rightarrow> graphdb option" where
  "CreateDependencyGraphNode n db =
     (if nd_wave n < 0
         \<or> list_ex (\<lambda>m. nd_id m = nd_id n \<or> nd_plan m = nd_plan n \<and> nd_temp_id m = nd_temp_id n) (g_nodes db)
      then None else Some (db\<lparr>g_nodes := g_nodes db @ [n]\<rparr>))"

definition CreateDependencyGraphEdge :: "edge_row \<Rightarrow> graphdb \<Rightarrow> graphdb option" where
  "CreateDependencyGraphEdge e db =
     (if ed_type e \<noteq> dependencyGraphHardType
         \<or> list_ex (\<lambda>f. ed_id f = ed_id e
              \<or> ed_plan f = ed_plan e \<and> ed_from f = ed_from e \<and> ed_to f = ed_to e) (g_edges db)
      then None else Some (db\<lparr>g_edges := g_edges db @ [e]\<rparr>))"

definition CreateDependencyGraphIssueCreatedOutbox :: "uuid \<Rightarrow> uuid \<Rightarrow> uuid \<Rightarrow> graphdb \<Rightarrow> graphdb" where
  "CreateDependencyGraphIssueCreatedOutbox plan node issue db =
     (if list_ex (\<lambda>(p, n, i). p = plan \<and> n = node) (g_outbox db) then db
      else db\<lparr>g_outbox := g_outbox db @ [(plan, node, issue)]\<rparr>)"

definition CreateIssue :: "graph_issue \<Rightarrow> graphdb \<Rightarrow> graphdb option" where
  "CreateIssue i db =
     (if enforce_issue_active_executor db i \<noteq> None \<or> list_ex (\<lambda>r. is_id r = is_id i) (g_issues db)
      then None else Some (db\<lparr>g_issues := g_issues db @ [i]\<rparr>))"

text \<open>\<^verbatim>\<open>DeleteIssue\<close> removes every plan the issue belongs to, with its nodes and edges; the foreign keys of
  the schema delete its tasks and detach its children.\<close>

definition DeleteIssue :: "uuid \<Rightarrow> uuid \<Rightarrow> graphdb \<Rightarrow> graphdb" where
  "DeleteIssue i ws db =
     (if GetIssueInWorkspace db i ws = None then db
      else
        let affected = map pl_id (filter (\<lambda>p. pl_workspace p = ws \<and> pl_parent p = i) (g_plans db))
              @ map nd_plan (filter (\<lambda>n. nd_workspace n = ws \<and> nd_issue n = i) (g_nodes db))
              @ map ed_plan (filter (\<lambda>e. ed_workspace e = ws \<and> (ed_from e = i \<or> ed_to e = i)) (g_edges db))
        in db\<lparr>g_issues := update_where (\<lambda>r. is_parent r = Some i) (\<lambda>r. r\<lparr>is_parent := None\<rparr>)
                (filter (\<lambda>r. \<not> (is_id r = i \<and> is_workspace r = ws)) (g_issues db)),
              g_queue := (g_queue db)\<lparr>tasks := filter (\<lambda>t. issue_id t \<noteq> Some i) (tasks (g_queue db))\<rparr>,
              g_plans := filter (\<lambda>p. \<not> (pl_workspace p = ws \<and> pl_id p \<in> set affected)) (g_plans db),
              g_nodes := filter (\<lambda>n. \<not> (nd_workspace n = ws \<and> nd_plan n \<in> set affected)) (g_nodes db),
              g_edges := filter (\<lambda>e. \<not> (ed_workspace e = ws \<and> ed_plan e \<in> set affected)) (g_edges db),
              g_outbox := filter (\<lambda>(p, _). p \<notin> set affected) (g_outbox db)\<rparr>)"

definition NewV7 :: "graphdb \<Rightarrow> uuid \<times> graphdb" where
  "NewV7 db = (g_next db, db\<lparr>g_next := Suc (g_next db)\<rparr>)"

end
