(* ===== verification/GraphApply.thy ===== *)
theory GraphApply
  imports GraphDb
begin

text \<open>
  The transactions on a dependency graph: applying a validated plan
  (\<^verbatim>\<open>applyDependencyGraphTransaction\<close>), reading the waves back (\<^verbatim>\<open>dependencyGraphPersistedWaves\<close>),
  retiring a plan (\<^verbatim>\<open>RetireDependencyGraph\<close>, \<^verbatim>\<open>cancelDependencyGraphChildren\<close>), all of
  \<^verbatim>\<open>server/internal/handler/dependency_graph.go\<close>. An error rolls the transaction back: it has no state.
  Of an assignment the transaction reads the executor and the runtime; its other fields repeat the
  request's task.
\<close>

datatype graph_error =
    GraphNotFound string | ActivePlanExists | PlanNotActive
  | InvalidReference string | GraphIntegrity string | GraphDatabase string
  | IssueLimitReached nat

record task_assignment =
  as_executor_type :: "string option"
  as_executor_id :: "uuid option"
  as_runtime :: "uuid option"

section \<open>Actors\<close>

definition find_agent :: "graphdb \<Rightarrow> uuid \<Rightarrow> agent_row option" where
  "find_agent db a = find (\<lambda>r. ag_id r = a) (agents (g_queue db))"

definition GetAgentInWorkspace :: "graphdb \<Rightarrow> uuid \<Rightarrow> uuid \<Rightarrow> agent_row option" where
  "GetAgentInWorkspace db a ws =
     find (\<lambda>r. ag_id r = a \<and> ag_workspace_id r = ws) (agents (g_queue db))"

definition GetTeamInWorkspace :: "graphdb \<Rightarrow> uuid \<Rightarrow> uuid \<Rightarrow> team_row option" where
  "GetTeamInWorkspace db t ws = find (\<lambda>r. tm_id r = t \<and> tm_workspace r = ws) (g_teams db)"

definition validateDependencyGraphActor ::
  "graph_codec \<Rightarrow> graphdb \<Rightarrow> uuid \<Rightarrow> role_input \<Rightarrow> string \<Rightarrow> graph_error option" where
  "validateDependencyGraphActor co db ws actor code =
     (case gc_parse co (rl_id actor) of
        None \<Rightarrow> Some (InvalidReference code)
      | Some u \<Rightarrow>
          if rl_type actor = ''member'' then
            (case find_workspace db ws of None \<Rightarrow> Some (InvalidReference code)
             | Some w \<Rightarrow> if u \<in> set (ws_members w) then None else Some (InvalidReference code))
          else if rl_type actor = ''agent'' then
            (case GetAgentInWorkspace db u ws of None \<Rightarrow> Some (InvalidReference code)
             | Some a \<Rightarrow> if ag_archived_at a \<noteq> None then Some (InvalidReference code) else None)
          else if rl_type actor = ''team'' then
            (case GetTeamInWorkspace db u ws of None \<Rightarrow> Some (InvalidReference code)
             | Some t \<Rightarrow>
                 if tm_archived_at t \<noteq> None then Some (InvalidReference code)
                 else case find_agent db (tm_leader t) of None \<Rightarrow> Some (InvalidReference code)
                      | Some l \<Rightarrow> if ag_workspace_id l \<noteq> ws \<or> ag_archived_at l \<noteq> None
                                 then Some (InvalidReference code) else None)
          else Some (InvalidReference code))"

definition runtime_in_workspace :: "graphdb \<Rightarrow> uuid \<Rightarrow> uuid \<Rightarrow> bool" where
  "runtime_in_workspace db rt ws \<longleftrightarrow>
     (case find_workspace db ws of None \<Rightarrow> False | Some w \<Rightarrow> rt \<in> set (ws_runtimes w))"

text \<open>The recheck of every persisted actor inside the transaction.\<close>

definition check_role ::
  "graph_codec \<Rightarrow> graphdb \<Rightarrow> uuid \<Rightarrow> role_input option \<Rightarrow> string \<Rightarrow> graph_error option" where
  "check_role co db ws role code =
     (case role of None \<Rightarrow> None | Some r \<Rightarrow> validateDependencyGraphActor co db ws r code)"

definition check_actors ::
  "graph_codec \<Rightarrow> graphdb \<Rightarrow> uuid \<Rightarrow> (task_input \<times> task_assignment) list \<Rightarrow> graph_error option" where
  "check_actors co db ws items =
     first_error (concat (map (\<lambda>(t, a).
       [check_role co db ws (tk_owner t) ''invalid_owner'',
        check_role co db ws (tk_executor t) ''invalid_executor'',
        check_role co db ws (tk_reviewer t) ''invalid_reviewer'']
       @ map (\<lambda>r. check_role co db ws (Some r) ''invalid_executor'') (tk_candidates t)
       @ [case as_runtime a of None \<Rightarrow> None
          | Some rt \<Rightarrow> if runtime_in_workspace db rt ws then None
                       else Some (InvalidReference ''invalid_runtime'')]) items))"

text \<open>The workspace's default executor, when it is configured, present, unarchived and on a runtime.\<close>

definition default_execution_agent :: "graphdb \<Rightarrow> uuid \<Rightarrow> uuid option" where
  "default_execution_agent db ws =
     (case find_workspace db ws of None \<Rightarrow> None
      | Some w \<Rightarrow> (case ws_default_agent w of None \<Rightarrow> None
        | Some a \<Rightarrow> (case GetAgentInWorkspace db a ws of None \<Rightarrow> None
          | Some r \<Rightarrow> if ag_archived_at r = None \<and> ag_runtime_id r \<noteq> None then Some a else None)))"

definition incoming :: "edge_input list \<Rightarrow> string \<Rightarrow> nat" where
  "incoming es name = length (filter (\<lambda>e. eg_to e = name) es)"

definition executor_missing ::
  "uuid option \<Rightarrow> edge_input list \<Rightarrow> (task_input \<times> task_assignment) list \<Rightarrow> bool" where
  "executor_missing dflt es items \<longleftrightarrow>
     dflt = None \<and> list_ex (\<lambda>(t, a). tk_temp_id t \<in> set (map eg_to es) \<and> as_executor_id a = None) items"

section \<open>Creating the issues and nodes\<close>

definition AllocateIssueNumber :: "nat option \<Rightarrow> uuid \<Rightarrow> graphdb \<Rightarrow> graph_error + int \<times> graphdb" where
  "AllocateIssueNumber limit ws db =
     (case find_workspace db ws of
        None \<Rightarrow> Inl (GraphDatabase ''increment issue counter'')
      | Some w \<Rightarrow>
          let number = ws_issue_counter w + 1;
              db' = db\<lparr>g_workspaces := update_where (\<lambda>r. ws_id r = ws)
                         (\<lambda>r. r\<lparr>ws_issue_counter := ws_issue_counter r + 1\<rparr>) (g_workspaces db)\<rparr>
          in case limit of
               None \<Rightarrow> Inr (number, db')
             | Some l \<Rightarrow>
                 if l \<le> min l (length (filter (\<lambda>i. is_workspace i = ws) (g_issues db)))
                 then Inl (IssueLimitReached l) else Inr (number, db'))"

text \<open>\<open>waveByTempID\<close>: the last wave that names the task, 0 for none.\<close>

definition wave_of :: "string list list \<Rightarrow> string \<Rightarrow> nat" where
  "wave_of waves name =
     (case find (\<lambda>(k, w). name \<in> set w) (rev (enumerate 0 waves)) of None \<Rightarrow> 0 | Some (k, _) \<Rightarrow> k)"

definition with_default :: "uuid option \<Rightarrow> task_assignment \<Rightarrow> task_assignment" where
  "with_default dflt a =
     (if as_executor_id a = None \<and> dflt \<noteq> None
      then a\<lparr>as_executor_type := Some ''agent'', as_executor_id := dflt\<rparr> else a)"

definition new_issue ::
  "gtime \<Rightarrow> uuid \<Rightarrow> uuid \<Rightarrow> edge_input list \<Rightarrow> task_input \<Rightarrow> task_assignment \<Rightarrow> uuid \<Rightarrow> int \<Rightarrow> graph_issue" where
  "new_issue now ws parent es t a i number =
     \<lparr>is_id = i, is_workspace = ws, is_title = tk_title t,
      is_status = (if 0 < incoming es (tk_temp_id t) then Blocked else Todo),
      is_priority = ''none'', is_executor_type = as_executor_type a, is_executor_id = as_executor_id a,
      is_parent = Some parent, is_number = number, is_revision = 1, is_last_activity = Some now,
      is_updated_at = now\<rparr>"

definition new_node ::
  "uuid \<Rightarrow> uuid \<Rightarrow> string list list \<Rightarrow> task_input \<Rightarrow> task_assignment \<Rightarrow> uuid \<Rightarrow> uuid \<Rightarrow> node_row" where
  "new_node ws plan waves t a i n =
     \<lparr>nd_id = n, nd_plan = plan, nd_workspace = ws, nd_temp_id = tk_temp_id t, nd_issue = i, nd_task = t,
      nd_executor_type = as_executor_type a, nd_executor_id = as_executor_id a,
      nd_wave = int (wave_of waves (tk_temp_id t))\<rparr>"

text \<open>What the loops of the transaction share.\<close>

record apply_env =
  ap_now :: gtime
  ap_workspace :: uuid
  ap_parent :: uuid
  ap_plan :: uuid
  ap_limit :: "nat option"
  ap_default :: "uuid option"

text \<open>One task: its number, its issue, its node and its outbox row; \<open>issueByTempID\<close> grows by one entry.\<close>

definition create_task_node ::
  "apply_env \<Rightarrow> apply_input \<Rightarrow> string list list \<Rightarrow> task_input \<times> task_assignment \<Rightarrow> (string \<times> uuid) list
     \<Rightarrow> graphdb \<Rightarrow> graph_error + (string \<times> uuid) list \<times> graphdb" where
  "create_task_node env input waves item by_temp db =
     (let t = fst item; a = with_default (ap_default env) (snd item) in
      case AllocateIssueNumber (ap_limit env) (ap_workspace env) db of
        Inl e \<Rightarrow> Inl e
      | Inr (number, db1) \<Rightarrow>
          (let (i, db2) = NewV7 db1 in
           case CreateIssue (new_issue (ap_now env) (ap_workspace env) (ap_parent env) (in_edges input) t a i number) db2 of
             None \<Rightarrow> Inl (GraphDatabase ''create dependency graph issue'')
           | Some db3 \<Rightarrow>
               (let (n, db4) = NewV7 db3 in
                case CreateDependencyGraphNode (new_node (ap_workspace env) (ap_plan env) waves t a i n) db4 of
                  None \<Rightarrow> Inl (GraphDatabase ''create dependency graph node'')
                | Some db5 \<Rightarrow>
                    Inr ((tk_temp_id t, i) # by_temp,
                         CreateDependencyGraphIssueCreatedOutbox (ap_plan env) n i db5))))"

fun create_nodes ::
  "apply_env \<Rightarrow> apply_input \<Rightarrow> string list list \<Rightarrow> (task_input \<times> task_assignment) list
     \<Rightarrow> (string \<times> uuid) list \<Rightarrow> graphdb \<Rightarrow> graph_error + (string \<times> uuid) list \<times> graphdb" where
  "create_nodes env input waves [] by_temp db = Inr (by_temp, db)"
| "create_nodes env input waves (item # items) by_temp db =
     (case create_task_node env input waves item by_temp db of
        Inl e \<Rightarrow> Inl e
      | Inr (by_temp', db') \<Rightarrow> create_nodes env input waves items by_temp' db')"

fun create_edges ::
  "apply_env \<Rightarrow> (string \<times> uuid) list \<Rightarrow> edge_input list \<Rightarrow> graphdb \<Rightarrow> graph_error + graphdb" where
  "create_edges env by_temp [] db = Inr db"
| "create_edges env by_temp (e # es) db =
     (case (map_of by_temp (eg_from e), map_of by_temp (eg_to e)) of
        (Some from, Some to) \<Rightarrow>
          (let (i, db1) = NewV7 db in
           case CreateDependencyGraphEdge
               \<lparr>ed_id = i, ed_plan = ap_plan env, ed_workspace = ap_workspace env, ed_from = from, ed_to = to,
                ed_type = eg_type e, ed_reason = eg_reason e, ed_consumed = eg_consumed e\<rparr> db1 of
             None \<Rightarrow> Inl (GraphDatabase ''create dependency graph edge'')
           | Some db2 \<Rightarrow> create_edges env by_temp es db2)
      | _ \<Rightarrow> Inl (GraphIntegrity ''dependency graph edge references a missing created issue''))"

definition applyDependencyGraphTransaction ::
  "graph_codec \<Rightarrow> gtime \<Rightarrow> apply_input \<Rightarrow> string list list \<Rightarrow> task_assignment list \<Rightarrow> uuid \<Rightarrow> uuid
     \<Rightarrow> nat option \<Rightarrow> string \<Rightarrow> string \<Rightarrow> graphdb \<Rightarrow> graph_error + plan_row \<times> graphdb" where
  "applyDependencyGraphTransaction co now input waves assignments parent ws limit key hash db =
     (let items = zip (in_tasks input) assignments in
      case GetIssueInWorkspace db parent ws of
        None \<Rightarrow> Inl (GraphNotFound ''parent issue not found'')
      | Some locked \<Rightarrow>
      case GetActiveDependencyGraphPlanForParent db ws (is_id locked) of
        Some active \<Rightarrow> Inl ActivePlanExists
      | None \<Rightarrow>
      case check_actors co db ws items of
        Some e \<Rightarrow> Inl e
      | None \<Rightarrow>
      let dflt = default_execution_agent db ws in
      if executor_missing dflt (in_edges input) items
      then Inl (InvalidReference ''active_executor_required'')
      else
      let (p, db1) = NewV7 db;
          plan = \<lparr>pl_id = p, pl_workspace = ws, pl_parent = is_id locked, pl_key = key, pl_hash = hash,
                  pl_goal = in_goal input, pl_status = PlanActive, pl_updated_at = now,
                  pl_attention = False, pl_reason = None\<rparr>;
          env = \<lparr>ap_now = now, ap_workspace = ws, ap_parent = is_id locked, ap_plan = p,
                 ap_limit = limit, ap_default = dflt\<rparr>
      in case CreateDependencyGraphPlan plan db1 of
        None \<Rightarrow> Inl (GraphDatabase ''create dependency graph plan'')
      | Some db2 \<Rightarrow>
      case create_nodes env input waves items [] db2 of
        Inl e \<Rightarrow> Inl e
      | Inr (by_temp, db3) \<Rightarrow>
      case create_edges env by_temp (in_edges input) db3 of
        Inl e \<Rightarrow> Inl e
      | Inr db4 \<Rightarrow> Inr (plan, db4))"

section \<open>Reading the waves back\<close>

text \<open>The node loop of \<open>dependencyGraphPersistedWaves\<close>: \<open>by_issue\<close> and \<open>seen\<close> are its maps, \<open>count\<close> the
  number of nodes.\<close>

fun persisted_nodes ::
  "nat \<Rightarrow> node_row list \<Rightarrow> (uuid \<times> int) list \<Rightarrow> string list \<Rightarrow> string list list
     \<Rightarrow> graph_error + (uuid \<times> int) list \<times> string list list" where
  "persisted_nodes count [] by_issue seen waves = Inr (by_issue, waves)"
| "persisted_nodes count (n # ns) by_issue seen waves =
     (if nd_wave n < 0 \<or> int count \<le> nd_wave n then Inl (GraphIntegrity ''invalid persisted wave'')
      else if nd_issue n \<in> fst ` set by_issue then Inl (GraphIntegrity ''duplicate node issues'')
      else if nd_temp_id n \<in> set seen then Inl (GraphIntegrity ''duplicate temp ids'')
      else
        let k = nat (nd_wave n); padded = waves @ replicate (Suc k - length waves) []
        in persisted_nodes count ns ((nd_issue n, nd_wave n) # by_issue) (nd_temp_id n # seen)
             (padded[k := padded ! k @ [nd_temp_id n]]))"

definition edge_forward :: "(uuid \<times> int) list \<Rightarrow> edge_row \<Rightarrow> bool" where
  "edge_forward by_issue e =
     (case (map_of by_issue (ed_from e), map_of by_issue (ed_to e)) of
        (Some a, Some b) \<Rightarrow> a < b | _ \<Rightarrow> False)"

definition dependencyGraphPersistedWaves ::
  "node_row list \<Rightarrow> edge_row list \<Rightarrow> graph_error + string list list" where
  "dependencyGraphPersistedWaves nodes edges =
     (if nodes = [] then Inl (GraphIntegrity ''a dependency graph plan has no nodes'')
      else case persisted_nodes (length nodes) nodes [] [] [] of
        Inl e \<Rightarrow> Inl e
      | Inr (by_issue, waves) \<Rightarrow>
          if list_all (edge_forward by_issue) edges then Inr (map sort waves)
          else Inl (GraphIntegrity ''edge does not point from an earlier wave''))"

section \<open>Retiring\<close>

definition set_queue :: "taskdb \<Rightarrow> graphdb \<Rightarrow> graphdb" where
  "set_queue q db = sync_gates (db\<lparr>g_queue := q\<rparr>)"

definition queue_step :: "queue_event \<Rightarrow> graphdb \<Rightarrow> graphdb" where
  "queue_step e db = set_queue (queue_exec e (g_queue (sync_gates db))) db"

fun cancel_issues :: "gtime \<Rightarrow> uuid \<Rightarrow> uuid list \<Rightarrow> graphdb \<Rightarrow> graph_error + graphdb" where
  "cancel_issues now ws [] db = Inr db"
| "cancel_issues now ws (i # is) db =
     (case UpdateIssueStatus now i StatusCancelled ws db of
        Some (_ # _, db') \<Rightarrow> cancel_issues now ws is db'
      | _ \<Rightarrow> Inl (GraphDatabase ''cancel dependency graph child issue''))"

definition cancelDependencyGraphChildren ::
  "gtime \<Rightarrow> uuid \<Rightarrow> node_row list \<Rightarrow> graphdb \<Rightarrow> graph_error + graphdb" where
  "cancelDependencyGraphChildren now ws nodes db =
     (let ids = sort (remdups (map nd_issue nodes));
          previous = filter (\<lambda>i. case GetIssueInWorkspace db i ws of None \<Rightarrow> False
             | Some r \<Rightarrow> Effective (Some (catalog_of db ws)) (is_status r) \<notin> {Done, StatusCancelled}) ids
      in cancel_issues now ws previous
           (fold (\<lambda>i. queue_step (QUpdate now (SCancelIssue i))) previous db))"

definition RetireDependencyGraph :: "gtime \<Rightarrow> uuid \<Rightarrow> uuid \<Rightarrow> graphdb \<Rightarrow> graph_error + graphdb" where
  "RetireDependencyGraph now plan ws db =
     (case GetDependencyGraphPlanForUpdate db plan ws of
        None \<Rightarrow> Inl (GraphNotFound ''dependency graph not found'')
      | Some p \<Rightarrow>
          if pl_status p \<noteq> PlanActive then Inl PlanNotActive
          else case cancelDependencyGraphChildren now ws (ListDependencyGraphNodesByPlan plan ws db) db of
            Inl e \<Rightarrow> Inl e
          | Inr db' \<Rightarrow> Inr (UpdateDependencyGraphPlanStatus now plan ws PlanCancelled db'))"

end
