(* ===== verification/GraphWake.thy ===== *)
theory GraphWake
  imports GraphApply
begin

text \<open>
  The dependency-graph coordinator (\<^verbatim>\<open>server/internal/service/dependency_graph_scheduler.go\<close> and the
  enqueue functions of \<^verbatim>\<open>task.go\<close> it ends in): promotion of unblocked issues, admission, and the task
  insert; and \<open>graph_step\<close>, every transaction of the program on the graph tables, with the tasks' own
  transactions and the users' edits of issues, workspaces and fleet between them. Broadcasts and the
  activity log are left out. A statement error ends the function, as in the code.
\<close>

section \<open>Enqueueing\<close>

text \<open>What the enqueue functions ask of other services: the time, whether the attribution of a run is
  resolved (fail-closed otherwise), and whether the owners' rows are still there.\<close>

record wake_env =
  wk_now :: gtime
  wk_attributed :: "uuid \<Rightarrow> uuid \<Rightarrow> bool"
  wk_alive :: "uuid \<Rightarrow> bool"
  wk_lineage :: nat

definition priorityToInt :: "string \<Rightarrow> int" where
  "priorityToInt p =
     (if p = ''urgent'' then 4 else if p = ''high'' then 3 else if p = ''medium'' then 2
      else if p = ''low'' then 1 else 0)"

text \<open>\<open>prepareIssueTaskWithCommentPlan\<close> and the head of \<open>enqueueMentionTaskWithCommentPlan\<close>: the agent must
  exist, be unarchived and have a runtime.\<close>

definition prepare_task :: "wake_env \<Rightarrow> graph_issue \<Rightarrow> uuid \<Rightarrow> graphdb \<Rightarrow> create_params option" where
  "prepare_task env issue agent db =
     (case find_agent db agent of
        None \<Rightarrow> None
      | Some a \<Rightarrow>
          if ag_archived_at a \<noteq> None \<or> ag_runtime_id a = None \<or> \<not> wk_attributed env (is_id issue) agent
          then None
          else Some \<lparr>cp_agent_id = agent, cp_runtime_id = ag_runtime_id a, cp_issue_id = Some (is_id issue),
                 cp_priority = priorityToInt (is_priority issue), cp_trigger_comment_id = None,
                 cp_coalesced = [], cp_force_fresh = False, cp_issue_created_pending = False,
                 cp_lineage = wk_lineage env\<rparr>)"

definition insert_task :: "wake_env \<Rightarrow> create_params option \<Rightarrow> graphdb \<Rightarrow> graphdb" where
  "insert_task env params db =
     (case params of
        None \<Rightarrow> db
      | Some cp \<Rightarrow>
          let (i, db') = NewV7 db
          in queue_step (QCreate (wk_now env) i cp
               (case cp_issue_id cp of None \<Rightarrow> True | Some issue \<Rightarrow> wk_alive env issue)) db')"

definition EnqueueTaskForIssue :: "wake_env \<Rightarrow> graph_issue \<Rightarrow> graphdb \<Rightarrow> graphdb" where
  "EnqueueTaskForIssue env issue db =
     (case is_executor_id issue of
        None \<Rightarrow> db
      | Some agent \<Rightarrow> insert_task env (prepare_task env issue agent db) db)"

definition EnqueueTaskForTeamLeader :: "wake_env \<Rightarrow> graph_issue \<Rightarrow> uuid \<Rightarrow> graphdb \<Rightarrow> graphdb" where
  "EnqueueTaskForTeamLeader env issue leader db =
     insert_task env (prepare_task env issue leader db) db"

definition enqueueAdmittedDependencyGraphIssue :: "wake_env \<Rightarrow> graph_issue \<Rightarrow> graphdb \<Rightarrow> graphdb" where
  "enqueueAdmittedDependencyGraphIssue env issue db =
     (if is_executor_type issue = Some ''agent'' then EnqueueTaskForIssue env issue db
      else if is_executor_type issue = Some ''team'' then
        (case is_executor_id issue of
           None \<Rightarrow> db
         | Some t \<Rightarrow>
             (case GetTeamInWorkspace db t (is_workspace issue) of
                None \<Rightarrow> db
              | Some team \<Rightarrow>
                  if tm_archived_at team \<noteq> None then db
                  else EnqueueTaskForTeamLeader env issue (tm_leader team) db))
      else db)"

text \<open>One issue of the list: admitted in its own transaction, then enqueued in another.\<close>

definition admit_and_enqueue :: "wake_env \<Rightarrow> uuid \<Rightarrow> graphdb \<Rightarrow> graphdb" where
  "admit_and_enqueue env i db =
     (case GetIssue db i of
        None \<Rightarrow> db
      | Some issue \<Rightarrow>
          (case AdmitReadyDependencyGraphIssue (wk_now env) (is_id issue) (is_workspace issue) db of
             None \<Rightarrow> db
           | Some ([], _) \<Rightarrow> db
           | Some (_ # _, db') \<Rightarrow>
               (case GetIssueInWorkspace db' (is_id issue) (is_workspace issue) of
                  None \<Rightarrow> db
                | Some admitted \<Rightarrow> enqueueAdmittedDependencyGraphIssue env admitted db')))"

definition enqueueReadyDependencyGraphIssueIDs :: "wake_env \<Rightarrow> uuid list \<Rightarrow> graphdb \<Rightarrow> graphdb" where
  "enqueueReadyDependencyGraphIssueIDs env ids db = fold (admit_and_enqueue env) ids db"

section \<open>Waking\<close>

definition WakeDependencyGraphReadyTasks :: "wake_env \<Rightarrow> uuid \<Rightarrow> uuid \<Rightarrow> graphdb \<Rightarrow> graphdb" where
  "WakeDependencyGraphReadyTasks env ws plan db =
     (case PromoteReadyDependencyGraphIssuesForPlan (wk_now env) ws plan db of
        None \<Rightarrow> db
      | Some (promoted, db') \<Rightarrow>
          enqueueReadyDependencyGraphIssueIDs env (ListReadyDependencyGraphIssueIDsForPlan ws plan db') db')"

definition WakeDependencyGraphDependents :: "wake_env \<Rightarrow> uuid \<Rightarrow> uuid \<Rightarrow> graphdb \<Rightarrow> graphdb" where
  "WakeDependencyGraphDependents env ws prerequisite db =
     (case PromoteReadyDependencyGraphDependents (wk_now env) ws prerequisite db of
        None \<Rightarrow> db
      | Some (promoted, db') \<Rightarrow>
          enqueueReadyDependencyGraphIssueIDs env (ListReadyDependencyGraphIssueIDsForWorkspace ws db') db')"

definition reconcileDependencyTasksForRuntime :: "wake_env \<Rightarrow> uuid \<Rightarrow> graphdb \<Rightarrow> graphdb" where
  "reconcileDependencyTasksForRuntime env rt db =
     (case PromoteReadyDependencyGraphIssuesForRuntime (wk_now env) rt db of
        None \<Rightarrow> db
      | Some (promoted, db') \<Rightarrow>
          enqueueReadyDependencyGraphIssueIDs env (ListReadyDependencyGraphIssueIDsForRuntime rt db') db')"

definition FlagDependencyGraphAttention ::
  "gtime \<Rightarrow> uuid \<Rightarrow> uuid \<Rightarrow> string \<Rightarrow> graphdb \<Rightarrow> graphdb" where
  "FlagDependencyGraphAttention now ws prerequisite why db =
     snd (MarkDependencyGraphAttentionForPrerequisite now ws prerequisite
            (if why = [] then None else Some why) db)"

section \<open>Histories\<close>

definition assignments_ok :: "task_assignment list \<Rightarrow> bool" where
  "assignments_ok = list_all (\<lambda>a. as_executor_id a = None
     \<or> as_executor_type a \<in> {Some ''agent'', Some ''team''})"

inductive graph_step :: "graph_codec \<Rightarrow> graphdb \<Rightarrow> graphdb \<Rightarrow> bool" for co where
  apply_plan: "validateDependencyGraphPlan co raw = Inr (waves, input)
    \<Longrightarrow> length assignments = length (in_tasks input) \<Longrightarrow> assignments_ok assignments
    \<Longrightarrow> applyDependencyGraphTransaction co now input waves assignments parent ws limit key hash db = Inr (plan, db')
    \<Longrightarrow> graph_step co db db'"
| retire: "RetireDependencyGraph now plan ws db = Inr db' \<Longrightarrow> graph_step co db db'"
| wake: "graph_step co db (WakeDependencyGraphReadyTasks env ws plan db)"
| wake_dependents: "graph_step co db (WakeDependencyGraphDependents env ws prerequisite db)"
| reconcile: "graph_step co db (reconcileDependencyTasksForRuntime env rt db)"
| attention: "graph_step co db (FlagDependencyGraphAttention now ws prerequisite why db)"
| delete_issue: "graph_step co db (DeleteIssue i ws db)"
| create_issue: "NewV7 db = (i, db1) \<Longrightarrow> CreateIssue (row\<lparr>is_id := i\<rparr>) db1 = Some db'
    \<Longrightarrow> graph_step co db db'"
| edit_issue: "update_issues (\<lambda>r. is_id r = i)
      (\<lambda>r. r\<lparr>is_title := ttl, is_status := st, is_priority := pr, is_executor_type := et, is_executor_id := ei,
             is_revision := rv, is_last_activity := la, is_updated_at := now\<rparr>) db = Some (rows, db')
    \<Longrightarrow> graph_step co db db'"
| queue: "graph_step co db (queue_step e db)"
| teams: "graph_step co db (db\<lparr>g_teams := ts\<rparr>)"
| workspaces: "graph_step co db (db\<lparr>g_workspaces := wss\<rparr>)"

definition empty_graph :: "graphdb" where
  "empty_graph =
     \<lparr>g_issues = [], g_plans = [], g_nodes = [], g_edges = [], g_outbox = [], g_teams = [],
      g_workspaces = [], g_queue = empty_db, g_next = 0\<rparr>"

definition reachable_graph :: "graph_codec \<Rightarrow> graphdb \<Rightarrow> bool" where
  "reachable_graph co db \<longleftrightarrow> (graph_step co)\<^sup>*\<^sup>* empty_graph db"

end
