(* ===== verification/GraphCreate.thy ===== *)
theory GraphCreate
  imports GraphPlanSafety GraphWake
begin

text \<open>
  What the loops of the apply transaction write, when they fail, and what an accepted plan therefore
  stores: the helper lemmas of \<open>GraphInv\<close>.
\<close>

section \<open>Single inserts\<close>

lemma NewV7_simps [simp]: "fst (NewV7 db) = g_next db" "snd (NewV7 db) = db\<lparr>g_next := Suc (g_next db)\<rparr>"
  by (simp_all add: NewV7_def)

lemma outbox_frame [simp]:
  "g_issues (CreateDependencyGraphIssueCreatedOutbox p n i db) = g_issues db"
  "g_nodes (CreateDependencyGraphIssueCreatedOutbox p n i db) = g_nodes db"
  "g_edges (CreateDependencyGraphIssueCreatedOutbox p n i db) = g_edges db"
  "g_plans (CreateDependencyGraphIssueCreatedOutbox p n i db) = g_plans db"
  "g_teams (CreateDependencyGraphIssueCreatedOutbox p n i db) = g_teams db"
  "g_workspaces (CreateDependencyGraphIssueCreatedOutbox p n i db) = g_workspaces db"
  "g_queue (CreateDependencyGraphIssueCreatedOutbox p n i db) = g_queue db"
  "g_next (CreateDependencyGraphIssueCreatedOutbox p n i db) = g_next db"
  by (simp_all add: CreateDependencyGraphIssueCreatedOutbox_def)

lemma AllocateIssueNumber_Inr:
  assumes "AllocateIssueNumber limit ws db = Inr (number, db')"
  shows "\<exists>wss. db' = db\<lparr>g_workspaces := wss\<rparr>"
  using assms by (auto simp: AllocateIssueNumber_def Let_def split: option.splits if_splits)

text \<open>The rows one task adds.\<close>

definition task_rows ::
  "apply_env \<Rightarrow> apply_input \<Rightarrow> string list list \<Rightarrow> task_input \<times> task_assignment \<Rightarrow> graph_issue \<Rightarrow> node_row \<Rightarrow> bool"
  where
  "task_rows env input waves item i n \<longleftrightarrow>
     (let t = fst item; a = with_default (ap_default env) (snd item) in
      (\<exists>number. i = new_issue (ap_now env) (ap_workspace env) (ap_parent env) (in_edges input) t a (is_id i) number)
      \<and> n = new_node (ap_workspace env) (ap_plan env) waves t a (is_id i) (nd_id n))"

lemma task_rowsD:
  assumes "task_rows env input waves item i n"
  shows "is_workspace i = ap_workspace env" "nd_issue n = is_id i" "nd_plan n = ap_plan env"
    "nd_workspace n = ap_workspace env" "nd_temp_id n = tk_temp_id (fst item)"
    "nd_wave n = int (wave_of waves (nd_temp_id n))"
    "is_status i = (if 0 < incoming (in_edges input) (tk_temp_id (fst item)) then Blocked else Todo)"
proof -
  obtain number where i: "i = new_issue (ap_now env) (ap_workspace env) (ap_parent env) (in_edges input)
      (fst item) (with_default (ap_default env) (snd item)) (is_id i) number"
    and n: "n = new_node (ap_workspace env) (ap_plan env) waves (fst item)
      (with_default (ap_default env) (snd item)) (is_id i) (nd_id n)"
    using assms by (auto simp: task_rows_def Let_def)
  show "is_workspace i = ap_workspace env"
    "is_status i = (if 0 < incoming (in_edges input) (tk_temp_id (fst item)) then Blocked else Todo)"
    by (subst i, simp add: new_issue_def)+
  show "nd_issue n = is_id i" "nd_plan n = ap_plan env" "nd_workspace n = ap_workspace env"
    by (subst n, simp add: new_node_def)+
  show "nd_temp_id n = tk_temp_id (fst item)" by (subst n) (simp add: new_node_def)
  then show "nd_wave n = int (wave_of waves (nd_temp_id n))" by (subst n) (simp add: new_node_def)
qed

lemma create_task_node_Inr:
  assumes "create_task_node env input waves item bt db = Inr (bt', db')"
  obtains i n where "task_rows env input waves item i n" "is_id i = g_next db" "nd_id n = Suc (g_next db)"
    "g_issues db' = g_issues db @ [i]" "g_nodes db' = g_nodes db @ [n]"
    "g_edges db' = g_edges db" "g_plans db' = g_plans db" "g_queue db' = g_queue db"
    "g_next db' = Suc (Suc (g_next db))" "bt' = (nd_temp_id n, nd_issue n) # bt"
proof -
  let ?t = "fst item" and ?a = "with_default (ap_default env) (snd item)"
  obtain number db1 where a: "AllocateIssueNumber (ap_limit env) (ap_workspace env) db = Inr (number, db1)"
    using assms by (auto simp: create_task_node_def Let_def split: sum.splits)
  from AllocateIssueNumber_Inr[OF a] obtain wss where db1: "db1 = db\<lparr>g_workspaces := wss\<rparr>" by blast
  let ?i = "new_issue (ap_now env) (ap_workspace env) (ap_parent env) (in_edges input) ?t ?a (g_next db) number"
  let ?n = "new_node (ap_workspace env) (ap_plan env) waves ?t ?a (g_next db) (Suc (g_next db))"
  show thesis
    by (rule that[of ?i ?n])
      (use assms a db1 in \<open>auto simp: create_task_node_def Let_def NewV7_def CreateIssue_def
        CreateDependencyGraphNode_def task_rows_def new_issue_def new_node_def split: if_splits\<close>)
qed

section \<open>The node loop\<close>

lemma create_nodes_Inr:
  assumes "create_nodes env input waves items bt db = Inr (bt', db')"
  obtains rs ns where "list_all2 (\<lambda>item (i, n). task_rows env input waves item i n) items (zip rs ns)"
    "length rs = length items" "length ns = length items"
    "g_issues db' = g_issues db @ rs" "g_nodes db' = g_nodes db @ ns"
    "g_edges db' = g_edges db" "g_plans db' = g_plans db" "g_queue db' = g_queue db"
    "g_next db \<le> g_next db'"
    "map is_id rs = map nd_issue ns" "distinct (map nd_id ns)" "distinct (map nd_issue ns)"
    "\<forall>n \<in> set ns. g_next db \<le> nd_id n \<and> nd_id n < g_next db' \<and> g_next db \<le> nd_issue n \<and> nd_issue n < g_next db'"
    "bt' = rev (map (\<lambda>n. (nd_temp_id n, nd_issue n)) ns) @ bt"
proof -
  have "\<exists>rs ns. list_all2 (\<lambda>item (i, n). task_rows env input waves item i n) items (zip rs ns)
    \<and> length rs = length items \<and> length ns = length items
    \<and> g_issues db' = g_issues db @ rs \<and> g_nodes db' = g_nodes db @ ns
    \<and> g_edges db' = g_edges db \<and> g_plans db' = g_plans db \<and> g_queue db' = g_queue db
    \<and> g_next db \<le> g_next db'
    \<and> map is_id rs = map nd_issue ns \<and> distinct (map nd_id ns) \<and> distinct (map nd_issue ns)
    \<and> (\<forall>n \<in> set ns. g_next db \<le> nd_id n \<and> nd_id n < g_next db' \<and> g_next db \<le> nd_issue n \<and> nd_issue n < g_next db')
    \<and> bt' = rev (map (\<lambda>n. (nd_temp_id n, nd_issue n)) ns) @ bt"
    using assms
  proof (induction items arbitrary: bt db)
    case (Cons item items)
    then obtain bt1 db1 where 1: "create_task_node env input waves item bt db = Inr (bt1, db1)"
      "create_nodes env input waves items bt1 db1 = Inr (bt', db')" by (auto split: sum.splits)
    from create_task_node_Inr[OF 1(1)] obtain i n where
      r: "task_rows env input waves item i n" "is_id i = g_next db" "nd_id n = Suc (g_next db)"
        "g_issues db1 = g_issues db @ [i]" "g_nodes db1 = g_nodes db @ [n]"
        "g_edges db1 = g_edges db" "g_plans db1 = g_plans db" "g_queue db1 = g_queue db"
        "g_next db1 = Suc (Suc (g_next db))" "bt1 = (nd_temp_id n, nd_issue n) # bt" .
    have issue: "nd_issue n = g_next db" using task_rowsD(2)[OF r(1)] r(2) by simp
    from Cons.IH[OF 1(2)] obtain rs ns where
      IH: "list_all2 (\<lambda>item (i, n). task_rows env input waves item i n) items (zip rs ns)"
        "length rs = length items" "length ns = length items"
        "g_issues db' = g_issues db1 @ rs" "g_nodes db' = g_nodes db1 @ ns"
        "g_edges db' = g_edges db1" "g_plans db' = g_plans db1" "g_queue db' = g_queue db1"
        "g_next db1 \<le> g_next db'"
        "map is_id rs = map nd_issue ns" "distinct (map nd_id ns)" "distinct (map nd_issue ns)"
        "\<forall>n \<in> set ns. g_next db1 \<le> nd_id n \<and> nd_id n < g_next db' \<and> g_next db1 \<le> nd_issue n \<and> nd_issue n < g_next db'"
        "bt' = rev (map (\<lambda>n. (nd_temp_id n, nd_issue n)) ns) @ bt1" by blast
    have new: "nd_id n \<notin> nd_id ` set ns" "nd_issue n \<notin> nd_issue ` set ns"
      using IH(13) r(3,9) issue by fastforce+
    have range: "\<forall>m \<in> set (n # ns). g_next db \<le> nd_id m \<and> nd_id m < g_next db'
        \<and> g_next db \<le> nd_issue m \<and> nd_issue m < g_next db'"
      using IH(9,13) r(3,9) issue by auto
    show ?case
      by (intro exI[of _ "i # rs"] exI[of _ "n # ns"])
        (use r IH new issue range in auto)
  qed auto
  then show thesis using that by blast
qed

section \<open>The edge loop\<close>

lemma create_edges_Inr:
  assumes "create_edges env bt es db = Inr db'"
  obtains fs where "g_edges db' = g_edges db @ fs" "length fs = length es"
    "g_issues db' = g_issues db" "g_nodes db' = g_nodes db" "g_plans db' = g_plans db" "g_queue db' = g_queue db"
    "g_next db \<le> g_next db'"
    "list_all2 (\<lambda>e f. map_of bt (eg_from e) = Some (ed_from f) \<and> map_of bt (eg_to e) = Some (ed_to f)
       \<and> ed_plan f = ap_plan env \<and> ed_workspace f = ap_workspace env \<and> ed_type f = dependencyGraphHardType) es fs"
    "distinct (map ed_id fs)" "\<forall>f \<in> set fs. g_next db \<le> ed_id f \<and> ed_id f < g_next db'"
proof -
  have "\<exists>fs. g_edges db' = g_edges db @ fs \<and> length fs = length es
    \<and> g_issues db' = g_issues db \<and> g_nodes db' = g_nodes db \<and> g_plans db' = g_plans db
    \<and> g_queue db' = g_queue db \<and> g_next db \<le> g_next db'
    \<and> list_all2 (\<lambda>e f. map_of bt (eg_from e) = Some (ed_from f) \<and> map_of bt (eg_to e) = Some (ed_to f)
       \<and> ed_plan f = ap_plan env \<and> ed_workspace f = ap_workspace env \<and> ed_type f = dependencyGraphHardType) es fs
    \<and> distinct (map ed_id fs) \<and> (\<forall>f \<in> set fs. g_next db \<le> ed_id f \<and> ed_id f < g_next db')"
    using assms
  proof (induction es arbitrary: db)
    case (Cons e es)
    then obtain a b where m: "map_of bt (eg_from e) = Some a" "map_of bt (eg_to e) = Some b"
      by (auto split: option.splits)
    let ?f = "\<lparr>ed_id = g_next db, ed_plan = ap_plan env, ed_workspace = ap_workspace env, ed_from = a,
        ed_to = b, ed_type = eg_type e, ed_reason = eg_reason e, ed_consumed = eg_consumed e\<rparr>"
    let ?db2 = "db\<lparr>g_next := Suc (g_next db), g_edges := g_edges db @ [?f]\<rparr>"
    have "create_edges env bt es ?db2 = Inr db'" and hard: "eg_type e = dependencyGraphHardType"
      using Cons.prems m by (auto simp: NewV7_def CreateDependencyGraphEdge_def split: if_splits)
    from Cons.IH[OF this(1)] obtain fs where
      IH: "g_edges db' = g_edges ?db2 @ fs" "length fs = length es"
        "g_issues db' = g_issues ?db2" "g_nodes db' = g_nodes ?db2" "g_plans db' = g_plans ?db2"
        "g_queue db' = g_queue ?db2" "g_next ?db2 \<le> g_next db'"
        "list_all2 (\<lambda>e f. map_of bt (eg_from e) = Some (ed_from f) \<and> map_of bt (eg_to e) = Some (ed_to f)
          \<and> ed_plan f = ap_plan env \<and> ed_workspace f = ap_workspace env \<and> ed_type f = dependencyGraphHardType) es fs"
        "distinct (map ed_id fs)" "\<forall>f \<in> set fs. g_next ?db2 \<le> ed_id f \<and> ed_id f < g_next db'" by blast
    have "g_next db \<notin> ed_id ` set fs" using IH(10) by fastforce
    then show ?case
      by (intro exI[of _ "?f # fs"]) (use IH hard m in auto)
  qed auto
  then show thesis using that by blast
qed

section \<open>Waves of tasks\<close>

lemma wave_of_index:
  assumes "distinct (concat waves)" and "k < length waves" and "name \<in> set (waves ! k)"
  shows "wave_of waves name = k"
proof -
  have unique: "j = k" if "j < length waves" "name \<in> set (waves ! j)" for j
  proof (rule ccontr)
    assume "j \<noteq> k"
    moreover have "set (waves ! j) \<inter> set (waves ! k) = {}" if "j < k" "k < length waves" for j k
    proof -
      have "waves = take k waves @ waves ! k # drop (Suc k) waves" using that by (simp add: id_take_nth_drop)
      then have "distinct (concat (take k waves) @ waves ! k @ concat (drop (Suc k) waves))"
        using assms(1) by (metis concat.simps(2) concat_append)
      moreover have "waves ! j \<in> set (take k waves)" using that by (metis in_set_conv_nth length_take min.absorb4 nth_take)
      ultimately show ?thesis by auto
    qed
    ultimately show False using that assms(2,3) by (metis disjoint_iff linorder_neqE_nat)
  qed
  let ?P = "\<lambda>(k, w). name \<in> set w"
  have "(k, waves ! k) \<in> set (rev (enumerate 0 waves))" using assms(2) by (simp add: in_set_enumerate_eq)
  with assms(3) have "find ?P (rev (enumerate 0 waves)) \<noteq> None" unfolding find_None_iff by blast
  then obtain j w where f: "find ?P (rev (enumerate 0 waves)) = Some (j, w)" by auto
  from find_Some_in[OF this] have "j < length waves" "name \<in> set (waves ! j)"
    by (auto simp: in_set_enumerate_eq)
  with unique have "j = k" by blast
  with f show ?thesis by (simp add: wave_of_def)
qed

lemma waves_count:
  "[] \<notin> set waves \<Longrightarrow> length waves \<le> length (concat waves)"
proof (induction waves)
  case (Cons w ws)
  then show ?case by (cases w) auto
qed simp

end
