(* ===== verification/GraphInv.thy ===== *)
theory GraphInv
  imports GraphCreate
begin

text \<open>
  The invariant of the stored graphs, \<open>graph_wf\<close>, and that every transaction keeps it: rows have their
  own ids, every node has its plan and its issue, every edge runs between nodes of its plan from an
  earlier wave to a later one, plans are non-empty and at most one per parent is active.
\<close>

section \<open>The invariant\<close>

definition ids_fresh :: "graphdb \<Rightarrow> bool" where
  "ids_fresh db \<longleftrightarrow>
     (\<forall>x \<in> is_id ` set (g_issues db). x < g_next db) \<and> (\<forall>x \<in> pl_id ` set (g_plans db). x < g_next db)
     \<and> (\<forall>n \<in> set (g_nodes db). nd_id n < g_next db \<and> nd_issue n < g_next db \<and> nd_plan n < g_next db)
     \<and> (\<forall>e \<in> set (g_edges db). ed_id e < g_next db \<and> ed_plan e < g_next db)"

definition ids_distinct :: "graphdb \<Rightarrow> bool" where
  "ids_distinct db \<longleftrightarrow>
     distinct (map is_id (g_issues db)) \<and> distinct (map pl_id (g_plans db))
     \<and> distinct (map nd_id (g_nodes db)) \<and> distinct (map nd_issue (g_nodes db))
     \<and> distinct (map ed_id (g_edges db))"

definition plan_nodes :: "graphdb \<Rightarrow> uuid \<Rightarrow> node_row list" where
  "plan_nodes db p = filter (\<lambda>n. nd_plan n = p) (g_nodes db)"

definition plan_edge_rows :: "graphdb \<Rightarrow> uuid \<Rightarrow> edge_row list" where
  "plan_edge_rows db p = filter (\<lambda>e. ed_plan e = p) (g_edges db)"

definition node_ok :: "graphdb \<Rightarrow> node_row \<Rightarrow> bool" where
  "node_ok db n \<longleftrightarrow>
     (\<exists>p \<in> set (g_plans db). pl_id p = nd_plan n \<and> pl_workspace p = nd_workspace n)
     \<and> (\<exists>i \<in> set (g_issues db). is_id i = nd_issue n \<and> is_workspace i = nd_workspace n)
     \<and> 0 \<le> nd_wave n \<and> nd_wave n < int (length (plan_nodes db (nd_plan n)))"

definition edge_ok :: "graphdb \<Rightarrow> edge_row \<Rightarrow> bool" where
  "edge_ok db e \<longleftrightarrow>
     ed_type e = dependencyGraphHardType
     \<and> (\<exists>m \<in> set (plan_nodes db (ed_plan e)). \<exists>n \<in> set (plan_nodes db (ed_plan e)).
          nd_issue m = ed_from e \<and> nd_issue n = ed_to e \<and> nd_wave m < nd_wave n
          \<and> nd_workspace m = ed_workspace e \<and> nd_workspace n = ed_workspace e)"

definition plans_ok :: "graphdb \<Rightarrow> bool" where
  "plans_ok db \<longleftrightarrow>
     (\<forall>p \<in> set (g_plans db). plan_nodes db (pl_id p) \<noteq> [] \<and> distinct (map nd_temp_id (plan_nodes db (pl_id p))))
     \<and> (\<forall>p \<in> set (g_plans db). \<forall>q \<in> set (g_plans db).
          pl_status p = PlanActive \<longrightarrow> pl_status q = PlanActive \<longrightarrow> pl_workspace p = pl_workspace q
          \<longrightarrow> pl_parent p = pl_parent q \<longrightarrow> p = q)"

definition graph_wf :: "graphdb \<Rightarrow> bool" where
  "graph_wf db \<longleftrightarrow> ids_fresh db \<and> ids_distinct db \<and> plans_ok db
     \<and> (\<forall>n \<in> set (g_nodes db). node_ok db n) \<and> (\<forall>e \<in> set (g_edges db). edge_ok db e)"

lemma in_plan_nodes [simp]: "n \<in> set (plan_nodes db p) \<longleftrightarrow> n \<in> set (g_nodes db) \<and> nd_plan n = p"
  by (auto simp: plan_nodes_def)

lemma wf_empty: "graph_wf empty_graph"
  by (simp add: graph_wf_def ids_fresh_def ids_distinct_def plans_ok_def empty_graph_def)

section \<open>Transactions that keep the graph\<close>

definition plan_key :: "plan_row \<Rightarrow> uuid \<times> uuid \<times> uuid" where
  "plan_key p = (pl_id p, pl_workspace p, pl_parent p)"

definition plan_kept :: "plan_row \<Rightarrow> plan_row \<Rightarrow> bool" where
  "plan_kept p p' \<longleftrightarrow> plan_key p = plan_key p' \<and> (pl_status p' = PlanActive \<longrightarrow> pl_status p = PlanActive)"

definition issue_key :: "graph_issue \<Rightarrow> uuid \<times> uuid" where
  "issue_key i = (is_id i, is_workspace i)"

text \<open>Nodes and edges as they were, plans and issues under their keys, and no plan activated.\<close>

definition same_graph :: "graphdb \<Rightarrow> graphdb \<Rightarrow> bool" where
  "same_graph db db' \<longleftrightarrow>
     g_nodes db' = g_nodes db \<and> g_edges db' = g_edges db \<and> g_next db \<le> g_next db'
     \<and> map issue_key (g_issues db') = map issue_key (g_issues db)
     \<and> list_all2 plan_kept (g_plans db) (g_plans db')"

lemma same_graph_refl [simp]: "same_graph db db"
  by (simp add: same_graph_def list_all2_refl plan_kept_def)

lemma same_graph_trans: "same_graph a b \<Longrightarrow> same_graph b c \<Longrightarrow> same_graph a c"
proof -
  assume s: "same_graph a b" "same_graph b c"
  have "list_all2 plan_kept (g_plans a) (g_plans c)"
    by (rule list_all2_trans[of plan_kept plan_kept plan_kept "g_plans a" "g_plans b"])
      (use s in \<open>simp_all add: same_graph_def plan_kept_def\<close>)
  with s show "same_graph a c" by (simp add: same_graph_def)
qed

lemma plan_keys:
  assumes "list_all2 plan_kept ps ps'"
  shows "map pl_id ps' = map pl_id ps"
    and "p' \<in> set ps' \<Longrightarrow> \<exists>p \<in> set ps. plan_kept p p'"
    and "p \<in> set ps \<Longrightarrow> \<exists>p' \<in> set ps'. plan_kept p p'"
proof -
  show "map pl_id ps' = map pl_id ps"
    using assms by (induction rule: list_all2_induct) (auto simp: plan_kept_def plan_key_def)
  show "p' \<in> set ps' \<Longrightarrow> \<exists>p \<in> set ps. plan_kept p p'"
    using assms by (induction rule: list_all2_induct) auto
  show "p \<in> set ps \<Longrightarrow> \<exists>p' \<in> set ps'. plan_kept p p'"
    using assms by (induction rule: list_all2_induct) auto
qed

lemma wf_same_graph:
  assumes "graph_wf db" and "same_graph db db'"
  shows "graph_wf db'"
proof -
  note s = assms(2)[unfolded same_graph_def]
  then have plans: "list_all2 plan_kept (g_plans db) (g_plans db')" by blast
  note pk = plan_keys[OF plans]
  have nodes: "plan_nodes db' = plan_nodes db" using s by (simp add: plan_nodes_def fun_eq_iff)
  have "map is_id (g_issues db') = map fst (map issue_key (g_issues db'))" by (simp add: issue_key_def)
  also have "\<dots> = map is_id (g_issues db)" using s by (simp add: issue_key_def)
  finally have iids: "map is_id (g_issues db') = map is_id (g_issues db)" .
  have ik: "issue_key ` set (g_issues db') = issue_key ` set (g_issues db)" using s by (metis set_map)
  have "ids_distinct db'" using assms(1) s iids pk(1) by (simp add: graph_wf_def ids_distinct_def)
  moreover have "ids_fresh db'"
  proof -
    have "is_id ` set (g_issues db') = is_id ` set (g_issues db)" "pl_id ` set (g_plans db') = pl_id ` set (g_plans db)"
      using arg_cong[OF iids, of set] arg_cong[OF pk(1), of set] by simp_all
    moreover have "g_nodes db' = g_nodes db" "g_edges db' = g_edges db" "g_next db \<le> g_next db'" using s by auto
    moreover have "ids_fresh db" using assms(1) by (simp add: graph_wf_def)
    ultimately show ?thesis unfolding ids_fresh_def by (metis order_less_le_trans)
  qed
  moreover have "plans_ok db'"
  proof -
    have ok: "plans_ok db" using assms(1) by (simp add: graph_wf_def)
    have "plan_nodes db (pl_id p') \<noteq> [] \<and> distinct (map nd_temp_id (plan_nodes db (pl_id p')))"
      if "p' \<in> set (g_plans db')" for p'
      using pk(2)[OF that] ok unfolding plans_ok_def plan_key_def plan_kept_def by (metis prod.inject)
    moreover have "p' = q'"
      if act: "p' \<in> set (g_plans db')" "q' \<in> set (g_plans db')" "pl_status p' = PlanActive"
        "pl_status q' = PlanActive" "pl_workspace p' = pl_workspace q'" "pl_parent p' = pl_parent q'" for p' q'
    proof -
      obtain p q where pq: "p \<in> set (g_plans db)" "q \<in> set (g_plans db)" "plan_key p = plan_key p'"
        "plan_key q = plan_key q'" "pl_status p = PlanActive" "pl_status q = PlanActive"
        using pk(2)[OF act(1)] pk(2)[OF act(2)] act(3,4) unfolding plan_kept_def by blast
      with ok act(5,6) have "p = q" unfolding plans_ok_def plan_key_def by (metis prod.inject)
      with pq have "pl_id p' = pl_id q'" by (simp add: plan_key_def)
      with act(1,2) \<open>ids_distinct db'\<close> show ?thesis by (metis distinct_key_eq ids_distinct_def)
    qed
    ultimately show ?thesis unfolding plans_ok_def nodes by blast
  qed
  moreover have "node_ok db' n" if "n \<in> set (g_nodes db')" for n
  proof -
    have ok: "node_ok db n" using assms(1) s that by (simp add: graph_wf_def)
    then obtain p i where "p \<in> set (g_plans db)" "pl_id p = nd_plan n" "pl_workspace p = nd_workspace n"
      "i \<in> set (g_issues db)" "is_id i = nd_issue n" "is_workspace i = nd_workspace n"
      unfolding node_ok_def by blast
    then have "\<exists>p' \<in> set (g_plans db'). pl_id p' = nd_plan n \<and> pl_workspace p' = nd_workspace n"
      and "(nd_issue n, nd_workspace n) \<in> issue_key ` set (g_issues db')"
      using pk(3)[of p] unfolding ik by (force simp: plan_kept_def plan_key_def issue_key_def)+
    with ok show ?thesis unfolding node_ok_def nodes by (auto simp: issue_key_def)
  qed
  moreover have "edge_ok db' e" if "e \<in> set (g_edges db')" for e
    using assms(1) s that unfolding graph_wf_def edge_ok_def nodes by simp
  ultimately show ?thesis by (simp add: graph_wf_def)
qed

section \<open>Which transactions keep it\<close>

lemma map_key_update: "(\<And>r. P r \<Longrightarrow> k (f r) = k r) \<Longrightarrow> map k (update_where P f t) = map k t"
  by (rule map_update_where)

lemma same_graph_issues:
  "map issue_key is' = map issue_key (g_issues db) \<Longrightarrow> same_graph db (db\<lparr>g_issues := is'\<rparr>)"
  by (simp add: same_graph_def list_all2_refl plan_kept_def)

lemma touch_key [simp]: "issue_key (touch_status now k r) = issue_key r"
  by (simp add: issue_key_def touch_status_def)

lemma update_issues_same:
  assumes "update_issues P f db = Some (rows, db')" and "\<And>r. issue_key (f r) = issue_key r"
  shows "same_graph db db'"
  using assms
  by (auto simp: update_issues_def Let_def map_key_update split: if_splits intro!: same_graph_issues)

lemma same_graph_frame:
  assumes "g_nodes db' = g_nodes db" "g_edges db' = g_edges db" "g_plans db' = g_plans db"
    "g_issues db' = g_issues db" "g_next db \<le> g_next db'"
  shows "same_graph db db'"
  using assms by (simp add: same_graph_def list_all2_refl plan_kept_def)

lemma sync_frame [simp]:
  "g_nodes (sync_gates db) = g_nodes db" "g_edges (sync_gates db) = g_edges db"
  "g_plans (sync_gates db) = g_plans db" "g_issues (sync_gates db) = g_issues db"
  "g_next (sync_gates db) = g_next db" "g_teams (sync_gates db) = g_teams db"
  "g_workspaces (sync_gates db) = g_workspaces db"
  by (simp_all add: sync_gates_def)

lemma queue_step_frame [simp]:
  "g_nodes (queue_step e db) = g_nodes db" "g_edges (queue_step e db) = g_edges db"
  "g_plans (queue_step e db) = g_plans db" "g_issues (queue_step e db) = g_issues db"
  "g_next (queue_step e db) = g_next db" "g_teams (queue_step e db) = g_teams db"
  "g_workspaces (queue_step e db) = g_workspaces db"
  by (simp_all add: queue_step_def set_queue_def)

lemma insert_task_frame [simp]:
  "g_nodes (insert_task env cp db) = g_nodes db" "g_edges (insert_task env cp db) = g_edges db"
  "g_plans (insert_task env cp db) = g_plans db" "g_issues (insert_task env cp db) = g_issues db"
  "g_teams (insert_task env cp db) = g_teams db" "g_workspaces (insert_task env cp db) = g_workspaces db"
  "g_next db \<le> g_next (insert_task env cp db)"
  by (auto simp: insert_task_def NewV7_def split: option.split)

lemma enqueue_admitted_cases:
  obtains "enqueueAdmittedDependencyGraphIssue env issue db = db"
  | cp where "enqueueAdmittedDependencyGraphIssue env issue db = insert_task env cp db"
proof -
  have "enqueueAdmittedDependencyGraphIssue env issue db = db
      \<or> (\<exists>cp. enqueueAdmittedDependencyGraphIssue env issue db = insert_task env cp db)"
    unfolding enqueueAdmittedDependencyGraphIssue_def EnqueueTaskForIssue_def EnqueueTaskForTeamLeader_def
    by (cases "is_executor_id issue"; cases "GetTeamInWorkspace db (the (is_executor_id issue)) (is_workspace issue)")
      auto
  with that show thesis by blast
qed

lemma enqueue_admitted_frame [simp]:
  "g_nodes (enqueueAdmittedDependencyGraphIssue env issue db) = g_nodes db"
  "g_edges (enqueueAdmittedDependencyGraphIssue env issue db) = g_edges db"
  "g_plans (enqueueAdmittedDependencyGraphIssue env issue db) = g_plans db"
  "g_issues (enqueueAdmittedDependencyGraphIssue env issue db) = g_issues db"
  "g_teams (enqueueAdmittedDependencyGraphIssue env issue db) = g_teams db"
  "g_workspaces (enqueueAdmittedDependencyGraphIssue env issue db) = g_workspaces db"
  "g_next db \<le> g_next (enqueueAdmittedDependencyGraphIssue env issue db)"
  by (cases env issue db rule: enqueue_admitted_cases; simp)+

lemma admit_same: "same_graph db (admit_and_enqueue env i db)"
proof (cases "GetIssue db i")
  case (Some issue)
  show ?thesis
  proof (cases "AdmitReadyDependencyGraphIssue (wk_now env) (is_id issue) (is_workspace issue) db")
    case (Some r)
    obtain rows db' where r: "r = (rows, db')" by fastforce
    have "same_graph db db'"
      using Some r unfolding AdmitReadyDependencyGraphIssue_def by (auto intro: update_issues_same)
    moreover have "same_graph db' (enqueueAdmittedDependencyGraphIssue env a db')" for a
      by (rule same_graph_frame) simp_all
    ultimately show ?thesis
      using \<open>GetIssue db i = Some issue\<close> Some r
      by (auto simp: admit_and_enqueue_def intro: same_graph_trans split: option.split list.split)
  qed (simp add: admit_and_enqueue_def \<open>GetIssue db i = Some issue\<close>)
qed (simp add: admit_and_enqueue_def)

lemma enqueue_ready_same: "same_graph db (enqueueReadyDependencyGraphIssueIDs env ids db)"
  unfolding enqueueReadyDependencyGraphIssueIDs_def
  by (induction ids arbitrary: db) (auto intro: same_graph_trans[OF admit_same])

lemma promote_same:
  "PromoteReadyDependencyGraphIssuesForPlan now ws p db = Some (rows, db') \<Longrightarrow> same_graph db db'"
  "PromoteReadyDependencyGraphDependents now ws i db = Some (rows, db') \<Longrightarrow> same_graph db db'"
  "PromoteReadyDependencyGraphIssuesForRuntime now rt db = Some (rows, db') \<Longrightarrow> same_graph db db'"
  unfolding PromoteReadyDependencyGraphIssuesForPlan_def PromoteReadyDependencyGraphDependents_def
    PromoteReadyDependencyGraphIssuesForRuntime_def by (auto intro: update_issues_same)

lemma wake_same:
  "same_graph db (WakeDependencyGraphReadyTasks env ws p db)"
  "same_graph db (WakeDependencyGraphDependents env ws i db)"
  "same_graph db (reconcileDependencyTasksForRuntime env rt db)"
  unfolding WakeDependencyGraphReadyTasks_def WakeDependencyGraphDependents_def reconcileDependencyTasksForRuntime_def
  by (auto split: option.split intro: same_graph_trans[OF _ enqueue_ready_same] promote_same)

lemma plans_update_kept:
  "(\<And>p. P p \<Longrightarrow> plan_kept p (f p)) \<Longrightarrow> list_all2 plan_kept ps (update_where P f ps)"
  by (induction ps) (auto simp: update_where_def plan_kept_def)

lemma attention_same: "same_graph db (FlagDependencyGraphAttention now ws i why db)"
  by (auto simp: FlagDependencyGraphAttention_def MarkDependencyGraphAttentionForPrerequisite_def Let_def
      same_graph_def plan_kept_def plan_key_def intro!: plans_update_kept)

lemma cancel_issues_same: "cancel_issues now ws is db = Inr db' \<Longrightarrow> same_graph db db'"
proof (induction now ws "is" db rule: cancel_issues.induct)
  case (2 now ws i "is" db)
  then obtain r rows db1 where 1: "UpdateIssueStatus now i StatusCancelled ws db = Some (r # rows, db1)"
    "cancel_issues now ws is db1 = Inr db'" by (auto split: option.splits list.splits prod.splits)
  then have "same_graph db db1"
    unfolding UpdateIssueStatus_def by (auto simp: issue_key_def touch_status_def intro: update_issues_same)
  with 1 2 show ?case by (auto intro: same_graph_trans)
qed simp

lemma cancel_tasks_same: "same_graph db (fold (\<lambda>i. queue_step (QUpdate now (SCancelIssue i))) is db)"
proof (induction "is" arbitrary: db)
  case (Cons i "is")
  have "same_graph db (queue_step (QUpdate now (SCancelIssue i)) db)" by (rule same_graph_frame) simp_all
  with Cons show ?case by (auto intro: same_graph_trans)
qed simp

lemma retire_same: "RetireDependencyGraph now p ws db = Inr db' \<Longrightarrow> same_graph db db'"
proof -
  assume "RetireDependencyGraph now p ws db = Inr db'"
  then obtain db1 where c: "cancelDependencyGraphChildren now ws (ListDependencyGraphNodesByPlan p ws db) db = Inr db1"
    and db': "db' = UpdateDependencyGraphPlanStatus now p ws PlanCancelled db1"
    by (auto simp: RetireDependencyGraph_def split: option.splits if_splits sum.splits)
  have "same_graph db db1"
    using c unfolding cancelDependencyGraphChildren_def Let_def
    by (blast intro: same_graph_trans cancel_tasks_same cancel_issues_same)
  moreover have "same_graph db1 db'"
    unfolding db' by (auto simp: UpdateDependencyGraphPlanStatus_def same_graph_def plan_kept_def plan_key_def
      intro!: plans_update_kept)
  ultimately show ?thesis by (rule same_graph_trans)
qed

end
