(* ===== verification/GraphReach.thy ===== *)
theory GraphReach
  imports GraphInv
begin

text \<open>
  The transactions that change the graph: what an apply stores, that applying, deleting an issue and
  creating one keep \<open>graph_wf\<close>, and so that every reachable database satisfies it.
\<close>

section \<open>What an apply stores\<close>

text \<open>\<open>stored_plan\<close>: the plan \<open>p\<close> with its issues \<open>rs\<close>, nodes \<open>ns\<close> and edges \<open>fs\<close>, added to \<open>db\<close>.\<close>

definition node_named :: "node_row list \<Rightarrow> string \<Rightarrow> uuid \<Rightarrow> bool" where
  "node_named ns name i \<longleftrightarrow> (\<exists>n \<in> set ns. nd_temp_id n = name \<and> nd_issue n = i)"

definition stored_plan ::
  "apply_input \<Rightarrow> string list list \<Rightarrow> plan_row \<Rightarrow> graph_issue list \<Rightarrow> node_row list \<Rightarrow> edge_row list
     \<Rightarrow> graphdb \<Rightarrow> graphdb \<Rightarrow> bool" where
  "stored_plan raw waves p rs ns fs db db' \<longleftrightarrow>
     g_plans db' = g_plans db @ [p] \<and> g_issues db' = g_issues db @ rs \<and> g_nodes db' = g_nodes db @ ns
     \<and> g_edges db' = g_edges db @ fs \<and> g_queue db' = g_queue db
     \<and> pl_id p = g_next db \<and> pl_status p = PlanActive \<and> g_next db < g_next db'
     \<and> GetActiveDependencyGraphPlanForParent db (pl_workspace p) (pl_parent p) = None
     \<and> map nd_temp_id ns = map tk_temp_id (in_tasks raw) \<and> map is_id rs = map nd_issue ns
     \<and> distinct (map nd_id ns) \<and> distinct (map nd_issue ns) \<and> distinct (map ed_id fs)
     \<and> (\<forall>i \<in> set rs. is_workspace i = pl_workspace p)
     \<and> (\<forall>n \<in> set ns. nd_plan n = pl_id p \<and> nd_workspace n = pl_workspace p
          \<and> nd_wave n = int (wave_of waves (nd_temp_id n))
          \<and> g_next db < nd_id n \<and> nd_id n < g_next db' \<and> g_next db < nd_issue n \<and> nd_issue n < g_next db')
     \<and> list_all2 (\<lambda>e f. node_named ns (eg_from e) (ed_from f) \<and> node_named ns (eg_to e) (ed_to f)
          \<and> ed_plan f = pl_id p \<and> ed_workspace f = pl_workspace p \<and> ed_type f = dependencyGraphHardType
          \<and> g_next db < ed_id f \<and> ed_id f < g_next db') (in_edges raw) fs"

lemma list_all2_in_snd: "list_all2 P xs ys \<Longrightarrow> y \<in> set ys \<Longrightarrow> \<exists>x \<in> set xs. P x y"
  by (induction rule: list_all2_induct) auto

lemma map_of_named:
  "map_of (rev (map (\<lambda>n. (nd_temp_id n, nd_issue n)) ns)) name = Some i \<Longrightarrow> node_named ns name i"
  by (auto simp: node_named_def dest!: map_of_SomeD)

lemma list_all2_map_fst:
  assumes "list_all2 (\<lambda>item (i, n). task_rows env input waves item i n) items (zip rs ns)"
    and "length rs = length items" and "length ns = length items"
  shows "map nd_temp_id ns = map (tk_temp_id \<circ> fst) items"
    and "\<forall>i \<in> set rs. is_workspace i = ap_workspace env"
    and "\<forall>n \<in> set ns. nd_plan n = ap_plan env \<and> nd_workspace n = ap_workspace env
           \<and> nd_wave n = int (wave_of waves (nd_temp_id n))"
proof -
  have r: "task_rows env input waves (items ! k) (rs ! k) (ns ! k)" if "k < length items" for k
    using assms that by (auto simp: list_all2_conv_all_nth)
  show "map nd_temp_id ns = map (tk_temp_id \<circ> fst) items"
  proof (rule nth_equalityI)
    fix k assume "k < length (map nd_temp_id ns)"
    with assms(3) r[of k] show "map nd_temp_id ns ! k = map (tk_temp_id \<circ> fst) items ! k"
      by (simp add: task_rowsD(5))
  qed (use assms(3) in simp)
  show "\<forall>i \<in> set rs. is_workspace i = ap_workspace env"
    using r assms(2) task_rowsD(1) by (metis in_set_conv_nth)
  show "\<forall>n \<in> set ns. nd_plan n = ap_plan env \<and> nd_workspace n = ap_workspace env
           \<and> nd_wave n = int (wave_of waves (nd_temp_id n))"
    using r assms(3) task_rowsD(3,4,6) by (metis in_set_conv_nth)
qed

lemma apply_stores:
  assumes v: "validateDependencyGraphPlan co raw = Inr (waves, input)"
    and len: "length assignments = length (in_tasks input)"
    and t: "applyDependencyGraphTransaction co now input waves assignments parent ws limit key hash db = Inr (p, db')"
  obtains rs ns fs where "stored_plan raw waves p rs ns fs db db'"
proof -
  let ?items = "zip (in_tasks input) assignments"
  obtain locked where l: "GetIssueInWorkspace db parent ws = Some locked"
    "GetActiveDependencyGraphPlanForParent db ws (is_id locked) = None"
    using t by (auto simp: applyDependencyGraphTransaction_def Let_def split: option.splits)
  let ?p = "\<lparr>pl_id = g_next db, pl_workspace = ws, pl_parent = is_id locked, pl_key = key, pl_hash = hash,
             pl_goal = in_goal input, pl_status = PlanActive, pl_updated_at = now, pl_attention = False, pl_reason = None\<rparr>"
  let ?env = "\<lparr>ap_now = now, ap_workspace = ws, ap_parent = is_id locked, ap_plan = g_next db,
               ap_limit = limit, ap_default = default_execution_agent db ws\<rparr>"
  let ?db2 = "db\<lparr>g_next := Suc (g_next db), g_plans := g_plans db @ [?p]\<rparr>"
  obtain bt db3 where c: "create_nodes ?env input waves ?items [] ?db2 = Inr (bt, db3)"
    and e: "create_edges ?env bt (in_edges input) db3 = Inr db'" and p: "p = ?p"
    using t l
    by (auto simp: applyDependencyGraphTransaction_def Let_def NewV7_def CreateDependencyGraphPlan_def
        split: option.splits if_splits sum.splits)
  from create_nodes_Inr[OF c] obtain rs ns where n:
    "list_all2 (\<lambda>item (i, n). task_rows ?env input waves item i n) ?items (zip rs ns)"
    "length rs = length ?items" "length ns = length ?items"
    "g_issues db3 = g_issues ?db2 @ rs" "g_nodes db3 = g_nodes ?db2 @ ns"
    "g_edges db3 = g_edges ?db2" "g_plans db3 = g_plans ?db2" "g_queue db3 = g_queue ?db2"
    "g_next ?db2 \<le> g_next db3"
    "map is_id rs = map nd_issue ns" "distinct (map nd_id ns)" "distinct (map nd_issue ns)"
    "\<forall>n \<in> set ns. g_next ?db2 \<le> nd_id n \<and> nd_id n < g_next db3 \<and> g_next ?db2 \<le> nd_issue n \<and> nd_issue n < g_next db3"
    "bt = rev (map (\<lambda>n. (nd_temp_id n, nd_issue n)) ns) @ []" .
  note rows = list_all2_map_fst[OF n(1,2,3)]
  from create_edges_Inr[OF e] obtain fs where f:
    "g_edges db' = g_edges db3 @ fs" "length fs = length (in_edges input)"
    "g_issues db' = g_issues db3" "g_nodes db' = g_nodes db3" "g_plans db' = g_plans db3" "g_queue db' = g_queue db3"
    "g_next db3 \<le> g_next db'"
    "list_all2 (\<lambda>e f. map_of bt (eg_from e) = Some (ed_from f) \<and> map_of bt (eg_to e) = Some (ed_to f)
       \<and> ed_plan f = ap_plan ?env \<and> ed_workspace f = ap_workspace ?env \<and> ed_type f = dependencyGraphHardType)
       (in_edges input) fs"
    "distinct (map ed_id fs)" "\<forall>f \<in> set fs. g_next db3 \<le> ed_id f \<and> ed_id f < g_next db'" .
  have temps: "map nd_temp_id ns = map tk_temp_id (in_tasks raw)"
    using rows(1) len validate_canon(2)[OF v] by (simp flip: map_map)
  have edges: "list_all2 (\<lambda>e f. node_named ns (eg_from e) (ed_from f) \<and> node_named ns (eg_to e) (ed_to f)
          \<and> ed_plan f = g_next db \<and> ed_workspace f = ws \<and> ed_type f = dependencyGraphHardType
          \<and> g_next db < ed_id f \<and> ed_id f < g_next db') (in_edges raw) fs"
    unfolding validate_canon(1)[OF v, symmetric] list_all2_conv_all_nth
  proof (intro conjI allI impI)
    fix k assume k: "k < length (in_edges input)"
    then have "fs ! k \<in> set fs" using f(2) by simp
    with f(10) n(9) show "g_next db < ed_id (fs ! k)" "ed_id (fs ! k) < g_next db'" by fastforce+
  qed (use f(2,8) map_of_named n(14) in \<open>auto simp: list_all2_conv_all_nth\<close>)
  have nodes: "\<forall>n \<in> set ns. nd_plan n = g_next db \<and> nd_workspace n = ws
          \<and> nd_wave n = int (wave_of waves (nd_temp_id n))
          \<and> g_next db < nd_id n \<and> nd_id n < g_next db' \<and> g_next db < nd_issue n \<and> nd_issue n < g_next db'"
    using rows(3) n(13) f(7) by fastforce
  show thesis
    by (rule that[of rs ns fs])
      (use l n f p temps edges nodes rows(2) in \<open>simp add: stored_plan_def\<close>)
qed

section \<open>An apply keeps the invariant\<close>

lemma stored_waves:
  assumes v: "validateDependencyGraphPlan co raw = Inr (waves, input)" and s: "stored_plan raw waves p rs ns fs db db'"
  shows "n \<in> set ns \<Longrightarrow> nat (nd_wave n) < length waves \<and> nd_temp_id n \<in> set (waves ! nat (nd_wave n))"
    and "length waves \<le> length ns" and "ns \<noteq> []" and "distinct (map nd_temp_id ns)"
    and "f \<in> set fs \<Longrightarrow> \<exists>m \<in> set ns. \<exists>n \<in> set ns. nd_issue m = ed_from f \<and> nd_issue n = ed_to f \<and> nd_wave m < nd_wave n"
proof -
  have w: "distinct (concat waves)" "set (concat waves) = set (map tk_temp_id (in_tasks raw))"
    "length (concat waves) = length (in_tasks raw)" "[] \<notin> set waves"
    "\<forall>e \<in> set (in_edges raw). \<exists>j < length waves. eg_to e \<in> set (waves ! j) \<and> (\<exists>i < j. eg_from e \<in> set (waves ! i))"
    using accepted_waves[OF v] by blast+
  have temps: "map nd_temp_id ns = map tk_temp_id (in_tasks raw)" using s by (simp add: stored_plan_def)
  have nw: "nd_wave n = int (wave_of waves (nd_temp_id n))" if "n \<in> set ns" for n
    using s that by (simp add: stored_plan_def)
  show "nat (nd_wave n) < length waves \<and> nd_temp_id n \<in> set (waves ! nat (nd_wave n))" if n: "n \<in> set ns" for n
  proof -
    have "nd_temp_id n \<in> set (concat waves)" unfolding w(2) temps[symmetric] using n by simp
    then obtain k where k: "k < length waves" "nd_temp_id n \<in> set (waves ! k)"
      by (auto simp: in_set_conv_nth) (metis nth_mem)
    with wave_of_index[OF w(1) k] nw[OF n] show ?thesis by simp
  qed
  have "length ns = length (in_tasks raw)" using temps by (metis length_map)
  with waves_count[OF w(4)] w(3) show "length waves \<le> length ns" by simp
  show "ns \<noteq> []" using validate_canon(2,3)[OF v] temps by auto
  show "distinct (map nd_temp_id ns)" using validate_canon(4)[OF v] temps by simp
  show "\<exists>m \<in> set ns. \<exists>n \<in> set ns. nd_issue m = ed_from f \<and> nd_issue n = ed_to f \<and> nd_wave m < nd_wave n"
    if f: "f \<in> set fs"
  proof -
    obtain e where e: "e \<in> set (in_edges raw)" "node_named ns (eg_from e) (ed_from f)" "node_named ns (eg_to e) (ed_to f)"
      using list_all2_in_snd[OF _ f] s unfolding stored_plan_def by blast
    then obtain m n where mn: "m \<in> set ns" "nd_temp_id m = eg_from e" "nd_issue m = ed_from f"
      "n \<in> set ns" "nd_temp_id n = eg_to e" "nd_issue n = ed_to f" by (auto simp: node_named_def)
    from w(5) e(1) obtain i j where ij: "j < length waves" "eg_to e \<in> set (waves ! j)" "i < j" "eg_from e \<in> set (waves ! i)"
      by blast
    have "nd_wave n = int j" "nd_wave m = int i"
      using wave_of_index[OF w(1)] ij nw mn by (metis order_less_trans)+
    with ij(3) mn show ?thesis by (intro bexI[of _ m] bexI[of _ n]) auto
  qed
qed

lemma fresh_plan:
  assumes "graph_wf db"
  shows "plan_nodes db (g_next db) = []" and "g_next db \<notin> pl_id ` set (g_plans db)"
  using assms by (auto simp: plan_nodes_def graph_wf_def ids_fresh_def filter_empty_conv)

lemma wf_ids:
  assumes "graph_wf db"
  shows "i \<in> set (g_issues db) \<Longrightarrow> is_id i < g_next db" "p \<in> set (g_plans db) \<Longrightarrow> pl_id p < g_next db"
    "n \<in> set (g_nodes db) \<Longrightarrow> nd_id n < g_next db \<and> nd_issue n < g_next db \<and> nd_plan n < g_next db"
    "e \<in> set (g_edges db) \<Longrightarrow> ed_id e < g_next db \<and> ed_plan e < g_next db"
  using assms by (auto simp: graph_wf_def ids_fresh_def)

lemma stored_nodes:
  assumes "graph_wf db" and "stored_plan raw waves p rs ns fs db db'"
  shows "plan_nodes db' (pl_id p) = ns" and "q \<noteq> pl_id p \<Longrightarrow> plan_nodes db' q = plan_nodes db q"
    and "plan_edge_rows db' (pl_id p) = fs" and "q \<noteq> pl_id p \<Longrightarrow> plan_edge_rows db' q = plan_edge_rows db q"
proof -
  note s = assms(2)[unfolded stored_plan_def]
  have id: "pl_id p = g_next db" using s by blast
  have nn: "g_nodes db' = g_nodes db @ ns" "\<forall>n \<in> set ns. nd_plan n = pl_id p" using s by blast+
  have ee: "g_edges db' = g_edges db @ fs" using s by blast
  have fe: "ed_plan f = pl_id p" if "f \<in> set fs" for f
    using list_all2_in_snd[OF _ that] s by blast
  have "filter (\<lambda>n. nd_plan n = pl_id p) (g_nodes db) = []" "filter (\<lambda>e. ed_plan e = pl_id p) (g_edges db) = []"
    using wf_ids(3,4)[OF assms(1)] unfolding id by (fastforce simp: filter_empty_conv)+
  moreover have "filter (\<lambda>n. nd_plan n = pl_id p) ns = ns" "filter (\<lambda>e. ed_plan e = pl_id p) fs = fs"
    using nn(2) fe by (simp_all add: filter_id_conv)
  ultimately show "plan_nodes db' (pl_id p) = ns" "plan_edge_rows db' (pl_id p) = fs"
    using nn(1) ee by (simp_all add: plan_nodes_def plan_edge_rows_def)
  assume q: "q \<noteq> pl_id p"
  then have "filter (\<lambda>n. nd_plan n = q) ns = []" "filter (\<lambda>e. ed_plan e = q) fs = []"
    using nn(2) fe by (auto simp: filter_empty_conv)
  with nn(1) ee show "plan_nodes db' q = plan_nodes db q" "plan_edge_rows db' q = plan_edge_rows db q"
    by (simp_all add: plan_nodes_def plan_edge_rows_def)
qed

lemma wf_stored:
  assumes wf: "graph_wf db" and v: "validateDependencyGraphPlan co raw = Inr (waves, input)"
    and st: "stored_plan raw waves p rs ns fs db db'"
  shows "graph_wf db'"
proof -
  note s = st[unfolded stored_plan_def]
  note sn = stored_nodes[OF wf st] and sw = stored_waves[OF v st]
  have tables: "g_plans db' = g_plans db @ [p]" "g_issues db' = g_issues db @ rs" "g_nodes db' = g_nodes db @ ns"
    "g_edges db' = g_edges db @ fs" "pl_id p = g_next db" "g_next db < g_next db'"
    "map is_id rs = map nd_issue ns" using s by blast+
  have nb: "nd_plan n = pl_id p \<and> nd_workspace n = pl_workspace p \<and> g_next db < nd_id n \<and> nd_id n < g_next db'
      \<and> g_next db < nd_issue n \<and> nd_issue n < g_next db' \<and> nd_wave n = int (wave_of waves (nd_temp_id n))"
    if "n \<in> set ns" for n using s that by blast
  have eb: "ed_plan f = pl_id p \<and> ed_workspace f = pl_workspace p \<and> ed_type f = dependencyGraphHardType
      \<and> g_next db < ed_id f \<and> ed_id f < g_next db'" if "f \<in> set fs" for f
    using list_all2_in_snd[OF _ that] s by blast
  have rid: "is_id ` set rs = nd_issue ` set ns" using arg_cong[OF tables(7), of set] by simp
  have rb: "g_next db < is_id i \<and> is_id i < g_next db'" if "i \<in> set rs" for i
  proof -
    have "is_id i \<in> nd_issue ` set ns" using that rid by blast
    then show ?thesis using nb by auto
  qed
  have "ids_fresh db'"
  proof -
    have "i \<in> set (g_issues db) \<Longrightarrow> is_id i < g_next db'" "q \<in> set (g_plans db) \<Longrightarrow> pl_id q < g_next db'"
      "n \<in> set (g_nodes db) \<Longrightarrow> nd_id n < g_next db' \<and> nd_issue n < g_next db' \<and> nd_plan n < g_next db'"
      "e \<in> set (g_edges db) \<Longrightarrow> ed_id e < g_next db' \<and> ed_plan e < g_next db'" for i q n e
      using wf_ids[OF wf] tables(6) by (meson order_less_trans)+
    with nb eb rb tables(5,6) show ?thesis unfolding ids_fresh_def tables(1-4) by auto
  qed
  moreover have "ids_distinct db'"
  proof -
    have d: "ids_distinct db" using wf by (simp add: graph_wf_def)
    have "is_id ` set (g_issues db) \<inter> is_id ` set rs = {}" using wf_ids(1)[OF wf] rb by (force dest: order_less_asym)
    moreover have "nd_id ` set (g_nodes db) \<inter> nd_id ` set ns = {}" "nd_issue ` set (g_nodes db) \<inter> nd_issue ` set ns = {}"
      using wf_ids(3)[OF wf] nb by (force dest: order_less_asym)+
    moreover have "ed_id ` set (g_edges db) \<inter> ed_id ` set fs = {}" using wf_ids(4)[OF wf] eb by (force dest: order_less_asym)
    moreover have "distinct (map is_id rs)" "distinct (map nd_id ns)" "distinct (map nd_issue ns)" "distinct (map ed_id fs)"
      using s by auto
    moreover have "pl_id p \<notin> pl_id ` set (g_plans db)" using fresh_plan(2)[OF wf] tables(5) by simp
    ultimately show ?thesis using d unfolding ids_distinct_def tables(1-4) by auto
  qed
  moreover have "plans_ok db'"
  proof -
    have ok: "plans_ok db" using wf by (simp add: graph_wf_def)
    have old: "plan_nodes db' (pl_id q) = plan_nodes db (pl_id q)" if "q \<in> set (g_plans db)" for q
      using sn(2) that fresh_plan(2)[OF wf] tables(5) by (metis imageI)
    have none: "\<not> (pl_workspace q = pl_workspace p \<and> pl_parent q = pl_parent p \<and> pl_status q = PlanActive)"
      if "q \<in> set (g_plans db)" for q
      using s that by (auto simp: GetActiveDependencyGraphPlanForParent_def find_None_iff)
    from ok old none sw(3,4) sn(1) show ?thesis unfolding plans_ok_def tables(1) by auto
  qed
  moreover have "node_ok db' n" if "n \<in> set (g_nodes db')" for n
  proof (cases "n \<in> set ns")
    case True
    note b = nb[OF True]
    have "nd_issue n \<in> is_id ` set rs" using rid True by blast
    then obtain i where "i \<in> set rs" "is_id i = nd_issue n" by auto
    moreover have "is_workspace i = pl_workspace p" if "i \<in> set rs" for i using s that by blast
    moreover have "nat (nd_wave n) < length ns" using sw(1)[OF True] sw(2) by linarith
    ultimately show ?thesis using b sn(1) unfolding node_ok_def tables(1,2) by auto
  next
    case False
    with that tables(3) have n: "n \<in> set (g_nodes db)" by auto
    then have "node_ok db n" using wf by (simp add: graph_wf_def)
    moreover have "nd_plan n \<noteq> pl_id p" using wf_ids(3)[OF wf n] tables(5) by simp
    ultimately show ?thesis using sn(2) unfolding node_ok_def tables(1,2) by auto
  qed
  moreover have "edge_ok db' f" if "f \<in> set (g_edges db')" for f
  proof (cases "f \<in> set fs")
    case True
    with sw(5)[OF True] eb[OF True] nb sn(1) show ?thesis unfolding edge_ok_def by metis
  next
    case False
    with that tables(4) have f: "f \<in> set (g_edges db)" by auto
    then have "edge_ok db f" using wf by (simp add: graph_wf_def)
    moreover have "ed_plan f \<noteq> pl_id p" using wf_ids(4)[OF wf f] tables(5) by simp
    ultimately show ?thesis using sn(2) unfolding edge_ok_def by simp
  qed
  ultimately show ?thesis by (simp add: graph_wf_def)
qed

section \<open>Deleting and creating issues\<close>

lemma delete_rows:
  fixes db i ws
  assumes "GetIssueInWorkspace db i ws \<noteq> None"
  obtains A where "set A = {pl_id p | p. p \<in> set (g_plans db) \<and> pl_workspace p = ws \<and> pl_parent p = i}
      \<union> {nd_plan n | n. n \<in> set (g_nodes db) \<and> nd_workspace n = ws \<and> nd_issue n = i}
      \<union> {ed_plan e | e. e \<in> set (g_edges db) \<and> ed_workspace e = ws \<and> (ed_from e = i \<or> ed_to e = i)}"
    "g_plans (DeleteIssue i ws db) = filter (\<lambda>p. \<not> (pl_workspace p = ws \<and> pl_id p \<in> set A)) (g_plans db)"
    "g_nodes (DeleteIssue i ws db) = filter (\<lambda>n. \<not> (nd_workspace n = ws \<and> nd_plan n \<in> set A)) (g_nodes db)"
    "g_edges (DeleteIssue i ws db) = filter (\<lambda>e. \<not> (ed_workspace e = ws \<and> ed_plan e \<in> set A)) (g_edges db)"
    "map issue_key (g_issues (DeleteIssue i ws db)) = filter (\<lambda>k. k \<noteq> (i, ws)) (map issue_key (g_issues db))"
    "g_next (DeleteIssue i ws db) = g_next db"
proof -
  let ?A = "map pl_id (filter (\<lambda>p. pl_workspace p = ws \<and> pl_parent p = i) (g_plans db))
              @ map nd_plan (filter (\<lambda>n. nd_workspace n = ws \<and> nd_issue n = i) (g_nodes db))
              @ map ed_plan (filter (\<lambda>e. ed_workspace e = ws \<and> (ed_from e = i \<or> ed_to e = i)) (g_edges db))"
  have "map issue_key (update_where (\<lambda>r. is_parent r = Some i) (\<lambda>r. r\<lparr>is_parent := None\<rparr>) rs) = map issue_key rs" for rs
    by (rule map_key_update) (simp add: issue_key_def)
  moreover have "map issue_key (filter (\<lambda>r. \<not> (is_id r = i \<and> is_workspace r = ws)) rs)
      = filter (\<lambda>k. k \<noteq> (i, ws)) (map issue_key rs)" for rs
    by (induction rs) (auto simp: issue_key_def)
  ultimately show thesis
    by (intro that[of ?A]) (use assms in \<open>auto simp: DeleteIssue_def Let_def\<close>)
qed

lemma edge_node:
  "edge_ok db e \<Longrightarrow> \<exists>m \<in> set (g_nodes db). nd_plan m = ed_plan e \<and> nd_workspace m = ed_workspace e"
  unfolding edge_ok_def Bex_def in_plan_nodes by blast

text \<open>A workspace's affected plans lose all their nodes and edges; the others keep theirs.\<close>

lemma delete_plan_rows:
  assumes wf: "graph_wf db" and q: "q \<in> set (g_plans (DeleteIssue i ws db))"
  shows "plan_nodes (DeleteIssue i ws db) (pl_id q) = plan_nodes db (pl_id q)"
    "plan_edge_rows (DeleteIssue i ws db) (pl_id q) = plan_edge_rows db (pl_id q)"
    "q \<in> set (g_plans db)"
proof -
  have "plan_nodes (DeleteIssue i ws db) (pl_id q) = plan_nodes db (pl_id q)
    \<and> plan_edge_rows (DeleteIssue i ws db) (pl_id q) = plan_edge_rows db (pl_id q) \<and> q \<in> set (g_plans db)"
  proof (cases "GetIssueInWorkspace db i ws = None")
    case True
    with q show ?thesis by (simp add: DeleteIssue_def)
  next
    case False
    obtain A where "set A = {pl_id p | p. p \<in> set (g_plans db) \<and> pl_workspace p = ws \<and> pl_parent p = i}
        \<union> {nd_plan n | n. n \<in> set (g_nodes db) \<and> nd_workspace n = ws \<and> nd_issue n = i}
        \<union> {ed_plan e | e. e \<in> set (g_edges db) \<and> ed_workspace e = ws \<and> (ed_from e = i \<or> ed_to e = i)}"
      and A: "g_plans (DeleteIssue i ws db) = filter (\<lambda>p. \<not> (pl_workspace p = ws \<and> pl_id p \<in> set A)) (g_plans db)"
      "g_nodes (DeleteIssue i ws db) = filter (\<lambda>n. \<not> (nd_workspace n = ws \<and> nd_plan n \<in> set A)) (g_nodes db)"
      "g_edges (DeleteIssue i ws db) = filter (\<lambda>e. \<not> (ed_workspace e = ws \<and> ed_plan e \<in> set A)) (g_edges db)"
      "map issue_key (g_issues (DeleteIssue i ws db)) = filter (\<lambda>k. k \<noteq> (i, ws)) (map issue_key (g_issues db))"
      "g_next (DeleteIssue i ws db) = g_next db"
      by (rule delete_rows[OF False])
    have qin: "q \<in> set (g_plans db)" and keep: "\<not> (pl_workspace q = ws \<and> pl_id q \<in> set A)" using q A(1) by auto
    have n: "nd_workspace n = pl_workspace q" if n: "n \<in> set (g_nodes db)" and "nd_plan n = pl_id q" for n
    proof -
      obtain p where "p \<in> set (g_plans db)" "pl_id p = nd_plan n" "pl_workspace p = nd_workspace n"
        using wf n by (auto simp: graph_wf_def node_ok_def)
      moreover have "distinct (map pl_id (g_plans db))" using wf by (simp add: graph_wf_def ids_distinct_def)
      ultimately show ?thesis using that(2) qin by (metis distinct_key_eq)
    qed
    moreover have "ed_workspace e = pl_workspace q" if e: "e \<in> set (g_edges db)" "ed_plan e = pl_id q" for e
    proof -
      obtain m where "m \<in> set (g_nodes db)" "nd_plan m = ed_plan e" "nd_workspace m = ed_workspace e"
        using edge_node wf e(1) unfolding graph_wf_def by blast
      with n e(2) show ?thesis by metis
    qed
    ultimately show ?thesis
      using qin keep unfolding plan_nodes_def plan_edge_rows_def A(2,3) filter_filter
      by (auto intro!: filter_cong)
  qed
  then show "plan_nodes (DeleteIssue i ws db) (pl_id q) = plan_nodes db (pl_id q)"
    "plan_edge_rows (DeleteIssue i ws db) (pl_id q) = plan_edge_rows db (pl_id q)"
    "q \<in> set (g_plans db)" by blast+
qed

lemma issue_by_key: "(i, ws) \<in> set (map issue_key is) \<longleftrightarrow> (\<exists>r \<in> set is. is_id r = i \<and> is_workspace r = ws)"
  by (force simp: issue_key_def)

lemma wf_delete:
  assumes wf: "graph_wf db"
  shows "graph_wf (DeleteIssue i ws db)"
proof (cases "GetIssueInWorkspace db i ws = None")
  case True
  with wf show ?thesis by (simp add: DeleteIssue_def)
next
  case False
  let ?db = "DeleteIssue i ws db"
  obtain A where A:
    "set A = {pl_id p | p. p \<in> set (g_plans db) \<and> pl_workspace p = ws \<and> pl_parent p = i}
      \<union> {nd_plan n | n. n \<in> set (g_nodes db) \<and> nd_workspace n = ws \<and> nd_issue n = i}
      \<union> {ed_plan e | e. e \<in> set (g_edges db) \<and> ed_workspace e = ws \<and> (ed_from e = i \<or> ed_to e = i)}"
    "g_plans ?db = filter (\<lambda>p. \<not> (pl_workspace p = ws \<and> pl_id p \<in> set A)) (g_plans db)"
    "g_nodes ?db = filter (\<lambda>n. \<not> (nd_workspace n = ws \<and> nd_plan n \<in> set A)) (g_nodes db)"
    "g_edges ?db = filter (\<lambda>e. \<not> (ed_workspace e = ws \<and> ed_plan e \<in> set A)) (g_edges db)"
    "map issue_key (g_issues ?db) = filter (\<lambda>k. k \<noteq> (i, ws)) (map issue_key (g_issues db))"
    "g_next ?db = g_next db" by (rule delete_rows[OF False])
  have fst_key: "map is_id rs = map fst (map issue_key rs)" for rs by (simp add: issue_key_def)
  have d: "ids_distinct db" and f: "ids_fresh db" and ok: "plans_ok db" using wf by (auto simp: graph_wf_def)
  have "distinct (map is_id (g_issues ?db))"
    using d unfolding ids_distinct_def fst_key A(5) by (simp add: distinct_map_filter)
  then have "ids_distinct ?db" using d unfolding ids_distinct_def A(2-4) by (simp add: distinct_map_filter)
  moreover have "is_id ` set (g_issues ?db) \<subseteq> is_id ` set (g_issues db)"
  proof -
    have "set (map is_id (g_issues ?db)) \<subseteq> set (map is_id (g_issues db))" unfolding fst_key A(5) by auto
    then show ?thesis by simp
  qed
  then have "ids_fresh ?db" using f unfolding ids_fresh_def A(2,3,4,6) by auto
  moreover have "plans_ok ?db"
    using ok delete_plan_rows[OF wf] unfolding plans_ok_def by metis
  moreover have "node_ok ?db n" if n: "n \<in> set (g_nodes ?db)" for n
  proof -
    have nin: "n \<in> set (g_nodes db)" and keep: "\<not> (nd_workspace n = ws \<and> nd_plan n \<in> set A)" using n A(3) by auto
    then have nok: "node_ok db n" using wf by (simp add: graph_wf_def)
    then obtain p where p: "p \<in> set (g_plans db)" "pl_id p = nd_plan n" "pl_workspace p = nd_workspace n"
      by (auto simp: node_ok_def)
    with keep A(2) have pin: "p \<in> set (g_plans ?db)" by simp
    have "(nd_issue n, nd_workspace n) \<noteq> (i, ws)" using keep nin A(1) by auto
    moreover have "(nd_issue n, nd_workspace n) \<in> set (map issue_key (g_issues db))"
      using nok unfolding issue_by_key node_ok_def by blast
    ultimately have "(nd_issue n, nd_workspace n) \<in> set (map issue_key (g_issues ?db))" unfolding A(5) by auto
    with p pin nok delete_plan_rows(1)[OF wf pin] show ?thesis unfolding node_ok_def issue_by_key by auto
  qed
  moreover have "edge_ok ?db e" if e: "e \<in> set (g_edges ?db)" for e
  proof -
    have ein: "e \<in> set (g_edges db)" and keep: "\<not> (ed_workspace e = ws \<and> ed_plan e \<in> set A)" using e A(4) by auto
    then have eok: "edge_ok db e" using wf by (simp add: graph_wf_def)
    then obtain m where "m \<in> set (g_nodes db)" "nd_plan m = ed_plan e" "nd_workspace m = ed_workspace e"
      using edge_node by blast
    then obtain p where p: "p \<in> set (g_plans db)" "pl_id p = ed_plan e" "pl_workspace p = ed_workspace e"
      using wf by (metis graph_wf_def node_ok_def)
    with keep A(2) have "p \<in> set (g_plans ?db)" by simp
    from delete_plan_rows(1)[OF wf this] p eok show ?thesis unfolding edge_ok_def by simp
  qed
  ultimately show ?thesis by (simp add: graph_wf_def)
qed

lemma wf_new_issue:
  assumes wf: "graph_wf db"
  shows "graph_wf (db\<lparr>g_next := Suc (g_next db), g_issues := g_issues db @ [row\<lparr>is_id := g_next db\<rparr>]\<rparr>)"
    (is "graph_wf ?db")
proof -
  have nodes: "plan_nodes ?db = plan_nodes db" by (simp add: plan_nodes_def fun_eq_iff)
  have "ids_fresh ?db" using wf unfolding graph_wf_def ids_fresh_def by (auto intro: less_SucI)
  moreover have "ids_distinct ?db" using wf unfolding graph_wf_def ids_distinct_def ids_fresh_def by auto
  moreover have "plans_ok ?db" using wf unfolding graph_wf_def plans_ok_def nodes by simp
  moreover have "node_ok ?db n" if "n \<in> set (g_nodes db)" for n
    using wf that unfolding graph_wf_def node_ok_def nodes by auto
  moreover have "edge_ok ?db e" if "e \<in> set (g_edges db)" for e
    using wf that unfolding graph_wf_def edge_ok_def nodes by simp
  ultimately show ?thesis by (simp add: graph_wf_def)
qed

section \<open>Reachable databases\<close>

text \<open>Every transaction keeps the graph, stores a plan, deletes an issue or creates one.\<close>

lemma graph_step_kinds:
  assumes "graph_step co db db'"
  obtains (same) "same_graph db db'"
  | (stored) raw waves input p rs ns fs where "validateDependencyGraphPlan co raw = Inr (waves, input)"
      "stored_plan raw waves p rs ns fs db db'"
  | (deleted) i ws where "db' = DeleteIssue i ws db"
  | (created) row where "db' = db\<lparr>g_next := Suc (g_next db), g_issues := g_issues db @ [row\<lparr>is_id := g_next db\<rparr>]\<rparr>"
  using assms
proof cases
  case (apply_plan raw waves input assignments now parent ws limit key hash plan)
  from apply_stores[OF apply_plan(1,2,4)] obtain rs ns fs where "stored_plan raw waves plan rs ns fs db db'" .
  with apply_plan(1) show thesis by (rule stored)
next
  case (create_issue i db1 row)
  then have "db' = db\<lparr>g_next := Suc (g_next db), g_issues := g_issues db @ [row\<lparr>is_id := g_next db\<rparr>]\<rparr>"
    by (auto simp: NewV7_def CreateIssue_def split: if_splits)
  then show thesis by (rule created)
next
  case (edit_issue i ttl st pr et ei rv la now rows)
  have "same_graph db db'" by (rule update_issues_same[OF edit_issue(1)]) (simp add: issue_key_def)
  then show thesis by (rule same)
next
  case (queue e)
  have "same_graph db db'" unfolding queue by (rule same_graph_frame) simp_all
  then show thesis by (rule same)
next
  case (teams ts)
  have "same_graph db db'" unfolding teams by (rule same_graph_frame) simp_all
  then show thesis by (rule same)
next
  case (workspaces wss)
  have "same_graph db db'" unfolding workspaces by (rule same_graph_frame) simp_all
  then show thesis by (rule same)
next
  case (delete_issue i ws)
  then show thesis by (rule deleted)
qed (auto intro: same wake_same attention_same retire_same)

lemma wf_step: "graph_step co db db' \<Longrightarrow> graph_wf db \<Longrightarrow> graph_wf db'"
  by (erule graph_step_kinds) (auto intro: wf_same_graph wf_stored wf_delete wf_new_issue)

lemma wf_reachable: "reachable_graph co db \<Longrightarrow> graph_wf db"
  unfolding reachable_graph_def
  by (induction rule: rtranclp_induct) (auto intro: wf_empty wf_step)

end
