(* ===== verification/GraphRead.thy ===== *)
theory GraphRead
  imports GraphReach TaskQueueSafety "HOL-Library.Multiset"
begin

text \<open>
  Reading a stored graph: \<open>dependencyGraphPersistedWaves\<close> on well-formed rows, that a plan's rows stay
  as they were written for as long as the plan exists, and the properties C36 and C37.
\<close>

section \<open>The node loop\<close>

definition slot :: "'a list list \<Rightarrow> nat \<Rightarrow> 'a list" where
  "slot ws k = (if k < length ws then ws ! k else [])"

lemma slot_pad: "slot (ws @ replicate n []) k = slot ws k"
  by (auto simp: slot_def nth_append)

lemma slot_update: "k < length ws \<Longrightarrow> slot (ws[k := x]) j = (if j = k then x else slot ws j)"
  by (auto simp: slot_def)

lemma persisted_nodes_Inr:
  assumes "distinct (map nd_issue ns)" and "distinct (map nd_temp_id ns)"
    and "\<forall>n \<in> set ns. 0 \<le> nd_wave n \<and> nd_wave n < int cnt"
    and "nd_issue ` set ns \<inter> fst ` set by_issue = {}" and "nd_temp_id ` set ns \<inter> set seen = {}"
  obtains ws' where
    "persisted_nodes cnt ns by_issue seen ws = Inr (rev (map (\<lambda>n. (nd_issue n, nd_wave n)) ns) @ by_issue, ws')"
    "\<And>k. slot ws' k = slot ws k @ map nd_temp_id (filter (\<lambda>n. nd_wave n = int k) ns)"
    "\<And>m. length ws' \<le> m \<longleftrightarrow> length ws \<le> m \<and> (\<forall>n \<in> set ns. nat (nd_wave n) < m)"
proof -
  have "\<exists>ws'. persisted_nodes cnt ns by_issue seen ws = Inr (rev (map (\<lambda>n. (nd_issue n, nd_wave n)) ns) @ by_issue, ws')
    \<and> (\<forall>k. slot ws' k = slot ws k @ map nd_temp_id (filter (\<lambda>n. nd_wave n = int k) ns))
    \<and> (\<forall>m. length ws' \<le> m \<longleftrightarrow> length ws \<le> m \<and> (\<forall>n \<in> set ns. nat (nd_wave n) < m))"
    using assms
  proof (induction ns arbitrary: by_issue seen ws)
    case (Cons n ns)
    let ?k = "nat (nd_wave n)"
    let ?pad = "ws @ replicate (Suc ?k - length ws) []"
    let ?ws = "?pad[?k := ?pad ! ?k @ [nd_temp_id n]]"
    have w: "0 \<le> nd_wave n" "nd_wave n < int cnt" using Cons.prems(3) by auto
    have in_pad: "?k < length ?pad" by simp
    have slots: "slot ?ws j = slot ws j @ (if nd_wave n = int j then [nd_temp_id n] else [])" for j
    proof -
      have "?pad ! ?k = slot ws ?k" using slot_pad[of ws "Suc ?k - length ws" ?k] in_pad unfolding slot_def by metis
      with slot_update[OF in_pad] slot_pad w(1) show ?thesis by auto
    qed
    have "nd_issue ` set ns \<inter> fst ` set ((nd_issue n, nd_wave n) # by_issue) = {}"
      "nd_temp_id ` set ns \<inter> set (nd_temp_id n # seen) = {}" using Cons.prems by auto
    from Cons.IH[OF _ _ _ this, of ?ws] Cons.prems(1-3) obtain ws' where
      IH: "persisted_nodes cnt ns ((nd_issue n, nd_wave n) # by_issue) (nd_temp_id n # seen) ?ws
          = Inr (rev (map (\<lambda>n. (nd_issue n, nd_wave n)) ns) @ (nd_issue n, nd_wave n) # by_issue, ws')"
        "\<And>k. slot ws' k = slot ?ws k @ map nd_temp_id (filter (\<lambda>n. nd_wave n = int k) ns)"
        "\<And>m. length ws' \<le> m \<longleftrightarrow> length ?ws \<le> m \<and> (\<forall>n \<in> set ns. nat (nd_wave n) < m)" by auto
    have "persisted_nodes cnt (n # ns) by_issue seen ws
        = Inr (rev (map (\<lambda>n. (nd_issue n, nd_wave n)) (n # ns)) @ by_issue, ws')"
      using IH(1) w Cons.prems(4,5) by (simp add: Let_def)
    moreover have "slot ws' k = slot ws k @ map nd_temp_id (filter (\<lambda>m. nd_wave m = int k) (n # ns))" for k
      unfolding IH(2) slots by simp
    moreover have "length ws' \<le> m \<longleftrightarrow> length ws \<le> m \<and> (\<forall>n \<in> set (n # ns). nat (nd_wave n) < m)" for m
      unfolding IH(3) by auto
    ultimately show ?case by blast
  qed auto
  with that show thesis by blast
qed

lemma slots_equal:
  assumes "\<And>m. length xs \<le> m \<longleftrightarrow> length ys \<le> m" and "\<And>k. k < length ys \<Longrightarrow> f (slot xs k) = f (slot ys k)"
  shows "map f xs = map f ys"
proof -
  have "length xs = length ys" using assms(1) by (metis order_antisym order_refl)
  with assms(2) show ?thesis by (auto simp: list_eq_iff_nth_eq slot_def intro!: nth_equalityI)
qed

section \<open>Well-formed rows are read\<close>

lemma plan_workspace_rows:
  assumes "graph_wf db" and "p \<in> set (g_plans db)"
  shows "ListDependencyGraphNodesByPlan (pl_id p) (pl_workspace p) db
      = sort_key (\<lambda>n. (nd_wave n, nd_temp_id n, nd_id n)) (plan_nodes db (pl_id p))"
    and "ListDependencyGraphEdgesByPlan (pl_id p) (pl_workspace p) db
      = sort_key (\<lambda>e. (ed_from e, ed_to e, ed_id e)) (plan_edge_rows db (pl_id p))"
proof -
  have d: "distinct (map pl_id (g_plans db))" using assms(1) by (simp add: graph_wf_def ids_distinct_def)
  have n: "nd_workspace n = pl_workspace p" if nn: "n \<in> set (g_nodes db)" "nd_plan n = pl_id p" for n
  proof -
    obtain q where q: "q \<in> set (g_plans db)" "pl_id q = nd_plan n" "pl_workspace q = nd_workspace n"
      using assms(1) nn(1) unfolding graph_wf_def node_ok_def by blast
    have "q = p" by (rule distinct_key_eq[OF d q(1) assms(2)]) (simp add: q(2) nn(2))
    with q(3) show ?thesis by simp
  qed
  have e: "ed_workspace e = pl_workspace p" if "e \<in> set (g_edges db)" "ed_plan e = pl_id p" for e
  proof -
    have "edge_ok db e" using assms(1) that(1) by (simp add: graph_wf_def)
    from edge_node[OF this] n that(2) show ?thesis by metis
  qed
  have "filter (\<lambda>n. nd_plan n = pl_id p \<and> nd_workspace n = pl_workspace p) (g_nodes db) = plan_nodes db (pl_id p)"
    "filter (\<lambda>e. ed_plan e = pl_id p \<and> ed_workspace e = pl_workspace p) (g_edges db) = plan_edge_rows db (pl_id p)"
    unfolding plan_nodes_def plan_edge_rows_def using n e by (auto intro!: filter_cong)
  then show "ListDependencyGraphNodesByPlan (pl_id p) (pl_workspace p) db
      = sort_key (\<lambda>n. (nd_wave n, nd_temp_id n, nd_id n)) (plan_nodes db (pl_id p))"
    and "ListDependencyGraphEdgesByPlan (pl_id p) (pl_workspace p) db
      = sort_key (\<lambda>e. (ed_from e, ed_to e, ed_id e)) (plan_edge_rows db (pl_id p))"
    by (simp_all add: ListDependencyGraphNodesByPlan_def ListDependencyGraphEdgesByPlan_def)
qed

lemma distinct_map_sort: "distinct (map f xs) \<Longrightarrow> distinct (map f (sort_key k xs))"
  by (simp add: distinct_map)

lemma read_plan:
  assumes wf: "graph_wf db" and p: "p \<in> set (g_plans db)"
  obtains ws where "dependencyGraphPersistedWaves (ListDependencyGraphNodesByPlan (pl_id p) (pl_workspace p) db)
      (ListDependencyGraphEdgesByPlan (pl_id p) (pl_workspace p) db) = Inr (map sort ws)"
    "\<And>k. mset (slot ws k) = image_mset nd_temp_id (filter_mset (\<lambda>n. nd_wave n = int k) (mset (plan_nodes db (pl_id p))))"
    "\<And>m. length ws \<le> m \<longleftrightarrow> (\<forall>n \<in> set (plan_nodes db (pl_id p)). nat (nd_wave n) < m)"
proof -
  let ?ns = "plan_nodes db (pl_id p)" and ?es = "plan_edge_rows db (pl_id p)"
  let ?sns = "sort_key (\<lambda>n. (nd_wave n, nd_temp_id n, nd_id n)) ?ns"
  let ?ses = "sort_key (\<lambda>e. (ed_from e, ed_to e, ed_id e)) ?es"
  have ne: "?ns \<noteq> []" and temps: "distinct (map nd_temp_id ?ns)" using wf p by (auto simp: graph_wf_def plans_ok_def)
  have issues: "distinct (map nd_issue ?ns)"
    using wf unfolding graph_wf_def ids_distinct_def plan_nodes_def by (simp add: distinct_map_filter)
  have waves: "\<forall>n \<in> set ?sns. 0 \<le> nd_wave n \<and> nd_wave n < int (length ?sns)"
  proof
    fix n assume "n \<in> set ?sns"
    then have "n \<in> set (g_nodes db)" "nd_plan n = pl_id p" by simp_all
    with wf show "0 \<le> nd_wave n \<and> nd_wave n < int (length ?sns)" unfolding graph_wf_def node_ok_def by auto
  qed
  obtain ws where r:
    "persisted_nodes (length ?sns) ?sns [] [] [] = Inr (rev (map (\<lambda>n. (nd_issue n, nd_wave n)) ?sns) @ [], ws)"
    "\<And>k. slot ws k = slot [] k @ map nd_temp_id (filter (\<lambda>n. nd_wave n = int k) ?sns)"
    "\<And>m. length ws \<le> m \<longleftrightarrow> length ([] :: string list list) \<le> m \<and> (\<forall>n \<in> set ?sns. nat (nd_wave n) < m)"
    by (rule persisted_nodes_Inr[OF distinct_map_sort[OF issues] distinct_map_sort[OF temps] waves, of "[]" "[]" "[]"])
      simp_all
  let ?by = "rev (map (\<lambda>n. (nd_issue n, nd_wave n)) ?sns)"
  have by_n: "map_of ?by (nd_issue n) = Some (nd_wave n)" if "n \<in> set ?ns" for n
  proof (rule map_of_is_SomeI)
    have "map fst ?by = rev (map nd_issue ?sns)" by (simp add: rev_map)
    then show "distinct (map fst ?by)" using distinct_map_sort[OF issues] by (metis distinct_rev)
  qed (use that in auto)
  have "edge_forward ?by e" if "e \<in> set ?ses" for e
  proof -
    have e: "e \<in> set (g_edges db)" "ed_plan e = pl_id p" using that by (auto simp: plan_edge_rows_def)
    then have "edge_ok db e" using wf by (simp add: graph_wf_def)
    then obtain m n where "m \<in> set ?ns" "n \<in> set ?ns" "nd_issue m = ed_from e" "nd_issue n = ed_to e" "nd_wave m < nd_wave n"
      using e(2) unfolding edge_ok_def by metis
    with by_n[of m] by_n[of n] show ?thesis by (simp add: edge_forward_def)
  qed
  then have "list_all (edge_forward ?by) ?ses" by (simp add: list_all_iff)
  moreover have "?sns \<noteq> []" using ne by (metis length_0_conv length_sort)
  ultimately have "dependencyGraphPersistedWaves ?sns ?ses = Inr (map sort ws)"
    unfolding dependencyGraphPersistedWaves_def r(1) by simp
  moreover have "mset (slot ws k) = image_mset nd_temp_id (filter_mset (\<lambda>n. nd_wave n = int k) (mset ?ns))" for k
    unfolding r(2) by (simp add: slot_def)
  moreover have "length ws \<le> m \<longleftrightarrow> (\<forall>n \<in> set ?ns. nat (nd_wave n) < m)" for m
    unfolding r(3) by simp
  ultimately show thesis using that plan_workspace_rows[OF wf p] by metis
qed

section \<open>A plan's rows never change\<close>

lemma step_plan_rows:
  assumes "graph_step co db db'" and "graph_wf db" and "i \<in> pl_id ` set (g_plans db')" and "i < g_next db"
  shows "i \<in> pl_id ` set (g_plans db) \<and> plan_nodes db' i = plan_nodes db i \<and> plan_edge_rows db' i = plan_edge_rows db i"
proof -
  from assms(1) show ?thesis
  proof (cases rule: graph_step_kinds)
    case same
    then have "map pl_id (g_plans db') = map pl_id (g_plans db)" using plan_keys(1) by (simp add: same_graph_def)
    then have "pl_id ` set (g_plans db') = pl_id ` set (g_plans db)" by (metis set_map)
    with assms(3) same show ?thesis by (simp add: same_graph_def plan_nodes_def plan_edge_rows_def)
  next
    case (stored raw waves input p rs ns fs)
    then have id: "pl_id p = g_next db" "g_plans db' = g_plans db @ [p]" by (auto simp: stored_plan_def)
    with assms(3,4) have "i \<noteq> pl_id p" "i \<in> pl_id ` set (g_plans db)" by auto
    with stored_nodes(2,4)[OF assms(2) stored(2)] show ?thesis by blast
  next
    case (deleted j ws)
    with assms(3) obtain q where "q \<in> set (g_plans (DeleteIssue j ws db))" "i = pl_id q" by blast
    with delete_plan_rows[OF assms(2)] deleted show ?thesis by auto
  next
    case (created row)
    with assms(3) show ?thesis by (simp add: plan_nodes_def plan_edge_rows_def)
  qed
qed

lemma step_next: "graph_step co db db' \<Longrightarrow> g_next db \<le> g_next db'"
  by (erule graph_step_kinds) (auto simp: same_graph_def stored_plan_def DeleteIssue_def Let_def)

lemma steps_plan_rows:
  assumes "(graph_step co)\<^sup>*\<^sup>* db db'" and "graph_wf db" and "i < g_next db" and "i \<in> pl_id ` set (g_plans db')"
  shows "graph_wf db' \<and> g_next db \<le> g_next db' \<and> i \<in> pl_id ` set (g_plans db)
    \<and> plan_nodes db' i = plan_nodes db i \<and> plan_edge_rows db' i = plan_edge_rows db i"
proof -
  have wf: "graph_wf db' \<and> g_next db \<le> g_next db'" if "(graph_step co)\<^sup>*\<^sup>* db db'" for db'
    using that
    by (induction rule: rtranclp_induct) (use assms(2) wf_step step_next in \<open>blast intro: order_trans\<close>)+
  show ?thesis
    using assms(1,4)
  proof (induction rule: rtranclp_induct)
    case (step y z)
    note w = wf[OF step(1)] wf[OF rtranclp.rtrancl_into_rtrancl[OF step(1,2)]]
    with assms(3) have "i < g_next y" by simp
    from step_plan_rows[OF step(2) _ step(4) this] w step(3) show ?case by auto
  qed (use assms(2) in simp)
qed

section \<open>A concrete database\<close>

text \<open>Workspace 0 with a default execution agent, an issue 0, and the plan of three tasks under it.\<close>

definition demo_workspace :: workspace_row where
  "demo_workspace = \<lparr>ws_id = 0, ws_issue_counter = 0, ws_default_agent = Some 7, ws_members = [],
     ws_runtimes = [], ws_catalog = []\<rparr>"

definition demo_parent :: graph_issue where
  "demo_parent = \<lparr>is_id = 0, is_workspace = 0, is_title = ''p'', is_status = Todo, is_priority = ''none'',
     is_executor_type = None, is_executor_id = None, is_parent = None, is_number = 1, is_revision = 1,
     is_last_activity = None, is_updated_at = 0\<rparr>"

definition demo_staffed :: graphdb where
  "demo_staffed = queue_step demo_fleet (empty_graph\<lparr>g_workspaces := [demo_workspace]\<rparr>)"

definition demo_base :: graphdb where
  "demo_base = (case CreateIssue demo_parent (snd (NewV7 demo_staffed)) of None \<Rightarrow> empty_graph | Some db \<Rightarrow> db)"

definition demo_canon :: apply_input where
  "demo_canon = demo_input\<lparr>in_tasks := map (canonical_task demo_graph_codec) (in_tasks demo_input)\<rparr>"

definition demo_assignments :: "task_assignment list" where
  "demo_assignments = replicate 3 \<lparr>as_executor_type = None, as_executor_id = None, as_runtime = None\<rparr>"

definition demo_result :: "graph_error + plan_row \<times> graphdb" where
  "demo_result = applyDependencyGraphTransaction demo_graph_codec 10 demo_canon [[''a''], [''b''], [''c'']]
     demo_assignments 0 0 None ''k'' ''h'' demo_base"

definition demo_graph_plan :: plan_row where
  "demo_graph_plan = fst (projr demo_result)"

definition demo_applied :: graphdb where
  "demo_applied = snd (projr demo_result)"

lemma demo_reachable: "reachable_graph co demo_base"
proof -
  have "CreateIssue demo_parent (snd (NewV7 demo_staffed)) \<noteq> None" by code_simp
  then obtain db where db: "CreateIssue demo_parent (snd (NewV7 demo_staffed)) = Some db" by blast
  have 1: "graph_step co empty_graph (empty_graph\<lparr>g_workspaces := [demo_workspace]\<rparr>)"
    by (rule graph_step.workspaces)
  have 2: "graph_step co (empty_graph\<lparr>g_workspaces := [demo_workspace]\<rparr>) demo_staffed"
    unfolding demo_staffed_def by (rule graph_step.queue)
  have "NewV7 demo_staffed = (0, snd (NewV7 demo_staffed))" by (simp add: NewV7_def demo_staffed_def empty_graph_def)
  moreover have "demo_parent\<lparr>is_id := 0\<rparr> = demo_parent" by (simp add: demo_parent_def)
  ultimately have "graph_step co demo_staffed db" using db by (metis graph_step.create_issue)
  with 1 2 show ?thesis
    unfolding reachable_graph_def demo_base_def db option.case by (meson converse_rtranclp_into_rtranclp rtranclp.rtrancl_refl)
qed

lemma demo_apply: "demo_result = Inr (demo_graph_plan, demo_applied)"
proof -
  have "\<not> isl demo_result" by code_simp
  then have "demo_result = Inr (projr demo_result)" by (rule sum.collapse(2)[symmetric])
  then show ?thesis unfolding demo_graph_plan_def demo_applied_def prod.collapse .
qed

lemma demo_apply_step: "graph_step demo_graph_codec demo_base demo_applied"
proof (rule graph_step.apply_plan)
  show "validateDependencyGraphPlan demo_graph_codec demo_input = Inr ([[''a''], [''b''], [''c'']], demo_canon)"
    unfolding demo_canon_def by (rule demo_accepted)
  show "length demo_assignments = length (in_tasks demo_canon)" "assignments_ok demo_assignments" by code_simp+
qed (use demo_apply in \<open>simp add: demo_result_def\<close>)

lemma demo_applied_reachable: "reachable_graph demo_graph_codec demo_applied"
  using demo_reachable demo_apply_step unfolding reachable_graph_def by (rule rtranclp.rtrancl_into_rtrancl)

section \<open>Properties\<close>



text \<open>Slots filled by wave number hold the waves the numbers come from, whatever their order inside.\<close>

lemma slots_of_waves:
  assumes aw: "distinct (concat waves)" and nonempty: "[] \<notin> set waves"
    and temps: "set (map nd_temp_id ns) = set (concat waves)"
    and nw: "\<And>n. n \<in> set ns \<Longrightarrow> nd_wave n = int (wave_of waves (nd_temp_id n))"
    and dist: "distinct (map nd_temp_id ns)"
    and us: "\<And>k. mset (slot us k) = image_mset nd_temp_id (filter_mset (\<lambda>n. nd_wave n = int k) (mset ns))"
      "\<And>m. length us \<le> m \<longleftrightarrow> (\<forall>n \<in> set ns. nat (nd_wave n) < m)"
    and inside: "\<And>n. n \<in> set ns \<Longrightarrow> nat (nd_wave n) < length waves \<and> nd_temp_id n \<in> set (waves ! nat (nd_wave n))"
  shows "map sort us = map sort waves"
proof -
  have in_wave: "\<exists>n \<in> set ns. nd_temp_id n = t \<and> nd_wave n = int k" if k: "k < length waves" "t \<in> set (waves ! k)" for t k
  proof -
    have "t \<in> set (map nd_temp_id ns)" using k temps by auto
    then obtain n where "n \<in> set ns" "nd_temp_id n = t" by auto
    with nw wave_of_index[OF aw k] show ?thesis by auto
  qed
  show ?thesis
  proof (rule slots_equal)
    fix m
    show "length us \<le> m \<longleftrightarrow> length waves \<le> m"
    proof
      assume "length us \<le> m"
      then have less: "\<forall>n \<in> set ns. nat (nd_wave n) < m" using us(2) by blast
      show "length waves \<le> m"
      proof (rule ccontr)
        assume "\<not> length waves \<le> m"
        then have m: "m < length waves" by simp
        with nonempty obtain t where "t \<in> set (waves ! m)" by (metis list.set_sel(1) nth_mem)
        with in_wave[OF m] less show False by fastforce
      qed
    next
      assume "length waves \<le> m"
      then show "length us \<le> m" unfolding us(2) using inside by fastforce
    qed
  next
    fix k assume k: "k < length waves"
    have d: "distinct (waves ! k)" using aw k by (simp add: distinct_concat_iff)
    have "mset (slot us k) = mset_set (set (waves ! k))"
    proof -
      let ?ms = "filter (\<lambda>n. nd_wave n = int k) ns"
      have "set (map nd_temp_id ?ms) = set (waves ! k)" using in_wave[OF k] inside by (auto simp: image_iff) (metis nat_int)+
      moreover have "distinct (map nd_temp_id ?ms)" using dist by (simp add: distinct_map_filter)
      moreover have "mset (slot us k) = mset (map nd_temp_id ?ms)" unfolding us(1) by simp
      ultimately show ?thesis by (metis mset_set_set)
    qed
    also have "\<dots> = mset (slot waves k)" using d k by (simp add: slot_def mset_set_set)
    finally show "sort (slot us k) = sort (slot waves k)" by (metis sorted_list_of_multiset_mset)
  qed
qed

text \<open>
  C37: Applying a plan and reading it back returns its waves. After an accepted plan was applied to a
  reachable database, and after any later transactions, as long as the plan still exists its stored
  nodes and edges read as the validated waves, each sorted by temp id.
\<close>

theorem applied_plan_reads_back:
  assumes "reachable_graph co db" and "validateDependencyGraphPlan co raw = Inr (waves, input)"
    and "length assignments = length (in_tasks input)"
    and "applyDependencyGraphTransaction co now input waves assignments parent ws limit key hash db = Inr (p, db')"
    and "(graph_step co)\<^sup>*\<^sup>* db' db''" and "q \<in> set (g_plans db'')" and "pl_id q = pl_id p"
  shows "dependencyGraphPersistedWaves (ListDependencyGraphNodesByPlan (pl_id p) (pl_workspace q) db'')
     (ListDependencyGraphEdgesByPlan (pl_id p) (pl_workspace q) db'') = Inr (map sort waves)"
proof -
  have wf: "graph_wf db" by (rule wf_reachable[OF assms(1)])
  from apply_stores[OF assms(2-4)] obtain rs ns fs where s: "stored_plan raw waves p rs ns fs db db'" .
  have wf': "graph_wf db'" by (rule wf_stored[OF wf assms(2) s])
  have "pl_id p < g_next db'" using s by (simp add: stored_plan_def)
  moreover have "pl_id p \<in> pl_id ` set (g_plans db'')" using assms(6,7) by (metis imageI)
  ultimately have later: "graph_wf db''" "plan_nodes db'' (pl_id p) = ns"
    using steps_plan_rows[OF assms(5) wf'] stored_nodes(1)[OF wf s] by auto
  obtain us where us:
    "dependencyGraphPersistedWaves (ListDependencyGraphNodesByPlan (pl_id p) (pl_workspace q) db'')
       (ListDependencyGraphEdgesByPlan (pl_id p) (pl_workspace q) db'') = Inr (map sort us)"
    "\<And>k. mset (slot us k) = image_mset nd_temp_id (filter_mset (\<lambda>n. nd_wave n = int k) (mset ns))"
    "\<And>m. length us \<le> m \<longleftrightarrow> (\<forall>n \<in> set ns. nat (nd_wave n) < m)"
    using read_plan[OF later(1) assms(6)] unfolding assms(7) later(2) by metis
  note w = stored_waves[OF assms(2) s]
  have aw: "distinct (concat waves)" "set (concat waves) = set (map tk_temp_id (in_tasks raw))" "[] \<notin> set waves"
    using accepted_waves[OF assms(2)] by blast+
  have nw: "nd_wave n = int (wave_of waves (nd_temp_id n))" if "n \<in> set ns" for n
    using s that by (simp add: stored_plan_def)
  have temps: "map nd_temp_id ns = map tk_temp_id (in_tasks raw)" using s by (simp add: stored_plan_def)
  have "map sort us = map sort waves"
    by (rule slots_of_waves[OF aw(1,3) arg_cong[OF temps, of set, folded aw(2)] nw w(4) us(2,3) w(1)])
  with us(1) show ?thesis by simp
qed

definition demo_wake :: wake_env where
  "demo_wake = \<lparr>wk_now = 20, wk_attributed = (\<lambda>_ _. True), wk_alive = (\<lambda>_. True), wk_lineage = 0\<rparr>"

definition demo_woken :: graphdb where
  "demo_woken = WakeDependencyGraphReadyTasks demo_wake 0 1 demo_applied"

theorem applied_plan_reads_back_witness:
  "dependencyGraphPersistedWaves (ListDependencyGraphNodesByPlan 1 0 demo_woken)
     (ListDependencyGraphEdgesByPlan 1 0 demo_woken) = Inr [[''a''], [''b''], [''c'']]"
proof -
  have q: "hd (g_plans demo_woken) \<in> set (g_plans demo_woken)" "pl_id (hd (g_plans demo_woken)) = pl_id demo_graph_plan"
    "pl_id demo_graph_plan = 1" "pl_workspace (hd (g_plans demo_woken)) = 0" by code_simp+
  have len: "length demo_assignments = length (in_tasks demo_canon)" by code_simp
  have step: "(graph_step demo_graph_codec)\<^sup>*\<^sup>* demo_applied demo_woken"
    unfolding demo_woken_def by (intro r_into_rtranclp graph_step.wake)
  from applied_plan_reads_back[OF demo_reachable demo_accepted[folded demo_canon_def] len
      demo_apply[unfolded demo_result_def] step q(1,2)]
  show ?thesis unfolding q by simp
qed

end
