(* ===== verification/GraphErrors.thy ===== *)
theory GraphErrors
  imports GraphRead
begin

text \<open>
  How applying a validated plan can fail: the inserts of issues, nodes and edges never do, the guard on
  active issues included. Property C38.
\<close>

section \<open>One task\<close>

definition allowed_error :: "graph_error \<Rightarrow> bool" where
  "allowed_error e \<longleftrightarrow>
     (case e of GraphNotFound m \<Rightarrow> m = ''parent issue not found'' | ActivePlanExists \<Rightarrow> True
      | InvalidReference _ \<Rightarrow> True | IssueLimitReached _ \<Rightarrow> True
      | GraphDatabase m \<Rightarrow> m = ''create dependency graph plan'' \<or> m = ''increment issue counter''
      | _ \<Rightarrow> False)"

definition staffed :: "apply_env \<Rightarrow> apply_input \<Rightarrow> task_input \<times> task_assignment \<Rightarrow> bool" where
  "staffed env input item \<longleftrightarrow>
     (0 < incoming (in_edges input) (tk_temp_id (fst item)) \<longrightarrow>
        as_executor_id (with_default (ap_default env) (snd item)) \<noteq> None
        \<and> as_executor_type (with_default (ap_default env) (snd item)) \<in> {Some ''agent'', Some ''team''})"

lemma guard_new_issue:
  "staffed env input item \<Longrightarrow>
     enforce_issue_active_executor db (new_issue now ws parent (in_edges input) (fst item)
        (with_default (ap_default env) (snd item)) i number) = None"
  by (auto simp: enforce_issue_active_executor_def new_issue_def staffed_def RequiresExecutor_def
      canonicalOrder_def status_defs)

lemma AllocateIssueNumber_Inl: "AllocateIssueNumber limit ws db = Inl e \<Longrightarrow> allowed_error e"
  by (auto simp: AllocateIssueNumber_def Let_def allowed_error_def split: option.splits if_splits)

definition room_for :: "apply_env \<Rightarrow> string set \<Rightarrow> graphdb \<Rightarrow> bool" where
  "room_for env names db \<longleftrightarrow>
     (\<forall>i \<in> set (g_issues db). is_id i < g_next db) \<and> (\<forall>n \<in> set (g_nodes db). nd_id n < g_next db)
     \<and> (\<forall>n \<in> set (g_nodes db). nd_plan n = ap_plan env \<longrightarrow> nd_temp_id n \<notin> names)"

lemma create_task_node_no_insert_error:
  assumes "create_task_node env input waves item bt db = Inl e" and "staffed env input item"
    and "room_for env names db" and "tk_temp_id (fst item) \<in> names"
  shows "AllocateIssueNumber (ap_limit env) (ap_workspace env) db = Inl e"
proof (cases "AllocateIssueNumber (ap_limit env) (ap_workspace env) db")
  case (Inl e')
  with assms(1) show ?thesis by (simp add: create_task_node_def Let_def)
next
  case (Inr r)
  obtain number db1 where r: "r = (number, db1)" by fastforce
  from AllocateIssueNumber_Inr Inr r obtain wss where db1: "db1 = db\<lparr>g_workspaces := wss\<rparr>" by blast
  let ?i = "new_issue (ap_now env) (ap_workspace env) (ap_parent env) (in_edges input) (fst item)
      (with_default (ap_default env) (snd item)) (g_next db) number"
  have id: "is_id ?i = g_next db" by (simp add: new_issue_def)
  have c: "CreateIssue ?i (db1\<lparr>g_next := Suc (g_next db)\<rparr>)
      = Some (db1\<lparr>g_next := Suc (g_next db), g_issues := g_issues db @ [?i]\<rparr>)"
    using assms(3) guard_new_issue[OF assms(2)] unfolding CreateIssue_def id
    by (auto simp: db1 room_for_def list_ex_iff)
  have "nd_id m \<noteq> Suc (g_next db) \<and> \<not> (nd_plan m = ap_plan env \<and> nd_temp_id m = tk_temp_id (fst item))"
    if "m \<in> set (g_nodes db)" for m
    using assms(3,4) that by (auto simp: room_for_def)
  then have "create_task_node env input waves item bt db \<noteq> Inl e"
    using Inr r c
    by (auto simp: create_task_node_def Let_def NewV7_def db1 CreateDependencyGraphNode_def new_node_def list_ex_iff)
  with assms(1) show ?thesis by blast
qed

lemmas create_task_node_error = AllocateIssueNumber_Inl[OF create_task_node_no_insert_error]

lemma create_nodes_error:
  "create_nodes env input waves items bt db = Inl e \<Longrightarrow> list_all (staffed env input) items
     \<Longrightarrow> distinct (map (tk_temp_id \<circ> fst) items) \<Longrightarrow> room_for env ((tk_temp_id \<circ> fst) ` set items) db
     \<Longrightarrow> allowed_error e"
proof (induction items arbitrary: bt db)
  case (Cons item items)
  show ?case
  proof (cases "create_task_node env input waves item bt db")
    case (Inl e')
    with Cons.prems(1) have "create_task_node env input waves item bt db = Inl e" by simp
    from create_task_node_error[OF this _ Cons.prems(4)] Cons.prems(2) show ?thesis by simp
  next
    case (Inr r)
    obtain bt' db' where r: "create_task_node env input waves item bt db = Inr (bt', db')"
      using Inr by (cases r) simp
    from create_task_node_Inr[OF r] obtain i n where n:
      "task_rows env input waves item i n" "is_id i = g_next db" "nd_id n = Suc (g_next db)"
      "g_issues db' = g_issues db @ [i]" "g_nodes db' = g_nodes db @ [n]" "g_next db' = Suc (Suc (g_next db))" .
    have "nd_temp_id n = tk_temp_id (fst item)" by (rule task_rowsD(5)[OF n(1)])
    then have "room_for env ((tk_temp_id \<circ> fst) ` set items) db'"
      using Cons.prems(3,4) n(2-6) by (auto simp: room_for_def less_Suc_eq)
    with Cons.IH[of bt' db'] Cons.prems r show ?thesis by simp
  qed
qed simp

section \<open>The edges\<close>

definition edge_ends :: "(string \<times> uuid) list \<Rightarrow> edge_input \<Rightarrow> uuid option \<times> uuid option" where
  "edge_ends bt e = (map_of bt (eg_from e), map_of bt (eg_to e))"

lemma create_edges_total:
  "\<forall>e \<in> set es. map_of bt (eg_from e) \<noteq> None \<and> map_of bt (eg_to e) \<noteq> None \<and> eg_type e = dependencyGraphHardType
     \<Longrightarrow> distinct (map (edge_ends bt) es) \<Longrightarrow> \<forall>f \<in> set (g_edges db). ed_id f < g_next db
     \<Longrightarrow> \<forall>f \<in> set (g_edges db). ed_plan f = ap_plan env \<longrightarrow> (Some (ed_from f), Some (ed_to f)) \<notin> edge_ends bt ` set es
     \<Longrightarrow> \<exists>db'. create_edges env bt es db = Inr db'"
proof (induction es arbitrary: db)
  case (Cons e es)
  obtain a b where ab: "map_of bt (eg_from e) = Some a" "map_of bt (eg_to e) = Some b" using Cons.prems(1) by auto
  let ?f = "\<lparr>ed_id = g_next db, ed_plan = ap_plan env, ed_workspace = ap_workspace env, ed_from = a, ed_to = b,
      ed_type = eg_type e, ed_reason = eg_reason e, ed_consumed = eg_consumed e\<rparr>"
  let ?db = "db\<lparr>g_next := Suc (g_next db), g_edges := g_edges db @ [?f]\<rparr>"
  have "ed_id f \<noteq> g_next db \<and> \<not> (ed_plan f = ap_plan env \<and> ed_from f = a \<and> ed_to f = b)" if "f \<in> set (g_edges db)" for f
    using Cons.prems(3,4) that ab by (auto simp: edge_ends_def)
  then have "CreateDependencyGraphEdge ?f (db\<lparr>g_next := Suc (g_next db)\<rparr>) = Some ?db"
    using Cons.prems(1) by (auto simp: CreateDependencyGraphEdge_def list_ex_iff)
  then have "create_edges env bt (e # es) db = create_edges env bt es ?db"
    using ab by (simp add: NewV7_def)
  moreover have "\<exists>db'. create_edges env bt es ?db = Inr db'"
  proof (rule Cons.IH)
    have "(Some a, Some b) = edge_ends bt e" using ab by (simp add: edge_ends_def)
    with Cons.prems(2,4) show "\<forall>f \<in> set (g_edges ?db). ed_plan f = ap_plan env
        \<longrightarrow> (Some (ed_from f), Some (ed_to f)) \<notin> edge_ends bt ` set es" by auto
  qed (use Cons.prems in \<open>auto intro: less_SucI\<close>)
  ultimately show ?case by simp
qed simp

section \<open>Failure modes\<close>

lemma staffed_items:
  assumes "\<not> executor_missing dflt (in_edges input) items" and "assignments_ok (map snd items)" and "ap_default env = dflt"
  shows "list_all (staffed env input) items"
  unfolding list_all_iff
proof
  fix item assume item: "item \<in> set items"
  show "staffed env input item"
    unfolding staffed_def
  proof
    assume "0 < incoming (in_edges input) (tk_temp_id (fst item))"
    then have "filter (\<lambda>e. eg_to e = tk_temp_id (fst item)) (in_edges input) \<noteq> []" by (simp add: incoming_def)
    then have "tk_temp_id (fst item) \<in> set (map eg_to (in_edges input))" by (force simp: filter_empty_conv)
    with assms(1) item have "dflt \<noteq> None \<or> as_executor_id (snd item) \<noteq> None"
      by (auto simp: executor_missing_def list_ex_iff split: prod.splits)
    moreover have "as_executor_id (snd item) = None \<or> as_executor_type (snd item) \<in> {Some ''agent'', Some ''team''}"
      using assms(2) item by (auto simp: assignments_ok_def list_all_iff)
    ultimately show "as_executor_id (with_default (ap_default env) (snd item)) \<noteq> None
        \<and> as_executor_type (with_default (ap_default env) (snd item)) \<in> {Some ''agent'', Some ''team''}"
      using assms(3) by (auto simp: with_default_def)
  qed
qed

lemma first_error_in: "first_error xs = Some e \<Longrightarrow> Some e \<in> set xs"
  by (induction xs rule: first_error.induct) auto

lemma actor_error: "validateDependencyGraphActor co db ws r code = Some e \<Longrightarrow> e = InvalidReference code"
  by (auto simp: validateDependencyGraphActor_def split: option.splits if_splits)

lemma role_error: "check_role co db ws r code = Some e \<Longrightarrow> e = InvalidReference code"
  by (auto simp: check_role_def intro: actor_error split: option.splits)

lemma check_actors_error:
  assumes "check_actors co db ws items = Some e"
  shows "allowed_error e"
proof -
  from assms obtain item where "item \<in> set items" and e: "Some e \<in>
      {check_role co db ws (tk_owner (fst item)) ''invalid_owner'',
       check_role co db ws (tk_executor (fst item)) ''invalid_executor'',
       check_role co db ws (tk_reviewer (fst item)) ''invalid_reviewer''}
      \<union> (\<lambda>r. check_role co db ws (Some r) ''invalid_executor'') ` set (tk_candidates (fst item))
      \<union> {case as_runtime (snd item) of None \<Rightarrow> None
          | Some rt \<Rightarrow> if runtime_in_workspace db rt ws then None else Some (InvalidReference ''invalid_runtime'')}"
    by (auto simp: check_actors_def dest!: first_error_in)
  then have "\<exists>c. e = InvalidReference c"
    using role_error[of co db ws] by (auto split: option.splits if_splits dest!: sym[of "Some e"])
  then show ?thesis by (auto simp: allowed_error_def)
qed

section \<open>Issue numbers\<close>

definition issue_count :: "graphdb \<Rightarrow> uuid \<Rightarrow> nat" where
  "issue_count db ws = length (filter (\<lambda>i. is_workspace i = ws) (g_issues db))"

text \<open>\<open>n\<close> more issues fit: the workspace is there and stays within its limit.\<close>

definition numbers_left :: "nat option \<Rightarrow> uuid \<Rightarrow> nat \<Rightarrow> graphdb \<Rightarrow> bool" where
  "numbers_left limit ws n db \<longleftrightarrow>
     find_workspace db ws \<noteq> None \<and> (case limit of None \<Rightarrow> True | Some l \<Rightarrow> issue_count db ws + n \<le> l)"

lemma AllocateIssueNumber_ok:
  "(\<exists>r. AllocateIssueNumber limit ws db = Inr r) \<longleftrightarrow> numbers_left limit ws 1 db"
  by (auto simp: AllocateIssueNumber_def numbers_left_def issue_count_def Let_def split: option.split)

lemma find_workspace_None: "find_workspace db w = None \<longleftrightarrow> w \<notin> set (map ws_id (g_workspaces db))"
  by (auto simp: find_workspace_def find_None_iff)

lemma AllocateIssueNumber_workspace:
  assumes "AllocateIssueNumber limit ws db = Inr (number, db')"
  shows "find_workspace db' w = None \<longleftrightarrow> find_workspace db w = None"
proof -
  have "map ws_id (g_workspaces db') = map ws_id (g_workspaces db)"
    using assms by (auto simp: AllocateIssueNumber_def Let_def map_update_where split: option.splits if_splits)
  then show ?thesis by (simp only: find_workspace_None)
qed

lemma create_task_node_ok:
  assumes "staffed env input item" and "room_for env names db" and "tk_temp_id (fst item) \<in> names"
  shows "(\<exists>r. create_task_node env input waves item bt db = Inr r) \<longleftrightarrow> numbers_left (ap_limit env) (ap_workspace env) 1 db"
    and "create_task_node env input waves item bt db = Inr (bt', db') \<Longrightarrow>
      find_workspace db' w = None \<longleftrightarrow> find_workspace db w = None"
proof -
  show "(\<exists>r. create_task_node env input waves item bt db = Inr r) \<longleftrightarrow> numbers_left (ap_limit env) (ap_workspace env) 1 db"
  proof (cases "AllocateIssueNumber (ap_limit env) (ap_workspace env) db")
    case (Inl e)
    then have "\<not> numbers_left (ap_limit env) (ap_workspace env) 1 db" using AllocateIssueNumber_ok by (metis Inl_Inr_False)
    with Inl show ?thesis by (simp add: create_task_node_def Let_def)
  next
    case (Inr r)
    then have "numbers_left (ap_limit env) (ap_workspace env) 1 db" using AllocateIssueNumber_ok by blast
    moreover have "\<exists>r. create_task_node env input waves item bt db = Inr r"
    proof (rule ccontr)
      assume "\<nexists>r. create_task_node env input waves item bt db = Inr r"
      then obtain e where e: "create_task_node env input waves item bt db = Inl e"
        by (cases "create_task_node env input waves item bt db") auto
      show False using create_task_node_no_insert_error[OF e assms] Inr by simp
    qed
    ultimately show ?thesis by blast
  qed
  show "find_workspace db' w = None \<longleftrightarrow> find_workspace db w = None"
    if r: "create_task_node env input waves item bt db = Inr (bt', db')"
  proof -
    obtain number db1 where a: "AllocateIssueNumber (ap_limit env) (ap_workspace env) db = Inr (number, db1)"
      using r by (auto simp: create_task_node_def Let_def split: sum.splits)
    have "g_workspaces db' = g_workspaces db1"
      using r a by (auto simp: create_task_node_def Let_def NewV7_def CreateIssue_def CreateDependencyGraphNode_def
          CreateDependencyGraphIssueCreatedOutbox_def split: if_splits)
    with AllocateIssueNumber_workspace[OF a] show ?thesis by (simp add: find_workspace_def)
  qed
qed

lemma create_nodes_ok:
  "items \<noteq> [] \<Longrightarrow> list_all (staffed env input) items \<Longrightarrow> distinct (map (tk_temp_id \<circ> fst) items)
     \<Longrightarrow> room_for env ((tk_temp_id \<circ> fst) ` set items) db \<Longrightarrow>
   (\<exists>r. create_nodes env input waves items bt db = Inr r)
     \<longleftrightarrow> numbers_left (ap_limit env) (ap_workspace env) (length items) db"
proof (induction items arbitrary: bt db)
  case (Cons item items)
  let ?ws = "ap_workspace env"
  have st: "staffed env input item" using Cons.prems(2) by simp
  note one = create_task_node_ok[OF st Cons.prems(4), simplified, where waves = waves and bt = bt]
  show ?case
  proof (cases "create_task_node env input waves item bt db")
    case (Inl e)
    with one(1) have "\<not> numbers_left (ap_limit env) ?ws (length (item # items)) db"
      by (auto simp: numbers_left_def split: option.splits)
    with Inl show ?thesis by simp
  next
    case (Inr r)
    obtain bt' db' where r: "create_task_node env input waves item bt db = Inr (bt', db')"
      using Inr by (cases r) simp
    from create_task_node_Inr[OF r] obtain i n where n:
      "task_rows env input waves item i n" "is_id i = g_next db" "nd_id n = Suc (g_next db)"
      "g_issues db' = g_issues db @ [i]" "g_nodes db' = g_nodes db @ [n]" "g_next db' = Suc (Suc (g_next db))" .
    have count: "issue_count db' ?ws = Suc (issue_count db ?ws)"
      using n(4) task_rowsD(1)[OF n(1)] by (simp add: issue_count_def)
    have left: "numbers_left (ap_limit env) ?ws (length (item # items)) db
        \<longleftrightarrow> numbers_left (ap_limit env) ?ws (length items) db'"
      using one(2)[OF r] by (auto simp: numbers_left_def count split: option.splits)
    have "numbers_left (ap_limit env) ?ws (Suc 0) db" using one(1) r by blast
    then have rest: "items = [] \<Longrightarrow> numbers_left (ap_limit env) ?ws (length (item # items)) db" by simp
    have "room_for env ((tk_temp_id \<circ> fst) ` set items) db'"
      using Cons.prems(3,4) task_rowsD(5)[OF n(1)] n(2-6) by (auto simp: room_for_def less_Suc_eq)
    with Cons.IH[of db' bt'] Cons.prems(2,3) left rest r show ?thesis by (cases "items = []") auto
  qed
qed simp

section \<open>The whole transaction\<close>

lemma find_idempotency:
  "GetDependencyGraphPlanByIdempotency db ws key = None
     \<longleftrightarrow> (\<forall>p \<in> set (g_plans db). \<not> (pl_workspace p = ws \<and> pl_key p = key))"
  by (auto simp: GetDependencyGraphPlanByIdempotency_def find_None_iff)

lemma insert_plan:
  assumes "graph_wf db" and "GetActiveDependencyGraphPlanForParent db (pl_workspace p) (pl_parent p) = None"
    and "pl_id p = g_next db"
  shows "CreateDependencyGraphPlan p (db\<lparr>g_next := m\<rparr>) =
    (if GetDependencyGraphPlanByIdempotency db (pl_workspace p) (pl_key p) = None
     then Some (db\<lparr>g_next := m, g_plans := g_plans db @ [p]\<rparr>) else None)"
proof -
  have "pl_id q \<noteq> pl_id p" if "q \<in> set (g_plans db)" for q using fresh_plan(2)[OF assms(1)] assms(3) that by force
  with assms(2) show ?thesis
    by (auto simp: CreateDependencyGraphPlan_def find_idempotency list_ex_iff
        GetActiveDependencyGraphPlanForParent_def find_None_iff)
qed

lemma room_for_fresh:
  assumes "graph_wf db" and "ap_plan env = g_next db"
  shows "room_for env names (db\<lparr>g_next := Suc (g_next db), g_plans := ps\<rparr>)"
  using wf_ids(1,3)[OF assms(1)] assms(2) by (fastforce simp: room_for_def intro: less_SucI)

text \<open>The nodes are named apart, and so are the ends of their edges.\<close>

lemma named_edges:
  assumes "distinct (map nd_temp_id ns)" and "distinct (map nd_issue ns)"
    and "\<forall>e \<in> set es. eg_from e \<in> nd_temp_id ` set ns \<and> eg_to e \<in> nd_temp_id ` set ns"
    and "distinct (map edge_names es)" and "bt = rev (map (\<lambda>n. (nd_temp_id n, nd_issue n)) ns)"
  shows "\<forall>e \<in> set es. map_of bt (eg_from e) \<noteq> None \<and> map_of bt (eg_to e) \<noteq> None"
    and "distinct (map (edge_ends bt) es)"
proof -
  have d: "distinct (map fst bt)" using assms(1) by (simp add: assms(5) rev_map[symmetric] comp_def)
  have val: "map_of bt (nd_temp_id n) = Some (nd_issue n)" if "n \<in> set ns" for n
    using that d by (intro map_of_is_SomeI) (auto simp: assms(5))
  then show "\<forall>e \<in> set es. map_of bt (eg_from e) \<noteq> None \<and> map_of bt (eg_to e) \<noteq> None"
    using assms(3) by fastforce
  have inj: "inj_on (map_of bt) (nd_temp_id ` set ns)"
  proof (rule inj_onI)
    fix x y assume "x \<in> nd_temp_id ` set ns" "y \<in> nd_temp_id ` set ns" and same: "map_of bt x = map_of bt y"
    then obtain m n where mn: "m \<in> set ns" "n \<in> set ns" "x = nd_temp_id m" "y = nd_temp_id n" by blast
    with val same have "nd_issue m = nd_issue n" by simp
    with distinct_key_eq[OF assms(2) mn(1,2)] mn(3,4) show "x = y" by simp
  qed
  have "inj_on (edge_ends bt) (set es)"
  proof (rule inj_onI)
    fix e f assume "e \<in> set es" "f \<in> set es" and same: "edge_ends bt e = edge_ends bt f"
    with assms(3) have named: "eg_from e \<in> nd_temp_id ` set ns" "eg_to e \<in> nd_temp_id ` set ns"
      "eg_from f \<in> nd_temp_id ` set ns" "eg_to f \<in> nd_temp_id ` set ns" by blast+
    have "map_of bt (eg_from e) = map_of bt (eg_from f)" "map_of bt (eg_to e) = map_of bt (eg_to f)"
      using same by (simp_all add: edge_ends_def)
    with inj_onD[OF inj] named have "eg_from e = eg_from f" "eg_to e = eg_to f" by blast+
    then have "edge_names e = edge_names f" by (simp add: edge_names_def)
    with assms(4) \<open>e \<in> set es\<close> \<open>f \<in> set es\<close> show "e = f" by (metis distinct_map inj_on_eq_iff)
  qed
  with assms(4) show "distinct (map (edge_ends bt) es)" by (simp add: distinct_map)
qed

text \<open>When a plan can be applied: its parent exists and has no active plan, its actors and its executors
  are valid, the idempotency key is unused, and the issues fit the workspace.\<close>

definition applicable ::
  "graph_codec \<Rightarrow> apply_input \<Rightarrow> task_assignment list \<Rightarrow> uuid \<Rightarrow> uuid \<Rightarrow> nat option \<Rightarrow> string \<Rightarrow> graphdb \<Rightarrow> bool" where
  "applicable co input assignments parent ws limit key db \<longleftrightarrow>
     GetIssueInWorkspace db parent ws \<noteq> None
     \<and> GetActiveDependencyGraphPlanForParent db ws parent = None
     \<and> check_actors co db ws (zip (in_tasks input) assignments) = None
     \<and> \<not> executor_missing (default_execution_agent db ws) (in_edges input) (zip (in_tasks input) assignments)
     \<and> GetDependencyGraphPlanByIdempotency db ws key = None
     \<and> numbers_left limit ws (length (in_tasks input)) db"

lemma edges_stored:
  assumes wf: "graph_wf db" and v: "validateDependencyGraphPlan co raw = Inr (waves, input)"
    and len: "length assignments = length (in_tasks input)"
    and c: "create_nodes env input waves (zip (in_tasks input) assignments) [] db2 = Inr (bt, db3)"
    and env: "ap_plan env = g_next db" and db2: "g_next db2 = Suc (g_next db)" "g_edges db2 = g_edges db"
  shows "\<exists>db4. create_edges env bt (in_edges input) db3 = Inr db4"
proof -
  from create_nodes_Inr[OF c] obtain rs ns where n:
    "list_all2 (\<lambda>item (i, n). task_rows env input waves item i n) (zip (in_tasks input) assignments) (zip rs ns)"
    "length rs = length (zip (in_tasks input) assignments)" "length ns = length (zip (in_tasks input) assignments)"
    "g_edges db3 = g_edges db2" "g_next db2 \<le> g_next db3" "distinct (map nd_issue ns)"
    "bt = rev (map (\<lambda>n. (nd_temp_id n, nd_issue n)) ns) @ []" .
  have temps: "map nd_temp_id ns = map tk_temp_id (in_tasks raw)"
    using list_all2_map_fst(1)[OF n(1-3)] len validate_canon(2)[OF v] by (simp flip: map_map)
  then have names: "nd_temp_id ` set ns = set (concat waves)" using accepted_waves[OF v] by (metis set_map)
  have "\<forall>e \<in> set (in_edges input). eg_from e \<in> nd_temp_id ` set ns \<and> eg_to e \<in> nd_temp_id ` set ns"
  proof
    fix e assume "e \<in> set (in_edges input)"
    then have "e \<in> set (in_edges raw)" using validate_canon(1)[OF v] by simp
    then obtain i j where "j < length waves" "eg_to e \<in> set (waves ! j)" "i < j" "eg_from e \<in> set (waves ! i)"
      using accepted_waves[OF v] by blast
    moreover have "set (waves ! k) \<subseteq> set (concat waves)" if "k < length waves" for k using nth_mem[OF that] by auto
    ultimately show "eg_from e \<in> nd_temp_id ` set ns \<and> eg_to e \<in> nd_temp_id ` set ns"
      unfolding names by (meson order_less_trans subsetD)
  qed
  note ends = named_edges[OF _ n(6) this, of bt]
  show ?thesis
  proof (rule create_edges_total)
    show "\<forall>e \<in> set (in_edges input). map_of bt (eg_from e) \<noteq> None \<and> map_of bt (eg_to e) \<noteq> None
        \<and> eg_type e = dependencyGraphHardType"
      using ends(1) temps n(7) validate_canon[OF v] by simp
    show "distinct (map (edge_ends bt) (in_edges input))"
      using ends(2) temps n(7) validate_canon[OF v] by simp
    have old: "ed_id f < g_next db \<and> ed_plan f < g_next db" if "f \<in> set (g_edges db3)" for f
      using wf_ids(4)[OF wf] n(4) db2(2) that by simp
    show "\<forall>f \<in> set (g_edges db3). ed_id f < g_next db3"
    proof
      fix f assume "f \<in> set (g_edges db3)"
      from old[OF this] n(5) db2(1) show "ed_id f < g_next db3" by linarith
    qed
    show "\<forall>f \<in> set (g_edges db3). ed_plan f = ap_plan env
        \<longrightarrow> (Some (ed_from f), Some (ed_to f)) \<notin> edge_ends bt ` set (in_edges input)"
    proof (intro ballI impI)
      fix f assume "f \<in> set (g_edges db3)" "ed_plan f = ap_plan env"
      with old[of f] env show "(Some (ed_from f), Some (ed_to f)) \<notin> edge_ends bt ` set (in_edges input)" by simp
    qed
  qed
qed

lemma apply_ok:
  assumes wf: "graph_wf db" and v: "validateDependencyGraphPlan co raw = Inr (waves, input)"
    and len: "length assignments = length (in_tasks input)" and ok: "assignments_ok assignments"
    and r_def: "r = applyDependencyGraphTransaction co now input waves assignments parent ws limit key hash db"
  shows "((\<exists>x. r = Inr x) \<longleftrightarrow> applicable co input assignments parent ws limit key db)
    \<and> (\<forall>e. r = Inl e \<longrightarrow> allowed_error e)"
proof (cases "GetIssueInWorkspace db parent ws")
  case None
  then show ?thesis
    by (simp add: r_def applyDependencyGraphTransaction_def applicable_def allowed_error_def Let_def)
next
  case (Some locked)
  let ?items = "zip (in_tasks input) assignments" and ?dflt = "default_execution_agent db ws"
  have id: "is_id locked = parent" using find_Some_in[OF Some[unfolded GetIssueInWorkspace_def]] by simp
  note start = r_def applyDependencyGraphTransaction_def applicable_def Let_def Some id
  show ?thesis
  proof (cases "GetActiveDependencyGraphPlanForParent db ws parent = None \<and> check_actors co db ws ?items = None
      \<and> \<not> executor_missing ?dflt (in_edges input) ?items")
    case False
    then show ?thesis using check_actors_error[of co db ws ?items]
      by (auto simp: start allowed_error_def split: option.splits)
  next
    case True
    let ?p = "\<lparr>pl_id = g_next db, pl_workspace = ws, pl_parent = parent, pl_key = key, pl_hash = hash,
             pl_goal = in_goal input, pl_status = PlanActive, pl_updated_at = now, pl_attention = False, pl_reason = None\<rparr>"
    let ?env = "\<lparr>ap_now = now, ap_workspace = ws, ap_parent = parent, ap_plan = g_next db,
               ap_limit = limit, ap_default = ?dflt\<rparr>"
    let ?db2 = "db\<lparr>g_next := Suc (g_next db), g_plans := g_plans db @ [?p]\<rparr>"
    have ins: "CreateDependencyGraphPlan ?p (db\<lparr>g_next := Suc (g_next db)\<rparr>) =
        (if GetDependencyGraphPlanByIdempotency db ws key = None then Some ?db2 else None)"
      using insert_plan[OF wf, of ?p] True by simp
    show ?thesis
    proof (cases "GetDependencyGraphPlanByIdempotency db ws key = None")
      case False
      with ins have "CreateDependencyGraphPlan ?p (db\<lparr>g_next := Suc (g_next db)\<rparr>) = None" by (simp only: if_False)
      with False show ?thesis using True by (simp add: start NewV7_def allowed_error_def)
    next
      case free: True
      have r: "r = (case create_nodes ?env input waves ?items [] ?db2 of Inl e \<Rightarrow> Inl e
          | Inr (bt, db3) \<Rightarrow> (case create_edges ?env bt (in_edges input) db3 of Inl e \<Rightarrow> Inl e | Inr db4 \<Rightarrow> Inr (?p, db4)))"
        using True free ins by (simp add: start NewV7_def)
      have a: "applicable co input assignments parent ws limit key db \<longleftrightarrow> numbers_left limit ws (length ?items) ?db2"
        using True free Some len
        by (simp add: applicable_def numbers_left_def find_workspace_def issue_count_def split: option.split)
      have names: "map (tk_temp_id \<circ> fst) ?items = map tk_temp_id (in_tasks raw)"
        using len validate_canon(2)[OF v] by (simp flip: map_map)
      have loop: "?items \<noteq> []" "list_all (staffed ?env input) ?items" "distinct (map (tk_temp_id \<circ> fst) ?items)"
        "room_for ?env ((tk_temp_id \<circ> fst) ` set ?items) ?db2"
        using validate_canon(3,4)[OF v] len names True ok
        by (auto intro: staffed_items room_for_fresh[OF wf])
      note nodes = create_nodes_ok[OF loop, where waves = waves and bt = "[]"]
      show ?thesis
      proof (cases "create_nodes ?env input waves ?items [] ?db2")
        case (Inl e)
        with nodes create_nodes_error[OF Inl loop(2-4)] show ?thesis unfolding r a by auto
      next
        case (Inr b)
        obtain bt db3 where c: "create_nodes ?env input waves ?items [] ?db2 = Inr (bt, db3)"
          using Inr by (cases b) simp
        have "\<exists>db4. create_edges ?env bt (in_edges input) db3 = Inr db4"
          by (rule edges_stored[OF wf v len c]) simp_all
        with c nodes show ?thesis unfolding r a by auto
      qed
    qed
  qed
qed


text \<open>On the database of \<open>demo_base\<close> the plan is applied; on the result it is not, its key being used and its
  parent having an active plan, and neither is it with a limit of three issues.\<close>

lemma demo_errors:
  "applicable demo_graph_codec demo_canon demo_assignments 0 0 None ''k'' demo_base"
  "GetDependencyGraphPlanByIdempotency demo_applied 0 ''k'' \<noteq> None"
  "\<not> numbers_left (Some 3) 0 (length (in_tasks demo_canon)) demo_base"
  by code_simp+


end
