(* ===== verification/GraphGate.thy ===== *)
theory GraphGate
  imports GraphRead
begin

text \<open>
  The dependency gate: which transactions move it, that no task of a gated issue becomes active, and how
  far one wake of a plan gets. Properties C39 and C40.
\<close>

section \<open>What the gate reads\<close>

lemma gate_frame:
  assumes "g_issues db' = g_issues db" "g_edges db' = g_edges db" "g_plans db' = g_plans db"
    "g_workspaces db' = g_workspaces db"
  shows "effective db' = effective db" "plan_active db' = plan_active db" "issue_done db' = issue_done db"
    "dependency_graph_issue_gate_open db' = dependency_graph_issue_gate_open db" "gate_closed db' = gate_closed db"
proof -
  show eff: "effective db' = effective db"
    using assms by (simp add: fun_eq_iff effective_def issue_effective_status_def catalog_of_def find_workspace_def)
  show plan: "plan_active db' = plan_active db" using assms by (simp add: fun_eq_iff plan_active_def)
  show fin: "issue_done db' = issue_done db" using assms by (simp add: fun_eq_iff issue_done_def eff)
  show gate: "dependency_graph_issue_gate_open db' = dependency_graph_issue_gate_open db"
    using assms by (simp add: fun_eq_iff dependency_graph_issue_gate_open_def plan fin)
  show "gate_closed db' = gate_closed db" using assms by (auto simp: fun_eq_iff gate_closed_def GetIssue_def gate split: option.split)
qed

text \<open>An update of issues that neither finishes an issue nor reopens one.\<close>

definition quiet :: "graphdb \<Rightarrow> (graph_issue \<Rightarrow> bool) \<Rightarrow> (graph_issue \<Rightarrow> graph_issue) \<Rightarrow> bool" where
  "quiet db P f \<longleftrightarrow> (\<forall>r. P r \<longrightarrow> issue_key (f r) = issue_key r
      \<and> (effective db (f r) = Done \<longleftrightarrow> effective db r = Done))"

lemma update_issues_frame:
  assumes "update_issues P f db = Some (rows, db')"
  shows "db' = db\<lparr>g_issues := update_where P f (g_issues db)\<rparr>" "rows = map f (filter P (g_issues db))"
  using assms by (auto simp: update_issues_def Let_def split: if_splits)

lemma effective_frame: "g_workspaces db' = g_workspaces db \<Longrightarrow> effective db' = effective db"
  by (simp add: fun_eq_iff effective_def issue_effective_status_def catalog_of_def find_workspace_def)

lemma find_update_key:
  "(\<And>r. P r \<Longrightarrow> k (f r) = k r) \<Longrightarrow> (\<And>r r'. k r = k r' \<Longrightarrow> Q r = Q r')
     \<Longrightarrow> map_option k (find Q (update_where P f rs)) = map_option k (find Q rs)"
proof (induction rs)
  case (Cons r rs)
  have "k (if P r then f r else r) = k r" "Q (if P r then f r else r) = Q r"
    using Cons.prems(1)[of r] Cons.prems(2)[of "f r" r] by simp_all
  moreover have "map_option k (find Q (update_where P f rs)) = map_option k (find Q rs)"
    by (rule Cons.IH[OF Cons.prems])
  ultimately show ?case unfolding update_where_def by (simp del: if_split)
qed (simp add: update_where_def)

lemma list_ex_update: "(\<And>r. P r \<Longrightarrow> Q (f r) = Q r) \<Longrightarrow> list_ex Q (update_where P f rs) = list_ex Q rs"
  by (induction rs) (auto simp: update_where_def)

lemma quiet_gate:
  assumes "update_issues P f db = Some (rows, db')" and "quiet db P f"
  shows "issue_done db' = issue_done db" "plan_active db' = plan_active db"
    "dependency_graph_issue_gate_open db' = dependency_graph_issue_gate_open db" "gate_closed db' = gate_closed db"
proof -
  note db' = update_issues_frame(1)[OF assms(1)]
  have eff: "effective db' = effective db" by (rule effective_frame) (simp add: db')
  have issues: "g_issues db' = update_where P f (g_issues db)" by (simp add: db')
  show plan: "plan_active db' = plan_active db" by (simp add: fun_eq_iff plan_active_def db')
  show fin: "issue_done db' = issue_done db"
  proof (intro ext)
    fix i ws
    let ?Q = "\<lambda>r. is_id r = i \<and> is_workspace r = ws \<and> effective db r = Done"
    have "list_ex ?Q (update_where P f (g_issues db)) = list_ex ?Q (g_issues db)"
      by (rule list_ex_update) (use assms(2) in \<open>auto simp: quiet_def issue_key_def\<close>)
    then show "issue_done db' i ws = issue_done db i ws" by (simp add: issue_done_def eff issues)
  qed
  show gate: "dependency_graph_issue_gate_open db' = dependency_graph_issue_gate_open db"
    by (simp add: fun_eq_iff dependency_graph_issue_gate_open_def plan fin) (simp add: db')
  show "gate_closed db' = gate_closed db"
  proof
    fix i
    have "map_option issue_key (GetIssue db' i) = map_option issue_key (GetIssue db i)"
      unfolding GetIssue_def db' using assms(2)
      by (auto intro!: find_update_key simp: quiet_def issue_key_def)
    then show "gate_closed db' i = gate_closed db i"
      by (auto simp: gate_closed_def gate issue_key_def split: option.splits)
  qed
qed

lemma effective_canonical [simp]: "is_status i \<in> set canonicalOrder \<Longrightarrow> effective db i = is_status i"
  by (simp add: effective_def issue_effective_status_def)

lemma effective_touch [simp]:
  "effective db (touch_status now Todo r) = Todo" "effective db (touch_status now InProgress r) = InProgress"
  "effective db (touch_status now StatusCancelled r) = StatusCancelled"
  by (subst effective_canonical; simp add: touch_status_def canonicalOrder_def)+

section \<open>Rows the queue admits\<close>

definition admitted_status :: "task_status \<Rightarrow> bool" where
  "admitted_status s \<longleftrightarrow> s \<in> {Queued, Deferred, Dispatched, Running, WaitingLocalDirectory}"

text \<open>The row is one of the table already, in the same status and for the same issue.\<close>

definition row_held :: "agent_task list \<Rightarrow> agent_task \<Rightarrow> bool" where
  "row_held ts t' \<longleftrightarrow> (\<exists>t \<in> set ts. task_id t = task_id t' \<and> status t = status t' \<and> issue_id t = issue_id t')"

lemma row_held_in [intro]: "t \<in> set ts \<Longrightarrow> row_held ts t"
  by (auto simp: row_held_def)

lemma admit_rows_new:
  assumes "t' \<in> set (tasks (admit_rows ts q))" and "ts = tasks q \<or> (\<exists>c. ts = tasks q @ [c])"
  shows "row_held (tasks q) t' \<or> \<not> gate_rejects (closed_gates q) t'"
  using assms by (auto simp: admit_rows_def split: if_splits)

lemma silent_update:
  "\<not> sets_status s \<Longrightarrow> task_id (snd (update_of now q s) t) = task_id t
     \<and> status (snd (update_of now q s) t) = status t \<and> issue_id (snd (update_of now q s) t) = issue_id t"
  by (cases s) (simp_all add: SetTaskDeliveredCommentIDs_def ReclaimStaleDispatchedTaskForRuntime_def
      ExtendAgentTaskPrepareLease_def UpdateAgentTaskSession_def Let_def)

lemma create_shape: "snd (CreateAgentTask now i cp alive ts) = ts \<or> (\<exists>c. snd (CreateAgentTask now i cp alive ts) = ts @ [c])"
  by (rule CreateAgentTask_cases[of now i cp alive ts]) auto

lemma retry_shape: "snd (MaybeRetryFailedTask env p ts) = ts \<or> (\<exists>c. snd (MaybeRetryFailedTask env p ts) = ts @ [c])"
proof -
  obtain out ts' where m: "MaybeRetryFailedTask env p ts = (out, ts')" by fastforce
  show ?thesis
  proof (cases "\<exists>c. out = Inr (Some c)")
    case True
    with m have "\<exists>c. ts' = ts @ [c]" by (auto elim: MaybeRetry_child)
    with m show ?thesis by auto
  next
    case False
    with MaybeRetry_frame[OF m] m show ?thesis by auto
  qed
qed

lemma queue_exec_new:
  assumes "t' \<in> set (tasks (queue_exec e q))"
  shows "row_held (tasks q) t' \<or> \<not> gate_rejects (closed_gates q) t'"
proof (cases e)
  case (QUpdate now s)
  show ?thesis
  proof (cases "gate_blocks now s q \<or> t' \<in> set (tasks q)")
    case True
    with assms QUpdate show ?thesis by auto
  next
    case False
    with assms QUpdate obtain t where t: "t \<in> set (tasks q)" "fst (update_of now q s) t" "t' = snd (update_of now q s) t"
      by (auto simp: exec_update_def in_update_where split: if_splits)
    show ?thesis
    proof (cases "sets_status s")
      case True
      with False t show ?thesis by (auto simp: gate_blocks_def returning_def list_ex_iff)
    next
      case False
      from silent_update[OF this, of now q t] t show ?thesis by (auto simp: row_held_def)
    qed
  qed
next
  case (QCreate now i cp alive)
  with assms admit_rows_new[OF _ create_shape] show ?thesis by auto
next
  case (QInsert now i ins alive)
  with assms admit_rows_new[OF _ run_insert_shape] show ?thesis by auto
next
  case (QRetry env parent)
  with assms show ?thesis by (auto split: option.splits if_splits dest: admit_rows_new[OF _ retry_shape])
qed (use assms in auto)

section \<open>Rows a transaction admits\<close>

definition queue_rows :: "graphdb \<Rightarrow> agent_task list" where
  "queue_rows db = tasks (g_queue db)"

text \<open>Every admitted row was there before, or its gate is open.\<close>

definition new_gated :: "graphdb \<Rightarrow> graphdb \<Rightarrow> bool" where
  "new_gated db db' \<longleftrightarrow>
     (\<forall>t' \<in> set (queue_rows db'). row_held (queue_rows db) t' \<or> \<not> gate_rejects (gate_closed db') t')"

lemma new_gated_same: "set (queue_rows db') \<subseteq> set (queue_rows db) \<Longrightarrow> new_gated db db'"
  by (auto simp: new_gated_def)

lemma gate_rejects_held:
  "task_id t = task_id t' \<Longrightarrow> status t = status t' \<Longrightarrow> issue_id t = issue_id t' \<Longrightarrow> gate_rejects c t = gate_rejects c t'"
  by (simp add: gate_rejects_def split: option.split)

lemma new_gated_trans:
  assumes "new_gated a b" and "new_gated b c" and "gate_closed c = gate_closed b"
  shows "new_gated a c"
  unfolding new_gated_def
proof
  fix t assume "t \<in> set (queue_rows c)"
  with assms(2) consider "\<not> gate_rejects (gate_closed c) t"
    | s where "s \<in> set (queue_rows b)" "task_id s = task_id t" "status s = status t" "issue_id s = issue_id t"
    by (auto simp: new_gated_def row_held_def)
  then show "row_held (queue_rows a) t \<or> \<not> gate_rejects (gate_closed c) t"
  proof cases
    case 2
    with assms(1) have "row_held (queue_rows a) s \<or> \<not> gate_rejects (gate_closed b) s" by (simp add: new_gated_def)
    with 2(2-4) gate_rejects_held[OF 2(2-4)] assms(3) show ?thesis by (simp add: row_held_def)
  qed simp
qed

lemma queue_step_gate [simp]: "gate_closed (queue_step e db) = gate_closed db"
  by (rule gate_frame) simp_all

lemma queue_step_rows: "queue_rows (queue_step e db) = tasks (queue_exec e (g_queue (sync_gates db)))"
  by (simp add: queue_rows_def queue_step_def set_queue_def sync_gates_def)

lemma queue_step_gated: "new_gated db (queue_step e db)"
proof -
  have "tasks (g_queue (sync_gates db)) = queue_rows db" "closed_gates (g_queue (sync_gates db)) = gate_closed db"
    by (simp_all add: sync_gates_def queue_rows_def)
  then show ?thesis
    using queue_exec_new[of _ e "g_queue (sync_gates db)"] unfolding new_gated_def queue_step_rows by simp
qed

lemma NewV7_frame:
  "gate_closed (db\<lparr>g_next := n\<rparr>) = gate_closed db" "queue_rows (db\<lparr>g_next := n\<rparr>) = queue_rows db"
  by (rule gate_frame; simp) (simp add: queue_rows_def)

lemma insert_task_gated: "gate_closed (insert_task env cp db) = gate_closed db" "new_gated db (insert_task env cp db)"
proof -
  show "gate_closed (insert_task env cp db) = gate_closed db" by (rule gate_frame) simp_all
  have "new_gated db (queue_step e (db\<lparr>g_next := n\<rparr>))" for e n
    using queue_step_gated[of "db\<lparr>g_next := n\<rparr>" e] by (simp add: new_gated_def NewV7_frame)
  then show "new_gated db (insert_task env cp db)"
    by (auto simp: insert_task_def NewV7_def new_gated_same split: option.split)
qed

lemma enqueue_admitted_gated:
  "gate_closed (enqueueAdmittedDependencyGraphIssue env i db) = gate_closed db"
  "new_gated db (enqueueAdmittedDependencyGraphIssue env i db)"
  by (cases env i db rule: enqueue_admitted_cases; simp add: insert_task_gated new_gated_same)+

section \<open>Waking\<close>

lemma status_distinct: "Todo \<noteq> Done" "InProgress \<noteq> Done" "Blocked \<noteq> Done" "StatusCancelled \<noteq> Done"
  by (simp_all add: status_defs)

lemma quiet_touch:
  "(\<And>r. P r \<Longrightarrow> effective db r \<noteq> Done) \<Longrightarrow> key \<in> {Todo, InProgress} \<Longrightarrow> quiet db P (touch_status now key)"
  by (auto simp: quiet_def status_distinct)

lemma promote_quiet:
  assumes "PromoteReadyDependencyGraphIssuesForPlan now ws p db = Some (rows, db')
    \<or> PromoteReadyDependencyGraphDependents now ws i db = Some (rows, db')
    \<or> PromoteReadyDependencyGraphIssuesForRuntime now rt db = Some (rows, db')"
  obtains P where "update_issues P (touch_status now Todo) db = Some (rows, db')" "quiet db P (touch_status now Todo)"
  using assms unfolding PromoteReadyDependencyGraphIssuesForPlan_def PromoteReadyDependencyGraphDependents_def
    PromoteReadyDependencyGraphIssuesForRuntime_def
  by (elim disjE) (erule that, rule quiet_touch; simp add: status_distinct)+

lemma admit_quiet:
  assumes "AdmitReadyDependencyGraphIssue now i ws db = Some (rows, db')"
  obtains P where "update_issues P (touch_status now InProgress) db = Some (rows, db')"
    "quiet db P (touch_status now InProgress)"
  using assms unfolding AdmitReadyDependencyGraphIssue_def
  by (rule that) (rule quiet_touch; simp add: status_distinct)

lemma quiet_rows: "update_issues P f db = Some (rows, db') \<Longrightarrow> queue_rows db' = queue_rows db"
  by (drule update_issues_frame(1)) (simp add: queue_rows_def)

text \<open>Transactions under which the gates stand still.\<close>

definition gates_still :: "graphdb \<Rightarrow> graphdb \<Rightarrow> bool" where
  "gates_still db db' \<longleftrightarrow> gate_closed db' = gate_closed db \<and> new_gated db db'"

lemma gates_still_refl [simp]: "gates_still db db"
  by (simp add: gates_still_def new_gated_same)

lemma gates_still_trans: "gates_still a b \<Longrightarrow> gates_still b c \<Longrightarrow> gates_still a c"
  unfolding gates_still_def by (metis new_gated_trans)

lemma quiet_still: "update_issues P f db = Some (rows, db') \<Longrightarrow> quiet db P f \<Longrightarrow> gates_still db db'"
  using quiet_gate(4) quiet_rows new_gated_same by (simp add: gates_still_def)

lemma admit_still: "gates_still db (admit_and_enqueue env i db)"
proof -
  have "gates_still db (enqueueAdmittedDependencyGraphIssue env a db')"
    if adm: "AdmitReadyDependencyGraphIssue now j ws db = Some (rows, db')" for a now j ws rows db'
  proof (rule gates_still_trans)
    show "gates_still db db'" using admit_quiet[OF adm] quiet_still by metis
    show "gates_still db' (enqueueAdmittedDependencyGraphIssue env a db')"
      by (simp add: gates_still_def enqueue_admitted_gated)
  qed
  then show ?thesis by (auto simp: admit_and_enqueue_def split: option.split list.split)
qed

lemma enqueue_ready_still: "gates_still db (enqueueReadyDependencyGraphIssueIDs env ids db)"
  unfolding enqueueReadyDependencyGraphIssueIDs_def
  by (induction ids arbitrary: db) (auto intro: gates_still_trans[OF admit_still])

lemma wake_still:
  "gates_still db (WakeDependencyGraphReadyTasks env ws p db)"
  "gates_still db (WakeDependencyGraphDependents env ws i db)"
  "gates_still db (reconcileDependencyTasksForRuntime env rt db)"
proof -
  have "gates_still db db1 \<Longrightarrow> gates_still db (enqueueReadyDependencyGraphIssueIDs env ids db1)" for db1 ids
    using gates_still_trans enqueue_ready_still by blast
  moreover have "gates_still db db1" if "PromoteReadyDependencyGraphIssuesForPlan now ws p db = Some (rows, db1)
    \<or> PromoteReadyDependencyGraphDependents now ws i db = Some (rows, db1)
    \<or> PromoteReadyDependencyGraphIssuesForRuntime now rt db = Some (rows, db1)" for now rows db1
    using promote_quiet[OF that] quiet_still by metis
  ultimately show "gates_still db (WakeDependencyGraphReadyTasks env ws p db)"
    "gates_still db (WakeDependencyGraphDependents env ws i db)"
    "gates_still db (reconcileDependencyTasksForRuntime env rt db)"
    unfolding WakeDependencyGraphReadyTasks_def WakeDependencyGraphDependents_def
      reconcileDependencyTasksForRuntime_def by (auto split: option.split) blast+
qed

section \<open>Every transaction\<close>

text \<open>Retiring a plan only cancels: the admitted rows were there before.\<close>

definition only_cancels :: "graphdb \<Rightarrow> graphdb \<Rightarrow> bool" where
  "only_cancels db db' \<longleftrightarrow>
     (\<forall>t' \<in> set (queue_rows db'). row_held (queue_rows db) t' \<or> status t' = Cancelled)"

lemma only_cancels_gated: "only_cancels db db' \<Longrightarrow> new_gated db db'"
  by (auto simp: only_cancels_def new_gated_def gate_rejects_def split: option.split)

lemma only_cancels_trans:
  assumes "only_cancels a b" and "only_cancels b c"
  shows "only_cancels a c"
  unfolding only_cancels_def
proof
  fix t assume "t \<in> set (queue_rows c)"
  with assms(2) consider "status t = Cancelled"
    | s where "s \<in> set (queue_rows b)" "task_id s = task_id t" "status s = status t" "issue_id s = issue_id t"
    by (auto simp: only_cancels_def row_held_def)
  then show "row_held (queue_rows a) t \<or> status t = Cancelled"
  proof cases
    case 2
    have "row_held (queue_rows a) s \<or> status s = Cancelled" using assms(1) 2(1) unfolding only_cancels_def by blast
    with 2(2-4) show ?thesis by (simp add: row_held_def)
  qed simp
qed

lemma cancel_rows: "only_cancels db (queue_step (QUpdate now (SCancelIssue i)) db)"
proof -
  have "tasks (g_queue (sync_gates db)) = queue_rows db" by (simp add: sync_gates_def queue_rows_def)
  then show ?thesis
    by (auto simp: only_cancels_def queue_step_rows exec_update_def in_update_where CancelAgentTasksByIssue_def
        cancel_set_def intro!: row_held_in)
qed

lemma cancel_fold_rows: "only_cancels db (fold (\<lambda>i. queue_step (QUpdate now (SCancelIssue i))) is db)"
proof (induction "is" arbitrary: db)
  case (Cons i "is")
  from only_cancels_trans[OF cancel_rows Cons] show ?case by simp
qed (auto simp: only_cancels_def)

lemma cancel_issues_rows: "cancel_issues now ws is db = Inr db' \<Longrightarrow> queue_rows db' = queue_rows db"
proof (induction now ws "is" db rule: cancel_issues.induct)
  case (2 now ws i "is" db)
  then obtain r rows db1 where 1: "UpdateIssueStatus now i StatusCancelled ws db = Some (r # rows, db1)"
    "cancel_issues now ws is db1 = Inr db'" by (auto split: option.splits list.splits prod.splits)
  from 1(1) have "queue_rows db1 = queue_rows db" unfolding UpdateIssueStatus_def by (rule quiet_rows)
  with 1 2 show ?case by simp
qed simp

lemma retire_rows:
  assumes "RetireDependencyGraph now p ws db = Inr db'"
  shows "only_cancels db db'"
proof -
  obtain db1 where c: "cancelDependencyGraphChildren now ws (ListDependencyGraphNodesByPlan p ws db) db = Inr db1"
    and db': "db' = UpdateDependencyGraphPlanStatus now p ws PlanCancelled db1"
    using assms by (auto simp: RetireDependencyGraph_def split: option.splits if_splits sum.splits)
  have "queue_rows db' = queue_rows db1" by (simp add: db' UpdateDependencyGraphPlanStatus_def queue_rows_def)
  moreover obtain "is" where "cancel_issues now ws is (fold (\<lambda>i. queue_step (QUpdate now (SCancelIssue i))) is db) = Inr db1"
    using c unfolding cancelDependencyGraphChildren_def Let_def by blast
  ultimately have "queue_rows db' = queue_rows (fold (\<lambda>i. queue_step (QUpdate now (SCancelIssue i))) is db)"
    using cancel_issues_rows by simp
  with cancel_fold_rows show ?thesis unfolding only_cancels_def by simp
qed

lemma step_gated:
  assumes "graph_step co db db'"
  shows "new_gated db db'"
  using assms
proof cases
  case (apply_plan raw waves input assignments now parent ws limit key hash plan)
  from apply_stores[OF apply_plan(1,2,4)] obtain rs ns fs where "stored_plan raw waves plan rs ns fs db db'" .
  then show ?thesis by (intro new_gated_same) (simp add: stored_plan_def queue_rows_def)
next
  case (retire now plan ws)
  then show ?thesis by (intro only_cancels_gated retire_rows)
next
  case (delete_issue i ws)
  then show ?thesis by (intro new_gated_same) (auto simp: DeleteIssue_def queue_rows_def Let_def)
next
  case (create_issue i db1 row)
  then show ?thesis
    by (intro new_gated_same) (auto simp: NewV7_def CreateIssue_def queue_rows_def split: if_splits)
next
  case (edit_issue i ttl st pr et ei rv la now rows)
  from quiet_rows[OF edit_issue(1)] show ?thesis by (simp add: new_gated_same)
next
  case (queue e)
  then show ?thesis by (simp add: queue_step_gated)
next
  case (attention now ws prerequisite why)
  then show ?thesis
    by (simp add: FlagDependencyGraphAttention_def MarkDependencyGraphAttentionForPrerequisite_def Let_def
        new_gated_same queue_rows_def)
qed (use wake_still in \<open>auto simp: gates_still_def intro: new_gated_same simp: queue_rows_def\<close>)

text \<open>An open gate, read on a well-formed graph.\<close>

lemma issue_unique:
  "graph_wf db \<Longrightarrow> r \<in> set (g_issues db) \<Longrightarrow> s \<in> set (g_issues db) \<Longrightarrow> is_id r = is_id s \<Longrightarrow> r = s"
  unfolding graph_wf_def ids_distinct_def by (blast intro: distinct_key_eq)

lemma edge_workspace:
  assumes "graph_wf db" and "e \<in> set (g_edges db)" and "r \<in> set (g_issues db)" and "ed_to e = is_id r"
  shows "ed_workspace e = is_workspace r"
proof -
  have "edge_ok db e" using assms(1,2) by (simp add: graph_wf_def)
  then obtain n where n: "n \<in> set (g_nodes db)" "nd_issue n = ed_to e" "nd_workspace n = ed_workspace e"
    unfolding edge_ok_def by auto
  then obtain s where "s \<in> set (g_issues db)" "is_id s = nd_issue n" "is_workspace s = nd_workspace n"
    using assms(1) unfolding graph_wf_def node_ok_def by blast
  with n assms(3,4) issue_unique[OF assms(1)] show ?thesis by metis
qed

lemma open_gate:
  assumes "graph_wf db" and "\<not> gate_closed db i"
  shows "\<exists>r \<in> set (g_issues db). is_id r = i"
    and "e \<in> set (g_edges db) \<Longrightarrow> ed_to e = i \<Longrightarrow> plan_active db (ed_plan e) (ed_workspace e)
      \<Longrightarrow> issue_done db (ed_from e) (ed_workspace e)"
proof -
  obtain r where r: "GetIssue db i = Some r" "dependency_graph_issue_gate_open db (is_workspace r) i"
    using assms(2) by (auto simp: gate_closed_def split: option.splits)
  from find_Some_in[OF r(1)[unfolded GetIssue_def]] have rin: "r \<in> set (g_issues db)" "is_id r = i" by auto
  then show "\<exists>r \<in> set (g_issues db). is_id r = i" by blast
  show "issue_done db (ed_from e) (ed_workspace e)"
    if e: "e \<in> set (g_edges db)" "ed_to e = i" "plan_active db (ed_plan e) (ed_workspace e)"
    using r(2) e edge_workspace[OF assms(1) e(1) rin(1)] rin(2)
    by (auto simp: dependency_graph_issue_gate_open_def list_ex_iff)
qed

section \<open>No gated task becomes active\<close>

text \<open>
  C39: No task of a gated issue becomes active. Whatever transaction a reachable database runs (applying or
  retiring a plan, waking it, a claim, a retry, a manual rerun or any other statement of the task queue,
  a user's edit), a task row it leaves queued, deferred, dispatched, running or waiting for its directory
  was in that status before, or its issue exists and every prerequisite that an active plan gives the
  issue is effectively done.
\<close>

theorem gated_tasks_stay_inactive:
  assumes "reachable_graph co db" and "graph_step co db db'"
    and "t' \<in> set (tasks (g_queue db'))" and "issue_id t' = Some i"
    and "status t' \<in> {Queued, Deferred, Dispatched, Running, WaitingLocalDirectory}"
  shows "(\<exists>t \<in> set (tasks (g_queue db)). task_id t = task_id t' \<and> issue_id t = Some i \<and> status t = status t')
    \<or> ((\<exists>r \<in> set (g_issues db'). is_id r = i)
       \<and> (\<forall>e \<in> set (g_edges db'). ed_to e = i \<longrightarrow> plan_active db' (ed_plan e) (ed_workspace e)
            \<longrightarrow> (\<exists>r \<in> set (g_issues db'). is_id r = ed_from e \<and> is_workspace r = ed_workspace e
                    \<and> effective db' r = Done)))"
proof -
  have wf: "graph_wf db'" using wf_step[OF assms(2) wf_reachable[OF assms(1)]] .
  from step_gated[OF assms(2)] assms(3)
  consider "row_held (queue_rows db) t'" | "\<not> gate_rejects (gate_closed db') t'"
    by (auto simp: new_gated_def queue_rows_def)
  then show ?thesis
  proof cases
    case 1
    with assms(4) show ?thesis by (auto simp: row_held_def queue_rows_def)
  next
    case 2
    with assms(4,5) have "\<not> gate_closed db' i" by (simp add: gate_rejects_def)
    note open_gate[OF wf this]
    then show ?thesis by (auto simp: issue_done_def list_ex_iff)
  qed
qed

definition demo_finished :: graphdb where
  "demo_finished = (case update_issues (\<lambda>r. is_id r = 4)
      (\<lambda>r. r\<lparr>is_title := ''a'', is_status := Done, is_priority := ''none'', is_executor_type := None, is_executor_id := None,
             is_revision := 3, is_last_activity := Some 30, is_updated_at := 30\<rparr>) demo_woken of
     None \<Rightarrow> demo_woken | Some (rows, db) \<Rightarrow> db)"

definition demo_next :: graphdb where
  "demo_next = WakeDependencyGraphDependents demo_wake 0 4 demo_finished"

lemma demo_finished_reachable: "reachable_graph demo_graph_codec demo_finished"
proof -
  let ?u = "update_issues (\<lambda>r. is_id r = 4)
      (\<lambda>r. r\<lparr>is_title := ''a'', is_status := Done, is_priority := ''none'', is_executor_type := None, is_executor_id := None,
             is_revision := 3, is_last_activity := Some 30, is_updated_at := 30\<rparr>) demo_woken"
  have "?u \<noteq> None" by code_simp
  then obtain rows db where u: "?u = Some (rows, db)" by fast
  have "demo_finished = db" by (simp add: demo_finished_def u)
  with u have "graph_step demo_graph_codec demo_woken demo_finished" by (simp only:) (rule graph_step.edit_issue)
  moreover have "graph_step demo_graph_codec demo_applied demo_woken" unfolding demo_woken_def by (rule graph_step.wake)
  ultimately show ?thesis
    using demo_applied_reachable unfolding reachable_graph_def by (meson rtranclp.rtrancl_into_rtrancl)
qed

text \<open>Task \<open>b\<close> (issue 6) starts once \<open>a\<close> (issue 4) is done.\<close>

theorem gated_tasks_stay_inactive_witness:
  "map issue_id (tasks (g_queue demo_finished)) = [Some 4]
   \<and> map issue_id (tasks (g_queue demo_next)) = [Some 4, Some 6]
   \<and> (\<exists>r \<in> set (g_issues demo_next). is_id r = 4 \<and> effective demo_next r = Done)"
proof -
  let ?t = "last (tasks (g_queue demo_next))" and ?e = "hd (g_edges demo_next)"
  have step: "graph_step demo_graph_codec demo_finished demo_next" unfolding demo_next_def by (rule graph_step.wake_dependents)
  have t: "?t \<in> set (tasks (g_queue demo_next))" "issue_id ?t = Some 6"
    "status ?t \<in> {Queued, Deferred, Dispatched, Running, WaitingLocalDirectory}"
    "map issue_id (tasks (g_queue demo_finished)) = [Some 4]"
    "map issue_id (tasks (g_queue demo_next)) = [Some 4, Some 6]"
    "\<not> list_ex (\<lambda>s. issue_id s = Some 6) (tasks (g_queue demo_finished))" by code_simp+
  have e: "?e \<in> set (g_edges demo_next)" "ed_to ?e = 6" "ed_from ?e = 4"
    "plan_active demo_next (ed_plan ?e) (ed_workspace ?e)" by code_simp+
  from gated_tasks_stay_inactive[OF demo_finished_reachable step t(1-3)] t(6) e
  have "\<exists>r \<in> set (g_issues demo_next). is_id r = ed_from ?e \<and> is_workspace r = ed_workspace ?e \<and> effective demo_next r = Done"
    unfolding list_ex_iff by metis
  with e(3) t(4,5) show ?thesis by auto
qed

end
