(* ===== verification/GraphProgress.thy ===== *)
theory GraphProgress
  imports GraphGate
begin

text \<open>
  How far one wake of a plan gets: it promotes every blocked issue whose gate is open, and admits every
  ready one; and an unfinished plan always has an issue whose prerequisites are done. Property C40.
\<close>

section \<open>Admission\<close>

definition staffed_issue :: "graph_issue \<Rightarrow> bool" where
  "staffed_issue r \<longleftrightarrow> is_executor_type r \<in> {Some ''agent'', Some ''team''} \<and> is_executor_id r \<noteq> None"

lemma runnable_staffed: "runnable_executor db r \<Longrightarrow> staffed_issue r"
  by (auto simp: runnable_executor_def staffed_issue_def live_team_def dest!: find_Some_in)

lemma guard_touch:
  "staffed_issue r \<or> \<not> RequiresExecutor key \<Longrightarrow> key \<in> set canonicalOrder
     \<Longrightarrow> enforce_issue_active_executor db (touch_status now key r) = None"
  by (auto simp: enforce_issue_active_executor_def touch_status_def staffed_issue_def)

lemma update_issues_accepts:
  "(\<And>r. r \<in> set (g_issues db) \<Longrightarrow> P r \<Longrightarrow> enforce_issue_active_executor db (f r) = None)
     \<Longrightarrow> update_issues P f db = Some (map f (filter P (g_issues db)), db\<lparr>g_issues := update_where P f (g_issues db)\<rparr>)"
  by (auto simp: update_issues_def Let_def list_ex_iff)

lemma AdmitReady_result:
  "AdmitReadyDependencyGraphIssue now i ws db =
     (let P = (\<lambda>r. is_id r = i \<and> is_workspace r = ws \<and> effective db r = Todo \<and> staffed_issue r
                    \<and> dependency_graph_issue_gate_open db (is_workspace r) (is_id r));
          f = touch_status now InProgress
      in Some (map f (filter P (g_issues db)), db\<lparr>g_issues := update_where P f (g_issues db)\<rparr>))"
proof -
  have key: "InProgress \<in> set canonicalOrder" by (simp add: canonicalOrder_def)
  show ?thesis
    unfolding AdmitReadyDependencyGraphIssue_def Let_def staffed_issue_def conj_assoc
    by (rule update_issues_accepts, rule guard_touch[OF _ key]) (simp add: staffed_issue_def)
qed

section \<open>The loop over the ready issues\<close>

text \<open>From \<open>d\<close> to \<open>d'\<close> only the issues \<open>ids\<close> may have been admitted, and every one that could be was.\<close>

definition advanced :: "uuid list \<Rightarrow> graphdb \<Rightarrow> graphdb \<Rightarrow> bool" where
  "advanced ids d d' \<longleftrightarrow>
     g_teams d' = g_teams d \<and> g_workspaces d' = g_workspaces d \<and> same_graph d d'
     \<and> issue_done d' = issue_done d \<and> plan_active d' = plan_active d
     \<and> dependency_graph_issue_gate_open d' = dependency_graph_issue_gate_open d
     \<and> set (queue_rows d) \<subseteq> set (queue_rows d')
     \<and> (\<forall>r \<in> set (g_issues d'). r \<in> set (g_issues d) \<or> effective d r = InProgress)
     \<and> (\<forall>r \<in> set (g_issues d'). is_id r \<in> set ids \<longrightarrow> staffed_issue r
          \<longrightarrow> dependency_graph_issue_gate_open d (is_workspace r) (is_id r) \<longrightarrow> effective d r \<noteq> Todo)"

lemma advanced_refl: "advanced [] d d"
  by (simp add: advanced_def)

lemma advanced_trans:
  assumes "advanced xs a b" and "advanced ys b c"
  shows "advanced (xs @ ys) a c"
proof -
  note ab = assms(1)[unfolded advanced_def] and bc = assms(2)[unfolded advanced_def]
  have eff: "effective b = effective a" using ab by (intro effective_frame) simp
  have "same_graph a c" using ab bc same_graph_trans by blast
  moreover have "r \<in> set (g_issues a) \<or> effective a r = InProgress" if "r \<in> set (g_issues c)" for r
    using bc ab that eff by metis
  moreover have "effective a r \<noteq> Todo"
    if r: "r \<in> set (g_issues c)" "is_id r \<in> set (xs @ ys)" "staffed_issue r"
      "dependency_graph_issue_gate_open a (is_workspace r) (is_id r)" for r
  proof (cases "is_id r \<in> set ys")
    case True
    with bc r ab eff show ?thesis by metis
  next
    case False
    with r(2) have "is_id r \<in> set xs" by simp
    moreover have "r \<in> set (g_issues b) \<or> effective a r = InProgress" using bc r(1) eff by metis
    ultimately show ?thesis using ab r by (auto simp: status_defs)
  qed
  ultimately show ?thesis using ab bc unfolding advanced_def by auto
qed

lemma queue_step_create: "set (queue_rows db) \<subseteq> set (queue_rows (queue_step (QCreate now i cp alive) db))"
proof -
  have "tasks (g_queue (sync_gates db)) = queue_rows db" by (simp add: sync_gates_def queue_rows_def)
  moreover have "set (tasks (g_queue (sync_gates db)))
      \<subseteq> set (tasks (queue_exec (QCreate now i cp alive) (g_queue (sync_gates db))))"
    using admit_keeps[OF create_keeps] by simp
  ultimately show ?thesis by (simp add: queue_step_rows)
qed

lemma enqueue_keeps_rows:
  "set (queue_rows db) \<subseteq> set (queue_rows (enqueueAdmittedDependencyGraphIssue env r db))"
proof -
  have "set (queue_rows db) \<subseteq> set (queue_rows (insert_task env cp db))" for cp
    using queue_step_create[of "db\<lparr>g_next := n\<rparr>" for n]
    by (auto simp: insert_task_def NewV7_def queue_rows_def split: option.split)
  then show ?thesis by (cases env r db rule: enqueue_admitted_cases) auto
qed

lemma enqueue_advanced: "advanced [] d (enqueueAdmittedDependencyGraphIssue env r d)"
proof -
  note gate_frame[of "enqueueAdmittedDependencyGraphIssue env r d" d]
  then show ?thesis
    using enqueue_keeps_rows[of d env r]
    by (simp add: advanced_def same_graph_frame)
qed

lemma admit_advanced:
  assumes "graph_wf d"
  shows "advanced [i] d (admit_and_enqueue env i d)"
proof (cases "GetIssue d i")
  case None
  then have "\<not> (\<exists>r \<in> set (g_issues d). is_id r = i)" by (auto simp: GetIssue_def find_None_iff)
  then show ?thesis by (auto simp: admit_and_enqueue_def None advanced_def)
next
  case (Some issue)
  from find_Some_in[OF Some[unfolded GetIssue_def]] have iss: "issue \<in> set (g_issues d)" "is_id issue = i" by auto
  let ?now = "wk_now env" and ?ws = "is_workspace issue"
  let ?P = "\<lambda>r. is_id r = i \<and> is_workspace r = ?ws \<and> effective d r = Todo \<and> staffed_issue r
      \<and> dependency_graph_issue_gate_open d (is_workspace r) (is_id r)"
  let ?f = "touch_status ?now InProgress"
  let ?d = "d\<lparr>g_issues := update_where ?P ?f (g_issues d)\<rparr>"
  have adm: "AdmitReadyDependencyGraphIssue ?now i ?ws d = Some (map ?f (filter ?P (g_issues d)), ?d)"
    unfolding AdmitReady_result Let_def by (rule refl)
  have upd: "update_issues ?P ?f d = Some (map ?f (filter ?P (g_issues d)), ?d)"
    by (rule update_issues_accepts) (simp add: guard_touch canonicalOrder_def)
  have "quiet d ?P ?f" by (rule quiet_touch) (auto simp: status_distinct)
  note still = quiet_gate[OF upd this]
  have "advanced [i] d ?d"
    unfolding advanced_def
  proof (intro conjI ballI impI)
    show "same_graph d ?d" by (rule update_issues_same[OF upd]) simp
    fix r assume r: "r \<in> set (g_issues ?d)"
    then obtain s where s: "s \<in> set (g_issues d)" "r = (if ?P s then ?f s else s)" by (auto simp: in_update_where)
    then show "r \<in> set (g_issues d) \<or> effective d r = InProgress" by auto
    assume idr: "is_id r \<in> set [i]" and st: "staffed_issue r"
      and gate: "dependency_graph_issue_gate_open d (is_workspace r) (is_id r)"
    show "effective d r \<noteq> Todo"
    proof (cases "?P s")
      case True
      have "r = ?f s" unfolding s(2) by (rule if_P[OF True])
      then have "effective d r = InProgress" by simp
      then show ?thesis by (simp add: status_defs)
    next
      case False
      have "r = s" unfolding s(2) by (rule if_not_P[OF False])
      with idr issue_unique[OF assms s(1) iss(1)] iss(2) have "s = issue" by simp
      with False \<open>r = s\<close> idr st gate iss(2) show ?thesis by simp
    qed
  qed (use still in \<open>simp_all add: queue_rows_def\<close>)
  then have e: "advanced [i] d (enqueueAdmittedDependencyGraphIssue env a ?d)" for a
    using advanced_trans[OF _ enqueue_advanced] by fastforce
  show ?thesis
  proof (cases "filter ?P (g_issues d)")
    case Nil
    then have "?d = d" by (simp add: update_where_none filter_empty_conv)
    with \<open>advanced [i] d ?d\<close> Nil show ?thesis by (simp add: admit_and_enqueue_def Some iss(2) adm)
  next
    case (Cons s ss)
    then have "s \<in> set (filter ?P (g_issues d))" by (simp only: list.set_intros(1))
    then have s: "s \<in> set (g_issues d)" "?P s" unfolding set_filter mem_Collect_eq by blast+
    then have "?f s \<in> set (g_issues ?d)" by (auto simp: in_update_where)
    moreover have "is_id (?f s) = i \<and> is_workspace (?f s) = ?ws" using s(2) by (simp add: touch_status_def)
    ultimately have "GetIssueInWorkspace ?d i ?ws \<noteq> None"
      unfolding GetIssueInWorkspace_def find_None_iff by blast
    with e Cons show ?thesis by (auto simp: admit_and_enqueue_def Some iss(2) adm)
  qed
qed

lemma loop_advanced: "graph_wf d \<Longrightarrow> advanced ids d (enqueueReadyDependencyGraphIssueIDs env ids d)"
  unfolding enqueueReadyDependencyGraphIssueIDs_def
proof (induction ids arbitrary: d)
  case (Cons i ids)
  have "graph_wf (admit_and_enqueue env i d)" by (rule wf_same_graph[OF Cons.prems admit_same])
  from advanced_trans[OF admit_advanced[OF Cons.prems] Cons.IH[OF this]] show ?case by simp
qed (simp add: advanced_refl)

section \<open>One wake\<close>

lemma promote_plan:
  assumes "graph_wf db" and "q \<in> set (g_plans db)" and "pl_status q = PlanActive"
  obtains rows d where "PromoteReadyDependencyGraphIssuesForPlan now (pl_workspace q) (pl_id q) db = Some (rows, d)"
    "same_graph db d" "g_workspaces d = g_workspaces db"
    "dependency_graph_issue_gate_open d = dependency_graph_issue_gate_open db" "plan_active d = plan_active db"
    "\<And>n r. n \<in> set (g_nodes db) \<Longrightarrow> nd_plan n = pl_id q \<Longrightarrow> nd_workspace n = pl_workspace q
       \<Longrightarrow> r \<in> set (g_issues d) \<Longrightarrow> is_id r = nd_issue n \<Longrightarrow> is_workspace r = pl_workspace q
       \<Longrightarrow> dependency_graph_issue_gate_open db (pl_workspace q) (is_id r) \<Longrightarrow> effective db r \<noteq> Blocked"
proof -
  let ?ws = "pl_workspace q" and ?f = "touch_status now Todo"
  let ?P = "\<lambda>target. is_workspace target = ?ws \<and> effective db target = Blocked
      \<and> list_ex (\<lambda>n. plan_active db (nd_plan n) (nd_workspace n)
           \<and> nd_plan n = pl_id q \<and> nd_workspace n = ?ws \<and> nd_issue n = is_id target) (g_nodes db)
      \<and> dependency_graph_issue_gate_open db ?ws (is_id target)"
  let ?d = "db\<lparr>g_issues := update_where ?P ?f (g_issues db)\<rparr>"
  have upd: "update_issues ?P ?f db = Some (map ?f (filter ?P (g_issues db)), ?d)"
    by (rule update_issues_accepts, rule guard_touch) (simp_all add: RequiresExecutor_def canonicalOrder_def status_defs)
  have "quiet db ?P ?f" by (rule quiet_touch) (auto simp: status_distinct)
  note still = quiet_gate[OF upd this]
  have act: "plan_active db (pl_id q) ?ws" using assms(2,3) by (auto simp: plan_active_def list_ex_iff)
  show thesis
  proof (rule that[of _ ?d])
    show "PromoteReadyDependencyGraphIssuesForPlan now ?ws (pl_id q) db = Some (map ?f (filter ?P (g_issues db)), ?d)"
      unfolding PromoteReadyDependencyGraphIssuesForPlan_def by (rule upd)
    show "same_graph db ?d" by (rule update_issues_same[OF upd]) simp
    fix n r assume n: "n \<in> set (g_nodes db)" "nd_plan n = pl_id q" "nd_workspace n = ?ws"
      and r: "r \<in> set (g_issues ?d)" "is_id r = nd_issue n" "is_workspace r = ?ws"
        "dependency_graph_issue_gate_open db ?ws (is_id r)"
    from r(1) obtain s where s: "s \<in> set (g_issues db)" "r = (if ?P s then ?f s else s)" by (auto simp: in_update_where)
    show "effective db r \<noteq> Blocked"
    proof (cases "?P s")
      case True
      then have "effective db r = Todo" unfolding s(2) by simp
      then show ?thesis by (simp add: status_defs)
    next
      case False
      then have "r = s" by (subst s(2)) (rule if_not_P)
      then have "list_ex (\<lambda>n. plan_active db (nd_plan n) (nd_workspace n)
           \<and> nd_plan n = pl_id q \<and> nd_workspace n = ?ws \<and> nd_issue n = is_id s) (g_nodes db)"
        using n act r(2) unfolding list_ex_iff by (intro bexI[of _ n]) simp_all
      with False r(3,4) \<open>r = s\<close> show ?thesis by blast
    qed
  qed (use still in simp_all)
qed

lemma in_ready_issues:
  assumes "n \<in> set (g_nodes db)" and "r \<in> set (g_issues db)" and "is_id r = nd_issue n"
    and "is_workspace r = nd_workspace n" and "keep n r" and "plan_active db (nd_plan n) (nd_workspace n)"
    and "runnable_executor db r" and "effective db r = Todo" and "\<not> has_pending db r"
    and "dependency_graph_issue_gate_open db (is_workspace r) (is_id r)"
  shows "is_id r \<in> set (ready_issues keep db)"
proof -
  have "(n, r) \<in> set (filter (\<lambda>(n, i). plan_active db (nd_plan n) (nd_workspace n)
              \<and> is_id i = nd_issue n \<and> is_workspace i = nd_workspace n \<and> keep n i
              \<and> runnable_executor db i \<and> effective db i = Todo
              \<and> dependency_graph_issue_gate_open db (is_workspace i) (is_id i)
              \<and> \<not> has_pending db i)
           (List.product (g_nodes db) (g_issues db)))" using assms by simp
  then show ?thesis unfolding ready_issues_def by (force simp: image_iff)
qed

lemma advanced_pending:
  assumes "advanced ids d d'"
  shows "runnable_executor d' r = runnable_executor d r" "has_pending d r \<Longrightarrow> has_pending d' r"
  using assms
  by (auto simp: advanced_def runnable_executor_def has_pending_def executing_agent_def live_team_def
      queue_rows_def list_ex_iff)

lemma wake_exhausts:
  assumes wf: "graph_wf db" and q: "q \<in> set (g_plans db)" "pl_status q = PlanActive"
    and d_def: "d = WakeDependencyGraphReadyTasks env (pl_workspace q) (pl_id q) db"
    and n: "n \<in> set (g_nodes d)" "nd_plan n = pl_id q" and r: "r \<in> set (g_issues d)" "is_id r = nd_issue n"
    and gate: "\<not> gate_closed d (is_id r)"
  shows "effective d r \<noteq> Blocked \<and> \<not> (effective d r = Todo \<and> runnable_executor d r \<and> \<not> has_pending d r)"
proof -
  let ?ws = "pl_workspace q"
  from promote_plan[OF wf q, of "wk_now env"] obtain rows d1 where
    d1: "PromoteReadyDependencyGraphIssuesForPlan (wk_now env) ?ws (pl_id q) db = Some (rows, d1)"
      "same_graph db d1" "g_workspaces d1 = g_workspaces db"
      "dependency_graph_issue_gate_open d1 = dependency_graph_issue_gate_open db" "plan_active d1 = plan_active db"
    and promoted: "\<And>n r. n \<in> set (g_nodes db) \<Longrightarrow> nd_plan n = pl_id q \<Longrightarrow> nd_workspace n = ?ws
       \<Longrightarrow> r \<in> set (g_issues d1) \<Longrightarrow> is_id r = nd_issue n \<Longrightarrow> is_workspace r = ?ws
       \<Longrightarrow> dependency_graph_issue_gate_open db ?ws (is_id r) \<Longrightarrow> effective db r \<noteq> Blocked" by metis
  let ?ids = "ListReadyDependencyGraphIssueIDsForPlan ?ws (pl_id q) d1"
  have d: "d = enqueueReadyDependencyGraphIssueIDs env ?ids d1"
    by (simp add: d_def WakeDependencyGraphReadyTasks_def d1(1))
  have wf1: "graph_wf d1" by (rule wf_same_graph[OF wf d1(2)])
  have adv: "advanced ?ids d1 d" unfolding d by (rule loop_advanced[OF wf1])
  note a = adv[unfolded advanced_def]
  have wfd: "graph_wf d" by (rule wf_same_graph[OF wf1]) (use a in blast)
  have eff: "effective d1 = effective db" "effective d = effective db"
    using d1(3) a by (auto intro!: effective_frame)
  have nodes: "g_nodes d1 = g_nodes db" "g_nodes d = g_nodes db" using d1(2) a by (auto simp: same_graph_def)
  have nws: "nd_workspace n = ?ws"
  proof -
    have "node_ok db n" using wf n(1) nodes by (simp add: graph_wf_def)
    then obtain p where "p \<in> set (g_plans db)" "pl_id p = nd_plan n" "pl_workspace p = nd_workspace n"
      by (auto simp: node_ok_def)
    moreover have "distinct (map pl_id (g_plans db))" using wf by (simp add: graph_wf_def ids_distinct_def)
    ultimately show ?thesis using q(1) n(2) distinct_key_eq by metis
  qed
  have rws: "is_workspace r = ?ws"
  proof -
    have "node_ok d n" using wfd n(1) by (simp add: graph_wf_def)
    then obtain s where "s \<in> set (g_issues d)" "is_id s = nd_issue n" "is_workspace s = nd_workspace n"
      by (auto simp: node_ok_def)
    with issue_unique[OF wfd] r nws show ?thesis by metis
  qed
  have opn: "dependency_graph_issue_gate_open db ?ws (is_id r)"
  proof -
    obtain s where s: "GetIssue d (is_id r) = Some s" "dependency_graph_issue_gate_open d (is_workspace s) (is_id r)"
      using gate by (auto simp: gate_closed_def split: option.splits)
    from find_Some_in[OF s(1)[unfolded GetIssue_def]] issue_unique[OF wfd] r(1) have "s = r" by metis
    with s(2) rws a d1(4) show ?thesis by simp
  qed
  show ?thesis
  proof (cases "r \<in> set (g_issues d1)")
    case False
    with a r(1) eff have "effective d r = InProgress" by metis
    then show ?thesis by (simp add: status_defs)
  next
    case True
    have "effective d r \<noteq> Blocked"
      using promoted[OF _ n(2) nws True r(2) rws opn] n(1) nodes eff by simp
    moreover have False if ready: "effective d r = Todo" "runnable_executor d r" "\<not> has_pending d r"
    proof -
      have "is_id r \<in> set ?ids"
        unfolding ListReadyDependencyGraphIssueIDsForPlan_def
      proof (rule in_ready_issues[OF _ True r(2)])
        show "plan_active d1 (nd_plan n) (nd_workspace n)"
          using q d1(5) n(2) nws by (auto simp: plan_active_def list_ex_iff)
        show "runnable_executor d1 r" "\<not> has_pending d1 r" using advanced_pending[OF adv] ready by blast+
      qed (use n nodes nws rws eff ready opn d1(4) in simp_all)
      with a r(1) ready(1) runnable_staffed[OF ready(2)] opn rws d1(4) eff show False by metis
    qed
    ultimately show ?thesis by blast
  qed
qed

section \<open>A plan never deadlocks\<close>

lemma undone_open:
  assumes wf: "graph_wf d" and some: "n \<in> set (g_nodes d)" "nd_plan n = p" "\<not> issue_done d (nd_issue n) (nd_workspace n)"
  obtains m where "m \<in> set (g_nodes d)" "nd_plan m = p" "\<not> issue_done d (nd_issue m) (nd_workspace m)"
    "\<not> gate_closed d (nd_issue m)"
proof -
  let ?U = "\<lambda>n. n \<in> set (g_nodes d) \<and> nd_plan n = p \<and> \<not> issue_done d (nd_issue n) (nd_workspace n)"
  obtain m where m: "?U m" and least: "\<And>n. ?U n \<Longrightarrow> nat (nd_wave m) \<le> nat (nd_wave n)"
    using ex_has_least_nat[of ?U n "\<lambda>n. nat (nd_wave n)"] some by blast
  have "node_ok d m" using wf m by (simp add: graph_wf_def)
  then obtain r where r: "r \<in> set (g_issues d)" "is_id r = nd_issue m" "is_workspace r = nd_workspace m"
    by (auto simp: node_ok_def)
  have "GetIssue d (nd_issue m) \<noteq> None" using r by (auto simp: GetIssue_def find_None_iff)
  then obtain s where s: "GetIssue d (nd_issue m) = Some s" by blast
  from find_Some_in[OF s[unfolded GetIssue_def]] issue_unique[OF wf] r have "s = r" by metis
  have "issue_done d (ed_from e) (ed_workspace e)" if e: "e \<in> set (g_edges d)" "ed_to e = nd_issue m" for e
  proof (rule ccontr)
    assume undone: "\<not> issue_done d (ed_from e) (ed_workspace e)"
    have "edge_ok d e" using wf e(1) by (simp add: graph_wf_def)
    then obtain a b where ab: "a \<in> set (g_nodes d)" "b \<in> set (g_nodes d)" "nd_plan a = ed_plan e" "nd_plan b = ed_plan e"
      "nd_issue a = ed_from e" "nd_issue b = ed_to e" "nd_wave a < nd_wave b" "nd_workspace a = ed_workspace e"
      unfolding edge_ok_def Bex_def in_plan_nodes by blast
    have "distinct (map nd_issue (g_nodes d))" using wf by (simp add: graph_wf_def ids_distinct_def)
    from distinct_key_eq[OF this ab(2) conjunct1[OF m]] ab(6) e(2) have "b = m" by simp
    with ab undone m have "?U a" by simp
    note least[OF this]
    moreover have "0 \<le> nd_wave a" using wf ab(1) by (auto simp: graph_wf_def node_ok_def)
    ultimately have "nd_wave m \<le> nd_wave a" by (simp add: nat_le_eq_zle)
    with ab(7) \<open>b = m\<close> show False by simp
  qed
  then have "\<not> gate_closed d (nd_issue m)"
    by (auto simp: gate_closed_def s dependency_graph_issue_gate_open_def list_ex_iff)
  with m that show thesis by blast
qed

text \<open>
  C40: One wake of an active plan, in any reachable database, leaves nothing waiting that could run: an
  issue of the plan whose prerequisites are all done is no longer blocked, and if it is still to do then
  it has no runnable executor or a task of its executor is pending. And an unfinished plan never
  deadlocks: it has an unfinished issue whose prerequisites are all done.
\<close>

theorem wake_leaves_nothing_ready:
  assumes "reachable_graph co db" and "q \<in> set (g_plans db)" and "pl_status q = PlanActive"
    and "d = WakeDependencyGraphReadyTasks env (pl_workspace q) (pl_id q) db"
  shows "(\<forall>n \<in> set (g_nodes d). \<forall>r \<in> set (g_issues d).
            nd_plan n = pl_id q \<longrightarrow> is_id r = nd_issue n \<longrightarrow> \<not> gate_closed d (is_id r) \<longrightarrow>
              effective d r \<noteq> Blocked
              \<and> (effective d r = Todo \<longrightarrow> \<not> runnable_executor d r \<or> has_pending d r))
    \<and> ((\<exists>n \<in> set (g_nodes d). nd_plan n = pl_id q \<and> \<not> issue_done d (nd_issue n) (nd_workspace n)) \<longrightarrow>
       (\<exists>n \<in> set (g_nodes d). nd_plan n = pl_id q \<and> \<not> issue_done d (nd_issue n) (nd_workspace n)
          \<and> \<not> gate_closed d (nd_issue n)))"
proof -
  have wf: "graph_wf db" by (rule wf_reachable[OF assms(1)])
  have wfd: "graph_wf d" using wf_same_graph[OF wf] wake_same(1) assms(4) by blast
  note wake_exhausts[OF wf assms(2-4)]
  moreover note undone_open[OF wfd]
  ultimately show ?thesis by blast
qed

theorem wake_leaves_nothing_ready_witness:
  "\<not> gate_closed demo_woken 4 \<and> effective demo_woken (the (GetIssue demo_woken 4)) \<notin> {Blocked, Todo}"
proof -
  let ?q = "hd (g_plans demo_applied)" and ?r = "the (GetIssue demo_woken 4)"
    and ?n = "the (find (\<lambda>n. nd_issue n = 4) (g_nodes demo_woken))"
  have q: "?q \<in> set (g_plans demo_applied)" "pl_status ?q = PlanActive" "pl_workspace ?q = 0" "pl_id ?q = 1" by code_simp+
  have n: "?n \<in> set (g_nodes demo_woken)" "?r \<in> set (g_issues demo_woken)" "nd_plan ?n = 1" "is_id ?r = nd_issue ?n"
    "is_id ?r = 4" "\<not> gate_closed demo_woken 4" "effective demo_woken ?r \<noteq> Todo" by code_simp+
  have "demo_woken = WakeDependencyGraphReadyTasks demo_wake (pl_workspace ?q) (pl_id ?q) demo_applied"
    unfolding q demo_woken_def ..
  from wake_leaves_nothing_ready[OF demo_applied_reachable q(1,2) this] n q(4)
  have "effective demo_woken ?r \<noteq> Blocked" by (metis (no_types, lifting))
  with n(6,7) show ?thesis by simp
qed

section \<open>Admitted issues without a task\<close>

text \<open>
  Admission and the insert of the task are separate transactions. An issue that was admitted but not
  enqueued is effectively in progress, and no wake looks at it again: none of the three functions changes
  its rows or its tasks.
\<close>

definition tasks_of :: "graphdb \<Rightarrow> uuid \<Rightarrow> agent_task list" where
  "tasks_of db i = filter (\<lambda>t. issue_id t = Some i) (queue_rows db)"

definition in_progress :: "graphdb \<Rightarrow> uuid \<Rightarrow> bool" where
  "in_progress db i \<longleftrightarrow> (\<forall>r \<in> set (g_issues db). is_id r = i \<longrightarrow> effective db r = InProgress)"

definition passed_over :: "uuid \<Rightarrow> graphdb \<Rightarrow> graphdb \<Rightarrow> bool" where
  "passed_over i db db' \<longleftrightarrow> in_progress db' i \<and> tasks_of db' i = tasks_of db i
     \<and> filter (\<lambda>r. is_id r = i) (g_issues db') = filter (\<lambda>r. is_id r = i) (g_issues db)"

lemma passed_over_trans: "passed_over i a b \<Longrightarrow> passed_over i b c \<Longrightarrow> passed_over i a c"
  by (simp add: passed_over_def)

lemma update_passed_over:
  assumes "in_progress db i" and "update_issues P f db = Some (rows, db')"
    and "\<And>r. issue_key (f r) = issue_key r" and "\<And>r. P r \<Longrightarrow> effective db r \<noteq> InProgress"
  shows "passed_over i db db'"
proof -
  note db' = update_issues_frame(1)[OF assms(2)]
  have "filter (\<lambda>r. is_id r = i) (update_where P f rs) = filter (\<lambda>r. is_id r = i) rs"
    if "\<forall>r \<in> set rs. is_id r = i \<longrightarrow> \<not> P r" for rs
    using that assms(3) by (induction rs) (auto simp: update_where_def issue_key_def)
  moreover have "\<forall>r \<in> set (g_issues db). is_id r = i \<longrightarrow> \<not> P r" using assms(1,4) by (auto simp: in_progress_def)
  ultimately have same: "filter (\<lambda>r. is_id r = i) (g_issues db') = filter (\<lambda>r. is_id r = i) (g_issues db)"
    by (simp add: db')
  have eff: "effective db' = effective db" by (rule effective_frame) (simp add: db')
  have "in_progress db' i"
    unfolding in_progress_def
  proof (intro ballI impI)
    fix r assume "r \<in> set (g_issues db')" "is_id r = i"
    then have "r \<in> set (filter (\<lambda>r. is_id r = i) (g_issues db'))" by simp
    then have "r \<in> set (g_issues db)" "is_id r = i" unfolding same by simp_all
    with assms(1) show "effective db' r = InProgress" unfolding eff in_progress_def by blast
  qed
  with same show ?thesis by (simp add: passed_over_def tasks_of_def db' queue_rows_def)
qed

lemma insert_passed_over:
  assumes "in_progress db i" and "\<And>cp'. cp = Some cp' \<Longrightarrow> cp_issue_id cp' \<noteq> Some i"
  shows "passed_over i db (insert_task env cp db)"
proof -
  have "tasks_of (queue_step (QCreate now j cp' alive) d) i = tasks_of d i"
    if other: "cp_issue_id cp' \<noteq> Some i" for now j cp' alive d
  proof -
    have "tasks (g_queue (sync_gates d)) = queue_rows d" by (simp add: sync_gates_def queue_rows_def)
    then show ?thesis
      using other by (simp add: tasks_of_def queue_step_rows admit_rows_def CreateAgentTask_def Let_def blank_task_def)
  qed
  moreover have "tasks_of (db\<lparr>g_next := n\<rparr>) i = tasks_of db i" for n by (simp add: tasks_of_def queue_rows_def)
  ultimately have "tasks_of (insert_task env cp db) i = tasks_of db i"
    using assms(2) by (auto simp: insert_task_def NewV7_def split: option.split)
  moreover have "effective (insert_task env cp db) = effective db" by (rule effective_frame) simp
  ultimately show ?thesis using assms(1) by (simp add: passed_over_def in_progress_def)
qed

lemma enqueue_passed_over:
  assumes "in_progress db i" and "is_id r \<noteq> i"
  shows "passed_over i db (enqueueAdmittedDependencyGraphIssue env r db)"
proof -
  have none: "passed_over i db db" using assms(1) by (simp add: passed_over_def)
  have "prepare_task env r a db = Some cp \<Longrightarrow> cp_issue_id cp = Some (is_id r)" for a cp
    by (auto simp: prepare_task_def split: option.splits if_splits)
  then have "passed_over i db (insert_task env (prepare_task env r a db) db)" for a
    using assms(2) by (intro insert_passed_over[OF assms(1)]) fastforce
  with none show ?thesis
    by (auto simp: enqueueAdmittedDependencyGraphIssue_def EnqueueTaskForIssue_def EnqueueTaskForTeamLeader_def
        split: option.split)
qed

lemma admit_passed_over:
  assumes "in_progress db i"
  shows "passed_over i db (admit_and_enqueue env j db)"
proof (cases "GetIssue db j")
  case None
  with assms show ?thesis by (simp add: admit_and_enqueue_def passed_over_def)
next
  case (Some issue)
  from find_Some_in[OF Some[unfolded GetIssue_def]] have j: "issue \<in> set (g_issues db)" "is_id issue = j" by auto
  let ?f = "touch_status (wk_now env) InProgress" and ?ws = "is_workspace issue"
  let ?P = "\<lambda>r. is_id r = j \<and> is_workspace r = ?ws \<and> effective db r = Todo \<and> staffed_issue r
      \<and> dependency_graph_issue_gate_open db (is_workspace r) (is_id r)"
  let ?db = "db\<lparr>g_issues := update_where ?P ?f (g_issues db)\<rparr>"
  have adm: "AdmitReadyDependencyGraphIssue (wk_now env) j ?ws db = Some (map ?f (filter ?P (g_issues db)), ?db)"
    unfolding AdmitReady_result Let_def by (rule refl)
  have upd: "update_issues ?P ?f db = Some (map ?f (filter ?P (g_issues db)), ?db)"
    by (rule update_issues_accepts) (simp add: guard_touch canonicalOrder_def)
  have pass: "passed_over i db ?db"
    by (rule update_passed_over[OF assms upd]) (auto simp: status_defs)
  show ?thesis
  proof (cases "filter ?P (g_issues db)")
    case Nil
    with assms show ?thesis by (simp add: admit_and_enqueue_def Some j(2) adm passed_over_def)
  next
    case (Cons r rs)
    then have "r \<in> set (filter ?P (g_issues db))" by (simp only: list.set_intros(1))
    then have "r \<in> set (g_issues db)" "is_id r = j" "effective db r = Todo" unfolding set_filter mem_Collect_eq by blast+
    with assms have "j \<noteq> i" by (auto simp: in_progress_def status_defs)
    have "passed_over i db (enqueueAdmittedDependencyGraphIssue env a ?db)"
      if a: "GetIssueInWorkspace ?db j ?ws = Some a" for a
    proof (rule passed_over_trans[OF pass enqueue_passed_over])
      show "in_progress ?db i" using pass by (simp add: passed_over_def)
      show "is_id a \<noteq> i" using find_Some_in[OF a[unfolded GetIssueInWorkspace_def]] \<open>j \<noteq> i\<close> by simp
    qed
    with assms Cons show ?thesis
      by (auto simp: admit_and_enqueue_def Some j(2) adm passed_over_def split: option.split)
  qed
qed

lemma loop_passed_over: "in_progress db i \<Longrightarrow> passed_over i db (enqueueReadyDependencyGraphIssueIDs env ids db)"
  unfolding enqueueReadyDependencyGraphIssueIDs_def
proof (induction ids arbitrary: db)
  case (Cons j ids)
  note one = admit_passed_over[OF Cons.prems, of env j]
  then have "in_progress (admit_and_enqueue env j db) i" by (simp add: passed_over_def)
  from passed_over_trans[OF one Cons.IH[OF this]] show ?case by simp
qed (simp add: passed_over_def)

text \<open>The wakes leave a stranded issue as it is, whatever the environment of the retry.\<close>

theorem admitted_issue_never_requeued:
  assumes "in_progress db i"
  shows "passed_over i db (WakeDependencyGraphReadyTasks env ws p db)"
    "passed_over i db (WakeDependencyGraphDependents env ws j db)"
    "passed_over i db (reconcileDependencyTasksForRuntime env rt db)"
proof -
  have loop: "passed_over i db (enqueueReadyDependencyGraphIssueIDs env ids d)" if "passed_over i db d" for d ids
    using that passed_over_trans[OF that loop_passed_over] by (simp add: passed_over_def)
  have "passed_over i db d" if "PromoteReadyDependencyGraphIssuesForPlan now ws p db = Some (rows, d)
    \<or> PromoteReadyDependencyGraphDependents now ws j db = Some (rows, d)
    \<or> PromoteReadyDependencyGraphIssuesForRuntime now rt db = Some (rows, d)" for now rows d
    using that unfolding PromoteReadyDependencyGraphIssuesForPlan_def PromoteReadyDependencyGraphDependents_def
      PromoteReadyDependencyGraphIssuesForRuntime_def
    by (elim disjE) (erule update_passed_over[OF assms]; auto simp: status_defs)+
  moreover have "passed_over i db db" using assms by (simp add: passed_over_def)
  ultimately show "passed_over i db (WakeDependencyGraphReadyTasks env ws p db)"
    "passed_over i db (WakeDependencyGraphDependents env ws j db)"
    "passed_over i db (reconcileDependencyTasksForRuntime env rt db)"
    unfolding WakeDependencyGraphReadyTasks_def WakeDependencyGraphDependents_def
      reconcileDependencyTasksForRuntime_def using loop by (auto split: option.split) blast+
qed

text \<open>Such an issue is reachable: the first wake finds the attribution of issue 4 unresolved and inserts no
  task; the second, on a healthy system, does not either.\<close>

lemma stranded_issue_reachable:
  "let stranded = WakeDependencyGraphReadyTasks (demo_wake\<lparr>wk_attributed := \<lambda>_ _. False\<rparr>) 0 1 demo_applied;
       later = WakeDependencyGraphReadyTasks demo_wake 0 1 stranded
   in in_progress stranded 4 \<and> map is_status (filter (\<lambda>r. is_id r = 4) (g_issues later)) = [InProgress]
      \<and> tasks_of later 4 = []"
  by code_simp

end
