(* ===== verification/SeatDb.thy ===== *)
theory SeatDb
  imports Prelude
begin

text \<open>
  The durable intents of the seat protocol: the table \<^verbatim>\<open>seat_capacity_outbox\<close> (migrations 415 to
  419), the columns of invitations, members and share links that the protocol reads and writes, and
  every statement of \<^verbatim>\<open>server/pkg/db/generated/seat_capacity.sql.go\<close>, with the statements of
  \<^verbatim>\<open>invitation.sql.go\<close>, \<^verbatim>\<open>member.sql.go\<close> and \<^verbatim>\<open>share_link.sql.go\<close> that run in the same transactions.
  The columns \<open>last_error\<close> and \<open>updated_at\<close> are written and never read by the code, and are left out.
  A statement that a constraint refuses changes nothing. \<open>seat_exec\<close> gives each statement its effect
  on the tables.
\<close>

section \<open>Rows\<close>

datatype cap_action =
    ActionReserveInvitation | ActionConsumeInvitation | ActionClaimShareJoin
  | ActionConfirm | ActionRelease | ActionReleaseMember

record seat_row =
  so_workspace :: uuid
  so_token :: uuid
  so_action :: cap_action
  so_subject :: "uuid option"
  so_member :: "uuid option"
  so_invitation :: "uuid option"
  so_share_link :: "uuid option"
  so_user :: "uuid option"
  so_expires :: "gtime option"
  so_delivered :: "gtime option"
  so_attempts :: int
  so_next :: gtime
  so_lease :: "uuid option"
  so_dead :: "gtime option"
  so_created :: gtime

datatype invitation_status = InvPending | InvAccepted | InvDeclined | InvExpired

record seat_invitation =
  si_id :: uuid
  si_workspace :: uuid
  si_email :: string
  si_invitee :: "uuid option"
  si_role :: string
  si_status :: invitation_status
  si_expires :: gtime

record seat_member =
  sm_id :: uuid
  sm_workspace :: uuid
  sm_user :: uuid
  sm_role :: string

record share_link =
  sl_id :: uuid
  sl_workspace :: uuid
  sl_code :: string
  sl_role :: string
  sl_expires :: "gtime option"
  sl_max_uses :: "int option"
  sl_use_count :: int
  sl_active :: bool

record seat_db =
  sd_outbox :: "seat_row list"
  sd_invitations :: "seat_invitation list"
  sd_members :: "seat_member list"
  sd_links :: "share_link list"

section \<open>Constraints\<close>

text \<open>The CHECK constraints of the table and the partial unique index on share joins.\<close>

definition seat_checks :: "seat_row \<Rightarrow> bool" where
  "seat_checks r \<longleftrightarrow>
     0 \<le> so_attempts r
     \<and> (so_action r = ActionReserveInvitation \<longrightarrow> so_invitation r \<noteq> None \<and> so_expires r \<noteq> None)
     \<and> (so_action r = ActionConsumeInvitation \<longrightarrow> so_invitation r \<noteq> None \<and> so_user r \<noteq> None)
     \<and> (so_action r = ActionClaimShareJoin \<longrightarrow> so_share_link r \<noteq> None \<and> so_user r \<noteq> None)
     \<and> (so_action r = ActionConfirm \<longrightarrow> so_member r \<noteq> None)
     \<and> (so_action r = ActionReleaseMember \<longrightarrow> so_member r \<noteq> None)"

definition share_key :: "seat_row \<Rightarrow> (uuid \<times> uuid \<times> uuid) option" where
  "share_key r =
     (case (so_share_link r, so_user r) of
        (Some l, Some u) \<Rightarrow> Some (so_workspace r, l, u)
      | _ \<Rightarrow> None)"

definition outbox_ok :: "seat_row list \<Rightarrow> bool" where
  "outbox_ok t \<longleftrightarrow>
     distinct (map so_token t) \<and> (\<forall>r \<in> set t. seat_checks r) \<and> unique_index so_token share_key t"

section \<open>Matching rows\<close>

text \<open>A parameter that is an invalid \<^verbatim>\<open>pgtype.UUID\<close> is NULL and equals nothing.\<close>

definition row_is :: "uuid option \<Rightarrow> cap_action \<Rightarrow> seat_row \<Rightarrow> bool" where
  "row_is token act r \<longleftrightarrow> token = Some (so_token r) \<and> so_action r = act"

definition row_leased :: "uuid option \<Rightarrow> cap_action \<Rightarrow> uuid option \<Rightarrow> seat_row \<Rightarrow> bool" where
  "row_leased token act lease r \<longleftrightarrow> row_is token act r \<and> lease \<noteq> None \<and> so_lease r = lease"

definition uuidToPG :: "uuid \<Rightarrow> uuid option" where
  "uuidToPG v = (if v = 0 then None else Some v)"

definition uuidFromPG :: "uuid option \<Rightarrow> uuid" where
  "uuidFromPG v = (case v of None \<Rightarrow> 0 | Some u \<Rightarrow> u)"

section \<open>The statements of the outbox\<close>

text \<open>\<open>ClaimNextDueSeatCapacityIntent\<close>: the due row that is first by \<open>next_attempt_at\<close> and
  \<open>created_at\<close> among those no other transaction holds locked.\<close>

definition due_row :: "gtime \<Rightarrow> uuid list \<Rightarrow> seat_row \<Rightarrow> bool" where
  "due_row now locked r \<longleftrightarrow> so_dead r = None \<and> so_next r \<le> now \<and> so_token r \<notin> set locked"

definition due_before :: "seat_row \<Rightarrow> seat_row \<Rightarrow> bool" where
  "due_before r s \<longleftrightarrow> so_next r < so_next s \<or> (so_next r = so_next s \<and> so_created r < so_created s)"

fun earliest_due :: "seat_row list \<Rightarrow> seat_row option" where
  "earliest_due [] = None"
| "earliest_due (r # rs) =
     (case earliest_due rs of
        None \<Rightarrow> Some r
      | Some s \<Rightarrow> if due_before s r then Some s else Some r)"

definition next_due :: "gtime \<Rightarrow> uuid list \<Rightarrow> seat_row list \<Rightarrow> seat_row option" where
  "next_due now locked t = earliest_due (filter (due_row now locked) t)"

definition ClaimNextDueSeatCapacityIntent ::
  "gtime \<Rightarrow> gtime \<Rightarrow> uuid \<Rightarrow> uuid list \<Rightarrow> seat_row list \<Rightarrow> seat_row list" where
  "ClaimNextDueSeatCapacityIntent now lease_until lease locked t =
     (case next_due now locked t of
        None \<Rightarrow> t
      | Some d \<Rightarrow> update_where (\<lambda>r. so_token r = so_token d)
                    (\<lambda>r. r\<lparr>so_next := lease_until, so_lease := Some lease\<rparr>) t)"

definition fresh_intent :: "gtime \<Rightarrow> uuid \<Rightarrow> uuid \<Rightarrow> cap_action \<Rightarrow> gtime \<Rightarrow> seat_row" where
  "fresh_intent now ws token act due =
     \<lparr>so_workspace = ws, so_token = token, so_action = act, so_subject = None, so_member = None,
      so_invitation = None, so_share_link = None, so_user = None, so_expires = None,
      so_delivered = None, so_attempts = 0, so_next = due, so_lease = None, so_dead = None,
      so_created = now\<rparr>"

text \<open>The columns every statement that restarts an intent resets.\<close>

definition restart :: "cap_action \<Rightarrow> gtime \<Rightarrow> seat_row \<Rightarrow> seat_row" where
  "restart act due r =
     r\<lparr>so_action := act, so_delivered := None, so_attempts := 0, so_next := due,
       so_lease := None, so_dead := None\<rparr>"

text \<open>\<^verbatim>\<open>INSERT ... ON CONFLICT (operation_token) DO UPDATE SET ... WHERE ...\<close>; the result says whether
  a row is returned.\<close>

definition insert_or_update ::
  "seat_row \<Rightarrow> (seat_row \<Rightarrow> bool) \<Rightarrow> (seat_row \<Rightarrow> seat_row) \<Rightarrow> seat_row list \<Rightarrow> seat_row list" where
  "insert_or_update new guard change t =
     (if so_token new \<in> so_token ` set t
      then update_where (\<lambda>r. so_token r = so_token new \<and> guard r) change t
      else t @ [new])"

definition upsert_hits :: "uuid \<Rightarrow> (seat_row \<Rightarrow> bool) \<Rightarrow> seat_row list \<Rightarrow> bool" where
  "upsert_hits token guard t \<longleftrightarrow>
     token \<notin> so_token ` set t \<or> (\<exists>r \<in> set t. so_token r = token \<and> guard r)"

definition same_join :: "uuid \<Rightarrow> uuid \<Rightarrow> uuid \<Rightarrow> seat_row \<Rightarrow> bool" where
  "same_join ws link user r \<longleftrightarrow> share_key r = Some (ws, link, user)"

definition join_reusable :: "seat_row \<Rightarrow> bool" where
  "join_reusable r \<longleftrightarrow> so_action r \<in> {ActionClaimShareJoin, ActionRelease}"

definition CreateOrReactivateShareJoinCapacityIntent ::
  "gtime \<Rightarrow> uuid \<Rightarrow> uuid \<Rightarrow> uuid \<Rightarrow> uuid \<Rightarrow> gtime \<Rightarrow> seat_row list \<Rightarrow> seat_row list" where
  "CreateOrReactivateShareJoinCapacityIntent now ws token link user due t =
     (if \<exists>r \<in> set t. same_join ws link user r
      then update_where (\<lambda>r. same_join ws link user r \<and> join_reusable r)
             (\<lambda>r. (restart ActionClaimShareJoin due r)
                \<lparr>so_subject := Some (so_token r), so_member := None, so_invitation := None, so_expires := None\<rparr>) t
      else if token \<in> so_token ` set t then t
      else t @ [(fresh_intent now ws token ActionClaimShareJoin due)
                  \<lparr>so_subject := Some token, so_share_link := Some link, so_user := Some user\<rparr>])"

definition DeferClaimedSeatCapacityIntent ::
  "uuid option \<Rightarrow> cap_action \<Rightarrow> uuid option \<Rightarrow> gtime \<Rightarrow> seat_row list \<Rightarrow> seat_row list" where
  "DeferClaimedSeatCapacityIntent token act lease due =
     update_where (\<lambda>r. row_leased token act lease r \<and> so_dead r = None)
       (\<lambda>r. r\<lparr>so_next := due, so_lease := None\<rparr>)"

definition DeleteClaimedSeatCapacityIntent ::
  "uuid option \<Rightarrow> cap_action \<Rightarrow> uuid option \<Rightarrow> seat_row list \<Rightarrow> seat_row list" where
  "DeleteClaimedSeatCapacityIntent token act lease = filter (\<lambda>r. \<not> row_leased token act lease r)"

definition DeleteSeatCapacityConfirmIntentsForWorkspaceDeletion ::
  "uuid \<Rightarrow> seat_row list \<Rightarrow> seat_row list" where
  "DeleteSeatCapacityConfirmIntentsForWorkspaceDeletion ws =
     filter (\<lambda>r. \<not> (so_workspace r = ws \<and> so_action r = ActionConfirm))"

definition DeleteSeatCapacityIntentForAction ::
  "uuid option \<Rightarrow> cap_action \<Rightarrow> seat_row list \<Rightarrow> seat_row list" where
  "DeleteSeatCapacityIntentForAction token act = filter (\<lambda>r. \<not> row_is token act r)"

definition releasable :: "seat_row \<Rightarrow> bool" where
  "releasable r \<longleftrightarrow> so_action r \<in>
     {ActionReserveInvitation, ActionConsumeInvitation, ActionClaimShareJoin, ActionRelease}"

definition EnqueueSeatCapacityRelease ::
  "gtime \<Rightarrow> uuid \<Rightarrow> uuid \<Rightarrow> uuid option \<Rightarrow> gtime \<Rightarrow> seat_row list \<Rightarrow> seat_row list" where
  "EnqueueSeatCapacityRelease now ws token subject due =
     insert_or_update ((fresh_intent now ws token ActionRelease due)\<lparr>so_subject := subject\<rparr>) releasable
       (\<lambda>r. (restart ActionRelease due r)
          \<lparr>so_subject := subject, so_member := None, so_invitation := None, so_share_link := None,
           so_user := None, so_expires := None\<rparr>)"

definition GetClaimedSeatCapacityIntent ::
  "uuid option \<Rightarrow> cap_action \<Rightarrow> uuid option \<Rightarrow> seat_row list \<Rightarrow> seat_row option" where
  "GetClaimedSeatCapacityIntent token act lease t = find (row_leased token act lease) t"

fun newest_intent :: "seat_row list \<Rightarrow> seat_row option" where
  "newest_intent [] = None"
| "newest_intent (r # rs) =
     (case newest_intent rs of
        None \<Rightarrow> Some r
      | Some s \<Rightarrow> if so_created r < so_created s then Some s else Some r)"

definition GetMemberReleaseCapacityIntent ::
  "uuid \<Rightarrow> uuid option \<Rightarrow> seat_row list \<Rightarrow> seat_row option" where
  "GetMemberReleaseCapacityIntent ws mem t =
     newest_intent (filter (\<lambda>r. so_workspace r = ws \<and> mem \<noteq> None \<and> so_member r = mem
                              \<and> so_action r = ActionReleaseMember) t)"

definition GetSeatCapacityIntent :: "uuid option \<Rightarrow> seat_row list \<Rightarrow> seat_row option" where
  "GetSeatCapacityIntent token t = find (\<lambda>r. token = Some (so_token r)) t"

definition MarkClaimedSeatCapacityIntentDeadLettered ::
  "gtime \<Rightarrow> uuid option \<Rightarrow> cap_action \<Rightarrow> uuid option \<Rightarrow> seat_row list \<Rightarrow> seat_row list" where
  "MarkClaimedSeatCapacityIntentDeadLettered now token act lease =
     update_where (\<lambda>r. row_leased token act lease r \<and> so_dead r = None)
       (\<lambda>r. r\<lparr>so_attempts := so_attempts r + 1, so_dead := Some now, so_lease := None\<rparr>)"

definition MarkClaimedSeatCapacityIntentFailed ::
  "uuid option \<Rightarrow> cap_action \<Rightarrow> uuid option \<Rightarrow> gtime \<Rightarrow> seat_row list \<Rightarrow> seat_row list" where
  "MarkClaimedSeatCapacityIntentFailed token act lease due =
     update_where (row_leased token act lease)
       (\<lambda>r. r\<lparr>so_attempts := so_attempts r + 1, so_next := due, so_lease := None\<rparr>)"

definition MarkSeatCapacityIntentDelivered ::
  "gtime \<Rightarrow> uuid option \<Rightarrow> cap_action \<Rightarrow> seat_row list \<Rightarrow> seat_row list" where
  "MarkSeatCapacityIntentDelivered now token act =
     update_where (row_is token act)
       (\<lambda>r. r\<lparr>so_delivered := Some now, so_attempts := so_attempts r + 1, so_lease := None\<rparr>)"

definition MarkSeatCapacityIntentFailed ::
  "uuid option \<Rightarrow> cap_action \<Rightarrow> gtime \<Rightarrow> seat_row list \<Rightarrow> seat_row list" where
  "MarkSeatCapacityIntentFailed token act due =
     update_where (row_is token act)
       (\<lambda>r. r\<lparr>so_attempts := so_attempts r + 1, so_next := due, so_lease := None\<rparr>)"

text \<open>Tearing a workspace down: \<open>pending\<close> are the ids of its pending invitations, \<open>members\<close> its
  members with the \<^verbatim>\<open>gen_random_uuid()\<close> of each.\<close>

definition PrepareSeatCapacityInvitationReleasesForWorkspaceDeletion ::
  "gtime \<Rightarrow> uuid \<Rightarrow> uuid list \<Rightarrow> seat_row list \<Rightarrow> seat_row list" where
  "PrepareSeatCapacityInvitationReleasesForWorkspaceDeletion now ws pending t =
     fold (\<lambda>i. insert_or_update
              ((fresh_intent now ws i ActionRelease now)\<lparr>so_subject := Some i, so_invitation := Some i\<rparr>)
              releasable (\<lambda>r. (restart ActionRelease now r)\<lparr>so_member := None\<rparr>)) pending t"

definition has_member_release :: "uuid \<Rightarrow> uuid \<Rightarrow> seat_row list \<Rightarrow> bool" where
  "has_member_release ws m t \<longleftrightarrow>
     (\<exists>r \<in> set t. so_workspace r = ws \<and> so_member r = Some m \<and> so_action r = ActionReleaseMember)"

definition PrepareSeatCapacityMemberReleasesForWorkspaceDeletion ::
  "gtime \<Rightarrow> uuid \<Rightarrow> (uuid \<times> uuid) list \<Rightarrow> seat_row list \<Rightarrow> seat_row list" where
  "PrepareSeatCapacityMemberReleasesForWorkspaceDeletion now ws members t =
     (let new = filter (\<lambda>(m, token). \<not> has_member_release ws m t) members
      in if distinct (map snd new) \<and> set (map snd new) \<inter> so_token ` set t = {}
         then t @ map (\<lambda>(m, token). (fresh_intent now ws token ActionReleaseMember now)\<lparr>so_member := Some m\<rparr>) new
         else t)"

definition PrepareSeatCapacityOperationReleasesForWorkspaceDeletion ::
  "gtime \<Rightarrow> uuid \<Rightarrow> seat_row list \<Rightarrow> seat_row list" where
  "PrepareSeatCapacityOperationReleasesForWorkspaceDeletion now ws =
     update_where (\<lambda>r. so_workspace r = ws \<and> so_action r \<notin> {ActionConfirm, ActionReleaseMember})
       (\<lambda>r. (restart ActionRelease now r)\<lparr>so_member := None\<rparr>)"

definition TransitionClaimedSeatCapacityIntent ::
  "cap_action \<Rightarrow> uuid option \<Rightarrow> uuid option \<Rightarrow> cap_action \<Rightarrow> uuid option \<Rightarrow> gtime
     \<Rightarrow> seat_row list \<Rightarrow> seat_row list" where
  "TransitionClaimedSeatCapacityIntent nxt mem token cur lease due =
     update_where (row_leased token cur lease) (\<lambda>r. (restart nxt due r)\<lparr>so_member := mem\<rparr>)"

definition TransitionSeatCapacityIntent ::
  "cap_action \<Rightarrow> uuid option \<Rightarrow> uuid option \<Rightarrow> cap_action \<Rightarrow> gtime \<Rightarrow> seat_row list \<Rightarrow> seat_row list" where
  "TransitionSeatCapacityIntent nxt mem token cur due =
     update_where (row_is token cur) (\<lambda>r. (restart nxt due r)\<lparr>so_member := mem\<rparr>)"

text \<open>\<open>UpsertSeatCapacityIntent\<close>: \<open>new\<close> carries the excluded row.\<close>

definition upsert_guard :: "seat_row \<Rightarrow> seat_row \<Rightarrow> bool" where
  "upsert_guard new r \<longleftrightarrow>
     so_action r = so_action new
     \<or> (so_action r = ActionReserveInvitation \<and> so_action new = ActionConsumeInvitation)"

definition upsert_change :: "seat_row \<Rightarrow> seat_row \<Rightarrow> seat_row" where
  "upsert_change new r =
     r\<lparr>so_action := so_action new, so_subject := so_subject new, so_member := so_member new,
       so_invitation := so_invitation new, so_share_link := so_share_link new, so_user := so_user new,
       so_expires := so_expires new,
       so_attempts := (if so_dead r \<noteq> None then 0 else if so_action r \<noteq> so_action new then 0 else so_attempts r),
       so_delivered := (if so_action r = so_action new then so_delivered r else None),
       so_next := so_next new, so_lease := None, so_dead := None\<rparr>"

definition UpsertSeatCapacityIntent :: "seat_row \<Rightarrow> seat_row list \<Rightarrow> seat_row list" where
  "UpsertSeatCapacityIntent new = insert_or_update new (upsert_guard new) (upsert_change new)"

section \<open>The statements on invitations, members and share links\<close>

definition set_invitation :: "uuid \<Rightarrow> invitation_status \<Rightarrow> seat_invitation list \<Rightarrow> seat_invitation list" where
  "set_invitation i st =
     update_where (\<lambda>v. si_id v = i \<and> si_status v = InvPending) (\<lambda>v. v\<lparr>si_status := st\<rparr>)"

definition AcceptInvitation :: "uuid \<Rightarrow> seat_invitation list \<Rightarrow> seat_invitation list" where
  "AcceptInvitation i = set_invitation i InvAccepted"

definition DeclineInvitation :: "uuid \<Rightarrow> seat_invitation list \<Rightarrow> seat_invitation list" where
  "DeclineInvitation i = set_invitation i InvDeclined"

definition ExpireInvitationForCapacityRecovery :: "uuid option \<Rightarrow> seat_invitation list \<Rightarrow> seat_invitation list" where
  "ExpireInvitationForCapacityRecovery i =
     (case i of None \<Rightarrow> id | Some j \<Rightarrow> set_invitation j InvExpired)"

definition RevokeInvitation :: "uuid \<Rightarrow> seat_invitation list \<Rightarrow> seat_invitation list" where
  "RevokeInvitation i = filter (\<lambda>v. \<not> (si_id v = i \<and> si_status v = InvPending))"

definition pending_invitation :: "uuid \<Rightarrow> seat_invitation list \<Rightarrow> seat_invitation option" where
  "pending_invitation i t = find (\<lambda>v. si_id v = i \<and> si_status v = InvPending) t"

definition stale_invitation :: "gtime \<Rightarrow> uuid \<Rightarrow> string \<Rightarrow> seat_invitation \<Rightarrow> bool" where
  "stale_invitation now ws email v \<longleftrightarrow>
     si_workspace v = ws \<and> si_email v = email \<and> si_status v = InvPending \<and> si_expires v \<le> now"

definition ExpireStalePendingInvitations ::
  "gtime \<Rightarrow> uuid \<Rightarrow> string \<Rightarrow> seat_invitation list \<Rightarrow> seat_invitation list" where
  "ExpireStalePendingInvitations now ws email =
     update_where (stale_invitation now ws email) (\<lambda>v. v\<lparr>si_status := InvExpired\<rparr>)"

definition GetInvitation :: "uuid option \<Rightarrow> seat_invitation list \<Rightarrow> seat_invitation option" where
  "GetInvitation i t = find (\<lambda>v. i = Some (si_id v)) t"

definition GetPendingInvitationByEmail ::
  "gtime \<Rightarrow> uuid \<Rightarrow> string \<Rightarrow> seat_invitation list \<Rightarrow> seat_invitation option" where
  "GetPendingInvitationByEmail now ws email t =
     find (\<lambda>v. si_workspace v = ws \<and> si_email v = email \<and> si_status v = InvPending \<and> now < si_expires v) t"

definition invitation_conflict :: "seat_invitation \<Rightarrow> seat_invitation list \<Rightarrow> bool" where
  "invitation_conflict new t \<longleftrightarrow>
     (\<exists>v \<in> set t. si_id v = si_id new
        \<or> (si_status v = InvPending \<and> si_workspace v = si_workspace new \<and> si_email v = si_email new))"

definition CreateInvitation :: "seat_invitation \<Rightarrow> seat_invitation list \<Rightarrow> seat_invitation list" where
  "CreateInvitation new t = (if invitation_conflict new t then t else t @ [new])"

definition member_conflict :: "seat_member \<Rightarrow> seat_member list \<Rightarrow> bool" where
  "member_conflict new t \<longleftrightarrow>
     (\<exists>m \<in> set t. sm_id m = sm_id new \<or> (sm_workspace m = sm_workspace new \<and> sm_user m = sm_user new))"

definition CreateMember :: "seat_member \<Rightarrow> seat_member list \<Rightarrow> seat_member list" where
  "CreateMember new t = (if member_conflict new t then t else t @ [new])"

definition DeleteMember :: "uuid \<Rightarrow> seat_member list \<Rightarrow> seat_member list" where
  "DeleteMember m = filter (\<lambda>r. sm_id r \<noteq> m)"

definition GetMemberByUserAndWorkspace :: "uuid \<Rightarrow> uuid \<Rightarrow> seat_member list \<Rightarrow> seat_member option" where
  "GetMemberByUserAndWorkspace user ws t = find (\<lambda>m. sm_user m = user \<and> sm_workspace m = ws) t"

definition link_usable :: "gtime \<Rightarrow> share_link \<Rightarrow> bool" where
  "link_usable now l \<longleftrightarrow>
     sl_active l \<and> (case sl_expires l of None \<Rightarrow> True | Some e \<Rightarrow> now < e)
     \<and> (case sl_max_uses l of None \<Rightarrow> True | Some n \<Rightarrow> sl_use_count l < n)"

definition GetActiveShareLinkByCode :: "gtime \<Rightarrow> string \<Rightarrow> share_link list \<Rightarrow> share_link option" where
  "GetActiveShareLinkByCode now code t = find (\<lambda>l. sl_code l = code \<and> link_usable now l) t"

definition claimable_link :: "gtime \<Rightarrow> uuid \<Rightarrow> share_link list \<Rightarrow> share_link option" where
  "claimable_link now i t = find (\<lambda>l. sl_id l = i \<and> link_usable now l) t"

definition ClaimShareLinkByID :: "gtime \<Rightarrow> uuid \<Rightarrow> share_link list \<Rightarrow> share_link list" where
  "ClaimShareLinkByID now i =
     update_where (\<lambda>l. sl_id l = i \<and> link_usable now l) (\<lambda>l. l\<lparr>sl_use_count := sl_use_count l + 1\<rparr>)"

section \<open>Statements as values\<close>

datatype seat_stmt =
    QClaimNext gtime uuid "uuid list"
  | QReactivateJoin uuid uuid uuid uuid gtime
  | QDefer "uuid option" cap_action "uuid option" gtime
  | QDeleteClaimed "uuid option" cap_action "uuid option"
  | QDeleteConfirms uuid
  | QDeleteForAction "uuid option" cap_action
  | QEnqueueRelease uuid uuid "uuid option" gtime
  | QDeadLetter "uuid option" cap_action "uuid option"
  | QMarkClaimedFailed "uuid option" cap_action "uuid option" gtime
  | QMarkDelivered "uuid option" cap_action
  | QMarkFailed "uuid option" cap_action gtime
  | QPrepareInvitations uuid
  | QPrepareMembers uuid "uuid list"
  | QPrepareOperations uuid
  | QTransitionClaimed cap_action "uuid option" "uuid option" cap_action "uuid option" gtime
  | QTransition cap_action "uuid option" "uuid option" cap_action gtime
  | QUpsert seat_row
  | QExpireInvitation "uuid option"
  | QAcceptInvitation uuid
  | QDeclineInvitation uuid
  | QRevokeInvitation uuid
  | QExpireStale uuid string
  | QCreateInvitation seat_invitation
  | QCreateMember seat_member
  | QDeleteMember uuid
  | QClaimLink uuid

definition pending_ids :: "uuid \<Rightarrow> seat_invitation list \<Rightarrow> uuid list" where
  "pending_ids ws t = map si_id (filter (\<lambda>v. si_workspace v = ws \<and> si_status v = InvPending) t)"

definition member_ids :: "uuid \<Rightarrow> seat_member list \<Rightarrow> uuid list" where
  "member_ids ws t = map sm_id (filter (\<lambda>m. sm_workspace m = ws) t)"

fun outbox_exec :: "gtime \<Rightarrow> seat_db \<Rightarrow> seat_stmt \<Rightarrow> seat_row list \<Rightarrow> seat_row list" where
  "outbox_exec now db (QClaimNext until lease locked) t = ClaimNextDueSeatCapacityIntent now until lease locked t"
| "outbox_exec now db (QReactivateJoin ws token link user due) t =
     CreateOrReactivateShareJoinCapacityIntent now ws token link user due t"
| "outbox_exec now db (QDefer token act lease due) t = DeferClaimedSeatCapacityIntent token act lease due t"
| "outbox_exec now db (QDeleteClaimed token act lease) t = DeleteClaimedSeatCapacityIntent token act lease t"
| "outbox_exec now db (QDeleteConfirms ws) t = DeleteSeatCapacityConfirmIntentsForWorkspaceDeletion ws t"
| "outbox_exec now db (QDeleteForAction token act) t = DeleteSeatCapacityIntentForAction token act t"
| "outbox_exec now db (QEnqueueRelease ws token subject due) t = EnqueueSeatCapacityRelease now ws token subject due t"
| "outbox_exec now db (QDeadLetter token act lease) t = MarkClaimedSeatCapacityIntentDeadLettered now token act lease t"
| "outbox_exec now db (QMarkClaimedFailed token act lease due) t = MarkClaimedSeatCapacityIntentFailed token act lease due t"
| "outbox_exec now db (QMarkDelivered token act) t = MarkSeatCapacityIntentDelivered now token act t"
| "outbox_exec now db (QMarkFailed token act due) t = MarkSeatCapacityIntentFailed token act due t"
| "outbox_exec now db (QPrepareInvitations ws) t =
     PrepareSeatCapacityInvitationReleasesForWorkspaceDeletion now ws (pending_ids ws (sd_invitations db)) t"
| "outbox_exec now db (QPrepareMembers ws fresh) t =
     PrepareSeatCapacityMemberReleasesForWorkspaceDeletion now ws (zip (member_ids ws (sd_members db)) fresh) t"
| "outbox_exec now db (QPrepareOperations ws) t = PrepareSeatCapacityOperationReleasesForWorkspaceDeletion now ws t"
| "outbox_exec now db (QTransitionClaimed nxt mem token cur lease due) t =
     TransitionClaimedSeatCapacityIntent nxt mem token cur lease due t"
| "outbox_exec now db (QTransition nxt mem token cur due) t = TransitionSeatCapacityIntent nxt mem token cur due t"
| "outbox_exec now db (QUpsert new) t = UpsertSeatCapacityIntent new t"
| "outbox_exec now db _ t = t"

fun invitation_exec :: "gtime \<Rightarrow> seat_stmt \<Rightarrow> seat_invitation list \<Rightarrow> seat_invitation list" where
  "invitation_exec now (QExpireInvitation i) t = ExpireInvitationForCapacityRecovery i t"
| "invitation_exec now (QAcceptInvitation i) t = AcceptInvitation i t"
| "invitation_exec now (QDeclineInvitation i) t = DeclineInvitation i t"
| "invitation_exec now (QRevokeInvitation i) t = RevokeInvitation i t"
| "invitation_exec now (QExpireStale ws email) t = ExpireStalePendingInvitations now ws email t"
| "invitation_exec now (QCreateInvitation new) t = CreateInvitation new t"
| "invitation_exec now _ t = t"

fun member_exec :: "seat_stmt \<Rightarrow> seat_member list \<Rightarrow> seat_member list" where
  "member_exec (QCreateMember new) t = CreateMember new t"
| "member_exec (QDeleteMember m) t = DeleteMember m t"
| "member_exec _ t = t"

fun link_exec :: "gtime \<Rightarrow> seat_stmt \<Rightarrow> share_link list \<Rightarrow> share_link list" where
  "link_exec now (QClaimLink i) t = ClaimShareLinkByID now i t"
| "link_exec now _ t = t"

definition seat_exec :: "gtime \<Rightarrow> seat_stmt \<Rightarrow> seat_db \<Rightarrow> seat_db" where
  "seat_exec now s db =
     \<lparr>sd_outbox = outbox_exec now db s (sd_outbox db),
      sd_invitations = invitation_exec now s (sd_invitations db),
      sd_members = member_exec s (sd_members db),
      sd_links = link_exec now s (sd_links db)\<rparr>"

end
