(* ===== verification/SeatCloud.thy ===== *)
theory SeatCloud
  imports SeatDb GoStrings
begin

text \<open>
  The executor of the seat protocol (\<^verbatim>\<open>server/internal/seatcapacity/client.go\<close>) and the world its
  callers act on.

  The Cloud service is not in the repository: \<open>ce_http\<close> is any function from what was exchanged so far and
  the request to what the transport does. The decoding of the two response bodies and of HTTP
  dates are parameters too. The client's own checks, its error values and the reading of \<^verbatim>\<open>Retry-After\<close>
  are definitions.

  \<open>cap_world\<close> is the database together with a log of what one operation did: the requests it sent with
  their answers, and the statements it committed with the tables they were applied to. Every database access goes through \<open>sql\<close>, which
  first lets any other session change the tables (\<open>ce_rival\<close>), then commits, refuses, or commits and
  loses the answer (\<open>ce_reply\<close>).
\<close>

section \<open>Decisions and errors\<close>

record cap_decision =
  cd_managed :: bool
  cd_allowed :: bool
  cd_reason :: string
  cd_state :: "string option"

record http_error =
  he_status :: int
  he_code :: string
  he_retry_after :: duration
  he_scope :: string

datatype cap_error =
    CapHTTP http_error | CapFull | CapOvercommitted | CapUnavailable | CapOther

type_synonym cap_answer = "cap_error + cap_decision"

definition RateLimitScopeGlobal :: string where "RateLimitScopeGlobal = ''global''"
definition RateLimitScopeWorkspace :: string where "RateLimitScopeWorkspace = ''workspace''"

definition normalizedRateLimitScope :: "string \<Rightarrow> string" where
  "normalizedRateLimitScope v =
     (let s = ToLower (TrimSpace v)
      in if s = RateLimitScopeGlobal then RateLimitScopeGlobal
         else if s = RateLimitScopeWorkspace then RateLimitScopeWorkspace
         else [])"

fun IsNotFound :: "cap_error \<Rightarrow> bool" where
  "IsNotFound (CapHTTP e) \<longleftrightarrow> he_status e = 404"
| "IsNotFound _ \<longleftrightarrow> False"

fun IsCapacityOvercommitted :: "cap_error \<Rightarrow> bool" where
  "IsCapacityOvercommitted (CapHTTP e) \<longleftrightarrow> he_status e = 409 \<and> he_code e = ''capacity_overcommitted''"
| "IsCapacityOvercommitted _ \<longleftrightarrow> False"

fun IsRateLimited :: "cap_error \<Rightarrow> bool" where
  "IsRateLimited (CapHTTP e) \<longleftrightarrow> he_status e = 429"
| "IsRateLimited _ \<longleftrightarrow> False"

fun RateLimitRetryAfter :: "cap_error \<Rightarrow> duration" where
  "RateLimitRetryAfter (CapHTTP e) = (if IsRateLimited (CapHTTP e) then he_retry_after e else 0)"
| "RateLimitRetryAfter _ = 0"

fun RateLimitScopeOf :: "cap_error \<Rightarrow> string" where
  "RateLimitScopeOf (CapHTTP e) =
     (if IsRateLimited (CapHTTP e) then normalizedRateLimitScope (he_scope e) else [])"
| "RateLimitScopeOf _ = []"

section \<open>Retry-After\<close>

text \<open>64-bit arithmetic: multiplication wraps, \<^verbatim>\<open>time.Time.Sub\<close> saturates.\<close>

definition wrap64 :: "int \<Rightarrow> int" where
  "wrap64 n = (n + 2 ^ 63) mod 2 ^ 64 - 2 ^ 63"

definition clamp64 :: "int \<Rightarrow> int" where
  "clamp64 n = max (- (2 ^ 63)) (min (2 ^ 63 - 1) n)"

definition retryAfterDurationAt :: "(string \<Rightarrow> gtime option) \<Rightarrow> string \<Rightarrow> gtime \<Rightarrow> duration" where
  "retryAfterDurationAt parse_date header now =
     (let v = TrimSpace header
      in case Atoi v of
           Some seconds \<Rightarrow> if seconds < 1 then 0 else wrap64 (seconds * second)
         | None \<Rightarrow>
             (case parse_date v of
                None \<Rightarrow> 0
              | Some at \<Rightarrow> let delay = clamp64 (at - now) in if delay \<le> 0 then 0 else delay))"

section \<open>Requests\<close>

datatype cap_call =
    CallReserve uuid uuid gtime
  | CallClaimJoin uuid uuid
  | CallConsume uuid uuid
  | CallConfirm uuid uuid uuid
  | CallRelease uuid uuid
  | CallReleaseMember uuid uuid
  | CallGetOperation uuid uuid

fun call_workspace :: "cap_call \<Rightarrow> uuid" where
  "call_workspace (CallReserve ws _ _) = ws"
| "call_workspace (CallClaimJoin ws _) = ws"
| "call_workspace (CallConsume ws _) = ws"
| "call_workspace (CallConfirm ws _ _) = ws"
| "call_workspace (CallRelease ws _) = ws"
| "call_workspace (CallReleaseMember ws _) = ws"
| "call_workspace (CallGetOperation ws _) = ws"

text \<open>What the transport does with a request: status, length of the body, body, and the two headers.\<close>

datatype http_outcome =
    TransportFailed
  | BodyFailed
  | Response int nat string string string

definition maxResponseBodySize :: nat where
  "maxResponseBodySize = 64 * 1024"

definition client_answer ::
  "(string \<Rightarrow> cap_decision option) \<Rightarrow> (string \<Rightarrow> string) \<Rightarrow> (string \<Rightarrow> gtime option) \<Rightarrow> gtime
     \<Rightarrow> http_outcome \<Rightarrow> cap_answer" where
  "client_answer decode error_code parse_date now out =
     (case out of
        TransportFailed \<Rightarrow> Inl CapOther
      | BodyFailed \<Rightarrow> Inl CapOther
      | Response code len body retry_after scope \<Rightarrow>
          if maxResponseBodySize < len then Inl CapOther
          else if code < 200 \<or> 300 \<le> code
          then Inl (CapHTTP \<lparr>he_status = code, he_code = error_code body,
                             he_retry_after = retryAfterDurationAt parse_date retry_after now,
                             he_scope = normalizedRateLimitScope scope\<rparr>)
          else (case decode body of None \<Rightarrow> Inl CapOther | Some d \<Rightarrow> Inr d))"

section \<open>The world of an operation\<close>

datatype cap_event =
    Called gtime cap_call cap_answer
  | Committed gtime "seat_stmt list" seat_db

datatype cap_executor = NoExecutor | UnavailableExecutor | CloudClient

record cap_env =
  ce_executor :: cap_executor
  ce_http :: "cap_event list \<Rightarrow> cap_call \<Rightarrow> http_outcome"
  ce_decode :: "string \<Rightarrow> cap_decision option"
  ce_error_code :: "string \<Rightarrow> string"
  ce_http_date :: "string \<Rightarrow> gtime option"
  ce_clock :: "nat \<Rightarrow> gtime"
  ce_rival :: "nat \<Rightarrow> seat_db \<Rightarrow> seat_db"
  ce_reply :: "nat \<Rightarrow> db_reply"
  ce_fresh :: "nat \<Rightarrow> uuid"
  ce_locked :: "nat \<Rightarrow> uuid list"
  ce_locker :: bool
  ce_lock_free :: "nat \<Rightarrow> bool"

record cap_world =
  cw_db :: seat_db
  cw_log :: "cap_event list"
  cw_tick :: nat

definition seatCapacityEnabled :: "cap_env \<Rightarrow> bool" where
  "seatCapacityEnabled env \<longleftrightarrow> ce_executor env \<noteq> NoExecutor"

definition CanRunWorker :: "cap_env \<Rightarrow> bool" where
  "CanRunWorker env \<longleftrightarrow> ce_executor env = CloudClient"

definition now_of :: "cap_env \<Rightarrow> cap_world \<Rightarrow> gtime" where
  "now_of env w = ce_clock env (cw_tick w)"

definition tick :: "cap_world \<Rightarrow> cap_world" where
  "tick w = w\<lparr>cw_tick := Suc (cw_tick w)\<rparr>"

definition sql :: "cap_env \<Rightarrow> (gtime \<Rightarrow> seat_db \<Rightarrow> seat_stmt list \<times> 'a) \<Rightarrow> cap_world \<Rightarrow> 'a option \<times> cap_world" where
  "sql env body w =
     (let now = now_of env w;
          db = ce_rival env (cw_tick w) (cw_db w);
          (ss, a) = body now db;
          held = (tick w)\<lparr>cw_db := db\<rparr>;
          committed = (tick w)\<lparr>cw_db := fold (seat_exec now) ss db, cw_log := cw_log w @ [Committed now ss db]\<rparr>
      in case ce_reply env (cw_tick w) of
           Refused \<Rightarrow> (None, held)
         | Replied \<Rightarrow> (Some a, committed)
         | ReplyLost \<Rightarrow> (None, committed))"

definition exec_stmt :: "cap_env \<Rightarrow> seat_stmt \<Rightarrow> cap_world \<Rightarrow> bool \<times> cap_world" where
  "exec_stmt env s w =
     (case sql env (\<lambda>_ _. ([s], ())) w of
        (None, w') \<Rightarrow> (False, w')
      | (Some _, w') \<Rightarrow> (True, w'))"

text \<open>One request: an unavailable executor fails without sending anything, and so does a client that is given
  no workspace.\<close>

definition ask :: "cap_env \<Rightarrow> cap_call \<Rightarrow> cap_world \<Rightarrow> cap_answer \<times> cap_world" where
  "ask env c w =
     (if ce_executor env \<noteq> CloudClient then (Inl CapOther, w)
      else if call_workspace c = 0 then (Inl CapOther, w)
      else let now = now_of env w;
               ans = client_answer (ce_decode env) (ce_error_code env) (ce_http_date env) now
                       (ce_http env (cw_log w) c)
           in (ans, (tick w)\<lparr>cw_log := cw_log w @ [Called now c ans]\<rparr>))"

section \<open>Facts about the primitives\<close>

named_theorems cap_simps \<open>evaluation of the primitives of an operation\<close>

lemma wrap64_id: "- (2 ^ 63) \<le> n \<Longrightarrow> n < 2 ^ 63 \<Longrightarrow> wrap64 n = n"
  by (simp add: wrap64_def)

lemma wrap64_range: "- (2 ^ 63) \<le> wrap64 n" "wrap64 n < 2 ^ 63"
  by (simp_all add: wrap64_def)

lemma tick_simps [simp]:
  "cw_db (tick w) = cw_db w" "cw_log (tick w) = cw_log w" "cw_tick (tick w) = Suc (cw_tick w)"
  by (simp_all add: tick_def)

end
