(* ===== verification/SeatWorker.thy ===== *)
theory SeatWorker
  imports SeatCloud
begin

text \<open>
  The recovery worker of the seat protocol (\<^verbatim>\<open>server/internal/seatcapacity/worker.go\<close>): it claims due
  intents one at a time under a fresh lease, asks Cloud, and settles the row with statements that name the
  lease. An error is \<open>Some\<close>, nil is \<open>None\<close>. The wait for the workspace lock succeeds or times out
  (\<open>ce_lock_free\<close>); the locker may be absent (\<open>ce_locker\<close>). The texts of errors and the log lines are left out.
\<close>

definition defaultRecoveryGrace :: duration where "defaultRecoveryGrace = 5 * minute"
definition defaultClaimLease :: duration where "defaultClaimLease = 5 * minute"
definition defaultBatchSize :: int where "defaultBatchSize = 100"
definition defaultMaxAttempts :: int where "defaultMaxAttempts = 10"

definition RecoveryDue :: "gtime \<Rightarrow> gtime" where
  "RecoveryDue now = now + defaultRecoveryGrace"

definition RetryDue :: "gtime \<Rightarrow> gtime" where
  "RetryDue now = now"

record seat_worker =
  wk_batch :: int
  wk_max_attempts :: int

definition newWorker :: "int \<Rightarrow> int \<Rightarrow> seat_worker" where
  "newWorker batch max_attempts =
     \<lparr>wk_batch = (if batch \<le> 0 then defaultBatchSize else batch),
      wk_max_attempts = (if max_attempts \<le> 0 then defaultMaxAttempts else max_attempts)\<rparr>"

section \<open>Statements of the worker\<close>

definition failed_if :: "bool \<Rightarrow> cap_error option" where
  "failed_if b = (if b then Some CapOther else None)"

definition deleteCurrent :: "cap_env \<Rightarrow> seat_row \<Rightarrow> cap_world \<Rightarrow> cap_error option \<times> cap_world" where
  "deleteCurrent env intent w =
     (case exec_stmt env (QDeleteClaimed (Some (so_token intent)) (so_action intent) (so_lease intent)) w of
        (ok, w') \<Rightarrow> (failed_if (\<not> ok), w'))"

definition transition_stmt :: "seat_row \<Rightarrow> cap_action \<Rightarrow> uuid option \<Rightarrow> gtime \<Rightarrow> seat_stmt" where
  "transition_stmt intent act mem due =
     QTransitionClaimed act mem (Some (so_token intent)) (so_action intent) (so_lease intent) due"

text \<open>The count of changed rows, or an error.\<close>

definition transition ::
  "cap_env \<Rightarrow> seat_row \<Rightarrow> cap_action \<Rightarrow> uuid option \<Rightarrow> cap_world \<Rightarrow> bool option \<times> cap_world" where
  "transition env intent act mem w =
     sql env (\<lambda>now db. ([transition_stmt intent act mem (now_of env w)],
       rows_affected (row_leased (Some (so_token intent)) (so_action intent) (so_lease intent)) (sd_outbox db) = 1)) w"

definition to_release :: "cap_env \<Rightarrow> seat_row \<Rightarrow> cap_world \<Rightarrow> cap_error option \<times> cap_world" where
  "to_release env intent w =
     (case transition env intent ActionRelease None w of
        (None, w') \<Rightarrow> (Some CapOther, w')
      | (Some _, w') \<Rightarrow> (None, w'))"

definition expire_invitation :: "cap_env \<Rightarrow> seat_row \<Rightarrow> cap_world \<Rightarrow> bool \<times> cap_world" where
  "expire_invitation env intent w =
     (if so_action intent = ActionConsumeInvitation \<and> so_invitation intent \<noteq> None
      then exec_stmt env (QExpireInvitation (so_invitation intent)) w
      else (True, w))"

section \<open>Settling\<close>

definition recoverReserve ::
  "cap_env \<Rightarrow> seat_row \<Rightarrow> uuid \<Rightarrow> uuid \<Rightarrow> cap_world \<Rightarrow> cap_error option \<times> cap_world" where
  "recoverReserve env intent ws token w =
     (case ask env (CallGetOperation ws token) w of
        (Inl e, w1) \<Rightarrow> if IsNotFound e then deleteCurrent env intent w1 else (Some e, w1)
      | (Inr d, w1) \<Rightarrow>
          if \<not> cd_managed d then deleteCurrent env intent w1
          else (case cd_state d of
              None \<Rightarrow> (Some CapOther, w1)
            | Some st \<Rightarrow>
                if st = ''released'' then deleteCurrent env intent w1
                else if st = ''reserved''
                then (if so_invitation intent = None then to_release env intent w1
                      else (case sql env (\<lambda>_ db. ([], GetInvitation (so_invitation intent) (sd_invitations db))) w1 of
                          (None, w2) \<Rightarrow> (Some CapOther, w2)
                        | (Some None, w2) \<Rightarrow> to_release env intent w2
                        | (Some (Some v), w2) \<Rightarrow>
                            if si_status v = InvPending then deleteCurrent env intent w2
                            else to_release env intent w2))
                else (Some CapOther, w1)))"

definition recoverConsuming ::
  "cap_env \<Rightarrow> seat_row \<Rightarrow> uuid \<Rightarrow> uuid \<Rightarrow> cap_world \<Rightarrow> cap_error option \<times> cap_world" where
  "recoverConsuming env intent ws token w =
     (case ask env (CallGetOperation ws token) w of
        (Inl e, w1) \<Rightarrow> if IsNotFound e then deleteCurrent env intent w1 else (Some e, w1)
      | (Inr d, w1) \<Rightarrow>
          if \<not> cd_managed d then deleteCurrent env intent w1
          else (case cd_state d of
              None \<Rightarrow> (Some CapOther, w1)
            | Some st \<Rightarrow>
                if st = ''reserved'' then deleteCurrent env intent w1
                else if st = ''used'' then deleteCurrent env intent w1
                else if st = ''released''
                then (case expire_invitation env intent w1 of
                    (False, w2) \<Rightarrow> (Some CapOther, w2)
                  | (True, w2) \<Rightarrow> deleteCurrent env intent w2)
                else if st = ''consuming''
                then (case transition env intent ActionRelease None w1 of
                    (None, w2) \<Rightarrow> (Some CapOther, w2)
                  | (Some False, w2) \<Rightarrow> (None, w2)
                  | (Some True, w2) \<Rightarrow>
                      (case expire_invitation env intent w2 of (ok, w3) \<Rightarrow> (failed_if (\<not> ok), w3)))
                else (Some CapOther, w1)))"

text \<open>A release is settled by a 404, or by an answer that is unmanaged, allowed, or rejected as already
  released.\<close>

definition settle_release ::
  "cap_env \<Rightarrow> seat_row \<Rightarrow> cap_answer \<times> cap_world \<Rightarrow> cap_error option \<times> cap_world" where
  "settle_release env intent answered =
     (case answered of
        (Inl e, w1) \<Rightarrow> if IsNotFound e then deleteCurrent env intent w1 else (Some e, w1)
      | (Inr d, w1) \<Rightarrow>
          if cd_managed d \<and> \<not> cd_allowed d \<and> cd_reason d \<noteq> ''released'' then (Some CapOther, w1)
          else deleteCurrent env intent w1)"

definition settle :: "cap_env \<Rightarrow> seat_row \<Rightarrow> cap_world \<Rightarrow> cap_error option \<times> cap_world" where
  "settle env intent w =
     (if so_lease intent = None then (Some CapOther, w)
      else let ws = so_workspace intent; token = so_token intent
      in case so_action intent of
           ActionReserveInvitation \<Rightarrow> recoverReserve env intent ws token w
         | ActionConsumeInvitation \<Rightarrow> recoverConsuming env intent ws token w
         | ActionClaimShareJoin \<Rightarrow> recoverConsuming env intent ws token w
         | ActionConfirm \<Rightarrow>
             (case ask env (CallConfirm ws token (uuidFromPG (so_member intent))) w of
                (Inl e, w1) \<Rightarrow> (Some e, w1)
              | (Inr d, w1) \<Rightarrow> if \<not> cd_allowed d then (Some CapOther, w1) else deleteCurrent env intent w1)
         | ActionRelease \<Rightarrow> settle_release env intent (ask env (CallRelease ws token) w)
         | ActionReleaseMember \<Rightarrow>
             settle_release env intent (ask env (CallReleaseMember ws (uuidFromPG (so_member intent))) w))"

definition settleWithWorkspaceLimit ::
  "cap_env \<Rightarrow> seat_row \<Rightarrow> cap_world \<Rightarrow> cap_error option \<times> cap_world" where
  "settleWithWorkspaceLimit env intent w =
     (if \<not> ce_locker env then settle env intent w
      else if \<not> ce_lock_free env (cw_tick w) then (Some CapOther, tick w)
      else (case sql env (\<lambda>_ db. ([], GetClaimedSeatCapacityIntent (Some (so_token intent)) (so_action intent)
                                     (so_lease intent) (sd_outbox db))) w of
          (None, w1) \<Rightarrow> (Some CapOther, w1)
        | (Some None, w1) \<Rightarrow> (None, w1)
        | (Some (Some current), w1) \<Rightarrow> settle env current w1))"

section \<open>Failures and deferrals\<close>

fun backoff_loop :: "nat \<Rightarrow> duration \<Rightarrow> duration" where
  "backoff_loop 0 b = b"
| "backoff_loop (Suc n) b = (if b < 5 * minute then backoff_loop n (2 * b) else b)"

definition seat_backoff :: "int \<Rightarrow> duration" where
  "seat_backoff attempts =
     (let b = backoff_loop (nat attempts) (5 * second) in if b > 5 * minute then 5 * minute else b)"

definition failure_stmt :: "seat_worker \<Rightarrow> gtime \<Rightarrow> seat_row \<Rightarrow> seat_stmt" where
  "failure_stmt wk now intent =
     (if so_attempts intent + 1 \<ge> wk_max_attempts wk
      then QDeadLetter (Some (so_token intent)) (so_action intent) (so_lease intent)
      else QMarkClaimedFailed (Some (so_token intent)) (so_action intent) (so_lease intent)
             (now + seat_backoff (so_attempts intent)))"

definition recordFailure :: "cap_env \<Rightarrow> seat_worker \<Rightarrow> seat_row \<Rightarrow> cap_world \<Rightarrow> cap_world" where
  "recordFailure env wk intent w = snd (exec_stmt env (failure_stmt wk (now_of env w) intent) w)"

definition deferClaimedUntil :: "cap_env \<Rightarrow> seat_row \<Rightarrow> gtime \<Rightarrow> cap_world \<Rightarrow> bool \<times> cap_world" where
  "deferClaimedUntil env intent until w =
     exec_stmt env (QDefer (Some (so_token intent)) (so_action intent) (so_lease intent) until) w"

definition deferral_delay :: "cap_error \<Rightarrow> duration" where
  "deferral_delay e = (let d = RateLimitRetryAfter e in if d \<le> 0 then second else d)"

definition deferRateLimited ::
  "cap_env \<Rightarrow> seat_row \<Rightarrow> cap_error \<Rightarrow> cap_world \<Rightarrow> gtime \<times> bool \<times> cap_world" where
  "deferRateLimited env intent e w =
     (let until = now_of env w + deferral_delay e in (until, deferClaimedUntil env intent until w))"

section \<open>A batch\<close>

definition claim_next :: "cap_env \<Rightarrow> cap_world \<Rightarrow> seat_row option option \<times> cap_world" where
  "claim_next env w =
     (let until = now_of env w + defaultClaimLease;
          lease = ce_fresh env (cw_tick w);
          locked = ce_locked env (cw_tick w)
      in sql env (\<lambda>now db. ([QClaimNext until lease locked],
           map_option (\<lambda>r. r\<lparr>so_next := until, so_lease := Some lease\<rparr>)
             (next_due now locked (sd_outbox db)))) w)"

text \<open>One iteration of the loop of \<open>ReconcileOnce\<close>: it ends the batch (\<open>Inl\<close>) or goes on (\<open>Inr\<close>) with
  the workspaces that are rate limited, and until when.\<close>

type_synonym deferrals = "uuid \<rightharpoonup> gtime"

definition settle_claimed ::
  "cap_env \<Rightarrow> seat_worker \<Rightarrow> deferrals \<Rightarrow> seat_row \<Rightarrow> cap_world \<Rightarrow> (cap_error option + deferrals) \<times> cap_world" where
  "settle_claimed env wk deferrals intent w =
     (case settleWithWorkspaceLimit env intent w of
        (None, w1) \<Rightarrow> (Inr deferrals, w1)
      | (Some e, w1) \<Rightarrow>
          if IsRateLimited e
          then (case deferRateLimited env intent e w1 of
              (until, False, w2) \<Rightarrow> (Inl (Some e), w2)
            | (until, True, w2) \<Rightarrow>
                if RateLimitScopeOf e = RateLimitScopeWorkspace
                then (Inr (deferrals(so_workspace intent \<mapsto> until)), w2)
                else (Inl None, w2))
          else (Inr deferrals, recordFailure env wk intent w1))"

definition deferred_until :: "deferrals \<Rightarrow> uuid \<Rightarrow> gtime \<Rightarrow> gtime option" where
  "deferred_until deferrals ws now =
     (case deferrals ws of None \<Rightarrow> None | Some until \<Rightarrow> if now < until then Some until else None)"

definition reconcile_step ::
  "cap_env \<Rightarrow> seat_worker \<Rightarrow> deferrals \<Rightarrow> cap_world \<Rightarrow> (cap_error option + deferrals) \<times> cap_world" where
  "reconcile_step env wk deferrals w =
     (case claim_next env w of
        (None, w1) \<Rightarrow> (Inl (Some CapOther), w1)
      | (Some None, w1) \<Rightarrow> (Inl None, w1)
      | (Some (Some intent), w1) \<Rightarrow>
          (case deferred_until deferrals (so_workspace intent) (now_of env w1) of
             Some until \<Rightarrow>
               (case deferClaimedUntil env intent until w1 of
                  (ok, w2) \<Rightarrow> (if ok then Inr deferrals else Inl (Some CapOther), w2))
           | None \<Rightarrow> settle_claimed env wk deferrals intent w1))"

primrec reconcile_loop ::
  "cap_env \<Rightarrow> seat_worker \<Rightarrow> nat \<Rightarrow> deferrals \<Rightarrow> cap_world \<Rightarrow> cap_error option \<times> cap_world" where
  "reconcile_loop env wk 0 deferrals w = (None, w)"
| "reconcile_loop env wk (Suc n) deferrals w =
     (case reconcile_step env wk deferrals w of
        (Inl stop, w1) \<Rightarrow> (stop, w1)
      | (Inr deferrals', w1) \<Rightarrow> reconcile_loop env wk n deferrals' w1)"

definition ReconcileOnce :: "cap_env \<Rightarrow> seat_worker \<Rightarrow> cap_world \<Rightarrow> cap_error option \<times> cap_world" where
  "ReconcileOnce env wk w =
     (if \<not> CanRunWorker env then (None, w)
      else reconcile_loop env wk (nat (wk_batch wk)) Map.empty w)"

end
