(* ===== verification/SeatHandler.thy ===== *)
theory SeatHandler
  imports SeatWorker
begin

text \<open>
  The callers of the seat protocol in the HTTP handlers: \<^verbatim>\<open>server/internal/handler/seat_capacity.go\<close> and
  the parts of \<^verbatim>\<open>invitation.go\<close>, \<^verbatim>\<open>share_link.go\<close>, \<^verbatim>\<open>workspace_revoke.go\<close> and \<^verbatim>\<open>workspace.go\<close> that read or
  write invitations, members, share links and intents. A transaction is one access \<open>sql\<close>: its body
  computes the statements it commits, none when it rolls back. An answer is the HTTP status, with the
  \<^verbatim>\<open>Retry-After\<close> of a 429. Authentication, the abuse budgets, broadcasts and analytics are left out.
\<close>

section \<open>Intents\<close>

definition capacityIntentParams :: "uuid \<Rightarrow> uuid \<Rightarrow> cap_action \<Rightarrow> gtime \<Rightarrow> seat_row" where
  "capacityIntentParams ws token act due = fresh_intent 0 ws token act due"

text \<open>An upsert is refused by the CHECK constraints or returns no row when the conflicting row may not be
  taken over.\<close>

definition upsert_stmts :: "gtime \<Rightarrow> seat_row \<Rightarrow> seat_row list \<Rightarrow> seat_stmt list \<times> bool" where
  "upsert_stmts now params t =
     (let new = params\<lparr>so_created := now\<rparr>
      in if seat_checks new \<and> upsert_hits (so_token new) (upsert_guard new) t
         then ([QUpsert new], True) else ([], False))"

definition upsert_intent :: "cap_env \<Rightarrow> seat_row \<Rightarrow> cap_world \<Rightarrow> bool \<times> cap_world" where
  "upsert_intent env params w =
     (case sql env (\<lambda>now db. upsert_stmts now params (sd_outbox db)) w of
        (r, w') \<Rightarrow> (r = Some True, w'))"

definition lockSeatCapacityWorkspace :: "cap_env \<Rightarrow> cap_world \<Rightarrow> bool \<times> cap_world" where
  "lockSeatCapacityWorkspace env w =
     (if ce_locker env then (ce_lock_free env (cw_tick w), tick w) else (True, w))"

definition deleteCapacityIntentForAction ::
  "cap_env \<Rightarrow> uuid \<Rightarrow> cap_action \<Rightarrow> cap_world \<Rightarrow> bool \<times> cap_world" where
  "deleteCapacityIntentForAction env token act = exec_stmt env (QDeleteForAction (uuidToPG token) act)"

definition recordCapacityFailure :: "cap_env \<Rightarrow> uuid \<Rightarrow> cap_action \<Rightarrow> cap_world \<Rightarrow> cap_world" where
  "recordCapacityFailure env token act w =
     snd (exec_stmt env (QMarkFailed (uuidToPG token) act (now_of env w + 5 * second)) w)"

text \<open>Discard the intent and return \<open>e\<close>, or the error of the deletion.\<close>

definition discard_with ::
  "cap_env \<Rightarrow> uuid \<Rightarrow> cap_action \<Rightarrow> cap_error option \<Rightarrow> cap_world \<Rightarrow> cap_error option \<times> cap_world" where
  "discard_with env token act e w =
     (case deleteCapacityIntentForAction env token act w of (ok, w') \<Rightarrow> (if ok then e else Some CapOther, w'))"

section \<open>Compensation and confirmation\<close>

definition release_settled :: "cap_answer \<Rightarrow> bool" where
  "release_settled ans =
     (case ans of
        Inl e \<Rightarrow> IsNotFound e
      | Inr d \<Rightarrow> \<not> cd_managed d \<or> cd_allowed d \<or> cd_reason d = ''released'')"

definition finish_release ::
  "cap_env \<Rightarrow> uuid \<Rightarrow> cap_action \<Rightarrow> cap_answer \<times> cap_world \<Rightarrow> cap_world" where
  "finish_release env token act answered =
     (case answered of (ans, w) \<Rightarrow>
        if release_settled ans then snd (deleteCapacityIntentForAction env token act w)
        else recordCapacityFailure env token act w)"

definition get_intent :: "cap_env \<Rightarrow> uuid \<Rightarrow> cap_world \<Rightarrow> seat_row option \<times> cap_world" where
  "get_intent env token w =
     (case sql env (\<lambda>_ db. ([], GetSeatCapacityIntent (uuidToPG token) (sd_outbox db))) w of
        (None, w') \<Rightarrow> (None, w')
      | (Some r, w') \<Rightarrow> (r, w'))"

definition compensateCapacityIntentLocked :: "cap_env \<Rightarrow> uuid \<Rightarrow> cap_world \<Rightarrow> cap_world" where
  "compensateCapacityIntentLocked env token w =
     (case get_intent env token w of
        (None, w1) \<Rightarrow> w1
      | (Some intent, w1) \<Rightarrow>
          if so_action intent \<in> {ActionConfirm, ActionReleaseMember} then w1
          else (case sql env (\<lambda>now db.
                    ([QTransition ActionRelease None (uuidToPG token) (so_action intent) (RetryDue now)],
                     rows_affected (row_is (uuidToPG token) (so_action intent)) (sd_outbox db) = 1)) w1 of
              (Some True, w2) \<Rightarrow>
                finish_release env token ActionRelease (ask env (CallRelease (so_workspace intent) token) w2)
            | (_, w2) \<Rightarrow> w2))"

definition compensateCapacityIntent :: "cap_env \<Rightarrow> uuid \<Rightarrow> cap_world \<Rightarrow> cap_world" where
  "compensateCapacityIntent env token w =
     (if \<not> seatCapacityEnabled env then w
      else (case get_intent env token w of
          (None, w1) \<Rightarrow> w1
        | (Some intent, w1) \<Rightarrow>
            (case lockSeatCapacityWorkspace env w1 of
               (False, w2) \<Rightarrow> w2
             | (True, w2) \<Rightarrow> compensateCapacityIntentLocked env token w2)))"

definition confirm_settled :: "cap_answer \<Rightarrow> bool" where
  "confirm_settled ans = (case ans of Inl _ \<Rightarrow> False | Inr d \<Rightarrow> \<not> cd_managed d \<or> cd_allowed d)"

definition confirmCapacityIntent :: "cap_env \<Rightarrow> uuid \<Rightarrow> uuid \<Rightarrow> uuid \<Rightarrow> cap_world \<Rightarrow> cap_world" where
  "confirmCapacityIntent env ws token mem w =
     (if \<not> seatCapacityEnabled env then w
      else (case lockSeatCapacityWorkspace env w of
          (False, w1) \<Rightarrow> w1
        | (True, w1) \<Rightarrow>
            (case get_intent env token w1 of
               (None, w2) \<Rightarrow> w2
             | (Some intent, w2) \<Rightarrow>
                 if so_action intent \<noteq> ActionConfirm then w2
                 else (case ask env (CallConfirm ws token mem) w2 of (ans, w3) \<Rightarrow>
                     if confirm_settled ans
                     then (case deleteCapacityIntentForAction env token ActionConfirm w3 of
                         (True, w4) \<Rightarrow> w4
                       | (False, w4) \<Rightarrow> recordCapacityFailure env token ActionConfirm w4)
                     else recordCapacityFailure env token ActionConfirm w3))))"

definition settleMemberCapacityRelease :: "cap_env \<Rightarrow> uuid \<Rightarrow> uuid \<Rightarrow> cap_world \<Rightarrow> cap_world" where
  "settleMemberCapacityRelease env ws mem w =
     (if \<not> seatCapacityEnabled env then w
      else (case lockSeatCapacityWorkspace env w of
          (False, w1) \<Rightarrow> w1
        | (True, w1) \<Rightarrow>
            (case sql env (\<lambda>_ db. ([], GetMemberReleaseCapacityIntent ws (uuidToPG mem) (sd_outbox db))) w1 of
               (Some (Some intent), w2) \<Rightarrow>
                 finish_release env (so_token intent) ActionReleaseMember (ask env (CallReleaseMember ws mem) w2)
             | (_, w2) \<Rightarrow> w2)))"

section \<open>Acquiring a seat\<close>

definition reserve_params :: "uuid \<Rightarrow> uuid \<Rightarrow> gtime \<Rightarrow> gtime \<Rightarrow> seat_row" where
  "reserve_params ws invitation expires due =
     (capacityIntentParams ws invitation ActionReserveInvitation due)
       \<lparr>so_subject := uuidToPG invitation, so_invitation := uuidToPG invitation, so_expires := Some expires\<rparr>"

definition reserveInvitationCapacity ::
  "cap_env \<Rightarrow> uuid \<Rightarrow> uuid \<Rightarrow> gtime \<Rightarrow> cap_world \<Rightarrow> cap_error option \<times> cap_world" where
  "reserveInvitationCapacity env ws invitation expires w =
     (if \<not> seatCapacityEnabled env then (None, w)
      else (case lockSeatCapacityWorkspace env w of
          (False, w1) \<Rightarrow> (Some CapUnavailable, w1)
        | (True, w1) \<Rightarrow>
            (case upsert_intent env (reserve_params ws invitation expires (RecoveryDue (now_of env w1))) w1 of
               (False, w2) \<Rightarrow> (Some CapOther, w2)
             | (True, w2) \<Rightarrow>
                 (case ask env (CallReserve ws invitation expires) w2 of
                    (Inl e, w3) \<Rightarrow>
                      if IsRateLimited e then discard_with env invitation ActionReserveInvitation (Some e) w3
                      else if IsCapacityOvercommitted e
                      then discard_with env invitation ActionReserveInvitation (Some CapOvercommitted) w3
                      else (Some CapUnavailable, compensateCapacityIntentLocked env invitation w3)
                  | (Inr d, w3) \<Rightarrow>
                      if \<not> cd_managed d then discard_with env invitation ActionReserveInvitation None w3
                      else if \<not> cd_allowed d
                      then discard_with env invitation ActionReserveInvitation
                             (Some (if cd_reason d = ''capacity_full'' then CapFull else CapUnavailable)) w3
                      else (case exec_stmt env (QMarkDelivered (uuidToPG invitation) ActionReserveInvitation) w3 of
                          (True, w4) \<Rightarrow> (None, w4)
                        | (False, w4) \<Rightarrow> (Some CapOther, compensateCapacityIntentLocked env invitation w4))))))"

definition consume_params :: "uuid \<Rightarrow> uuid \<Rightarrow> uuid \<Rightarrow> uuid \<Rightarrow> gtime \<Rightarrow> seat_row" where
  "consume_params ws token invitation user due =
     (capacityIntentParams ws token ActionConsumeInvitation due)
       \<lparr>so_subject := uuidToPG token, so_invitation := uuidToPG invitation, so_user := uuidToPG user\<rparr>"

text \<open>The result says whether a seat is being consumed, so that the product transaction must confirm it.\<close>

definition beginCapacityConsume ::
  "cap_env \<Rightarrow> uuid \<Rightarrow> uuid \<Rightarrow> uuid \<Rightarrow> uuid \<Rightarrow> cap_world \<Rightarrow> (cap_error + bool) \<times> cap_world" where
  "beginCapacityConsume env ws token invitation user w =
     (if \<not> seatCapacityEnabled env then (Inr False, w)
      else (case lockSeatCapacityWorkspace env w of
          (False, w1) \<Rightarrow> (Inl CapUnavailable, w1)
        | (True, w1) \<Rightarrow>
            (case upsert_intent env (consume_params ws token invitation user (RecoveryDue (now_of env w1))) w1 of
               (False, w2) \<Rightarrow> (Inl CapOther, w2)
             | (True, w2) \<Rightarrow>
                 (case ask env (CallConsume ws token) w2 of
                    (Inl e, w3) \<Rightarrow> (Inl (if IsRateLimited e then e else CapUnavailable), w3)
                  | (Inr d, w3) \<Rightarrow>
                      if \<not> cd_managed d
                      then (case discard_with env token ActionConsumeInvitation None w3 of
                          (None, w4) \<Rightarrow> (Inr False, w4)
                        | (Some e, w4) \<Rightarrow> (Inl e, w4))
                      else if \<not> cd_allowed d
                      then (case exec_stmt env (QExpireInvitation (uuidToPG invitation)) w3 of
                          (False, w4) \<Rightarrow> (Inl CapOther, w4)
                        | (True, w4) \<Rightarrow>
                            (case discard_with env token ActionConsumeInvitation (Some CapFull) w4 of
                               (Some e, w5) \<Rightarrow> (Inl e, w5)
                             | (None, w5) \<Rightarrow> (Inl CapFull, w5)))
                      else (case exec_stmt env (QMarkDelivered (uuidToPG token) ActionConsumeInvitation) w3 of
                          (True, w4) \<Rightarrow> (Inr True, w4)
                        | (False, w4) \<Rightarrow> (Inl CapOther, w4))))))"

text \<open>The token of the row the reactivating insert returns: the one it finds, if it may take it over, or the
  new one.\<close>

definition join_token :: "uuid \<Rightarrow> uuid \<Rightarrow> uuid \<Rightarrow> uuid \<Rightarrow> seat_row list \<Rightarrow> uuid option" where
  "join_token ws token link user t =
     (if \<exists>r \<in> set t. same_join ws link user r
      then map_option so_token (find (\<lambda>r. same_join ws link user r \<and> join_reusable r) t)
      else if token \<in> so_token ` set t then None else Some token)"

definition record_join ::
  "cap_env \<Rightarrow> uuid \<Rightarrow> uuid \<Rightarrow> uuid \<Rightarrow> cap_world \<Rightarrow> uuid option \<times> cap_world" where
  "record_join env ws link user w =
     (let token = ce_fresh env (cw_tick w); due = RecoveryDue (now_of env w)
      in case sql env (\<lambda>_ db. ([QReactivateJoin ws token link user due],
                               join_token ws token link user (sd_outbox db))) w of
           (None, w') \<Rightarrow> (None, w')
         | (Some r, w') \<Rightarrow> (r, w'))"

text \<open>The result is the token of the claimed seat, 0 when the workspace is unmanaged.\<close>

definition beginShareJoinCapacity ::
  "cap_env \<Rightarrow> uuid \<Rightarrow> uuid \<Rightarrow> uuid \<Rightarrow> cap_world \<Rightarrow> (cap_error + uuid) \<times> cap_world" where
  "beginShareJoinCapacity env ws link user w =
     (if \<not> seatCapacityEnabled env then (Inr 0, w)
      else (case lockSeatCapacityWorkspace env w of
          (False, w1) \<Rightarrow> (Inl CapUnavailable, w1)
        | (True, w1) \<Rightarrow>
            (case record_join env ws link user w1 of
               (None, w2) \<Rightarrow> (Inl CapOther, w2)
             | (Some token, w2) \<Rightarrow>
                 (case ask env (CallClaimJoin ws token) w2 of
                    (Inl e, w3) \<Rightarrow>
                      if IsRateLimited e
                      then (case discard_with env token ActionClaimShareJoin (Some e) w3 of
                          (r, w4) \<Rightarrow> (Inl (case r of None \<Rightarrow> CapOther | Some x \<Rightarrow> x), w4))
                      else if IsCapacityOvercommitted e
                      then (case discard_with env token ActionClaimShareJoin (Some CapOvercommitted) w3 of
                          (r, w4) \<Rightarrow> (Inl (case r of None \<Rightarrow> CapOther | Some x \<Rightarrow> x), w4))
                      else (Inl CapUnavailable, w3)
                  | (Inr d, w3) \<Rightarrow>
                      if \<not> cd_managed d
                      then (case discard_with env token ActionClaimShareJoin None w3 of
                          (None, w4) \<Rightarrow> (Inr 0, w4)
                        | (Some e, w4) \<Rightarrow> (Inl e, w4))
                      else if \<not> cd_allowed d
                      then (case discard_with env token ActionClaimShareJoin (Some CapFull) w3 of
                          (r, w4) \<Rightarrow> (Inl (case r of None \<Rightarrow> CapOther | Some x \<Rightarrow> x), w4))
                      else (case exec_stmt env (QMarkDelivered (uuidToPG token) ActionClaimShareJoin) w3 of
                          (True, w4) \<Rightarrow> (Inr token, w4)
                        | (False, w4) \<Rightarrow> (Inl CapOther, w4))))))"

end
