(* ===== verification/SeatRequest.thy ===== *)
theory SeatRequest
  imports SeatHandler
begin

text \<open>
  The requests that take, keep or give back a member seat: inviting, accepting, declining, revoking
  (\<^verbatim>\<open>invitation.go\<close>), joining by a share link (\<^verbatim>\<open>share_link.go\<close>), removing a member (\<^verbatim>\<open>workspace.go\<close>,
  \<^verbatim>\<open>workspace_revoke.go\<close>) and the seat step of deleting a workspace. The signed-in user, an existing
  account for an e-mail address and the verdict of the abuse budgets are arguments.
\<close>

section \<open>Answers\<close>

datatype seat_response = Reply int | ReplyRetry int int

definition retry_after_seconds :: "duration \<Rightarrow> int" where
  "retry_after_seconds d =
     (let r = (if d < second then second else d) in quot (wrap64 (r + second - 1)) second)"

definition writeSeatCapacityError :: "cap_error \<Rightarrow> seat_response" where
  "writeSeatCapacityError e =
     (if IsRateLimited e then ReplyRetry 429 (retry_after_seconds (RateLimitRetryAfter e))
      else if e = CapOvercommitted then Reply 409
      else if e = CapFull then Reply 409
      else Reply 503)"

definition normalizeMemberRole :: "string \<Rightarrow> string option" where
  "normalizeMemberRole role =
     (if role = [] then Some ''member''
      else let r = TrimSpace role
      in if r \<in> {''owner'', ''admin'', ''member''} then Some r else None)"

section \<open>Inviting\<close>

definition enqueueCapacityRelease :: "uuid \<Rightarrow> uuid \<Rightarrow> gtime \<Rightarrow> seat_stmt" where
  "enqueueCapacityRelease ws token now = QEnqueueRelease ws token (uuidToPG token) (RetryDue now)"

definition enqueue_release :: "cap_env \<Rightarrow> uuid \<Rightarrow> uuid \<Rightarrow> cap_world \<Rightarrow> bool \<times> cap_world" where
  "enqueue_release env ws token w =
     (case sql env (\<lambda>now db. ([enqueueCapacityRelease ws token now],
                              upsert_hits token releasable (sd_outbox db))) w of
        (r, w') \<Rightarrow> (r = Some True, w'))"

primrec release_expired :: "cap_env \<Rightarrow> seat_invitation list \<Rightarrow> cap_world \<Rightarrow> bool \<times> cap_world" where
  "release_expired env [] w = (True, w)"
| "release_expired env (v # vs) w =
     (case enqueue_release env (si_workspace v) (si_id v) w of
        (False, w1) \<Rightarrow> (False, w1)
      | (True, w1) \<Rightarrow> release_expired env vs (compensateCapacityIntent env (si_id v) w1))"

definition create_tx ::
  "cap_env \<Rightarrow> seat_invitation \<Rightarrow> cap_world \<Rightarrow> bool option \<times> cap_world" where
  "create_tx env new =
     sql env (\<lambda>now db.
       if invitation_conflict new (sd_invitations db) then ([], False)
       else (QCreateInvitation new
               # (if seatCapacityEnabled env
                  then [QDeleteForAction (uuidToPG (si_id new)) ActionReserveInvitation] else []), True))"

definition invite_email :: "string \<Rightarrow> string" where
  "invite_email raw = ToLower (TrimSpace raw)"

text \<open>The steps of the request from its end to its start: reserve the seat and insert the invitation; refuse
  an address that is invited already; expire what is past due and give its seats back.\<close>

definition invite_reserved ::
  "cap_env \<Rightarrow> uuid \<Rightarrow> string \<Rightarrow> string \<Rightarrow> uuid option \<Rightarrow> cap_world \<Rightarrow> seat_response \<times> cap_world" where
  "invite_reserved env ws email role account w =
     (let i = ce_fresh env (cw_tick w);
          expires = now_of env w + 7 * 24 * 60 * minute;
          new = \<lparr>si_id = i, si_workspace = ws, si_email = email, si_invitee = account,
                 si_role = role, si_status = InvPending, si_expires = expires\<rparr>
      in (case reserveInvitationCapacity env ws i expires w of
            (Some e, w1) \<Rightarrow> (writeSeatCapacityError e, w1)
          | (None, w1) \<Rightarrow>
              (case create_tx env new w1 of
                 (Some True, w2) \<Rightarrow> (Reply 201, w2)
               | (Some False, w2) \<Rightarrow> (Reply 409, compensateCapacityIntent env i w2)
               | (None, w2) \<Rightarrow> (Reply 500, compensateCapacityIntent env i w2))))"

definition invite_new ::
  "cap_env \<Rightarrow> uuid \<Rightarrow> string \<Rightarrow> string \<Rightarrow> uuid option \<Rightarrow> bool \<Rightarrow> cap_world \<Rightarrow> seat_response \<times> cap_world" where
  "invite_new env ws email role account admitted w =
     (case sql env (\<lambda>now db. ([], GetPendingInvitationByEmail now ws email (sd_invitations db))) w of
        (Some (Some _), w1) \<Rightarrow> (Reply 409, w1)
      | (_, w1) \<Rightarrow>
          if \<not> admitted then (Reply 429, w1) else invite_reserved env ws email role account w1)"

definition invite_expiring ::
  "cap_env \<Rightarrow> uuid \<Rightarrow> string \<Rightarrow> string \<Rightarrow> uuid option \<Rightarrow> bool \<Rightarrow> cap_world \<Rightarrow> seat_response \<times> cap_world" where
  "invite_expiring env ws email role account admitted w =
     (case sql env (\<lambda>now db. ([QExpireStale ws email],
              filter (stale_invitation now ws email) (sd_invitations db))) w of
        (None, w1) \<Rightarrow> (Reply 500, w1)
      | (Some expired, w1) \<Rightarrow>
          (case (if seatCapacityEnabled env then release_expired env expired w1 else (True, w1)) of
             (False, w2) \<Rightarrow> (Reply 500, w2)
           | (True, w2) \<Rightarrow> invite_new env ws email role account admitted w2))"

definition create_invitation_request ::
  "cap_env \<Rightarrow> uuid \<Rightarrow> string \<Rightarrow> string \<Rightarrow> uuid option \<Rightarrow> bool \<Rightarrow> cap_world \<Rightarrow> seat_response \<times> cap_world" where
  "create_invitation_request env ws raw_email raw_role account admitted w =
     (let email = invite_email raw_email
      in if email = [] then (Reply 400, w)
      else (case normalizeMemberRole raw_role of
          None \<Rightarrow> (Reply 400, w)
        | Some role \<Rightarrow>
            if role = ''owner'' then (Reply 400, w)
            else (case sql env (\<lambda>_ db. ([], (case account of None \<Rightarrow> None
                     | Some u \<Rightarrow> GetMemberByUserAndWorkspace u ws (sd_members db)))) w of
                (Some (Some _), w1) \<Rightarrow> (Reply 409, w1)
              | (_, w1) \<Rightarrow> invite_expiring env ws email role account admitted w1)))"

section \<open>Answering an invitation\<close>

definition invitation_for :: "uuid \<Rightarrow> string \<Rightarrow> seat_invitation \<Rightarrow> bool" where
  "invitation_for user email v \<longleftrightarrow> ToLower email = si_email v \<or> si_invitee v = Some user"

definition find_invitation :: "cap_env \<Rightarrow> uuid \<Rightarrow> cap_world \<Rightarrow> seat_invitation option \<times> cap_world" where
  "find_invitation env i w =
     (case sql env (\<lambda>_ db. ([], GetInvitation (Some i) (sd_invitations db))) w of
        (None, w') \<Rightarrow> (None, w')
      | (Some r, w') \<Rightarrow> (r, w'))"

text \<open>The statement that hands a consumed seat to the member, and its effect check.\<close>

definition transitionCapacityIntentToConfirm :: "uuid \<Rightarrow> uuid \<Rightarrow> cap_action \<Rightarrow> gtime \<Rightarrow> seat_stmt" where
  "transitionCapacityIntentToConfirm token mem cur now =
     QTransition ActionConfirm (uuidToPG mem) (uuidToPG token) cur (RetryDue now)"

definition confirmable :: "uuid \<Rightarrow> uuid \<Rightarrow> cap_action \<Rightarrow> seat_row list \<Rightarrow> bool" where
  "confirmable token mem cur t \<longleftrightarrow> uuidToPG mem \<noteq> None \<and> rows_affected (row_is (uuidToPG token) cur) t = 1"

definition confirm_stmts :: "bool \<Rightarrow> uuid \<Rightarrow> uuid \<Rightarrow> cap_action \<Rightarrow> gtime \<Rightarrow> seat_stmt list" where
  "confirm_stmts active token mem cur now =
     (if active then [transitionCapacityIntentToConfirm token mem cur now] else [])"

definition accept_tx ::
  "cap_env \<Rightarrow> bool \<Rightarrow> uuid \<Rightarrow> uuid \<Rightarrow> cap_world \<Rightarrow> (int + uuid \<times> uuid) option \<times> cap_world" where
  "accept_tx env active i user w =
     (let mem = ce_fresh env (cw_tick w)
      in sql env (\<lambda>now db.
        (case pending_invitation i (sd_invitations db) of
           None \<Rightarrow> ([], Inl 500)
         | Some v \<Rightarrow>
             let new = \<lparr>sm_id = mem, sm_workspace = si_workspace v, sm_user = user, sm_role = si_role v\<rparr>
             in if member_conflict new (sd_members db) then ([], Inl 409)
                else if active \<and> \<not> confirmable i mem ActionConsumeInvitation (sd_outbox db) then ([], Inl 500)
                else ([QAcceptInvitation i, QCreateMember new]
                        @ confirm_stmts active i mem ActionConsumeInvitation now, Inr (si_workspace v, mem)))) w)"

definition accept_invitation_request ::
  "cap_env \<Rightarrow> uuid \<Rightarrow> string \<Rightarrow> uuid \<Rightarrow> cap_world \<Rightarrow> seat_response \<times> cap_world" where
  "accept_invitation_request env user email i w =
     (case find_invitation env i w of
        (None, w1) \<Rightarrow> (Reply 404, w1)
      | (Some v, w1) \<Rightarrow>
          if \<not> invitation_for user email v then (Reply 403, w1)
          else if si_status v \<noteq> InvPending then (Reply 400, w1)
          else if si_expires v < now_of env w1 then (Reply 410, w1)
          else (case beginCapacityConsume env (si_workspace v) i i user w1 of
              (Inl e, w2) \<Rightarrow> (writeSeatCapacityError e, w2)
            | (Inr active, w2) \<Rightarrow>
                (case accept_tx env active i user w2 of
                   (None, w3) \<Rightarrow> (Reply 500, w3)
                 | (Some (Inl code), w3) \<Rightarrow> (Reply code, w3)
                 | (Some (Inr (ws, mem)), w3) \<Rightarrow>
                     (Reply 200, if active then confirmCapacityIntent env ws i mem w3 else w3))))"

definition release_stmts :: "cap_env \<Rightarrow> uuid \<Rightarrow> uuid \<Rightarrow> gtime \<Rightarrow> seat_row list \<Rightarrow> seat_stmt list option" where
  "release_stmts env ws token now t =
     (if \<not> seatCapacityEnabled env then Some []
      else if upsert_hits token releasable t then Some [enqueueCapacityRelease ws token now] else None)"

text \<open>One transaction: change the pending invitation and queue the release of its seat.\<close>

definition leave_tx ::
  "cap_env \<Rightarrow> seat_stmt \<Rightarrow> uuid \<Rightarrow> uuid \<Rightarrow> int \<Rightarrow> cap_world \<Rightarrow> int option option \<times> cap_world" where
  "leave_tx env change ws i missing =
     sql env (\<lambda>now db.
       if pending_invitation i (sd_invitations db) = None then ([], Some missing)
       else (case release_stmts env ws i now (sd_outbox db) of
           None \<Rightarrow> ([], Some 500)
         | Some ss \<Rightarrow> (change # ss, None)))"

definition leave_request ::
  "cap_env \<Rightarrow> seat_stmt \<Rightarrow> uuid \<Rightarrow> uuid \<Rightarrow> int \<Rightarrow> cap_world \<Rightarrow> seat_response \<times> cap_world" where
  "leave_request env change ws i missing w =
     (case leave_tx env change ws i missing w of
        (None, w1) \<Rightarrow> (Reply 500, w1)
      | (Some (Some code), w1) \<Rightarrow> (Reply code, w1)
      | (Some None, w1) \<Rightarrow>
          (Reply 204, if seatCapacityEnabled env then compensateCapacityIntent env i w1 else w1))"

definition revoke_invitation_request ::
  "cap_env \<Rightarrow> uuid \<Rightarrow> uuid \<Rightarrow> cap_world \<Rightarrow> seat_response \<times> cap_world" where
  "revoke_invitation_request env ws i w =
     (case find_invitation env i w of
        (None, w1) \<Rightarrow> (Reply 404, w1)
      | (Some v, w1) \<Rightarrow>
          if si_workspace v \<noteq> ws \<or> si_status v \<noteq> InvPending then (Reply 404, w1)
          else leave_request env (QRevokeInvitation i) (si_workspace v) i 404 w1)"

definition decline_invitation_request ::
  "cap_env \<Rightarrow> uuid \<Rightarrow> string \<Rightarrow> uuid \<Rightarrow> cap_world \<Rightarrow> seat_response \<times> cap_world" where
  "decline_invitation_request env user email i w =
     (case find_invitation env i w of
        (None, w1) \<Rightarrow> (Reply 404, w1)
      | (Some v, w1) \<Rightarrow>
          if \<not> invitation_for user email v then (Reply 403, w1)
          else if si_status v \<noteq> InvPending then (Reply 400, w1)
          else leave_request env (QDeclineInvitation i) (si_workspace v) i 500 w1)"

section \<open>Joining by a share link\<close>

text \<open>The first access is the part of the transaction that claims the link and looks for the member; the
  second commits. A member who appears in between is a unique violation.\<close>

definition join_check ::
  "cap_env \<Rightarrow> uuid \<Rightarrow> uuid \<Rightarrow> cap_world \<Rightarrow> int option option \<times> cap_world" where
  "join_check env link user =
     sql env (\<lambda>now db. ([],
       (case claimable_link now link (sd_links db) of
          None \<Rightarrow> Some 404
        | Some l \<Rightarrow>
            if GetMemberByUserAndWorkspace user (sl_workspace l) (sd_members db) \<noteq> None then Some 409 else None)))"

datatype join_result = JoinGone | JoinDuplicate | JoinChanged | Joined uuid uuid

definition join_tx ::
  "cap_env \<Rightarrow> uuid \<Rightarrow> uuid \<Rightarrow> uuid \<Rightarrow> cap_world \<Rightarrow> join_result option \<times> cap_world" where
  "join_tx env token link user w =
     (let mem = ce_fresh env (cw_tick w)
      in sql env (\<lambda>now db.
        (case claimable_link now link (sd_links db) of
           None \<Rightarrow> ([], JoinGone)
         | Some l \<Rightarrow>
             let new = \<lparr>sm_id = mem, sm_workspace = sl_workspace l, sm_user = user, sm_role = sl_role l\<rparr>
             in if member_conflict new (sd_members db) then ([], JoinDuplicate)
                else if token \<noteq> 0 \<and> \<not> confirmable token mem ActionClaimShareJoin (sd_outbox db) then ([], JoinChanged)
                else ([QClaimLink link, QCreateMember new]
                        @ confirm_stmts (token \<noteq> 0) token mem ActionClaimShareJoin now,
                      Joined (sl_workspace l) mem))) w)"

definition join_commit ::
  "cap_env \<Rightarrow> uuid \<Rightarrow> uuid \<Rightarrow> uuid \<Rightarrow> cap_world \<Rightarrow> seat_response \<times> cap_world" where
  "join_commit env token link user w =
     (case join_check env link user w of
        (None, w1) \<Rightarrow> (Reply 500, w1)
      | (Some (Some code), w1) \<Rightarrow> (Reply code, w1)
      | (Some None, w1) \<Rightarrow>
          (case join_tx env token link user w1 of
             (None, w2) \<Rightarrow> (Reply 500, w2)
           | (Some JoinGone, w2) \<Rightarrow> (Reply 404, w2)
           | (Some JoinDuplicate, w2) \<Rightarrow> (Reply 409, compensateCapacityIntent env token w2)
           | (Some JoinChanged, w2) \<Rightarrow> (Reply 500, w2)
           | (Some (Joined ws mem), w2) \<Rightarrow>
               (Reply 200, if token \<noteq> 0 then confirmCapacityIntent env ws token mem w2 else w2)))"

definition join_by_share_link_request ::
  "cap_env \<Rightarrow> uuid \<Rightarrow> string \<Rightarrow> cap_world \<Rightarrow> seat_response \<times> cap_world" where
  "join_by_share_link_request env user raw_code w =
     (let code = TrimSpace raw_code
      in if code = [] then (Reply 400, w)
      else (case sql env (\<lambda>now db. ([], GetActiveShareLinkByCode now code (sd_links db))) w of
          (None, w1) \<Rightarrow> (Reply 404, w1)
        | (Some None, w1) \<Rightarrow> (Reply 404, w1)
        | (Some (Some l), w1) \<Rightarrow>
            (case sql env (\<lambda>_ db. ([], GetMemberByUserAndWorkspace user (sl_workspace l) (sd_members db))) w1 of
               (None, w2) \<Rightarrow> (Reply 500, w2)
             | (Some (Some _), w2) \<Rightarrow> (Reply 409, w2)
             | (Some None, w2) \<Rightarrow>
                 (case beginShareJoinCapacity env (sl_workspace l) (sl_id l) user w2 of
                    (Inl e, w3) \<Rightarrow> (writeSeatCapacityError e, w3)
                  | (Inr token, w3) \<Rightarrow> join_commit env token (sl_id l) user w3))))"

section \<open>Leaving\<close>

definition enqueueMemberCapacityRelease :: "uuid \<Rightarrow> uuid \<Rightarrow> uuid \<Rightarrow> gtime \<Rightarrow> seat_row" where
  "enqueueMemberCapacityRelease ws token mem now =
     (capacityIntentParams ws token ActionReleaseMember now)\<lparr>so_member := uuidToPG mem\<rparr>"

definition remove_member_tx :: "cap_env \<Rightarrow> uuid \<Rightarrow> uuid \<Rightarrow> cap_world \<Rightarrow> bool option \<times> cap_world" where
  "remove_member_tx env ws mem w =
     (let token = ce_fresh env (cw_tick w); due = now_of env w
      in sql env (\<lambda>now db.
        if \<not> seatCapacityEnabled env then ([QDeleteMember mem], True)
        else (case upsert_stmts now (enqueueMemberCapacityRelease ws token mem due) (sd_outbox db) of
            (ss, True) \<Rightarrow> (ss @ [QDeleteMember mem], True)
          | (_, False) \<Rightarrow> ([], False))) w)"

definition remove_member_request :: "cap_env \<Rightarrow> uuid \<Rightarrow> uuid \<Rightarrow> cap_world \<Rightarrow> seat_response \<times> cap_world" where
  "remove_member_request env ws mem w =
     (case remove_member_tx env ws mem w of
        (Some True, w1) \<Rightarrow> (Reply 204, settleMemberCapacityRelease env ws mem w1)
      | (_, w1) \<Rightarrow> (Reply 500, w1))"

text \<open>The step \<^verbatim>\<open>prepare seat capacity release\<close> of the teardown transaction of a workspace.\<close>

definition teardown_stmts :: "cap_env \<Rightarrow> uuid \<Rightarrow> uuid list \<Rightarrow> seat_stmt list" where
  "teardown_stmts env ws fresh =
     (if \<not> seatCapacityEnabled env then []
      else [QDeleteConfirms ws, QPrepareOperations ws, QPrepareInvitations ws, QPrepareMembers ws fresh])"

definition delete_workspace_request :: "cap_env \<Rightarrow> uuid \<Rightarrow> uuid list \<Rightarrow> cap_world \<Rightarrow> seat_response \<times> cap_world" where
  "delete_workspace_request env ws fresh w =
     (case sql env (\<lambda>_ _. (teardown_stmts env ws fresh, ())) w of
        (None, w1) \<Rightarrow> (Reply 500, w1)
      | (Some _, w1) \<Rightarrow> (Reply 204, w1))"

end
