(* ===== verification/SeatTrace.thy ===== *)
theory SeatTrace
  imports SeatRequest
begin

text \<open>
  What every operation of the seat protocol guarantees about its own log, whatever other sessions do to
  the tables in between, whatever Cloud answers and whichever statement fails. \<open>event_ok\<close> states it for one
  event after the events \<open>pre\<close>; \<open>hist_ok\<close> for a whole log. Each operation keeps it (\<open>run_op_good\<close>).
\<close>

section \<open>Operations\<close>

datatype seat_op =
    OpInvite uuid string string "uuid option" bool
  | OpAccept uuid string uuid
  | OpDecline uuid string uuid
  | OpRevoke uuid uuid
  | OpJoin uuid string
  | OpRemoveMember uuid uuid
  | OpDeleteWorkspace uuid "uuid list"
  | OpReconcile int int

fun run_op :: "cap_env \<Rightarrow> seat_op \<Rightarrow> cap_world \<Rightarrow> cap_world" where
  "run_op env (OpInvite ws email role account admitted) w =
     snd (create_invitation_request env ws email role account admitted w)"
| "run_op env (OpAccept user email i) w = snd (accept_invitation_request env user email i w)"
| "run_op env (OpDecline user email i) w = snd (decline_invitation_request env user email i w)"
| "run_op env (OpRevoke ws i) w = snd (revoke_invitation_request env ws i w)"
| "run_op env (OpJoin user code) w = snd (join_by_share_link_request env user code w)"
| "run_op env (OpRemoveMember ws mem) w = snd (remove_member_request env ws mem w)"
| "run_op env (OpDeleteWorkspace ws fresh) w = snd (delete_workspace_request env ws fresh w)"
| "run_op env (OpReconcile batch max_attempts) w = snd (ReconcileOnce env (newWorker batch max_attempts) w)"

definition op_log :: "cap_env \<Rightarrow> seat_op \<Rightarrow> seat_db \<Rightarrow> cap_event list" where
  "op_log env op db = cw_log (run_op env op \<lparr>cw_db = db, cw_log = [], cw_tick = 0\<rparr>)"

section \<open>Reading a log\<close>

fun call_of :: "cap_event \<Rightarrow> (cap_call \<times> cap_answer) option" where
  "call_of (Called t c ans) = Some (c, ans)"
| "call_of (Committed t ss db) = None"

definition last_call :: "cap_event list \<Rightarrow> (cap_call \<times> cap_answer) option" where
  "last_call es =
     (let calls = List.map_filter call_of es in if calls = [] then None else Some (last calls))"

text \<open>A snapshot of the log held this row.\<close>

definition seen :: "cap_event list \<Rightarrow> seat_row \<Rightarrow> bool" where
  "seen es r \<longleftrightarrow> (\<exists>t ss db r'. Committed t ss db \<in> set es \<and> r' \<in> set (sd_outbox db)
     \<and> so_token r' = so_token r \<and> so_action r' = so_action r \<and> so_workspace r' = so_workspace r
     \<and> so_member r' = so_member r \<and> so_invitation r' = so_invitation r)"

text \<open>The last event is a read that found the invitation of such a row pending.\<close>

definition read_pending :: "uuid \<Rightarrow> cap_action \<Rightarrow> cap_event list \<Rightarrow> bool" where
  "read_pending token act es \<longleftrightarrow> (\<exists>r t db v. seen es r \<and> so_token r = token \<and> so_action r = act
     \<and> es \<noteq> [] \<and> last es = Committed t [] db
     \<and> GetInvitation (so_invitation r) (sd_invitations db) = Some v \<and> si_status v = InvPending)"

section \<open>Which answer settles which intent\<close>

definition acquire_refused :: "cap_answer \<Rightarrow> bool" where
  "acquire_refused ans =
     (case ans of
        Inl e \<Rightarrow> IsRateLimited e \<or> IsCapacityOvercommitted e
      | Inr d \<Rightarrow> \<not> cd_managed d \<or> \<not> cd_allowed d)"

definition lookup_gone :: "cap_answer \<Rightarrow> bool" where
  "lookup_gone ans =
     (case ans of
        Inl e \<Rightarrow> IsNotFound e
      | Inr d \<Rightarrow> \<not> cd_managed d \<or> cd_state d = Some ''released'')"

definition lookup_state :: "cap_answer \<Rightarrow> string \<Rightarrow> bool" where
  "lookup_state ans st = (case ans of Inl _ \<Rightarrow> False | Inr d \<Rightarrow> cd_state d = Some st)"

definition settled_consuming :: "uuid \<Rightarrow> cap_call \<Rightarrow> cap_answer \<Rightarrow> bool" where
  "settled_consuming token c ans \<longleftrightarrow>
     (\<exists>ws. c = CallGetOperation ws token)
     \<and> (lookup_gone ans \<or> lookup_state ans ''reserved'' \<or> lookup_state ans ''used'')"

fun settled_by :: "cap_event list \<Rightarrow> uuid \<Rightarrow> cap_call \<Rightarrow> cap_answer \<Rightarrow> cap_action \<Rightarrow> bool" where
  "settled_by es token c ans ActionReserveInvitation \<longleftrightarrow>
     ((\<exists>ws e. c = CallReserve ws token e) \<and> acquire_refused ans)
     \<or> ((\<exists>ws. c = CallGetOperation ws token)
        \<and> (lookup_gone ans \<or> lookup_state ans ''reserved'' \<and> read_pending token ActionReserveInvitation es))"
| "settled_by es token c ans ActionConsumeInvitation \<longleftrightarrow>
     ((\<exists>ws. c = CallConsume ws token) \<and> (\<exists>d. ans = Inr d) \<and> acquire_refused ans)
     \<or> settled_consuming token c ans"
| "settled_by es token c ans ActionClaimShareJoin \<longleftrightarrow>
     ((\<exists>ws. c = CallClaimJoin ws token) \<and> acquire_refused ans) \<or> settled_consuming token c ans"
| "settled_by es token c ans ActionConfirm \<longleftrightarrow>
     (\<exists>ws m. c = CallConfirm ws token m) \<and> confirm_settled ans"
| "settled_by es token c ans ActionRelease \<longleftrightarrow>
     (\<exists>ws. c = CallRelease ws token) \<and> release_settled ans"
| "settled_by es token c ans ActionReleaseMember \<longleftrightarrow>
     release_settled ans \<and> (\<exists>r. seen es r \<and> so_token r = token \<and> so_action r = ActionReleaseMember
       \<and> c = CallReleaseMember (so_workspace r) (uuidFromPG (so_member r)))"

definition settled :: "cap_event list \<Rightarrow> uuid \<Rightarrow> cap_action \<Rightarrow> bool" where
  "settled es token act \<longleftrightarrow> (\<exists>c ans. last_call es = Some (c, ans) \<and> settled_by es token c ans act)"

text \<open>Cloud granted the seat of \<open>token\<close>.\<close>

definition seat_granted :: "cap_event list \<Rightarrow> uuid \<Rightarrow> cap_action \<Rightarrow> bool" where
  "seat_granted es token act \<longleftrightarrow>
     (\<exists>c d. last_call es = Some (c, Inr d) \<and> cd_managed d \<and> cd_allowed d
        \<and> ((act = ActionConsumeInvitation \<and> (\<exists>ws. c = CallConsume ws token))
           \<or> (act = ActionClaimShareJoin \<and> (\<exists>ws. c = CallClaimJoin ws token))))"

definition unmanaged :: "cap_event list \<Rightarrow> bool" where
  "unmanaged es \<longleftrightarrow> (\<exists>c d. last_call es = Some (c, Inr d) \<and> \<not> cd_managed d
     \<and> (\<exists>ws token. c = CallConsume ws token \<or> c = CallClaimJoin ws token))"

section \<open>The guarantee\<close>

text \<open>The intent that must be on record before a request that takes a seat.\<close>

fun needs_record :: "cap_call \<Rightarrow> (uuid \<times> cap_action) option" where
  "needs_record (CallReserve ws token e) = Some (token, ActionReserveInvitation)"
| "needs_record (CallConsume ws token) = Some (token, ActionConsumeInvitation)"
| "needs_record (CallClaimJoin ws token) = Some (token, ActionClaimShareJoin)"
| "needs_record _ = None"

definition on_record :: "cap_event list \<Rightarrow> uuid \<Rightarrow> cap_action \<Rightarrow> bool" where
  "on_record es token act \<longleftrightarrow> (\<exists>t s db. es \<noteq> [] \<and> last es = Committed t [s] db
     \<and> (\<exists>r \<in> set (outbox_exec t db s (sd_outbox db)). so_token r = token \<and> so_action r = act))"

fun stmt_ok :: "seat_stmt \<Rightarrow> bool" where
  "stmt_ok (QUpsert new) \<longleftrightarrow> seat_checks new \<and> so_share_link new = None \<and> so_action new \<notin> {ActionConfirm, ActionRelease}"
| "stmt_ok (QTransition nxt mem token cur due) \<longleftrightarrow>
     (nxt = ActionRelease \<and> mem = None \<and> cur \<notin> {ActionConfirm, ActionReleaseMember})
     \<or> (nxt = ActionConfirm \<and> mem \<noteq> None \<and> cur \<in> {ActionConsumeInvitation, ActionClaimShareJoin})"
| "stmt_ok (QTransitionClaimed nxt mem token cur lease due) \<longleftrightarrow>
     nxt = ActionRelease \<and> mem = None \<and> cur \<notin> {ActionConfirm, ActionReleaseMember}"
| "stmt_ok _ \<longleftrightarrow> True"

fun stmt_justified :: "cap_env \<Rightarrow> cap_event list \<Rightarrow> seat_stmt list \<Rightarrow> seat_stmt \<Rightarrow> bool" where
  "stmt_justified env es ss (QDeleteClaimed token act lease) \<longleftrightarrow>
     (\<exists>tk. token = Some tk \<and> settled es tk act)"
| "stmt_justified env es ss (QDeleteForAction token act) \<longleftrightarrow>
     (\<forall>tk. token = Some tk \<longrightarrow> settled es tk act
        \<or> (act = ActionReserveInvitation \<and> (\<exists>v. QCreateInvitation v \<in> set ss \<and> si_id v = tk \<and> si_status v = InvPending)))"
| "stmt_justified env es ss (QDeleteConfirms ws) \<longleftrightarrow> (\<exists>fresh. QPrepareMembers ws fresh \<in> set ss)"
| "stmt_justified env es ss (QTransition nxt mem token cur due) \<longleftrightarrow>
     nxt = ActionConfirm \<longrightarrow>
       (\<exists>m tk. token = Some tk \<and> mem = Some (sm_id m) \<and> QCreateMember m \<in> set ss \<and> seat_granted es tk cur)"
| "stmt_justified env es ss (QCreateMember m) \<longleftrightarrow>
     \<not> seatCapacityEnabled env \<or> unmanaged es
     \<or> (\<exists>tk cur due. QTransition ActionConfirm (Some (sm_id m)) (Some tk) cur due \<in> set ss \<and> seat_granted es tk cur)"
| "stmt_justified env es ss _ \<longleftrightarrow> True"

text \<open>Within one commit a deletion comes before any other change of the outbox; an invitation or a member is
  inserted where nothing conflicts, and the intent the commit hands to the member is there.\<close>

fun drops :: "seat_stmt \<Rightarrow> bool" where
  "drops (QDeleteClaimed token act lease) \<longleftrightarrow> True"
| "drops (QDeleteForAction token act) \<longleftrightarrow> True"
| "drops (QDeleteConfirms ws) \<longleftrightarrow> True"
| "drops _ \<longleftrightarrow> False"

fun off_outbox :: "seat_stmt \<Rightarrow> bool" where
  "off_outbox (QExpireInvitation i) \<longleftrightarrow> True"
| "off_outbox (QAcceptInvitation i) \<longleftrightarrow> True"
| "off_outbox (QDeclineInvitation i) \<longleftrightarrow> True"
| "off_outbox (QRevokeInvitation i) \<longleftrightarrow> True"
| "off_outbox (QExpireStale ws email) \<longleftrightarrow> True"
| "off_outbox (QCreateInvitation v) \<longleftrightarrow> True"
| "off_outbox (QCreateMember m) \<longleftrightarrow> True"
| "off_outbox (QDeleteMember m) \<longleftrightarrow> True"
| "off_outbox (QClaimLink i) \<longleftrightarrow> True"
| "off_outbox _ \<longleftrightarrow> False"

fun drops_lead :: "seat_stmt list \<Rightarrow> bool" where
  "drops_lead [] \<longleftrightarrow> True"
| "drops_lead (s # ss) \<longleftrightarrow> (if off_outbox s then drops_lead ss else \<forall>x \<in> set ss. \<not> drops x)"

definition invite_shape :: "seat_stmt list \<Rightarrow> seat_db \<Rightarrow> bool" where
  "invite_shape ss db \<longleftrightarrow> (\<forall>v. QCreateInvitation v \<in> set ss \<longrightarrow>
     \<not> invitation_conflict v (sd_invitations db)
     \<and> (\<exists>rest. ss = QCreateInvitation v # rest \<and> (\<forall>x \<in> set rest. \<exists>tk act. x = QDeleteForAction tk act)))"

definition member_shape :: "seat_stmt list \<Rightarrow> seat_db \<Rightarrow> bool" where
  "member_shape ss db \<longleftrightarrow> (\<forall>m. QCreateMember m \<in> set ss \<longrightarrow>
     \<not> member_conflict m (sd_members db)
     \<and> (\<exists>first tail. ss = first # QCreateMember m # tail
          \<and> (\<exists>i. first = QAcceptInvitation i \<or> first = QClaimLink i)
          \<and> (tail = [] \<or> (\<exists>tk cur due. tail = [QTransition ActionConfirm (Some (sm_id m)) tk cur due]
               \<and> (\<exists>r \<in> set (sd_outbox db). row_is tk cur r)))))"

definition shape_ok :: "seat_stmt list \<Rightarrow> seat_db \<Rightarrow> bool" where
  "shape_ok ss db \<longleftrightarrow> drops_lead ss \<and> invite_shape ss db \<and> member_shape ss db"

lemma shape_single [simp]:
  "(\<forall>v. s \<noteq> QCreateInvitation v) \<Longrightarrow> (\<forall>m. s \<noteq> QCreateMember m) \<Longrightarrow> shape_ok [s] db"
  by (auto simp: shape_ok_def invite_shape_def member_shape_def)

lemma shape_Nil [simp]: "shape_ok [] db"
  by (simp add: shape_ok_def invite_shape_def member_shape_def)

fun event_ok :: "cap_env \<Rightarrow> cap_event list \<Rightarrow> cap_event \<Rightarrow> bool" where
  "event_ok env es (Called t c ans) \<longleftrightarrow>
     (\<forall>token act. needs_record c = Some (token, act) \<longrightarrow> on_record es token act)"
| "event_ok env es (Committed t ss db) \<longleftrightarrow> (\<forall>s \<in> set ss. stmt_ok s \<and> stmt_justified env es ss s) \<and> shape_ok ss db"

definition hist_ok :: "cap_env \<Rightarrow> cap_event list \<Rightarrow> bool" where
  "hist_ok env es \<longleftrightarrow> (\<forall>pre e post. es = pre @ e # post \<longrightarrow> event_ok env pre e)"

lemma hist_ok_Nil [simp]: "hist_ok env []"
  by (simp add: hist_ok_def)

lemma hist_ok_snoc: "hist_ok env (es @ [e]) \<longleftrightarrow> hist_ok env es \<and> event_ok env es e"
  unfolding hist_ok_def
proof (intro iffI conjI allI impI)
  assume h: "\<forall>pre e' post. es @ [e] = pre @ e' # post \<longrightarrow> event_ok env pre e'"
  show "event_ok env es e" using h by simp
  fix pre e' post
  assume "es = pre @ e' # post"
  then show "event_ok env pre e'" using h by simp
next
  fix pre e' post
  assume h: "(\<forall>pre e' post. es = pre @ e' # post \<longrightarrow> event_ok env pre e') \<and> event_ok env es e"
    and "es @ [e] = pre @ e' # post"
  then show "event_ok env pre e'" by (cases post rule: rev_cases) auto
qed

lemma last_call_snoc [simp]:
  "last_call (es @ [Called t c ans]) = Some (c, ans)"
  "last_call (es @ [Committed t ss db]) = last_call es"
  by (simp_all add: last_call_def List.map_filter_def)

lemma seen_mono: "seen es r \<Longrightarrow> seen (es @ fs) r"
  unfolding seen_def by (simp only: set_append Un_iff) blast

section \<open>The primitives keep it\<close>

definition good :: "cap_env \<Rightarrow> cap_world \<Rightarrow> bool" where
  "good env w \<longleftrightarrow> hist_ok env (cw_log w)"

lemma sql_log:
  assumes "sql env body w = (r, w')"
  obtains "cw_log w' = cw_log w" "r = None"
  | now db ss a where "cw_log w' = cw_log w @ [Committed now ss db]" "body now db = (ss, a)" "r = None \<or> r = Some a"
      "now = now_of env w" "cw_db w' = fold (seat_exec now) ss db"
  using assms unfolding sql_def Let_def
  by (cases "body (now_of env w) (ce_rival env (cw_tick w) (cw_db w))";
      cases "ce_reply env (cw_tick w)") (auto simp: tick_def)

lemma sql_good:
  assumes "sql env body w = (r, w')" and "good env w"
    and "\<And>now db ss a. body now db = (ss, a) \<Longrightarrow> event_ok env (cw_log w) (Committed now ss db)"
  shows "good env w'"
  using assms(1)
  by (rule sql_log) (use assms(2,3) in \<open>simp_all add: good_def hist_ok_snoc del: event_ok.simps\<close>)

lemma sql_last_call [simp]:
  assumes "sql env body w = (r, w')"
  shows "last_call (cw_log w') = last_call (cw_log w)"
  using assms by (rule sql_log) simp_all

lemma sql_seen:
  assumes "sql env body w = (r, w')" "seen (cw_log w) x"
  shows "seen (cw_log w') x"
  using assms(1) by (rule sql_log) (simp_all add: assms(2) seen_mono)

lemma ask_heard:
  assumes "ask env c w = (ans, w')"
  shows "ans = Inl CapOther \<and> w' = w \<or> (\<exists>t. cw_log w' = cw_log w @ [Called t c ans])"
  using assms unfolding ask_def by (auto simp: Let_def tick_def split: if_splits)

lemma ask_last_call:
  assumes "ask env c w = (ans, w')" "ans \<noteq> Inl CapOther"
  shows "last_call (cw_log w') = Some (c, ans)"
  using ask_heard[OF assms(1)] assms(2) by auto

lemma ask_good:
  assumes "ask env c w = (ans, w')" "good env w"
    and "\<And>token act. needs_record c = Some (token, act) \<Longrightarrow> on_record (cw_log w) token act"
  shows "good env w'"
  using ask_heard[OF assms(1)] assms(2,3) by (auto simp: good_def hist_ok_snoc)

lemma ask_seen:
  assumes "ask env c w = (ans, w')" "seen (cw_log w) x"
  shows "seen (cw_log w') x"
  using ask_heard[OF assms(1)] assms(2) by (auto simp: seen_mono)

end
