(* ===== verification/SeatGuarantee.thy ===== *)
theory SeatGuarantee
  imports SeatTrace
begin

text \<open>
  Every operation of the seat protocol keeps \<open>hist_ok\<close>: first the statements, then the worker, then the
  handlers; \<open>run_op_good\<close> collects them.
\<close>

section \<open>Single statements\<close>

lemma exec_stmt_sql:
  assumes "exec_stmt env s w = (ok, w')"
  obtains r where "sql env (\<lambda>_ _. ([s], ())) w = (r, w')" "ok \<longleftrightarrow> r \<noteq> None"
  using assms unfolding exec_stmt_def
  by (cases "sql env (\<lambda>_ _. ([s], ())) w") (auto split: option.splits)

lemma exec_last_call [simp]:
  "exec_stmt env s w = (ok, w') \<Longrightarrow> last_call (cw_log w') = last_call (cw_log w)"
  by (elim exec_stmt_sql) simp

lemma exec_seen: "exec_stmt env s w = (ok, w') \<Longrightarrow> seen (cw_log w) x \<Longrightarrow> seen (cw_log w') x"
  by (elim exec_stmt_sql) (rule sql_seen)

lemma exec_good:
  assumes "exec_stmt env s w = (ok, w')" "good env w" "stmt_ok s" "stmt_justified env (cw_log w) [s] s"
    and "\<And>db. shape_ok [s] db"
  shows "good env w'"
  using assms(1)
proof (rule exec_stmt_sql)
  fix r assume "sql env (\<lambda>_ _. ([s], ())) w = (r, w')"
  then show ?thesis
    by (rule sql_good) (use assms(2-5) in auto)
qed

text \<open>Reading never breaks a guarantee, and a read row has been seen.\<close>

lemma read_good: "sql env (\<lambda>now db. ([], f now db)) w = (r, w') \<Longrightarrow> good env w \<Longrightarrow> good env w'"
  by (erule sql_good) auto

lemma read_seen:
  assumes "sql env (\<lambda>now db. ([], f db)) w = (Some (Some r), w')"
    and "\<And>db x. f db = Some x \<Longrightarrow> x \<in> set (sd_outbox db)"
  shows "seen (cw_log w') r"
  using assms(1)
proof (rule sql_log)
  fix now db ss a
  assume "cw_log w' = cw_log w @ [Committed now ss db]" "([], f db) = (ss, a)"
    "Some (Some r) = None \<or> Some (Some r) = Some a"
  then show ?thesis using assms(2)[of db r] unfolding seen_def by auto
qed simp

section \<open>The worker\<close>

lemma deleteCurrent_good:
  assumes "deleteCurrent env i w = (r, w')" "good env w" "settled (cw_log w) (so_token i) (so_action i)"
  shows "good env w'"
  using assms(1) unfolding deleteCurrent_def
  by (auto split: prod.splits elim!: exec_good intro: assms(2,3))

lemma transition_good:
  assumes "transition env i ActionRelease None w = (r, w')" "good env w"
    and "so_action i \<notin> {ActionConfirm, ActionReleaseMember}"
  shows "good env w'"
  using assms(1) unfolding transition_def
  by (rule sql_good) (use assms(2,3) in \<open>auto simp: transition_stmt_def\<close>)

lemma to_release_good:
  assumes "to_release env i w = (r, w')" "good env w" "so_action i \<notin> {ActionConfirm, ActionReleaseMember}"
  shows "good env w'"
  using assms(1) unfolding to_release_def
  by (auto split: prod.splits option.splits intro: transition_good[OF _ assms(2,3)])

lemma expire_invitation_good:
  assumes "expire_invitation env i w = (r, w')" "good env w"
  shows "good env w' \<and> last_call (cw_log w') = last_call (cw_log w)"
  using assms unfolding expire_invitation_def
  by (auto split: if_splits elim!: exec_good)

lemma recoverReserve_good:
  assumes r: "recoverReserve env i ws (so_token i) w = (r, w')" and g: "good env w"
    and a: "so_action i = ActionReserveInvitation" and sn: "seen (cw_log w) i"
  shows "good env w'"
proof -
  obtain ans w1 where ask: "ask env (CallGetOperation ws (so_token i)) w = (ans, w1)" by fastforce
  have g1: "good env w1" by (rule ask_good[OF ask g]) simp
  have a': "so_action i \<notin> {ActionConfirm, ActionReleaseMember}" by (simp add: a)
  have gone: "settled (cw_log w1) (so_token i) (so_action i)" if "lookup_gone ans"
  proof -
    have "ans \<noteq> Inl CapOther" using that by (auto simp: lookup_gone_def)
    from ask_last_call[OF ask this] that show ?thesis by (auto simp: settled_def a)
  qed
  have del: "good env w2" if "deleteCurrent env i w1 = (r2, w2)" "lookup_gone ans" for r2 w2
    by (rule deleteCurrent_good[OF that(1) g1 gone[OF that(2)]])
  have rel: "good env w2" if "to_release env i w1 = (r2, w2)" for r2 w2
    by (rule to_release_good[OF that g1 a'])
  have inv: "good env w3"
    if s: "sql env (\<lambda>_ db. ([], GetInvitation (so_invitation i) (sd_invitations db))) w1 = (q, w2)"
      and k: "case q of None \<Rightarrow> w3 = w2
        | Some None \<Rightarrow> \<exists>x. to_release env i w2 = (x, w3)
        | Some (Some v) \<Rightarrow> \<exists>x. (if si_status v = InvPending then deleteCurrent env i w2 else to_release env i w2) = (x, w3)"
      and st: "lookup_state ans ''reserved''" for q w2 w3
  proof -
    have g2: "good env w2" by (rule read_good[OF s g1])
    have "settled (cw_log w2) (so_token i) (so_action i)"
      if q: "q = Some (Some v)" and p: "si_status v = InvPending" for v
    proof -
      have "seen (cw_log w2) i"
        by (rule sql_seen[OF s]) (rule ask_seen[OF ask sn])
      moreover obtain now db where "cw_log w2 = cw_log w1 @ [Committed now [] db]"
          "GetInvitation (so_invitation i) (sd_invitations db) = Some v"
        using s by (rule sql_log) (use q in auto)
      ultimately have "read_pending (so_token i) ActionReserveInvitation (cw_log w2)"
        using p a unfolding read_pending_def
        by (intro exI[of _ i] exI[of _ now] exI[of _ db] exI[of _ v]) simp
      moreover have "ans \<noteq> Inl CapOther" using st by (auto simp: lookup_state_def)
      ultimately show ?thesis
        using st a unfolding settled_def by (auto simp: sql_last_call[OF s] ask_last_call[OF ask])
    qed
    then show ?thesis
      using k by (auto split: option.splits if_splits
          intro: g2 to_release_good[OF _ g2 a'] deleteCurrent_good[OF _ g2])
  qed
  show ?thesis
    using r g1 unfolding recoverReserve_def ask
    by (auto simp: lookup_gone_def lookup_state_def split: sum.splits if_splits option.splits prod.splits
        intro: del rel inv)
qed

lemma recoverConsuming_good:
  assumes r: "recoverConsuming env i ws (so_token i) w = (r, w')" and g: "good env w"
    and a: "so_action i \<in> {ActionConsumeInvitation, ActionClaimShareJoin}"
  shows "good env w'"
proof -
  obtain ans w1 where ask: "ask env (CallGetOperation ws (so_token i)) w = (ans, w1)" by fastforce
  have g1: "good env w1" by (rule ask_good[OF ask g]) simp
  have a': "so_action i \<notin> {ActionConfirm, ActionReleaseMember}" using a by auto
  have gone: "settled (cw_log w2) (so_token i) (so_action i)"
    if "lookup_gone ans \<or> lookup_state ans ''reserved'' \<or> lookup_state ans ''used''"
      and "last_call (cw_log w2) = last_call (cw_log w1)" for w2
  proof -
    have "ans \<noteq> Inl CapOther" using that by (auto simp: lookup_gone_def lookup_state_def)
    from ask_last_call[OF ask this] that a show ?thesis
      by (auto simp: settled_def settled_consuming_def)
  qed
  have del: "good env w2"
    if "deleteCurrent env i w1 = (r2, w2)"
      "lookup_gone ans \<or> lookup_state ans ''reserved'' \<or> lookup_state ans ''used''" for r2 w2
    by (rule deleteCurrent_good[OF that(1) g1 gone[OF that(2)]]) simp
  have del': "good env w3"
    if "expire_invitation env i w1 = (ok, w2)" "deleteCurrent env i w2 = (r2, w3)" "lookup_gone ans" for ok r2 w2 w3
    using expire_invitation_good[OF that(1) g1] deleteCurrent_good[OF that(2)] gone[of w2] that(3) by simp
  have rel: "good env w2" if "transition env i ActionRelease None w1 = (r2, w2)" for r2 w2
    by (rule transition_good[OF that g1 a'])
  have rel': "good env w3"
    if "transition env i ActionRelease None w1 = (r2, w2)" "expire_invitation env i w2 = (ok, w3)" for r2 w2 ok w3
    using expire_invitation_good[OF that(2) rel[OF that(1)]] by simp
  have ex: "good env w2" if "expire_invitation env i w1 = (ok, w2)" for ok w2
    using expire_invitation_good[OF that g1] by simp
  show ?thesis
  proof (cases ans)
    case (Inl e)
    with r g1 show ?thesis
      unfolding recoverConsuming_def ask
      by (auto simp: lookup_gone_def split: if_splits intro: del)
  next
    case (Inr d)
    note r' = r[unfolded recoverConsuming_def ask Inr prod.case sum.case]
    consider "\<not> cd_managed d" | "cd_managed d" "cd_state d = None"
      | st where "cd_managed d" "cd_state d = Some st" "st \<in> {''reserved'', ''used''}"
      | "cd_managed d" "cd_state d = Some ''released''" | "cd_managed d" "cd_state d = Some ''consuming''"
      | st where "cd_managed d" "cd_state d = Some st" "st \<notin> {''reserved'', ''used'', ''released'', ''consuming''}"
      by (cases "cd_state d") auto
    then show ?thesis
    proof cases
      case 3
      with r' Inr show ?thesis by (auto simp: lookup_state_def intro: del)
    next
      case 4
      obtain ok w2 where e: "expire_invitation env i w1 = (ok, w2)" by fastforce
      show ?thesis
      proof (cases ok)
        case True
        with r' 4 e have "deleteCurrent env i w2 = (r, w')" by simp
        from del'[OF e this] show ?thesis by (simp add: lookup_gone_def Inr 4)
      next
        case False
        with r' 4 e ex[OF e] show ?thesis by simp
      qed
    next
      case 5
      obtain q w2 where t: "transition env i ActionRelease None w1 = (q, w2)" by fastforce
      obtain ok w3 where e: "expire_invitation env i w2 = (ok, w3)" by fastforce
      show ?thesis
        using r' 5 t e rel[OF t] rel'[OF t e] by (simp split: option.splits bool.splits)
    qed (use r' Inr g1 in \<open>auto simp: lookup_gone_def intro: del\<close>)
  qed
qed

lemma settle_release_good:
  assumes r: "settle_release env i (ask env c w) = (r, w')" and g: "good env w"
    and c: "needs_record c = None"
    and s: "\<And>(w1 :: cap_world) ans. last_call (cw_log w1) = Some (c, ans) \<Longrightarrow> release_settled ans
      \<Longrightarrow> (\<And>x. seen (cw_log w) x \<Longrightarrow> seen (cw_log w1) x) \<Longrightarrow> settled (cw_log w1) (so_token i) (so_action i)"
  shows "good env w'"
proof -
  obtain ans w1 where ask: "ask env c w = (ans, w1)" by fastforce
  have g1: "good env w1" by (rule ask_good[OF ask g]) (simp add: c)
  have del: "good env w2" if "deleteCurrent env i w1 = (r2, w2)" "release_settled ans" for r2 w2
  proof (rule deleteCurrent_good[OF that(1) g1])
    have "ans \<noteq> Inl CapOther" using that(2) by (auto simp: release_settled_def)
    show "settled (cw_log w1) (so_token i) (so_action i)"
      by (rule s[OF ask_last_call[OF ask \<open>ans \<noteq> Inl CapOther\<close>] that(2)]) (rule ask_seen[OF ask])
  qed
  show ?thesis
    using r g1 unfolding settle_release_def ask
    by (auto simp: release_settled_def split: sum.splits if_splits intro: del)
qed

lemma confirm_good:
  assumes r: "(case ask env (CallConfirm ws (so_token i) m) w of
      (Inl e, w1) \<Rightarrow> (Some e, w1)
    | (Inr d, w1) \<Rightarrow> if \<not> cd_allowed d then (Some CapOther, w1) else deleteCurrent env i w1) = (r, w')"
    and g: "good env w" and a: "so_action i = ActionConfirm"
  shows "good env w'"
proof -
  obtain ans w1 where ask: "ask env (CallConfirm ws (so_token i) m) w = (ans, w1)" by fastforce
  have g1: "good env w1" by (rule ask_good[OF ask g]) simp
  have del: "good env w2" if "deleteCurrent env i w1 = (r2, w2)" "confirm_settled ans" for r2 w2
  proof (rule deleteCurrent_good[OF that(1) g1])
    have "ans \<noteq> Inl CapOther" using that(2) by (auto simp: confirm_settled_def)
    from ask_last_call[OF ask this] that(2) a show "settled (cw_log w1) (so_token i) (so_action i)"
      by (auto simp: settled_def)
  qed
  show ?thesis
    using r g1 unfolding ask by (auto simp: confirm_settled_def split: sum.splits if_splits intro: del)
qed

lemma settle_good:
  assumes r: "settle env i w = (r, w')" and g: "good env w" and sn: "seen (cw_log w) i"
  shows "good env w'"
proof (cases "so_lease i = None")
  case True
  with r g show ?thesis by (simp add: settle_def)
next
  case False
  note s = r[unfolded settle_def Let_def if_not_P[OF False]]
  show ?thesis
  proof (cases "so_action i")
    case ActionReserveInvitation
    with s show ?thesis by (auto intro: recoverReserve_good[OF _ g _ sn])
  next
    case ActionConsumeInvitation
    with s show ?thesis by (auto intro: recoverConsuming_good[OF _ g])
  next
    case ActionClaimShareJoin
    with s show ?thesis by (auto intro: recoverConsuming_good[OF _ g])
  next
    case ActionConfirm
    with s show ?thesis by (simp add: confirm_good[OF _ g ActionConfirm])
  next
    case ActionRelease
    with s have "settle_release env i (ask env (CallRelease (so_workspace i) (so_token i)) w) = (r, w')"
      by simp
    then show ?thesis
      by (rule settle_release_good[OF _ g]) (auto simp: settled_def ActionRelease)
  next
    case ActionReleaseMember
    with s have "settle_release env i
        (ask env (CallReleaseMember (so_workspace i) (uuidFromPG (so_member i))) w) = (r, w')"
      by simp
    then show ?thesis
    proof (rule settle_release_good[OF _ g])
      fix w1 :: cap_world and ans
      assume "last_call (cw_log w1) = Some (CallReleaseMember (so_workspace i) (uuidFromPG (so_member i)), ans)"
        "release_settled ans" "\<And>x. seen (cw_log w) x \<Longrightarrow> seen (cw_log w1) x"
      with sn show "settled (cw_log w1) (so_token i) (so_action i)"
        unfolding settled_def ActionReleaseMember settled_by.simps using ActionReleaseMember by blast
    qed simp
  qed
qed

lemma settleWithWorkspaceLimit_good:
  assumes r: "settleWithWorkspaceLimit env i w = (r, w')" and g: "good env w" and sn: "seen (cw_log w) i"
  shows "good env w'"
proof -
  let ?body = "\<lambda>(_ :: gtime) db. ([] :: seat_stmt list, GetClaimedSeatCapacityIntent (Some (so_token i)) (so_action i) (so_lease i) (sd_outbox db))"
  have "good env w2" if q: "sql env ?body w = (q, w1)" and st: "q = Some (Some c)" "settle env c w1 = (r2, w2)" for q w1 c r2 w2
  proof (rule settle_good[OF st(2)])
    show "good env w1" by (rule read_good[OF q g])
    show "seen (cw_log w1) c"
      by (rule read_seen[OF q[unfolded st(1)]])
        (auto simp: GetClaimedSeatCapacityIntent_def dest: find_Some_in)
  qed
  moreover have "good env w1" if "sql env ?body w = (q, w1)" for q w1
    by (rule read_good[OF that g])
  moreover have "good env (tick w)" using g by (simp add: good_def)
  ultimately show ?thesis
    using r g sn unfolding settleWithWorkspaceLimit_def
    by (auto split: if_splits prod.splits option.splits intro: settle_good)
qed

lemma failure_stmt_ok: "stmt_ok (failure_stmt wk now i) \<and> stmt_justified env es [failure_stmt wk now i] (failure_stmt wk now i)
    \<and> shape_ok [failure_stmt wk now i] db"
  by (simp add: failure_stmt_def)

lemma recordFailure_good: "good env w \<Longrightarrow> good env (recordFailure env wk i w)"
  unfolding recordFailure_def
  by (cases "exec_stmt env (failure_stmt wk (now_of env w) i) w")
    (auto elim!: exec_good simp: failure_stmt_ok)

lemma deferClaimedUntil_good: "deferClaimedUntil env i until w = (ok, w') \<Longrightarrow> good env w \<Longrightarrow> good env w'"
  unfolding deferClaimedUntil_def by (erule exec_good) auto

lemma earliest_due_in: "earliest_due t = Some r \<Longrightarrow> r \<in> set t"
  by (induction t arbitrary: r) (auto split: option.splits if_splits)

lemma next_due_in: "next_due now locked t = Some r \<Longrightarrow> r \<in> set t \<and> due_row now locked r"
  unfolding next_due_def by (auto dest: earliest_due_in)

lemma claim_next_good:
  assumes "claim_next env w = (r, w')" "good env w"
  shows "good env w'" and "r = Some (Some i) \<Longrightarrow> seen (cw_log w') i"
proof -
  show "good env w'"
    using assms(1) unfolding claim_next_def Let_def by (rule sql_good) (use assms(2) in auto)
  assume r: "r = Some (Some i)"
  show "seen (cw_log w') i"
    using assms(1)[unfolded claim_next_def Let_def]
  proof (rule sql_log)
    fix now db ss a
    assume l: "cw_log w' = cw_log w @ [Committed now ss db]" "r = None \<or> r = Some a"
      and b: "([QClaimNext (now_of env w + defaultClaimLease) (ce_fresh env (cw_tick w)) (ce_locked env (cw_tick w))],
        map_option (\<lambda>r. r\<lparr>so_next := now_of env w + defaultClaimLease, so_lease := Some (ce_fresh env (cw_tick w))\<rparr>)
          (next_due now (ce_locked env (cw_tick w)) (sd_outbox db))) = (ss, a)"
    then obtain d where "next_due now (ce_locked env (cw_tick w)) (sd_outbox db) = Some d"
        "i = d\<lparr>so_next := now_of env w + defaultClaimLease, so_lease := Some (ce_fresh env (cw_tick w))\<rparr>"
      using r by auto
    moreover from this(1) have "d \<in> set (sd_outbox db)" by (auto dest: next_due_in)
    ultimately show ?thesis
      unfolding seen_def l(1)
      by (intro exI[of _ now] exI[of _ ss] exI[of _ db] exI[of _ d]) simp
  qed (simp add: r)
qed

lemma settle_claimed_good:
  assumes "settle_claimed env wk ds i w = (r, w')" "good env w" "seen (cw_log w) i"
  shows "good env w'"
  using assms(1) unfolding settle_claimed_def deferRateLimited_def
  by (auto simp: Let_def split: prod.splits option.splits if_splits bool.splits
      intro: settleWithWorkspaceLimit_good[OF _ assms(2,3)] deferClaimedUntil_good recordFailure_good)

lemma reconcile_step_good:
  assumes "reconcile_step env wk ds w = (r, w')" "good env w"
  shows "good env w'"
  using assms(1) unfolding reconcile_step_def
  by (auto split: prod.splits option.splits
      intro: claim_next_good[OF _ assms(2)] deferClaimedUntil_good settle_claimed_good)

lemma reconcile_loop_good: "good env w \<Longrightarrow> good env (snd (reconcile_loop env wk n ds w))"
  by (induction n arbitrary: ds w) (auto split: prod.splits sum.splits dest: reconcile_step_good)

lemma ReconcileOnce_good: "good env w \<Longrightarrow> good env (snd (ReconcileOnce env wk w))"
  by (simp add: ReconcileOnce_def reconcile_loop_good)

end
