(* ===== verification/SeatAdmit.thy ===== *)
theory SeatAdmit
  imports SeatGuarantee
begin

text \<open>The guarantee of the handlers, and of every operation.\<close>

section \<open>Helpers of the handlers\<close>

lemma uuidToPG_Some [simp]: "uuidToPG t = Some x \<longleftrightarrow> t \<noteq> 0 \<and> x = t"
  by (auto simp: uuidToPG_def)

lemma uuidToPG_None [simp]: "uuidToPG t = None \<longleftrightarrow> t = 0"
  by (simp add: uuidToPG_def)

lemma lock_log [simp]:
  "lockSeatCapacityWorkspace env w = (ok, w') \<Longrightarrow> cw_log w' = cw_log w"
  by (auto simp: lockSeatCapacityWorkspace_def split: if_splits)

lemma lock_good: "lockSeatCapacityWorkspace env w = (ok, w') \<Longrightarrow> good env w \<Longrightarrow> good env w'"
  by (simp add: good_def)

lemma delete_for_action_good:
  assumes "deleteCapacityIntentForAction env token act w = (ok, w')" "good env w" "settled (cw_log w) token act"
  shows "good env w'"
  using assms(1) unfolding deleteCapacityIntentForAction_def
  by (rule exec_good) (use assms(2,3) in \<open>auto simp: uuidToPG_def\<close>)

lemma discard_good:
  assumes "discard_with env token act e w = (r, w')" "good env w" "settled (cw_log w) token act"
  shows "good env w'"
  using assms(1) unfolding discard_with_def
  by (auto split: prod.splits intro: delete_for_action_good[OF _ assms(2,3)])

lemma discard_last_call:
  "discard_with env token act e w = (r, w') \<Longrightarrow> last_call (cw_log w') = last_call (cw_log w)"
  by (auto simp: discard_with_def deleteCapacityIntentForAction_def split: prod.splits)

lemma recordCapacityFailure_good: "good env w \<Longrightarrow> good env (recordCapacityFailure env token act w)"
  unfolding recordCapacityFailure_def
  by (cases "exec_stmt env (QMarkFailed (uuidToPG token) act (now_of env w + 5 * second)) w")
    (auto elim!: exec_good)

lemma get_intent_good:
  assumes "get_intent env token w = (r, w')" "good env w"
  shows "good env w'"
  using assms unfolding get_intent_def
  by (auto split: prod.splits option.splits intro: read_good)

lemma get_intent_token:
  assumes "get_intent env token w = (Some i, w')"
  shows "so_token i = token"
  using assms unfolding get_intent_def
  by (auto elim!: sql_log simp: GetSeatCapacityIntent_def split: prod.splits option.splits
      dest: find_Some_in[OF sym])

lemma finish_release_good:
  assumes ask: "ask env c w = (ans, w1)" and g: "good env w" and c: "needs_record c = None"
    and s: "release_settled ans \<Longrightarrow> last_call (cw_log w1) = Some (c, ans) \<Longrightarrow> settled (cw_log w1) token act"
  shows "good env (finish_release env token act (ans, w1))"
proof -
  have g1: "good env w1" by (rule ask_good[OF ask g]) (simp add: c)
  show ?thesis
  proof (cases "release_settled ans")
    case True
    then have "ans \<noteq> Inl CapOther" by (auto simp: release_settled_def)
    then have "settled (cw_log w1) token act" by (intro s True ask_last_call[OF ask])
    with g1 True show ?thesis
      unfolding finish_release_def
      by (cases "deleteCapacityIntentForAction env token act w1") (auto intro: delete_for_action_good)
  qed (simp add: finish_release_def recordCapacityFailure_good g1)
qed

lemma compensateLocked_good:
  assumes "good env w"
  shows "good env (compensateCapacityIntentLocked env token w)"
proof -
  obtain i w1 where i: "get_intent env token w = (i, w1)" by fastforce
  have g1: "good env w1" by (rule get_intent_good[OF i assms])
  show ?thesis
  proof (cases i)
    case None
    then show ?thesis by (simp add: compensateCapacityIntentLocked_def i g1)
  next
    case (Some intent)
    let ?body = "\<lambda>now db. ([QTransition ActionRelease None (uuidToPG token) (so_action intent) (RetryDue now)],
                     rows_affected (row_is (uuidToPG token) (so_action intent)) (sd_outbox db) = 1)"
    obtain q w2 where s: "sql env ?body w1 = (q, w2)" by fastforce
    show ?thesis
    proof (cases "so_action intent \<in> {ActionConfirm, ActionReleaseMember}")
      case True
      then show ?thesis by (simp add: compensateCapacityIntentLocked_def i Some g1)
    next
      case False
      then have g2: "good env w2"
        by (intro sql_good[OF s g1]) auto
      obtain ans w3 where a: "ask env (CallRelease (so_workspace intent) token) w2 = (ans, w3)" by fastforce
      have "good env (finish_release env token ActionRelease (ans, w3))"
        by (rule finish_release_good[OF a g2]) (auto simp: settled_def)
      with False s g2 a show ?thesis
        unfolding compensateCapacityIntentLocked_def i Some by (auto split: option.splits bool.splits)
    qed
  qed
qed

lemma compensate_good:
  assumes "good env w"
  shows "good env (compensateCapacityIntent env token w)"
proof -
  obtain i w1 where i: "get_intent env token w = (i, w1)" by fastforce
  have g1: "good env w1" by (rule get_intent_good[OF i assms])
  obtain ok w2 where l: "lockSeatCapacityWorkspace env w1 = (ok, w2)" by fastforce
  have g2: "good env w2" by (rule lock_good[OF l g1])
  show ?thesis
    using assms g1 g2 compensateLocked_good[OF g2]
    by (simp add: compensateCapacityIntent_def i l split: option.split bool.split)
qed

lemma confirmCapacityIntent_good:
  assumes "good env w"
  shows "good env (confirmCapacityIntent env ws token mem w)"
proof -
  obtain ok w1 where l: "lockSeatCapacityWorkspace env w = (ok, w1)" by fastforce
  have g1: "good env w1" by (rule lock_good[OF l assms])
  obtain i w2 where i: "get_intent env token w1 = (i, w2)" by fastforce
  have g2: "good env w2" by (rule get_intent_good[OF i g1])
  obtain ans w3 where a: "ask env (CallConfirm ws token mem) w2 = (ans, w3)" by fastforce
  have g3: "good env w3" by (rule ask_good[OF a g2]) simp
  obtain ok4 w4 where d: "deleteCapacityIntentForAction env token ActionConfirm w3 = (ok4, w4)" by fastforce
  have g4: "good env w4" if "confirm_settled ans"
  proof (rule delete_for_action_good[OF d g3])
    have "ans \<noteq> Inl CapOther" using that by (auto simp: confirm_settled_def)
    from ask_last_call[OF a this] that show "settled (cw_log w3) token ActionConfirm"
      by (auto simp: settled_def)
  qed
  show ?thesis
    using assms g1 g2 g3 g4
    by (simp add: confirmCapacityIntent_def l i a d recordCapacityFailure_good split: option.split bool.split)
qed

lemma newest_intent_in: "newest_intent t = Some r \<Longrightarrow> r \<in> set t"
  by (induction t arbitrary: r) (auto split: option.splits if_splits)

lemma settleMember_good:
  assumes "good env w"
  shows "good env (settleMemberCapacityRelease env ws mem w)"
proof -
  obtain ok w1 where l: "lockSeatCapacityWorkspace env w = (ok, w1)" by fastforce
  have g1: "good env w1" by (rule lock_good[OF l assms])
  let ?body = "\<lambda>(_ :: gtime) db. ([] :: seat_stmt list, GetMemberReleaseCapacityIntent ws (uuidToPG mem) (sd_outbox db))"
  obtain q w2 where s: "sql env ?body w1 = (q, w2)" by fastforce
  have g2: "good env w2" by (rule read_good[OF s g1])
  obtain ans w3 where a: "ask env (CallReleaseMember ws mem) w2 = (ans, w3)" by fastforce
  have fin: "good env (finish_release env (so_token i) ActionReleaseMember (ans, w3))" if q: "q = Some (Some i)" for i
  proof (rule finish_release_good[OF a g2])
    assume rs: "release_settled ans" and lc: "last_call (cw_log w3) = Some (CallReleaseMember ws mem, ans)"
    have get: "x \<in> set t \<and> so_workspace x = ws \<and> so_action x = ActionReleaseMember \<and> so_member x = Some mem"
      if "GetMemberReleaseCapacityIntent ws (uuidToPG mem) t = Some x" for t x
      using newest_intent_in[OF that[unfolded GetMemberReleaseCapacityIntent_def]] by auto
    have "seen (cw_log w2) i"
      by (rule read_seen[OF s[unfolded q]]) (use get in blast)
    then have sn: "seen (cw_log w3) i" by (rule ask_seen[OF a])
    have "so_workspace i = ws \<and> so_action i = ActionReleaseMember \<and> so_member i = Some mem"
      using s by (rule sql_log) (use q get in auto)
    with sn rs lc show "settled (cw_log w3) (so_token i) ActionReleaseMember"
      unfolding settled_def by (auto simp: uuidFromPG_def)
  qed simp
  show ?thesis
    using assms g1 g2 fin
    by (auto simp add: settleMemberCapacityRelease_def l s a split: option.split bool.split)
qed

section \<open>Taking a seat\<close>

lemma upsert_has_row:
  assumes "upsert_hits (so_token new) (upsert_guard new) t"
  shows "\<exists>r \<in> set (UpsertSeatCapacityIntent new t). so_token r = so_token new \<and> so_action r = so_action new"
proof (cases "so_token new \<in> so_token ` set t")
  case True
  with assms obtain r where "r \<in> set t" "so_token r = so_token new" "upsert_guard new r"
    by (auto simp: upsert_hits_def)
  then have "upsert_change new r \<in> set (UpsertSeatCapacityIntent new t)"
    using True by (force simp: UpsertSeatCapacityIntent_def insert_or_update_def in_update_where)
  then show ?thesis
    using \<open>so_token r = so_token new\<close> by (intro bexI[of _ "upsert_change new r"]) (simp_all add: upsert_change_def)
qed (auto simp: UpsertSeatCapacityIntent_def insert_or_update_def)

lemma upsert_recorded:
  assumes "upsert_intent env p w = (True, w')"
  shows "on_record (cw_log w') (so_token p) (so_action p)"
proof -
  have "sql env (\<lambda>now db. upsert_stmts now p (sd_outbox db)) w = (Some True, w')"
    using assms by (auto simp: upsert_intent_def split: prod.splits)
  then obtain now db ss where l: "cw_log w' = cw_log w @ [Committed now ss db]"
      and u: "upsert_stmts now p (sd_outbox db) = (ss, True)"
    by (rule sql_log) auto
  let ?new = "p\<lparr>so_created := now\<rparr>"
  from u have ss: "ss = [QUpsert ?new]" and h: "upsert_hits (so_token ?new) (upsert_guard ?new) (sd_outbox db)"
    by (auto simp: upsert_stmts_def Let_def split: if_splits)
  from upsert_has_row[OF h] show ?thesis
    unfolding on_record_def l ss
    by (intro exI[of _ now] exI[of _ "QUpsert ?new"] exI[of _ db]) simp
qed

lemma upsert_good:
  assumes "upsert_intent env p w = (ok, w')" "good env w"
    and "so_share_link p = None" "so_action p \<notin> {ActionConfirm, ActionRelease}"
  shows "good env w'"
proof -
  obtain r where s: "sql env (\<lambda>now db. upsert_stmts now p (sd_outbox db)) w = (r, w')"
    using assms(1) by (auto simp: upsert_intent_def split: prod.splits)
  then show ?thesis
    by (rule sql_good[OF _ assms(2)]) (use assms(3,4) in \<open>auto simp: upsert_stmts_def Let_def split: if_splits\<close>)
qed

lemma capacityIntentParams_simps [simp]:
  "so_token (capacityIntentParams ws token act due) = token"
  "so_action (capacityIntentParams ws token act due) = act"
  "so_workspace (capacityIntentParams ws token act due) = ws"
  "so_share_link (capacityIntentParams ws token act due) = None"
  "so_attempts (capacityIntentParams ws token act due) = 0"
  by (simp_all add: capacityIntentParams_def fresh_intent_def)

text \<open>A refusal names no value the executor makes up.\<close>

lemma acquire_refused_heard: "acquire_refused ans \<Longrightarrow> ans \<noteq> Inl CapOther"
  by (auto simp: acquire_refused_def)

lemma reserve_good:
  assumes r: "reserveInvitationCapacity env ws i expires w = (r, w')" and g: "good env w"
  shows "good env w'"
proof -
  obtain ok1 w1 where l: "lockSeatCapacityWorkspace env w = (ok1, w1)" by fastforce
  have g1: "good env w1" by (rule lock_good[OF l g])
  let ?p = "reserve_params ws i expires (RecoveryDue (now_of env w1))"
  obtain ok2 w2 where u: "upsert_intent env ?p w1 = (ok2, w2)" by fastforce
  have g2: "good env w2" by (rule upsert_good[OF u g1]) (simp_all add: reserve_params_def)
  obtain ans w3 where a: "ask env (CallReserve ws i expires) w2 = (ans, w3)" by fastforce
  have g3: "good env w3" if "ok2"
    by (rule ask_good[OF a g2]) (use upsert_recorded u that in \<open>force simp: reserve_params_def\<close>)
  have ref: "settled (cw_log w3) i ActionReserveInvitation" if "acquire_refused ans"
    using ask_last_call[OF a acquire_refused_heard[OF that]] that by (auto simp: settled_def)
  have dis: "good env w4" if "discard_with env i ActionReserveInvitation e w3 = (x, w4)" "acquire_refused ans" ok2 for e x w4
    by (rule discard_good[OF that(1) g3[OF that(3)] ref[OF that(2)]])
  have com: "good env (compensateCapacityIntentLocked env i w4)" if "good env w4" for w4
    by (rule compensateLocked_good[OF that])
  have del: "good env w4" if "exec_stmt env (QMarkDelivered (uuidToPG i) ActionReserveInvitation) w3 = (x, w4)" ok2 for x w4
    by (rule exec_good[OF that(1) g3[OF that(2)]]) simp_all
  show ?thesis
  proof (cases "seatCapacityEnabled env \<and> ok1 \<and> ok2")
    case False
    with r g g1 g2 show ?thesis
      unfolding reserveInvitationCapacity_def l by (auto simp: u split: if_splits bool.splits)
  next
    case True
    then have e: "seatCapacityEnabled env" and o: ok1 ok2 by auto
    have r': "(case (ans, w3) of
        (Inl e, w3) \<Rightarrow>
          if IsRateLimited e then discard_with env i ActionReserveInvitation (Some e) w3
          else if IsCapacityOvercommitted e
          then discard_with env i ActionReserveInvitation (Some CapOvercommitted) w3
          else (Some CapUnavailable, compensateCapacityIntentLocked env i w3)
      | (Inr d, w3) \<Rightarrow>
          if \<not> cd_managed d then discard_with env i ActionReserveInvitation None w3
          else if \<not> cd_allowed d
          then discard_with env i ActionReserveInvitation
                 (Some (if cd_reason d = ''capacity_full'' then CapFull else CapUnavailable)) w3
          else (case exec_stmt env (QMarkDelivered (uuidToPG i) ActionReserveInvitation) w3 of
              (True, w4) \<Rightarrow> (None, w4)
            | (False, w4) \<Rightarrow> (Some CapOther, compensateCapacityIntentLocked env i w4))) = (r, w')"
      using r e o by (simp add: reserveInvitationCapacity_def l u a)
    show ?thesis
    proof (cases ans)
      case (Inl x)
      show ?thesis
      proof (cases "IsRateLimited x \<or> IsCapacityOvercommitted x")
        case True
        then have "acquire_refused ans" by (simp add: acquire_refused_def Inl)
        with r' Inl o True dis show ?thesis by (auto split: if_splits)
      next
        case False
        with r' Inl com[OF g3[OF o(2)]] show ?thesis by auto
      qed
    next
      case (Inr d)
      show ?thesis
      proof (cases "cd_managed d \<and> cd_allowed d")
        case True
        obtain ok4 w4 where m: "exec_stmt env (QMarkDelivered (uuidToPG i) ActionReserveInvitation) w3 = (ok4, w4)"
          by fastforce
        from r' Inr True m del[OF m o(2)] com[OF del[OF m o(2)]] show ?thesis
          by (cases ok4) auto
      next
        case False
        then have "acquire_refused ans" by (auto simp: acquire_refused_def Inr)
        with r' Inr o False dis show ?thesis by (auto split: if_splits)
      qed
    qed
  qed
qed

end
