(* ===== verification/SeatOps.thy ===== *)
theory SeatOps
  imports SeatAdmit
begin

text \<open>The guarantee of the requests, and of every operation (\<open>run_op_good\<close>).\<close>

section \<open>Consuming and claiming\<close>

lemma granted_or_unmanaged:
  assumes "last_call es = Some (c, Inr d)"
  shows "cd_managed d \<Longrightarrow> cd_allowed d \<Longrightarrow> c = CallConsume ws token \<Longrightarrow> seat_granted es token ActionConsumeInvitation"
    and "cd_managed d \<Longrightarrow> cd_allowed d \<Longrightarrow> c = CallClaimJoin ws token \<Longrightarrow> seat_granted es token ActionClaimShareJoin"
    and "\<not> cd_managed d \<Longrightarrow> c = CallConsume ws token \<or> c = CallClaimJoin ws token \<Longrightarrow> unmanaged es"
  using assms unfolding seat_granted_def unmanaged_def by auto

lemma seat_granted_same: "last_call es = last_call fs \<Longrightarrow> seat_granted es = seat_granted fs"
  by (simp add: seat_granted_def fun_eq_iff)

lemma unmanaged_same: "last_call es = last_call fs \<Longrightarrow> unmanaged es = unmanaged fs"
  by (simp add: unmanaged_def)

definition begun :: "cap_env \<Rightarrow> cap_world \<Rightarrow> uuid \<Rightarrow> cap_action \<Rightarrow> bool \<Rightarrow> bool" where
  "begun env w token act active \<longleftrightarrow>
     (if active then seat_granted (cw_log w) token act
      else \<not> seatCapacityEnabled env \<or> unmanaged (cw_log w))"

lemma consume_good:
  assumes r: "beginCapacityConsume env ws token invit user w = (r, w')" and g: "good env w"
  shows "good env w' \<and> (\<forall>active. r = Inr active \<longrightarrow> begun env w' token ActionConsumeInvitation active)"
proof -
  obtain ok1 w1 where l: "lockSeatCapacityWorkspace env w = (ok1, w1)" by fastforce
  have g1: "good env w1" by (rule lock_good[OF l g])
  let ?p = "consume_params ws token invit user (RecoveryDue (now_of env w1))"
  obtain ok2 w2 where u: "upsert_intent env ?p w1 = (ok2, w2)" by fastforce
  have g2: "good env w2" by (rule upsert_good[OF u g1]) (simp_all add: consume_params_def)
  obtain ans w3 where a: "ask env (CallConsume ws token) w2 = (ans, w3)" by fastforce
  have g3: "good env w3" if "ok2"
    by (rule ask_good[OF a g2]) (use upsert_recorded u that in \<open>force simp: consume_params_def\<close>)
  have lc: "last_call (cw_log w3) = Some (CallConsume ws token, ans)" if "ans \<noteq> Inl CapOther"
    by (rule ask_last_call[OF a that])
  show ?thesis
  proof (cases "seatCapacityEnabled env \<and> ok1 \<and> ok2")
    case False
    with r g g1 g2 show ?thesis
      unfolding beginCapacityConsume_def l by (auto simp: u begun_def split: if_splits bool.splits)
  next
    case True
    then have e: "seatCapacityEnabled env" and o: ok1 ok2 by auto
    show ?thesis
    proof (cases ans)
      case (Inl x)
      with r e o g3 show ?thesis by (auto simp: beginCapacityConsume_def l u a)
    next
      case (Inr d)
      have ref: "settled (cw_log w4) token ActionConsumeInvitation"
        if "\<not> (cd_managed d \<and> cd_allowed d)" "last_call (cw_log w4) = last_call (cw_log w3)" for w4
        using lc that by (auto simp: settled_def acquire_refused_def Inr)
      have dis: "good env w4 \<and> last_call (cw_log w4) = last_call (cw_log w3)"
        if "discard_with env token ActionConsumeInvitation e w3 = (x, w4)" "\<not> cd_managed d" for e x w4
        using discard_good[OF that(1) g3[OF o(2)] ref] discard_last_call[OF that(1)] that(2) by simp
      obtain ok4 w4 where x: "exec_stmt env (QExpireInvitation (uuidToPG invit)) w3 = (ok4, w4)" by fastforce
      have g4: "good env w4" by (rule exec_good[OF x g3[OF o(2)]]) simp_all
      obtain q5 w5 where d5: "discard_with env token ActionConsumeInvitation (Some CapFull) w4 = (q5, w5)" by fastforce
      have g5: "good env w5" if "\<not> cd_allowed d"
        by (rule discard_good[OF d5 g4 ref]) (simp_all add: that exec_last_call[OF x])
      obtain ok6 w6 where m: "exec_stmt env (QMarkDelivered (uuidToPG token) ActionConsumeInvitation) w3 = (ok6, w6)"
        by fastforce
      have g6: "good env w6" by (rule exec_good[OF m g3[OF o(2)]]) simp_all
      consider "\<not> cd_managed d" | "cd_managed d" "\<not> cd_allowed d" | "cd_managed d" "cd_allowed d" by blast
      then show ?thesis
      proof cases
        case 1
        obtain q w4' where dd: "discard_with env token ActionConsumeInvitation None w3 = (q, w4')" by fastforce
        from dis[OF dd 1] lc have "good env w4'" "unmanaged (cw_log w4')"
          using granted_or_unmanaged(3)[of "cw_log w4'" "CallConsume ws token" d ws token] 1 by (auto simp: Inr)
        with r e o 1 dd show ?thesis
          by (cases q) (auto simp: beginCapacityConsume_def l u a Inr begun_def)
      next
        case 2
        with r e o d5 g4 g5 x show ?thesis
          by (cases ok4; cases q5) (auto simp: beginCapacityConsume_def l u a Inr)
      next
        case 3
        have "seat_granted (cw_log w6) token ActionConsumeInvitation"
          using granted_or_unmanaged(1)[of "cw_log w6" "CallConsume ws token" d ws token] 3 lc
          by (simp add: exec_last_call[OF m] Inr)
        with r e o 3 g6 m show ?thesis
          by (cases ok6) (auto simp: beginCapacityConsume_def l u a Inr begun_def)
      qed
    qed
  qed
qed

lemma join_token_recorded:
  assumes "join_token ws token link user t = Some tk"
  shows "\<exists>r \<in> set (CreateOrReactivateShareJoinCapacityIntent now ws token link user due t).
           so_token r = tk \<and> so_action r = ActionClaimShareJoin"
proof (cases "\<exists>r \<in> set t. same_join ws link user r")
  case True
  with assms obtain r where "r \<in> set t" "same_join ws link user r" "join_reusable r" "so_token r = tk"
    by (auto simp: join_token_def dest: find_Some_in)
  then show ?thesis
    unfolding CreateOrReactivateShareJoinCapacityIntent_def if_P[OF True]
    by (intro bexI[of _ "(restart ActionClaimShareJoin due r)
          \<lparr>so_subject := Some (so_token r), so_member := None, so_invitation := None, so_expires := None\<rparr>"])
      (auto simp: restart_def in_update_where intro!: bexI[of _ r])
next
  case False
  with assms have "token \<notin> so_token ` set t" "tk = token"
    by (auto simp: join_token_def split: if_splits)
  then show ?thesis
    by (simp add: CreateOrReactivateShareJoinCapacityIntent_def False fresh_intent_def)
qed

lemma record_join_good:
  assumes "record_join env ws link user w = (r, w')" "good env w"
  shows "good env w'" and "r = Some token \<Longrightarrow> on_record (cw_log w') token ActionClaimShareJoin"
proof -
  let ?body = "\<lambda>(_ :: gtime) db. ([QReactivateJoin ws (ce_fresh env (cw_tick w)) link user (RecoveryDue (now_of env w))],
                 join_token ws (ce_fresh env (cw_tick w)) link user (sd_outbox db))"
  obtain q where s: "sql env ?body w = (q, w')" and q: "r = (case q of None \<Rightarrow> None | Some x \<Rightarrow> x)"
    using assms(1) by (auto simp: record_join_def Let_def split: prod.splits option.splits)
  show "good env w'" by (rule sql_good[OF s assms(2)]) auto
  assume r: "r = Some token"
  show "on_record (cw_log w') token ActionClaimShareJoin"
    using s
  proof (rule sql_log)
    fix now db ss a
    assume l: "cw_log w' = cw_log w @ [Committed now ss db]" "?body now db = (ss, a)" "q = None \<or> q = Some a"
    with q r have j: "join_token ws (ce_fresh env (cw_tick w)) link user (sd_outbox db) = Some token" by auto
    show ?thesis
      unfolding on_record_def l(1)
      using l(2) join_token_recorded[OF j, of now "RecoveryDue (now_of env w)"]
      by (intro exI[of _ now] exI[of _ "QReactivateJoin ws (ce_fresh env (cw_tick w)) link user (RecoveryDue (now_of env w))"]
          exI[of _ db]) auto
  qed (use q r in auto)
qed

lemma begin_join_good:
  assumes r: "beginShareJoinCapacity env ws link user w = (r, w')" and g: "good env w"
    and nz: "\<And>w1 w2 token. record_join env ws link user w1 = (Some token, w2) \<Longrightarrow> token \<noteq> 0"
  shows "good env w' \<and> (\<forall>token. r = Inr token \<longrightarrow> begun env w' token ActionClaimShareJoin (token \<noteq> 0))"
proof -
  obtain ok1 w1 where l: "lockSeatCapacityWorkspace env w = (ok1, w1)" by fastforce
  have g1: "good env w1" by (rule lock_good[OF l g])
  obtain q w2 where u: "record_join env ws link user w1 = (q, w2)" by fastforce
  have g2: "good env w2" by (rule record_join_good(1)[OF u g1])
  show ?thesis
  proof (cases "seatCapacityEnabled env \<and> ok1 \<and> q \<noteq> None")
    case False
    with r g g1 g2 show ?thesis
      unfolding beginShareJoinCapacity_def l
      by (auto simp: u begun_def split: if_splits bool.splits option.splits)
  next
    case True
    then obtain token where e: "seatCapacityEnabled env" and o: ok1 and q: "q = Some token" by auto
    obtain ans w3 where a: "ask env (CallClaimJoin ws token) w2 = (ans, w3)" by fastforce
    have g3: "good env w3"
      by (rule ask_good[OF a g2]) (use record_join_good(2)[OF u g1 q] in simp)
    have lc: "last_call (cw_log w3) = Some (CallClaimJoin ws token, ans)" if "ans \<noteq> Inl CapOther"
      by (rule ask_last_call[OF a that])
    have ref: "settled (cw_log w3) token ActionClaimShareJoin" if "acquire_refused ans"
      using lc acquire_refused_heard[OF that] that by (auto simp: settled_def)
    have dis: "good env w4 \<and> last_call (cw_log w4) = last_call (cw_log w3)"
      if "discard_with env token ActionClaimShareJoin e w3 = (x, w4)" "acquire_refused ans" for e x w4
      using discard_good[OF that(1) g3 ref[OF that(2)]] discard_last_call[OF that(1)] by simp
    obtain ok6 w6 where m: "exec_stmt env (QMarkDelivered (uuidToPG token) ActionClaimShareJoin) w3 = (ok6, w6)"
      by fastforce
    have g6: "good env w6" by (rule exec_good[OF m g3]) simp_all
    note u' = u[unfolded q]
    show ?thesis
    proof (cases ans)
      case (Inl x)
      show ?thesis
      proof (cases "IsRateLimited x \<or> IsCapacityOvercommitted x")
        case True
        then have "acquire_refused ans" by (simp add: acquire_refused_def Inl)
        with r e o Inl True dis show ?thesis
          by (auto simp: beginShareJoinCapacity_def l u' a split: if_splits prod.splits)
      next
        case False
        with r e o Inl g3 show ?thesis by (auto simp: beginShareJoinCapacity_def l u' a)
      qed
    next
      case (Inr d)
      consider "\<not> cd_managed d" | "cd_managed d" "\<not> cd_allowed d" | "cd_managed d" "cd_allowed d" by blast
      then show ?thesis
      proof cases
        case 1
        then have ar: "acquire_refused ans" by (simp add: acquire_refused_def Inr)
        obtain y w4 where dd: "discard_with env token ActionClaimShareJoin None w3 = (y, w4)" by fastforce
        from dis[OF dd ar] lc have "good env w4" "unmanaged (cw_log w4)"
          using granted_or_unmanaged(3)[of "cw_log w4" "CallClaimJoin ws token" d ws token] 1 by (auto simp: Inr)
        with r e o 1 Inr dd show ?thesis
          by (cases y) (auto simp: beginShareJoinCapacity_def l u' a begun_def)
      next
        case 2
        then have "acquire_refused ans" by (simp add: acquire_refused_def Inr)
        with r e o Inr 2 dis show ?thesis
          by (auto simp: beginShareJoinCapacity_def l u' a split: prod.splits)
      next
        case 3
        have "seat_granted (cw_log w6) token ActionClaimShareJoin"
          using granted_or_unmanaged(2)[of "cw_log w6" "CallClaimJoin ws token" d ws token] 3 lc
          by (simp add: exec_last_call[OF m] Inr)
        with r e o 3 Inr m g6 nz[OF u'] show ?thesis
          by (cases ok6) (auto simp: beginShareJoinCapacity_def l u' a begun_def)
      qed
    qed
  qed
qed

section \<open>The commits of the requests\<close>

lemma no_row_at_nil [simp]: "rows_affected (row_is None act) t = 0"
  by (simp add: row_is_def)

lemma affected_row: "rows_affected (row_is tk act) t = Suc 0 \<Longrightarrow> \<exists>r \<in> set t. row_is tk act r"
  using rows_affected_pos[of "row_is tk act" t] by simp

lemma shape_invite [simp]:
  "\<not> invitation_conflict v (sd_invitations db) \<Longrightarrow> shape_ok [QCreateInvitation v] db"
  "\<not> invitation_conflict v (sd_invitations db) \<Longrightarrow> shape_ok [QCreateInvitation v, QDeleteForAction tk act] db"
  by (auto simp: shape_ok_def invite_shape_def member_shape_def)

lemma shape_member [simp]:
  assumes "\<not> member_conflict m (sd_members db)"
  shows "shape_ok [QAcceptInvitation i, QCreateMember m] db" "shape_ok [QClaimLink i, QCreateMember m] db"
    and "rows_affected (row_is tk cur) (sd_outbox db) = Suc 0 \<Longrightarrow> x = Some (sm_id m) \<Longrightarrow>
      shape_ok [QAcceptInvitation i, QCreateMember m, QTransition ActionConfirm x tk cur due] db"
    and "rows_affected (row_is tk cur) (sd_outbox db) = Suc 0 \<Longrightarrow> x = Some (sm_id m) \<Longrightarrow>
      shape_ok [QClaimLink i, QCreateMember m, QTransition ActionConfirm x tk cur due] db"
  using assms by (auto simp: shape_ok_def invite_shape_def member_shape_def dest: affected_row)

lemma shape_leave [simp]:
  "shape_ok [QRevokeInvitation i, QEnqueueRelease ws tk sub due] db"
  "shape_ok [QDeclineInvitation i, QEnqueueRelease ws tk sub due] db"
  "shape_ok [QUpsert new, QDeleteMember m] db"
  "shape_ok [QDeleteConfirms ws, QPrepareOperations ws, QPrepareInvitations ws, QPrepareMembers ws fresh] db"
  by (simp_all add: shape_ok_def invite_shape_def member_shape_def)

section \<open>Invitations\<close>

lemma enqueue_release_good:
  assumes "enqueue_release env ws token w = (ok, w')" "good env w"
  shows "good env w'"
proof -
  obtain q where "sql env (\<lambda>now db. ([enqueueCapacityRelease ws token now],
      upsert_hits token releasable (sd_outbox db))) w = (q, w')"
    using assms(1) by (auto simp: enqueue_release_def split: prod.splits)
  then show ?thesis
    by (rule sql_good[OF _ assms(2)]) (auto simp: enqueueCapacityRelease_def)
qed

lemma release_expired_good:
  "release_expired env vs w = (ok, w') \<Longrightarrow> good env w \<Longrightarrow> good env w'"
proof (induction vs arbitrary: w)
  case (Cons v vs)
  obtain ok1 w1 where e: "enqueue_release env (si_workspace v) (si_id v) w = (ok1, w1)" by fastforce
  have g: "good env w1" by (rule enqueue_release_good[OF e Cons.prems(2)])
  from Cons.prems(1) e g Cons.IH[OF _ compensate_good[OF g]] show ?case
    by (cases ok1) simp_all
qed simp

lemma create_tx_good:
  assumes "create_tx env new w = (r, w')" "good env w" "si_status new = InvPending"
  shows "good env w'"
  using assms(1) unfolding create_tx_def
  by (rule sql_good) (use assms(2,3) in \<open>auto split: if_splits\<close>)

lemma invite_reserved_good:
  assumes "good env w"
  shows "good env (snd (invite_reserved env ws email role account w))"
proof -
  let ?i = "ce_fresh env (cw_tick w)" and ?x = "now_of env w + 7 * 24 * 60 * minute"
  let ?new = "\<lparr>si_id = ?i, si_workspace = ws, si_email = email, si_invitee = account,
                 si_role = role, si_status = InvPending, si_expires = ?x\<rparr>"
  obtain q1 w1 where r: "reserveInvitationCapacity env ws ?i ?x w = (q1, w1)" by fastforce
  have g1: "good env w1" by (rule reserve_good[OF r assms])
  obtain q2 w2 where c: "create_tx env ?new w1 = (q2, w2)" by fastforce
  have g2: "good env w2" by (rule create_tx_good[OF c g1]) simp
  show ?thesis
    unfolding invite_reserved_def Let_def r
    using g1 g2 c by (auto simp: compensate_good split: option.split bool.split)
qed

lemma invite_new_good:
  assumes "good env w"
  shows "good env (snd (invite_new env ws email role account admitted w))"
proof -
  obtain q w1 where s: "sql env (\<lambda>now db. ([], GetPendingInvitationByEmail now ws email (sd_invitations db))) w = (q, w1)"
    by fastforce
  have "good env w1" by (rule read_good[OF s assms])
  then show ?thesis by (simp add: invite_new_def s invite_reserved_good split: option.split)
qed

lemma invite_expiring_good:
  assumes "good env w"
  shows "good env (snd (invite_expiring env ws email role account admitted w))"
proof -
  obtain q w1 where s: "sql env (\<lambda>now db. ([QExpireStale ws email],
      filter (stale_invitation now ws email) (sd_invitations db))) w = (q, w1)" by fastforce
  have g1: "good env w1" by (rule sql_good[OF s assms]) auto
  show ?thesis
  proof (cases q)
    case (Some expired)
    obtain ok w2 where r: "(if seatCapacityEnabled env then release_expired env expired w1 else (True, w1)) = (ok, w2)"
      by fastforce
    have "good env w2" using r g1 by (auto split: if_splits intro: release_expired_good)
    then show ?thesis
      unfolding invite_expiring_def s Some prod.case option.case r
      by (simp add: invite_new_good split: bool.split)
  qed (simp add: invite_expiring_def s g1)
qed

lemma create_invitation_good:
  assumes "good env w"
  shows "good env (snd (create_invitation_request env ws email role account admitted w))"
proof -
  obtain q1 w1 where s1: "sql env (\<lambda>_ db. ([], (case account of None \<Rightarrow> None
      | Some u \<Rightarrow> GetMemberByUserAndWorkspace u ws (sd_members db)))) w = (q1, w1)" by fastforce
  have "good env w1" by (rule read_good[OF s1 assms])
  then show ?thesis
    using assms by (simp add: create_invitation_request_def Let_def s1 invite_expiring_good split: option.split)
qed

lemma find_invitation_good: "find_invitation env i w = (r, w') \<Longrightarrow> good env w \<Longrightarrow> good env w'"
  unfolding find_invitation_def by (auto split: prod.splits option.splits intro: read_good)

lemma accept_tx_good:
  assumes r: "accept_tx env active i user w = (r, w')" and g: "good env w"
    and b: "begun env w i ActionConsumeInvitation active"
  shows "good env w'"
  using r unfolding accept_tx_def Let_def
proof (rule sql_good)
  fix now ss a and db :: seat_db
  assume body: "(case pending_invitation i (sd_invitations db) of
           None \<Rightarrow> ([], Inl 500)
         | Some v \<Rightarrow>
             if member_conflict \<lparr>sm_id = ce_fresh env (cw_tick w), sm_workspace = si_workspace v, sm_user = user, sm_role = si_role v\<rparr> (sd_members db)
             then ([], Inl 409)
             else if active \<and> \<not> confirmable i (ce_fresh env (cw_tick w)) ActionConsumeInvitation (sd_outbox db) then ([], Inl 500)
             else ([QAcceptInvitation i, QCreateMember \<lparr>sm_id = ce_fresh env (cw_tick w), sm_workspace = si_workspace v, sm_user = user, sm_role = si_role v\<rparr>]
                     @ confirm_stmts active i (ce_fresh env (cw_tick w)) ActionConsumeInvitation now, Inr (si_workspace v, ce_fresh env (cw_tick w)))) = (ss, a)"
  show "event_ok env (cw_log w) (Committed now ss db)"
    using body b
    by (auto simp: begun_def confirm_stmts_def transitionCapacityIntentToConfirm_def confirmable_def uuidToPG_def
        split: option.splits if_splits)
qed (rule g)

lemma accept_good:
  assumes "good env w"
  shows "good env (snd (accept_invitation_request env user email i w))"
proof -
  obtain v w1 where f: "find_invitation env i w = (v, w1)" by fastforce
  have g1: "good env w1" by (rule find_invitation_good[OF f assms])
  obtain q2 w2 where b: "beginCapacityConsume env (si_workspace (the v)) i i user w1 = (q2, w2)" by fastforce
  note g2 = consume_good[OF b g1]
  have g3: "good env w3" if "q2 = Inr active" "accept_tx env active i user w2 = (q3, w3)" for active q3 w3
    using accept_tx_good[OF that(2)] g2 that(1) by blast
  show ?thesis
  proof (cases "v = None \<or> \<not> invitation_for user email (the v) \<or> si_status (the v) \<noteq> InvPending
      \<or> si_expires (the v) < now_of env w1")
    case True
    with g1 show ?thesis by (cases v) (auto simp: accept_invitation_request_def f)
  next
    case False
    then obtain x where v: "v = Some x" "invitation_for user email x" "si_status x = InvPending"
        "\<not> si_expires x < now_of env w1" by auto
    show ?thesis
    proof (cases q2)
      case (Inl e)
      with g2 v b show ?thesis by (simp add: accept_invitation_request_def f)
    next
      case (Inr active)
      obtain q3 w3 where t: "accept_tx env active i user w2 = (q3, w3)" by fastforce
      from g3[OF Inr t] v b Inr show ?thesis
        by (auto simp: accept_invitation_request_def f t confirmCapacityIntent_good
            split: option.split sum.split)
    qed
  qed
qed

lemma leave_good:
  assumes "good env w" "change \<in> {QRevokeInvitation i, QDeclineInvitation i}"
  shows "good env (snd (leave_request env change ws i missing w))"
proof -
  obtain q w1 where t: "leave_tx env change ws i missing w = (q, w1)" by fastforce
  have "good env w1"
    using t unfolding leave_tx_def
    by (rule sql_good)
      (use assms in \<open>auto simp: release_stmts_def enqueueCapacityRelease_def split: if_splits option.splits\<close>)
  then show ?thesis
    by (auto simp: leave_request_def t compensate_good split: option.split)
qed

lemma revoke_good: "good env w \<Longrightarrow> good env (snd (revoke_invitation_request env ws i w))"
  by (cases "find_invitation env i w")
    (auto simp: revoke_invitation_request_def leave_good split: option.split dest: find_invitation_good)

lemma decline_good: "good env w \<Longrightarrow> good env (snd (decline_invitation_request env user email i w))"
  by (cases "find_invitation env i w")
    (auto simp: decline_invitation_request_def leave_good split: option.split dest: find_invitation_good)

section \<open>Share links, members, workspaces\<close>

text \<open>Fresh ids are not the nil id, and no session stores an intent under the nil token.\<close>

definition sane_env :: "cap_env \<Rightarrow> bool" where
  "sane_env env \<longleftrightarrow> (\<forall>n. ce_fresh env n \<noteq> 0) \<and> (\<forall>n db. 0 \<notin> so_token ` set (sd_outbox (ce_rival env n db)))"

lemma record_join_nonzero:
  assumes "sane_env env" "record_join env ws link user w = (Some token, w')"
  shows "token \<noteq> 0"
proof -
  let ?t = "sd_outbox (ce_rival env (cw_tick w) (cw_db w))"
  have "join_token ws (ce_fresh env (cw_tick w)) link user ?t = Some token"
    using assms(2) unfolding record_join_def sql_def Let_def by (auto split: db_reply.splits)
  then have "token \<in> so_token ` set ?t \<or> token = ce_fresh env (cw_tick w)"
    by (auto simp: join_token_def split: if_splits dest: find_Some_in)
  with assms(1) show ?thesis unfolding sane_env_def by metis
qed

lemma join_tx_good:
  assumes r: "join_tx env token link user w = (r, w')" and g: "good env w"
    and b: "begun env w token ActionClaimShareJoin (token \<noteq> 0)"
  shows "good env w'"
  using r unfolding join_tx_def Let_def
proof (rule sql_good)
  fix now ss a and db :: seat_db
  assume body: "(case claimable_link now link (sd_links db) of
           None \<Rightarrow> ([], JoinGone)
         | Some l \<Rightarrow>
             if member_conflict \<lparr>sm_id = ce_fresh env (cw_tick w), sm_workspace = sl_workspace l, sm_user = user, sm_role = sl_role l\<rparr> (sd_members db)
             then ([], JoinDuplicate)
             else if token \<noteq> 0 \<and> \<not> confirmable token (ce_fresh env (cw_tick w)) ActionClaimShareJoin (sd_outbox db) then ([], JoinChanged)
             else ([QClaimLink link, QCreateMember \<lparr>sm_id = ce_fresh env (cw_tick w), sm_workspace = sl_workspace l, sm_user = user, sm_role = sl_role l\<rparr>]
                     @ confirm_stmts (token \<noteq> 0) token (ce_fresh env (cw_tick w)) ActionClaimShareJoin now,
                   Joined (sl_workspace l) (ce_fresh env (cw_tick w)))) = (ss, a)"
  show "event_ok env (cw_log w) (Committed now ss db)"
    using body b
    by (auto simp: begun_def confirm_stmts_def transitionCapacityIntentToConfirm_def confirmable_def uuidToPG_def
        split: option.splits if_splits)
qed (rule g)

lemma join_check_facts:
  assumes "join_check env link user w = (r, w')" "good env w"
  shows "good env w' \<and> last_call (cw_log w') = last_call (cw_log w)"
  using assms unfolding join_check_def by (auto intro: read_good)

lemma join_commit_good:
  assumes g: "good env w" and b: "begun env w token ActionClaimShareJoin (token \<noteq> 0)"
  shows "good env (snd (join_commit env token link user w))"
proof -
  obtain q1 w1 where c: "join_check env link user w = (q1, w1)" by fastforce
  note g1 = join_check_facts[OF c g]
  obtain q2 w2 where t: "join_tx env token link user w1 = (q2, w2)" by fastforce
  have "begun env w1 token ActionClaimShareJoin (token \<noteq> 0)"
    using b g1 unfolding begun_def by (simp only: seat_granted_same[of "cw_log w1" "cw_log w"] unmanaged_same[of "cw_log w1" "cw_log w"])
  then have g2: "good env w2" using join_tx_good[OF t] g1 by simp
  show ?thesis
    using g1 g2 by (auto simp: join_commit_def c t compensate_good confirmCapacityIntent_good
        split: option.split join_result.split)
qed

lemma join_good:
  assumes "good env w" "sane_env env"
  shows "good env (snd (join_by_share_link_request env user code w))"
proof -
  obtain q1 w1 where s1: "sql env (\<lambda>now db. ([], GetActiveShareLinkByCode now (TrimSpace code) (sd_links db))) w = (q1, w1)"
    by fastforce
  have g1: "good env w1" by (rule read_good[OF s1 assms(1)])
  show ?thesis
  proof (cases "TrimSpace code = [] \<or> q1 = None \<or> q1 = Some None")
    case True
    with assms(1) g1 show ?thesis by (auto simp: join_by_share_link_request_def Let_def s1)
  next
    case False
    then obtain l where c: "TrimSpace code \<noteq> []" and l: "q1 = Some (Some l)"
      by (cases q1; cases "the q1") auto
    obtain q2 w2 where s2: "sql env (\<lambda>_ db. ([], GetMemberByUserAndWorkspace user (sl_workspace l) (sd_members db))) w1 = (q2, w2)"
      by fastforce
    have g2: "good env w2" by (rule read_good[OF s2 g1])
    obtain q3 w3 where b: "beginShareJoinCapacity env (sl_workspace l) (sl_id l) user w2 = (q3, w3)" by fastforce
    note g3 = begin_join_good[OF b g2 record_join_nonzero[OF assms(2)]]
    show ?thesis
      using g2 g3 by (auto simp: join_by_share_link_request_def Let_def s1 c l s2 b join_commit_good
          split: option.split sum.split)
  qed
qed

lemma remove_member_good:
  assumes "good env w"
  shows "good env (snd (remove_member_request env ws mem w))"
proof -
  obtain q w1 where t: "remove_member_tx env ws mem w = (q, w1)" by fastforce
  have "good env w1"
    using t unfolding remove_member_tx_def Let_def
    by (rule sql_good)
      (use assms in \<open>auto simp: upsert_stmts_def Let_def enqueueMemberCapacityRelease_def split: if_splits prod.splits bool.splits\<close>)
  then show ?thesis
    by (auto simp: remove_member_request_def t settleMember_good split: option.split bool.split)
qed

lemma delete_workspace_good:
  assumes "good env w"
  shows "good env (snd (delete_workspace_request env ws fresh w))"
proof -
  obtain q w1 where t: "sql env (\<lambda>_ _. (teardown_stmts env ws fresh, ())) w = (q, w1)" by fastforce
  have "good env w1"
    by (rule sql_good[OF t assms]) (auto simp: teardown_stmts_def split: if_splits)
  then show ?thesis by (auto simp: delete_workspace_request_def t split: option.split)
qed

section \<open>Every operation\<close>

lemma run_op_good: "sane_env env \<Longrightarrow> good env w \<Longrightarrow> good env (run_op env op w)"
  by (cases op) (simp_all add: create_invitation_good accept_good decline_good revoke_good join_good
      remove_member_good delete_workspace_good ReconcileOnce_good)

lemma op_log_ok: "sane_env env \<Longrightarrow> hist_ok env (op_log env op db)"
  unfolding op_log_def using run_op_good[of env "\<lparr>cw_db = db, cw_log = [], cw_tick = 0\<rparr>" op]
  by (simp add: good_def)

lemma op_event_ok:
  "sane_env env \<Longrightarrow> op_log env op db = pre @ e # post \<Longrightarrow> event_ok env pre e"
  using op_log_ok unfolding hist_ok_def by blast

end
