(* ===== verification/SeatDemo.thy ===== *)
theory SeatDemo
  imports SeatOps
begin

text \<open>
  Two runs of the seat protocol on concrete tables, evaluated: an invitation that is accepted, and a worker batch
  that meets a rate limit. They show that the hypotheses of the theorems can hold together. The other
  sessions of \<open>demo_seat_env\<close> leave a table with a legal primary key as it is.
\<close>

text \<open>The bound of the client, compared in binary by the evaluation below.\<close>

lemma body_size_code [code_unfold]: "maxResponseBodySize < n \<longleftrightarrow> 65536 < int n"
  by (simp add: maxResponseBodySize_def)

definition demo_rival :: "nat \<Rightarrow> seat_db \<Rightarrow> seat_db" where
  "demo_rival n db =
     (if distinct (map so_token (sd_outbox db)) \<and> 0 \<notin> so_token ` set (sd_outbox db) then db
      else db\<lparr>sd_outbox := []\<rparr>)"

fun demo_http :: "cap_event list \<Rightarrow> cap_call \<Rightarrow> http_outcome" where
  "demo_http es (CallRelease ws token) = Response 429 0 [] ''2'' ''workspace''"
| "demo_http es _ = Response 200 2 ''ok'' [] []"

definition demo_decode :: "string \<Rightarrow> cap_decision option" where
  "demo_decode body =
     (if body = ''ok'' then Some \<lparr>cd_managed = True, cd_allowed = True, cd_reason = [], cd_state = None\<rparr> else None)"

definition demo_seat_env :: cap_env where
  "demo_seat_env =
     \<lparr>ce_executor = CloudClient, ce_http = demo_http, ce_decode = demo_decode, ce_error_code = (\<lambda>_. []),
      ce_http_date = (\<lambda>_. None), ce_clock = (\<lambda>n. int n * second), ce_rival = demo_rival,
      ce_reply = (\<lambda>_. Replied), ce_fresh = (\<lambda>n. 10 + n), ce_locked = (\<lambda>_. []), ce_locker = True,
      ce_lock_free = (\<lambda>_. True)\<rparr>"

lemma demo_seat_env_sane: "sane_env demo_seat_env"
  by (auto simp: sane_env_def demo_seat_env_def demo_rival_def)

definition demo_seat_db :: seat_db where
  "demo_seat_db =
     \<lparr>sd_outbox = [], sd_invitations = [\<lparr>si_id = 7, si_workspace = 1, si_email = ''a'', si_invitee = None,
        si_role = ''member'', si_status = InvPending, si_expires = minute\<rparr>], sd_members = [], sd_links = []\<rparr>"

definition demo_accepted :: "cap_event list" where
  "demo_accepted = op_log demo_seat_env (OpAccept 5 ''a'' 7) demo_seat_db"

definition demo_due :: "uuid \<Rightarrow> uuid \<Rightarrow> seat_row" where
  "demo_due ws token = (fresh_intent 0 ws token ActionRelease 0)\<lparr>so_subject := Some token\<rparr>"

definition demo_due_db :: seat_db where
  "demo_due_db = \<lparr>sd_outbox = [demo_due 1 7, demo_due 1 8, demo_due 1 9], sd_invitations = [], sd_members = [], sd_links = []\<rparr>"

definition demo_limited :: "cap_event list" where
  "demo_limited = op_log demo_seat_env (OpReconcile 3 10) demo_due_db"

text \<open>The tables an event of a log was committed to.\<close>

fun snapshot :: "cap_event \<Rightarrow> seat_db" where
  "snapshot (Committed t ss db) = db"
| "snapshot (Called t c ans) = demo_seat_db"

definition demo_snap :: "nat \<Rightarrow> seat_db" where
  "demo_snap n = snapshot (demo_accepted ! n)"

definition demo_member :: seat_member where
  "demo_member = \<lparr>sm_id = 15, sm_workspace = 1, sm_user = 5, sm_role = ''member''\<rparr>"

definition demo_granted :: cap_decision where
  "demo_granted = \<lparr>cd_managed = True, cd_allowed = True, cd_reason = [], cd_state = None\<rparr>"

lemma demo_record_commit:
  "op_log demo_seat_env (OpAccept 5 ''a'' 7) demo_seat_db
     = take 1 demo_accepted @ Committed (2 * second)
         [QUpsert ((consume_params 1 7 7 5 (RecoveryDue (2 * second)))\<lparr>so_created := 2 * second\<rparr>)] demo_seat_db
       # drop 2 demo_accepted"
  by code_simp

lemma demo_consume_call:
  "op_log demo_seat_env (OpAccept 5 ''a'' 7) demo_seat_db
     = take 2 demo_accepted @ Called (3 * second) (CallConsume 1 7) (Inr demo_granted) # drop 3 demo_accepted"
  by code_simp

lemma demo_member_commit:
  "op_log demo_seat_env (OpAccept 5 ''a'' 7) demo_seat_db
     = take 4 demo_accepted @ Committed (5 * second)
         [QAcceptInvitation 7, QCreateMember demo_member,
          QTransition ActionConfirm (Some 15) (Some 7) ActionConsumeInvitation (5 * second)] (demo_snap 4)
       # drop 5 demo_accepted"
  by code_simp

lemma demo_confirm_commit:
  "op_log demo_seat_env (OpAccept 5 ''a'' 7) demo_seat_db
     = take 7 demo_accepted @ Committed (9 * second) [QDeleteForAction (Some 7) ActionConfirm] (demo_snap 7)
       # drop 8 demo_accepted"
  by code_simp

lemma demo_consumed: "last_call (take 4 demo_accepted) = Some (CallConsume 1 7, Inr demo_granted)"
  by code_simp

definition demo_confirm_row :: seat_row where
  "demo_confirm_row = hd (sd_outbox (demo_snap 7))"

lemma demo_confirm_row:
  "demo_confirm_row \<in> set (sd_outbox (demo_snap 7))" "so_action demo_confirm_row = ActionConfirm"
  "so_token demo_confirm_row = 7"
  "so_token demo_confirm_row \<notin> so_token ` set (sd_outbox (fold (seat_exec (9 * second))
     [QDeleteForAction (Some 7) ActionConfirm] (demo_snap 7)))"
  by code_simp+

definition demo_429 :: cap_error where
  "demo_429 = CapHTTP \<lparr>he_status = 429, he_code = [], he_retry_after = 2 * second, he_scope = ''workspace''\<rparr>"

lemma demo_limited_calls:
  "demo_limited = take 2 demo_limited @ Called (2 * second) (CallRelease 1 7) (Inl demo_429)
     # drop 3 demo_limited"
  "drop 3 demo_limited ! 3 = Called (6 * second) (CallRelease 1 8) (Inl demo_429)"
  "length (drop 3 demo_limited) = 9"
  by code_simp+

lemma demo_limited_commit:
  "op_log demo_seat_env (OpReconcile 3 10) demo_due_db
     = take 3 demo_limited @ Committed (3 * second) [QDefer (Some 7) ActionRelease (Some 10) (5 * second)]
         (snapshot (demo_limited ! 3)) # drop 4 demo_limited"
  by code_simp

lemma demo_limited_snap:
  "sd_outbox (snapshot (demo_limited ! 3))
     = [(demo_due 1 7)\<lparr>so_next := 5 * minute, so_lease := Some 10\<rparr>, demo_due 1 8, demo_due 1 9]"
  by code_simp

end
