(* ===== verification/SeatTables.thy ===== *)
theory SeatTables
  imports SeatDemo
begin

text \<open>
  The constraints of the seat tables. The statements of \<open>SeatDb\<close> do not enforce the CHECK constraints and
  the unique index of the outbox: \<open>outbox_exec_ok\<close> shows that no statement the code issues can violate
  them. \<open>seat_reach\<close> is the system: any commit of any operation, run in any environment, on the tables as
  they are.
\<close>

section \<open>The outbox\<close>

text \<open>The primary key is the operation token; an update of the table keeps it.\<close>

interpretation seat_pk: keyed_rows so_token "\<lambda>f r. (f r)\<lparr>so_token := so_token r\<rparr>"
  by unfold_locales simp

lemma outbox_ok_pk: "outbox_ok t \<longleftrightarrow> seat_pk.pk_ok t \<and> (\<forall>r \<in> set t. seat_checks r) \<and> unique_index so_token share_key t"
  by (simp add: outbox_ok_def seat_pk.pk_ok_def)

lemma outbox_update:
  assumes ok: "outbox_ok t"
    and tok: "\<And>r. so_token (f r) = so_token r"
    and chk: "\<And>r. r \<in> set t \<Longrightarrow> P r \<Longrightarrow> seat_checks r \<Longrightarrow> seat_checks (f r)"
    and key: "\<And>r. r \<in> set t \<Longrightarrow> P r \<Longrightarrow> share_key (f r) = None \<or> share_key (f r) = share_key r"
  shows "outbox_ok (update_where P f t)"
  unfolding outbox_ok_pk
proof (intro conjI ballI)
  have "(\<lambda>r. (f r)\<lparr>so_token := so_token r\<rparr>) = f"
  proof
    fix r show "(f r)\<lparr>so_token := so_token r\<rparr> = f r"
      using tok[of r] by (cases "f r") simp
  qed
  then show "seat_pk.pk_ok (update_where P f t)"
    using seat_pk.pk_update[of t P f] ok unfolding outbox_ok_pk by simp
  show "unique_index so_token share_key (update_where P f t)"
    by (rule unique_index_update_shrink) (use ok tok key in \<open>auto simp: outbox_ok_def\<close>)
  fix r assume "r \<in> set (update_where P f t)"
  then show "seat_checks r" using ok chk by (auto simp: in_update_where outbox_ok_def)
qed

lemma unique_index_filter: "unique_index rid k t \<Longrightarrow> unique_index rid k (filter P t)"
  unfolding unique_index_def by (meson filter_is_subset subsetD)

lemma outbox_filter: "outbox_ok t \<Longrightarrow> outbox_ok (filter P t)"
  by (simp add: outbox_ok_def distinct_map_filter unique_index_filter)

lemma outbox_append:
  assumes "outbox_ok t" "so_token r \<notin> so_token ` set t" "seat_checks r"
    and "\<And>s. s \<in> set t \<Longrightarrow> share_key r \<noteq> None \<Longrightarrow> share_key s \<noteq> share_key r"
  shows "outbox_ok (t @ [r])"
  unfolding outbox_ok_pk
proof (intro conjI ballI)
  show "seat_pk.pk_ok (t @ [r])"
    using assms(1,2) by (simp add: outbox_ok_pk seat_pk.pk_append)
  show "unique_index so_token share_key (t @ [r])"
    by (rule unique_index_append) (use assms(1,4) in \<open>auto simp: outbox_ok_pk\<close>)
  fix x assume "x \<in> set (t @ [r])"
  then show "seat_checks x" using assms(1,3) by (auto simp: outbox_ok_pk)
qed

lemma outbox_insert_or_update:
  assumes "outbox_ok t" "seat_checks new" "share_key new = None"
    and "\<And>r. so_token (change r) = so_token r"
    and "\<And>r. guard r \<Longrightarrow> seat_checks r \<Longrightarrow> seat_checks (change r)"
    and "\<And>r. guard r \<Longrightarrow> share_key (change r) = None \<or> share_key (change r) = share_key r"
  shows "outbox_ok (insert_or_update new guard change t)"
proof (cases "so_token new \<in> so_token ` set t")
  case True
  have "outbox_ok (update_where (\<lambda>r. so_token r = so_token new \<and> guard r) change t)"
    using assms(1,4) by (rule outbox_update) (use assms(5,6) in blast)+
  with True show ?thesis by (simp add: insert_or_update_def)
next
  case False
  have "outbox_ok (t @ [new])"
    by (rule outbox_append) (use assms(1-3) False in simp_all)
  with False show ?thesis by (simp add: insert_or_update_def)
qed

lemma restart_simps [simp]:
  "so_token (restart a d r) = so_token r" "so_action (restart a d r) = a" "so_attempts (restart a d r) = 0"
  "so_workspace (restart a d r) = so_workspace r" "so_user (restart a d r) = so_user r"
  "so_member (restart a d r) = so_member r" "so_share_link (restart a d r) = so_share_link r"
  "so_invitation (restart a d r) = so_invitation r"
  by (simp_all add: restart_def)

lemma fresh_simps [simp]:
  "so_token (fresh_intent n ws tk a d) = tk" "so_action (fresh_intent n ws tk a d) = a"
  "so_workspace (fresh_intent n ws tk a d) = ws" "so_attempts (fresh_intent n ws tk a d) = 0"
  "so_share_link (fresh_intent n ws tk a d) = None" "so_user (fresh_intent n ws tk a d) = None"
  by (simp_all add: fresh_intent_def)

lemma upsert_change_simps [simp]:
  "so_token (upsert_change new r) = so_token r" "so_action (upsert_change new r) = so_action new"
  "so_share_link (upsert_change new r) = so_share_link new" "so_member (upsert_change new r) = so_member new"
  "so_invitation (upsert_change new r) = so_invitation new" "so_user (upsert_change new r) = so_user new"
  "so_expires (upsert_change new r) = so_expires new"
  by (simp_all add: upsert_change_def)

lemma share_key_cong:
  "so_workspace a = so_workspace b \<Longrightarrow> so_share_link a = so_share_link b \<Longrightarrow> so_user a = so_user b
    \<Longrightarrow> share_key a = share_key b"
  by (simp add: share_key_def split: option.split)

lemma share_key_none: "so_share_link r = None \<Longrightarrow> share_key r = None"
  by (simp add: share_key_def)

lemma share_key_simps [simp]:
  "share_key (r\<lparr>so_next := d\<rparr>) = share_key r" "share_key (r\<lparr>so_lease := l\<rparr>) = share_key r"
  "share_key (r\<lparr>so_member := m\<rparr>) = share_key r" "share_key (r\<lparr>so_invitation := m\<rparr>) = share_key r"
  "share_key (r\<lparr>so_subject := m\<rparr>) = share_key r" "share_key (r\<lparr>so_expires := x\<rparr>) = share_key r"
  "share_key (r\<lparr>so_dead := x\<rparr>) = share_key r" "share_key (r\<lparr>so_attempts := n\<rparr>) = share_key r"
  "share_key (r\<lparr>so_delivered := x\<rparr>) = share_key r"
  "share_key (restart a d r) = share_key r" "share_key (fresh_intent n ws tk a d) = None"
  by (rule share_key_cong; simp add: restart_def)+ (simp add: share_key_none)

lemma same_joinD: "same_join ws l u r \<Longrightarrow> so_share_link r = Some l \<and> so_user r = Some u \<and> so_workspace r = ws"
  by (auto simp: same_join_def share_key_def split: option.splits)

lemma reactivate_ok:
  assumes "outbox_ok t"
  shows "outbox_ok (CreateOrReactivateShareJoinCapacityIntent now ws token l u due t)"
proof (cases "\<exists>r \<in> set t. same_join ws l u r")
  case True
  show ?thesis
    unfolding CreateOrReactivateShareJoinCapacityIntent_def if_P[OF True]
    using assms by (rule outbox_update) (auto simp: seat_checks_def share_key_none dest: same_joinD)
next
  case False
  show ?thesis
    unfolding CreateOrReactivateShareJoinCapacityIntent_def if_not_P[OF False]
    using assms False
    by (auto intro!: outbox_append simp: seat_checks_def same_join_def share_key_def[of "fresh_intent _ _ _ _ _\<lparr>so_subject := _, so_share_link := _, so_user := _\<rparr>"])
qed

lemma prepare_invitations_ok:
  "outbox_ok t \<Longrightarrow> outbox_ok (PrepareSeatCapacityInvitationReleasesForWorkspaceDeletion now ws is t)"
  unfolding PrepareSeatCapacityInvitationReleasesForWorkspaceDeletion_def
proof (induction "is" arbitrary: t)
  case (Cons i "is")
  have "outbox_ok (insert_or_update ((fresh_intent now ws i ActionRelease now)\<lparr>so_subject := Some i, so_invitation := Some i\<rparr>)
              releasable (\<lambda>r. (restart ActionRelease now r)\<lparr>so_member := None\<rparr>) t)"
    using Cons.prems by (rule outbox_insert_or_update) (auto simp: seat_checks_def share_key_none)
  from Cons.IH[OF this] show ?case by simp
qed simp

lemma append_members_ok:
  assumes "outbox_ok t" "distinct (map snd ms)" "set (map snd ms) \<inter> so_token ` set t = {}"
  shows "outbox_ok (t @ map (\<lambda>(m, token). (fresh_intent now ws token ActionReleaseMember now)\<lparr>so_member := Some m\<rparr>) ms)"
  using assms
proof (induction ms arbitrary: t)
  case (Cons x ms)
  obtain m token where x: "x = (m, token)" by fastforce
  let ?r = "(fresh_intent now ws token ActionReleaseMember now)\<lparr>so_member := Some m\<rparr>"
  have "outbox_ok (t @ [?r])"
    using Cons.prems by (intro outbox_append) (auto simp: x seat_checks_def share_key_none)
  then have "outbox_ok ((t @ [?r]) @ map (\<lambda>(m, token). (fresh_intent now ws token ActionReleaseMember now)\<lparr>so_member := Some m\<rparr>) ms)"
    by (rule Cons.IH) (use Cons.prems in \<open>auto simp: x\<close>)
  then show ?case by (simp add: x)
qed simp

lemma prepare_members_ok:
  "outbox_ok t \<Longrightarrow> outbox_ok (PrepareSeatCapacityMemberReleasesForWorkspaceDeletion now ws ms t)"
  unfolding PrepareSeatCapacityMemberReleasesForWorkspaceDeletion_def Let_def
  by (cases "distinct (map snd (filter (\<lambda>(m, token). \<not> has_member_release ws m t) ms))
        \<and> set (map snd (filter (\<lambda>(m, token). \<not> has_member_release ws m t) ms)) \<inter> so_token ` set t = {}")
    (simp_all add: append_members_ok)

lemma outbox_exec_ok:
  assumes "stmt_ok s" "outbox_ok t"
  shows "outbox_ok (outbox_exec now db s t)"
proof (cases s)
  case (QClaimNext until lease locked)
  with assms show ?thesis
    by (auto simp: ClaimNextDueSeatCapacityIntent_def seat_checks_def share_key_none split: option.split intro!: outbox_update)
next
  case (QReactivateJoin ws token l u due)
  with assms show ?thesis by (simp add: reactivate_ok)
next
  case (QUpsert new)
  with assms show ?thesis
    by (auto simp: UpsertSeatCapacityIntent_def share_key_none intro!: outbox_insert_or_update)
      (auto simp: seat_checks_def upsert_change_def)
next
  case (QEnqueueRelease ws token sub due)
  with assms show ?thesis
    by (auto simp: EnqueueSeatCapacityRelease_def seat_checks_def share_key_none intro!: outbox_insert_or_update)
next
  case (QTransition nxt mem token cur due)
  with assms show ?thesis
    by (auto simp: TransitionSeatCapacityIntent_def seat_checks_def share_key_none intro!: outbox_update)
next
  case (QTransitionClaimed nxt mem token cur lease due)
  with assms show ?thesis
    by (auto simp: TransitionClaimedSeatCapacityIntent_def seat_checks_def share_key_none intro!: outbox_update)
next
  case (QPrepareInvitations ws)
  with assms show ?thesis by (simp add: prepare_invitations_ok)
next
  case (QPrepareMembers ws fresh)
  with assms show ?thesis by (simp add: prepare_members_ok)
next
  case (QPrepareOperations ws)
  with assms show ?thesis
    by (auto simp: PrepareSeatCapacityOperationReleasesForWorkspaceDeletion_def seat_checks_def share_key_none intro!: outbox_update)
qed (use assms in \<open>auto simp: DeferClaimedSeatCapacityIntent_def DeleteClaimedSeatCapacityIntent_def
    DeleteSeatCapacityConfirmIntentsForWorkspaceDeletion_def DeleteSeatCapacityIntentForAction_def
    MarkClaimedSeatCapacityIntentDeadLettered_def MarkClaimedSeatCapacityIntentFailed_def
    MarkSeatCapacityIntentDelivered_def MarkSeatCapacityIntentFailed_def seat_checks_def share_key_none
    intro!: outbox_update outbox_filter\<close>)

section \<open>The other tables\<close>

definition pending_key :: "seat_invitation \<Rightarrow> (uuid \<times> string) option" where
  "pending_key v = (if si_status v = InvPending then Some (si_workspace v, si_email v) else None)"

definition member_key :: "seat_member \<Rightarrow> (uuid \<times> uuid) option" where
  "member_key m = Some (sm_workspace m, sm_user m)"

definition within_uses :: "share_link \<Rightarrow> bool" where
  "within_uses l \<longleftrightarrow> (case sl_max_uses l of None \<Rightarrow> True | Some n \<Rightarrow> sl_use_count l \<le> n)"

definition tables_ok :: "seat_db \<Rightarrow> bool" where
  "tables_ok db \<longleftrightarrow>
     outbox_ok (sd_outbox db)
     \<and> distinct (map si_id (sd_invitations db)) \<and> unique_index si_id pending_key (sd_invitations db)
     \<and> distinct (map sm_id (sd_members db)) \<and> unique_index sm_id member_key (sd_members db)
     \<and> (\<forall>l \<in> set (sd_links db). within_uses l)"

definition invitations_ok :: "seat_invitation list \<Rightarrow> bool" where
  "invitations_ok t \<longleftrightarrow> distinct (map si_id t) \<and> unique_index si_id pending_key t"

lemma invitation_update:
  assumes "invitations_ok t" "st \<noteq> InvPending"
  shows "invitations_ok (update_where P (\<lambda>v. v\<lparr>si_status := st\<rparr>) t)"
  using assms unfolding invitations_ok_def
  by (auto simp: map_update_where pending_key_def intro!: unique_index_update_shrink)

lemma invitation_filter: "invitations_ok t \<Longrightarrow> invitations_ok (filter P t)"
  by (simp add: invitations_ok_def distinct_map_filter unique_index_filter)

lemma invitation_exec_ok: "invitations_ok t \<Longrightarrow> invitations_ok (invitation_exec now s t)"
proof (cases s)
  case (QCreateInvitation new)
  assume "invitations_ok t"
  with QCreateInvitation show ?thesis
    by (auto simp: CreateInvitation_def invitation_conflict_def invitations_ok_def pending_key_def
        split: if_splits intro!: unique_index_append)
qed (auto simp: ExpireInvitationForCapacityRecovery_def AcceptInvitation_def DeclineInvitation_def set_invitation_def
    RevokeInvitation_def ExpireStalePendingInvitations_def invitation_update invitation_filter split: option.split)

lemma member_exec_ok:
  "distinct (map sm_id t) \<and> unique_index sm_id member_key t
    \<Longrightarrow> distinct (map sm_id (member_exec s t)) \<and> unique_index sm_id member_key (member_exec s t)"
proof (cases s)
  case (QCreateMember new)
  assume "distinct (map sm_id t) \<and> unique_index sm_id member_key t"
  with QCreateMember show ?thesis
    by (auto simp: CreateMember_def member_conflict_def member_key_def intro!: unique_index_append)
qed (auto simp: DeleteMember_def distinct_map_filter unique_index_filter)

lemma link_exec_ok: "\<forall>l \<in> set t. within_uses l \<Longrightarrow> \<forall>l \<in> set (link_exec now s t). within_uses l"
  by (cases s) (auto simp: ClaimShareLinkByID_def in_update_where within_uses_def link_usable_def split: option.splits)

lemma seat_exec_ok: "stmt_ok s \<Longrightarrow> tables_ok db \<Longrightarrow> tables_ok (seat_exec now s db)"
  using outbox_exec_ok[of s "sd_outbox db" now db] invitation_exec_ok[of "sd_invitations db" now s]
    member_exec_ok[of "sd_members db" s] link_exec_ok[of "sd_links db" now s]
  by (auto simp: tables_ok_def seat_exec_def invitations_ok_def)

lemma fold_exec_ok: "\<forall>s \<in> set ss. stmt_ok s \<Longrightarrow> tables_ok db \<Longrightarrow> tables_ok (fold (seat_exec now) ss db)"
  by (induction ss arbitrary: db) (simp_all add: seat_exec_ok)

section \<open>The system\<close>

inductive seat_reach :: "seat_db \<Rightarrow> seat_db \<Rightarrow> bool" for start where
  start: "seat_reach start start"
| commit: "seat_reach start db \<Longrightarrow> sane_env env \<Longrightarrow> Committed t ss db \<in> set (op_log env op view)
    \<Longrightarrow> seat_reach start (fold (seat_exec t) ss db)"

inductive_cases seat_reachE: "seat_reach start db"

lemma commit_stmts:
  assumes "sane_env env" "Committed t ss db \<in> set (op_log env op view)"
  shows "(\<forall>s \<in> set ss. stmt_ok s) \<and> shape_ok ss db"
proof -
  obtain pre post where "op_log env op view = pre @ Committed t ss db # post"
    using assms(2) by (meson split_list)
  from op_event_ok[OF assms(1) this] show ?thesis by simp
qed

text \<open> C3: In every state the system reaches from tables that meet their constraints - whatever requests and
  worker batches run, however they interleave, whatever Cloud answers and whichever statement fails - the
  tables meet them again: operation tokens are unique, every intent carries the columns its action needs,
  one user has one intent per share link, one address one pending invitation per workspace, one user one
  membership per workspace, and no share link is used more often than it allows.\<close>

theorem seat_tables_ok:
  assumes "seat_reach start db" "tables_ok start"
  shows "tables_ok db"
  using assms
proof (induction rule: seat_reach.induct)
  case (commit db env t ss op view)
  from commit_stmts[OF commit.hyps(2,3)] commit.IH[OF commit.prems] show ?case
    by (intro fold_exec_ok) auto
qed

lemma seat_tables_ok_witness:
  "tables_ok (fold (seat_exec (2 * second))
     [QUpsert ((consume_params 1 7 7 5 (RecoveryDue (2 * second)))\<lparr>so_created := 2 * second\<rparr>)] demo_seat_db)"
proof (rule seat_tables_ok)
  have "Committed (2 * second) [QUpsert ((consume_params 1 7 7 5 (RecoveryDue (2 * second)))\<lparr>so_created := 2 * second\<rparr>)]
      demo_seat_db \<in> set (op_log demo_seat_env (OpAccept 5 ''a'' 7) demo_seat_db)"
    unfolding demo_record_commit by simp
  then show "seat_reach demo_seat_db (fold (seat_exec (2 * second))
     [QUpsert ((consume_params 1 7 7 5 (RecoveryDue (2 * second)))\<lparr>so_created := 2 * second\<rparr>)] demo_seat_db)"
    by (rule seat_reach.commit[OF seat_reach.start demo_seat_env_sane])
  show "tables_ok demo_seat_db"
    by (simp add: tables_ok_def demo_seat_db_def outbox_ok_def unique_index_def)
qed

end
