(* ===== verification/SeatSafety.thy ===== *)
theory SeatSafety
  imports SeatTables
begin

text \<open>
  What the guarantee of the operations means for the rows of the outbox: a seat is requested only after its
  intent is on record, a member is admitted only with a granted seat, an intent disappears only once it is
  settled, and a seat handed to a member is never released behind the member's back.
\<close>

section \<open>What one statement does to one row\<close>

text \<open>The statement removes the row.\<close>

fun drops_row :: "seat_stmt \<Rightarrow> seat_row \<Rightarrow> bool" where
  "drops_row (QDeleteClaimed token act lease) r \<longleftrightarrow> row_leased token act lease r"
| "drops_row (QDeleteForAction token act) r \<longleftrightarrow> row_is token act r"
| "drops_row (QDeleteConfirms ws) r \<longleftrightarrow> so_workspace r = ws \<and> so_action r = ActionConfirm"
| "drops_row _ r \<longleftrightarrow> False"

definition holds_token :: "uuid \<Rightarrow> seat_row list \<Rightarrow> bool" where
  "holds_token token t \<longleftrightarrow> (\<exists>r \<in> set t. so_token r = token)"

lemma holds_update: "(\<And>r. so_token (f r) = so_token r) \<Longrightarrow> holds_token k (update_where P f t) = holds_token k t"
  by (auto simp: holds_token_def update_where_def)

lemma holds_append: "holds_token k t \<Longrightarrow> holds_token k (t @ s)"
  by (auto simp: holds_token_def)

lemma holds_insert_or_update:
  "(\<And>r. so_token (change r) = so_token r) \<Longrightarrow> holds_token k t \<Longrightarrow> holds_token k (insert_or_update new guard change t)"
  by (simp add: insert_or_update_def holds_update holds_append)

lemma holds_filter: "r \<in> set t \<Longrightarrow> P r \<Longrightarrow> holds_token (so_token r) (filter P t)"
  by (auto simp: holds_token_def)

lemma holds_fold:
  "(\<And>x t. holds_token k t \<Longrightarrow> holds_token k (f x t)) \<Longrightarrow> holds_token k t \<Longrightarrow> holds_token k (fold f xs t)"
  by (induction xs arbitrary: t) simp_all

lemma exec_keeps_token:
  assumes "r \<in> set t" "\<not> drops_row s r"
  shows "holds_token (so_token r) (outbox_exec now db s t)"
proof -
  have h: "holds_token (so_token r) t" using assms(1) by (auto simp: holds_token_def)
  show ?thesis
  proof (cases s)
    case (QReactivateJoin ws token l u due)
    with h show ?thesis
      by (auto simp: CreateOrReactivateShareJoinCapacityIntent_def holds_update holds_append)
  next
    case (QPrepareInvitations ws)
    with h show ?thesis
      by (auto simp: PrepareSeatCapacityInvitationReleasesForWorkspaceDeletion_def
          intro!: holds_fold holds_insert_or_update)
  next
    case (QPrepareMembers ws fresh)
    with h show ?thesis
      by (auto simp: PrepareSeatCapacityMemberReleasesForWorkspaceDeletion_def Let_def holds_append)
  qed (use assms h in \<open>auto simp: ClaimNextDueSeatCapacityIntent_def DeferClaimedSeatCapacityIntent_def
      DeleteClaimedSeatCapacityIntent_def DeleteSeatCapacityConfirmIntentsForWorkspaceDeletion_def
      DeleteSeatCapacityIntentForAction_def EnqueueSeatCapacityRelease_def
      MarkClaimedSeatCapacityIntentDeadLettered_def MarkClaimedSeatCapacityIntentFailed_def
      MarkSeatCapacityIntentDelivered_def MarkSeatCapacityIntentFailed_def
      PrepareSeatCapacityOperationReleasesForWorkspaceDeletion_def TransitionClaimedSeatCapacityIntent_def
      TransitionSeatCapacityIntent_def UpsertSeatCapacityIntent_def holds_update holds_insert_or_update
      holds_filter split: option.split\<close>)
qed

lemma drops_row_drops: "drops_row s r \<Longrightarrow> drops s"
  by (cases s) auto

lemma off_outbox_id: "off_outbox s \<Longrightarrow> outbox_exec now db s t = t"
  by (cases s) simp_all

lemma sd_outbox_exec [simp]: "sd_outbox (seat_exec now s db) = outbox_exec now db s (sd_outbox db)"
  by (simp add: seat_exec_def)

lemma fold_keeps_token:
  "holds_token k (sd_outbox db) \<Longrightarrow> \<forall>s \<in> set ss. \<not> drops s \<Longrightarrow> holds_token k (sd_outbox (fold (seat_exec now) ss db))"
proof (induction ss arbitrary: db)
  case (Cons s ss)
  from Cons.prems(1) obtain r where r: "r \<in> set (sd_outbox db)" "so_token r = k" by (auto simp: holds_token_def)
  moreover from Cons.prems(2) have "\<not> drops_row s r" by (auto dest: drops_row_drops)
  ultimately have "holds_token k (outbox_exec now db s (sd_outbox db))"
    using exec_keeps_token by blast
  with Cons show ?case by simp
qed simp

text \<open>Since a deletion comes first, a commit that removes a row removes it as the snapshot has it.\<close>

lemma fold_drops_row:
  assumes "drops_lead ss" "r \<in> set (sd_outbox db)"
    and "\<not> holds_token (so_token r) (sd_outbox (fold (seat_exec now) ss db))"
  shows "\<exists>s \<in> set ss. drops_row s r"
  using assms
proof (induction ss arbitrary: db)
  case Nil
  then show ?case by (auto simp: holds_token_def)
next
  case (Cons s ss)
  show ?case
  proof (cases "off_outbox s")
    case True
    then have "sd_outbox (seat_exec now s db) = sd_outbox db" by (simp add: off_outbox_id)
    with Cons.IH[of "seat_exec now s db"] Cons.prems True show ?thesis by auto
  next
    case False
    with Cons.prems(1) have nd: "\<forall>x \<in> set ss. \<not> drops x" by simp
    have "drops_row s r"
    proof (rule ccontr)
      assume "\<not> drops_row s r"
      from exec_keeps_token[OF Cons.prems(2) this, of now db] nd Cons.prems(3) fold_keeps_token
      show False by (metis fold_simps(2) sd_outbox_exec)
    qed
    then show ?thesis by simp
  qed
qed

section \<open>The intent comes first\<close>

text \<open> C20: Before Cloud is asked for a seat - to reserve one for an invitation, to consume it, or to claim one
  for a share link - the commit just before the request has put an intent with the token of the request and
  the action it stands for on record, so that a crash at any later point leaves the worker something to
  recover from.\<close>

theorem intent_recorded_before_request:
  assumes "sane_env env" "op_log env op db = pre @ Called t c ans # post"
    and "needs_record c = Some (token, act)"
  shows "\<exists>t' s snap r. last pre = Committed t' [s] snap \<and> pre \<noteq> []
     \<and> r \<in> set (sd_outbox (seat_exec t' s snap)) \<and> so_token r = token \<and> so_action r = act"
  using op_event_ok[OF assms(1,2)] assms(3) unfolding event_ok.simps on_record_def
  by (metis sd_outbox_exec)

lemma intent_recorded_before_request_witness:
  "\<exists>t' s snap r. last (take 2 demo_accepted) = Committed t' [s] snap \<and> take 2 demo_accepted \<noteq> []
     \<and> r \<in> set (sd_outbox (seat_exec t' s snap)) \<and> so_token r = 7 \<and> so_action r = ActionConsumeInvitation"
  by (rule intent_recorded_before_request[OF demo_seat_env_sane demo_consume_call]) simp

section \<open>Admission\<close>

lemma member_commit:
  assumes "sane_env env" "op_log env op db = pre @ Committed t ss snap # post" "QCreateMember m \<in> set ss"
    and "seatCapacityEnabled env" "\<not> unmanaged pre"
  shows "\<exists>first tk cur due. ss = [first, QCreateMember m, QTransition ActionConfirm (Some (sm_id m)) (Some tk) cur due]
      \<and> off_outbox first \<and> seat_granted pre tk cur \<and> (\<exists>r \<in> set (sd_outbox snap). row_is (Some tk) cur r)"
proof -
  note ok = op_event_ok[OF assms(1,2), unfolded event_ok.simps]
  from ok assms(3) have sh: "member_shape ss snap" by (simp add: shape_ok_def)
  then obtain first tail where f: "ss = first # QCreateMember m # tail"
      and first: "\<exists>i. first = QAcceptInvitation i \<or> first = QClaimLink i"
      and tail: "tail = [] \<or> (\<exists>tk cur due. tail = [QTransition ActionConfirm (Some (sm_id m)) tk cur due]
               \<and> (\<exists>r \<in> set (sd_outbox snap). row_is tk cur r))"
    using assms(3) unfolding member_shape_def by blast
  from ok assms(3) have "stmt_justified env pre ss (QCreateMember m)" by blast
  then obtain tk cur due where q: "QTransition ActionConfirm (Some (sm_id m)) (Some tk) cur due \<in> set ss"
      and g: "seat_granted pre tk cur"
    using assms(4,5) by auto
  from q f first tail have "tail = [QTransition ActionConfirm (Some (sm_id m)) (Some tk) cur due]
      \<and> (\<exists>r \<in> set (sd_outbox snap). row_is (Some tk) cur r)"
    by auto
  with f first g show ?thesis by force
qed

lemma transition_hits:
  assumes "r \<in> set t" "row_is tk cur r"
  shows "\<exists>r' \<in> set (TransitionSeatCapacityIntent nxt mem tk cur due t).
           so_token r' = so_token r \<and> so_action r' = nxt \<and> so_member r' = mem"
  unfolding TransitionSeatCapacityIntent_def
  by (rule bexI[of _ "(restart nxt due r)\<lparr>so_member := mem\<rparr>"]) (use assms in \<open>auto simp: in_update_where\<close>)



section \<open>No intent is lost\<close>

text \<open> C22: When a commit of any operation removes an intent from the outbox, then either the last answer from
  Cloud settles it - a refusal of the request that would have taken the seat, a lookup that finds nothing held, a
  confirmation or a release that went through - or the same commit turns a reservation into a pending
  invitation that holds the seat, or the workspace is being torn down. No seat is forgotten.\<close>

theorem intent_dropped_only_when_settled:
  assumes "sane_env env" "op_log env op db = pre @ Committed t ss snap # post"
    and "r \<in> set (sd_outbox snap)"
    and "so_token r \<notin> so_token ` set (sd_outbox (fold (seat_exec t) ss snap))"
  shows "settled pre (so_token r) (so_action r)
     \<or> (so_action r = ActionReserveInvitation
        \<and> (\<exists>v \<in> set (sd_invitations (fold (seat_exec t) ss snap)). si_id v = so_token r \<and> si_status v = InvPending))
     \<or> (so_action r = ActionConfirm \<and> QDeleteConfirms (so_workspace r) \<in> set ss
        \<and> (\<exists>fresh. QPrepareMembers (so_workspace r) fresh \<in> set ss))"
proof -
  note ok = op_event_ok[OF assms(1,2), unfolded event_ok.simps]
  have "\<not> holds_token (so_token r) (sd_outbox (fold (seat_exec t) ss snap))"
    using assms(4) unfolding holds_token_def by (metis image_eqI)
  with ok assms(3) obtain s where s: "s \<in> set ss" "drops_row s r"
    using fold_drops_row[of ss r snap t] unfolding shape_ok_def by blast
  from ok s(1) have j: "stmt_justified env pre ss s" by blast
  show ?thesis
  proof (cases s)
    case (QDeleteClaimed token act lease)
    with s(2) j show ?thesis by (auto simp: row_leased_def row_is_def)
  next
    case (QDeleteConfirms ws)
    with s j show ?thesis by auto
  next
    case (QDeleteForAction token act)
    with s(2) have tk: "token = Some (so_token r)" "act = so_action r" by (auto simp: row_is_def)
    with j QDeleteForAction consider "settled pre (so_token r) (so_action r)"
      | v where "so_action r = ActionReserveInvitation" "QCreateInvitation v \<in> set ss" "si_id v = so_token r"
          "si_status v = InvPending"
      by auto
    then show ?thesis
    proof cases
      case (2 v)
      from ok 2(2) obtain rest where nc: "\<not> invitation_conflict v (sd_invitations snap)"
          and ss: "ss = QCreateInvitation v # rest" "\<forall>x \<in> set rest. \<exists>tk act. x = QDeleteForAction tk act"
        unfolding shape_ok_def invite_shape_def by blast
      have keep: "v \<in> set (sd_invitations db1) \<Longrightarrow> \<forall>x \<in> set xs. \<exists>tk act. x = QDeleteForAction tk act
          \<Longrightarrow> v \<in> set (sd_invitations (fold (seat_exec t) xs db1))" for xs db1
        by (induction xs arbitrary: db1) (auto simp: seat_exec_def)
      have "v \<in> set (sd_invitations (seat_exec t (QCreateInvitation v) snap))"
        using nc by (simp add: seat_exec_def CreateInvitation_def)
      from keep[OF this ss(2)] have "v \<in> set (sd_invitations (fold (seat_exec t) ss snap))" by (simp add: ss(1))
      with 2 show ?thesis by blast
    qed simp
  qed (use s(2) in auto)
qed

lemma intent_dropped_only_when_settled_witness:
  "settled (take 7 demo_accepted) 7 ActionConfirm"
  using intent_dropped_only_when_settled[OF demo_seat_env_sane demo_confirm_commit demo_confirm_row(1,4)]
    demo_confirm_row(2,3)
  by simp

section \<open>A confirmed seat stays with its member\<close>

definition confirms :: "uuid \<Rightarrow> uuid \<Rightarrow> uuid option \<Rightarrow> seat_row list \<Rightarrow> bool" where
  "confirms token ws mem t \<longleftrightarrow>
     (\<exists>r \<in> set t. so_token r = token \<and> so_action r = ActionConfirm \<and> so_member r = mem \<and> so_workspace r = ws)"

lemma confirms_update:
  assumes "confirms k ws mem t"
    and "\<And>r. P r \<Longrightarrow> so_action r = ActionConfirm
       \<Longrightarrow> so_token (f r) = so_token r \<and> so_action (f r) = ActionConfirm \<and> so_member (f r) = so_member r
         \<and> so_workspace (f r) = so_workspace r"
  shows "confirms k ws mem (update_where P f t)"
proof -
  from assms(1) obtain r where r: "r \<in> set t" "so_token r = k" "so_action r = ActionConfirm" "so_member r = mem"
      "so_workspace r = ws"
    by (auto simp: confirms_def)
  with assms(2)[of r] show ?thesis
    unfolding confirms_def by (intro bexI[of _ "if P r then f r else r"]) (auto simp: in_update_where)
qed

lemma confirms_append: "confirms k ws mem t \<Longrightarrow> confirms k ws mem (t @ s)"
  by (auto simp: confirms_def)

lemma confirms_insert_or_update:
  assumes "confirms k ws mem t" "\<And>r. guard r \<Longrightarrow> so_action r \<noteq> ActionConfirm"
  shows "confirms k ws mem (insert_or_update new guard change t)"
  unfolding insert_or_update_def
  using assms by (auto intro!: confirms_append confirms_update)

lemma confirms_fold:
  "(\<And>x t. confirms k ws mem t \<Longrightarrow> confirms k ws mem (f x t)) \<Longrightarrow> confirms k ws mem t
    \<Longrightarrow> confirms k ws mem (fold f xs t)"
  by (induction xs arbitrary: t) simp_all

lemma confirms_filter:
  assumes "confirms k ws mem t" "\<And>r. so_token r = k \<Longrightarrow> so_action r = ActionConfirm \<Longrightarrow> so_workspace r = ws \<Longrightarrow> P r"
  shows "confirms k ws mem (filter P t)"
  using assms by (auto simp: confirms_def)

fun unconfirms :: "seat_stmt \<Rightarrow> uuid \<Rightarrow> uuid \<Rightarrow> bool" where
  "unconfirms (QDeleteClaimed token act lease) k ws \<longleftrightarrow> token = Some k \<and> act = ActionConfirm"
| "unconfirms (QDeleteForAction token act) k ws \<longleftrightarrow> token = Some k \<and> act = ActionConfirm"
| "unconfirms (QDeleteConfirms w) k ws \<longleftrightarrow> w = ws"
| "unconfirms _ k ws \<longleftrightarrow> False"

lemma exec_keeps_confirm:
  assumes ok: "stmt_ok s" and c: "confirms k ws mem t" and n: "\<not> unconfirms s k ws"
  shows "confirms k ws mem (outbox_exec now db s t)"
proof (cases s)
  case (QClaimNext until lease locked)
  with c show ?thesis
    by (auto simp: ClaimNextDueSeatCapacityIntent_def split: option.split intro!: confirms_update)
next
  case (QReactivateJoin w token l u due)
  with c show ?thesis
    by (auto simp: CreateOrReactivateShareJoinCapacityIntent_def join_reusable_def intro!: confirms_update confirms_append)
next
  case (QEnqueueRelease w token sub due)
  with c show ?thesis
    by (auto simp: EnqueueSeatCapacityRelease_def releasable_def intro!: confirms_insert_or_update)
next
  case (QPrepareInvitations w)
  have "confirms k ws mem (PrepareSeatCapacityInvitationReleasesForWorkspaceDeletion now w is t)" for "is"
    unfolding PrepareSeatCapacityInvitationReleasesForWorkspaceDeletion_def
    by (rule confirms_fold[OF _ c], erule confirms_insert_or_update) (auto simp: releasable_def)
  with QPrepareInvitations show ?thesis by simp
next
  case (QPrepareMembers w fresh)
  with c show ?thesis
    by (auto simp: PrepareSeatCapacityMemberReleasesForWorkspaceDeletion_def Let_def confirms_append)
next
  case (QPrepareOperations w)
  with c show ?thesis
    by (auto simp: PrepareSeatCapacityOperationReleasesForWorkspaceDeletion_def intro!: confirms_update)
next
  case (QTransition nxt m token cur due)
  with c ok show ?thesis
    by (auto simp: TransitionSeatCapacityIntent_def row_is_def intro!: confirms_update)
next
  case (QTransitionClaimed nxt m token cur lease due)
  with c ok show ?thesis
    by (auto simp: TransitionClaimedSeatCapacityIntent_def row_leased_def row_is_def intro!: confirms_update)
next
  case (QUpsert new)
  with c ok show ?thesis
    by (auto simp: UpsertSeatCapacityIntent_def upsert_guard_def intro!: confirms_insert_or_update)
qed (use c n in \<open>auto simp: DeferClaimedSeatCapacityIntent_def DeleteClaimedSeatCapacityIntent_def
    DeleteSeatCapacityConfirmIntentsForWorkspaceDeletion_def DeleteSeatCapacityIntentForAction_def
    MarkClaimedSeatCapacityIntentDeadLettered_def MarkClaimedSeatCapacityIntentFailed_def
    MarkSeatCapacityIntentDelivered_def MarkSeatCapacityIntentFailed_def row_leased_def row_is_def
    intro!: confirms_update confirms_filter\<close>)

lemma fold_keeps_confirm:
  "\<forall>s \<in> set ss. stmt_ok s \<and> \<not> unconfirms s k ws \<Longrightarrow> confirms k ws mem (sd_outbox db)
    \<Longrightarrow> confirms k ws mem (sd_outbox (fold (seat_exec now) ss db))"
  by (induction ss arbitrary: db) (simp_all add: exec_keeps_confirm)



end
