(* ===== verification/SeatLease.thy ===== *)
theory SeatLease
  imports SeatSafety
begin

text \<open>
  The worker alone: its statements name the lease it holds, one claimed intent costs at most one request,
  and a rate limit is honoured for the rest of the batch. \<open>wsteps\<close> summarises what a piece of the worker
  adds to the log under one lease.
\<close>

section \<open>Leased statements\<close>

fun leased_stmt :: "uuid option \<Rightarrow> seat_stmt \<Rightarrow> bool" where
  "leased_stmt l (QDeleteClaimed token act lease) \<longleftrightarrow> lease = l"
| "leased_stmt l (QDefer token act lease due) \<longleftrightarrow> lease = l"
| "leased_stmt l (QDeadLetter token act lease) \<longleftrightarrow> lease = l"
| "leased_stmt l (QMarkClaimedFailed token act lease due) \<longleftrightarrow> lease = l"
| "leased_stmt l (QTransitionClaimed nxt mem token cur lease due) \<longleftrightarrow> lease = l"
| "leased_stmt l (QExpireInvitation i) \<longleftrightarrow> True"
| "leased_stmt l _ \<longleftrightarrow> False"

lemma leased_stmt_spares:
  assumes "leased_stmt l s" "r \<in> set t" "so_lease r \<noteq> l"
  shows "r \<in> set (outbox_exec now db s t)"
  using assms
  by (cases s) (auto simp: DeleteClaimedSeatCapacityIntent_def DeferClaimedSeatCapacityIntent_def
      MarkClaimedSeatCapacityIntentDeadLettered_def MarkClaimedSeatCapacityIntentFailed_def
      TransitionClaimedSeatCapacityIntent_def row_leased_def in_update_where intro!: bexI[of _ r])

fun is_called :: "cap_event \<Rightarrow> bool" where
  "is_called (Called t c ans) \<longleftrightarrow> True"
| "is_called (Committed t ss db) \<longleftrightarrow> False"

fun leased_event :: "uuid option \<Rightarrow> cap_event \<Rightarrow> bool" where
  "leased_event l (Called t c ans) \<longleftrightarrow> True"
| "leased_event l (Committed t ss db) \<longleftrightarrow> (\<forall>s \<in> set ss. leased_stmt l s)"

definition wsteps :: "uuid option \<Rightarrow> cap_world \<Rightarrow> cap_world \<Rightarrow> cap_event list \<Rightarrow> bool" where
  "wsteps lease w w' calls \<longleftrightarrow> (\<exists>es. cw_log w' = cw_log w @ es \<and> filter is_called es = calls
     \<and> cw_tick w \<le> cw_tick w' \<and> (\<forall>e \<in> set es. leased_event lease e))"

lemma wsteps_refl: "wsteps l w w []"
  by (simp add: wsteps_def)

lemma wsteps_tick: "wsteps l w (tick w) []"
  by (simp add: wsteps_def)

lemma wsteps_trans:
  assumes "wsteps l w w1 cs" "wsteps l w1 w2 ds"
  shows "wsteps l w w2 (cs @ ds)"
proof -
  from assms obtain es fs where es: "cw_log w1 = cw_log w @ es" "filter is_called es = cs" "cw_tick w \<le> cw_tick w1"
      "\<forall>e \<in> set es. leased_event l e"
    and fs: "cw_log w2 = cw_log w1 @ fs" "filter is_called fs = ds" "cw_tick w1 \<le> cw_tick w2"
      "\<forall>e \<in> set fs. leased_event l e"
    unfolding wsteps_def by blast
  show ?thesis
    unfolding wsteps_def
    by (rule exI[of _ "es @ fs"]) (use es fs in auto)
qed

lemma sql_tick: "sql env body w = (r, w') \<Longrightarrow> cw_tick w' = Suc (cw_tick w)"
  unfolding sql_def Let_def by (auto split: prod.splits db_reply.splits)

lemma wsteps_sql:
  assumes "sql env body w = (r, w')" "\<And>now db ss a. body now db = (ss, a) \<Longrightarrow> \<forall>s \<in> set ss. leased_stmt l s"
  shows "wsteps l w w' []"
  using assms(1)
proof (rule sql_log)
  assume "cw_log w' = cw_log w"
  then show ?thesis using sql_tick[OF assms(1)] by (simp add: wsteps_def)
next
  fix now db ss a
  assume "cw_log w' = cw_log w @ [Committed now ss db]" "body now db = (ss, a)"
  then show ?thesis using sql_tick[OF assms(1)] assms(2) by (simp add: wsteps_def)
qed

lemma wsteps_read: "sql env (\<lambda>now db. ([], f now db)) w = (r, w') \<Longrightarrow> wsteps l w w' []"
  by (erule wsteps_sql) simp

lemma wsteps_exec: "exec_stmt env s w = (ok, w') \<Longrightarrow> leased_stmt l s \<Longrightarrow> wsteps l w w' []"
  by (elim exec_stmt_sql, erule wsteps_sql) auto

lemma wsteps_delete: "deleteCurrent env i w = (r, w') \<Longrightarrow> wsteps (so_lease i) w w' []"
  unfolding deleteCurrent_def by (auto split: prod.splits intro: wsteps_exec)

lemma wsteps_transition: "transition env i act mem w = (r, w') \<Longrightarrow> wsteps (so_lease i) w w' []"
  unfolding transition_def by (erule wsteps_sql) (auto simp: transition_stmt_def)

lemma wsteps_to_release: "to_release env i w = (r, w') \<Longrightarrow> wsteps (so_lease i) w w' []"
  unfolding to_release_def by (auto split: prod.splits option.splits intro: wsteps_transition)

lemma wsteps_expire: "expire_invitation env i w = (r, w') \<Longrightarrow> wsteps l w w' []"
  unfolding expire_invitation_def by (auto split: if_splits intro: wsteps_exec wsteps_refl)

lemma wsteps_defer: "deferClaimedUntil env i until w = (ok, w') \<Longrightarrow> wsteps (so_lease i) w w' []"
  unfolding deferClaimedUntil_def by (erule wsteps_exec) simp

lemma wsteps_failure: "wsteps (so_lease i) w (recordFailure env wk i w) []"
  unfolding recordFailure_def
  by (cases "exec_stmt env (failure_stmt wk (now_of env w) i) w") (auto simp: failure_stmt_def intro: wsteps_exec)

section \<open>One request per intent\<close>

text \<open>What one settlement does: no request and no rate limit, or one request for the workspace, whose rate
  limit is the result.\<close>

definition settles_once :: "cap_env \<Rightarrow> seat_row \<Rightarrow> uuid \<Rightarrow> cap_world \<Rightarrow> cap_error option \<times> cap_world \<Rightarrow> bool" where
  "settles_once env i ws w out \<longleftrightarrow> (case out of (r, w') \<Rightarrow>
     (wsteps (so_lease i) w w' [] \<and> (\<forall>e. r = Some e \<longrightarrow> \<not> IsRateLimited e))
     \<or> (\<exists>n c ans. wsteps (so_lease i) w w' [Called (ce_clock env n) c ans] \<and> cw_tick w \<le> n \<and> n \<le> cw_tick w'
          \<and> call_workspace c = ws \<and> (\<forall>e. IsRateLimited e \<longrightarrow> (r = Some e \<longleftrightarrow> ans = Inl e))))"

lemma wsteps_ask:
  assumes "ask env c w = (ans, w1)"
  shows "ans = Inl CapOther \<and> w1 = w \<or> wsteps l w w1 [Called (ce_clock env (cw_tick w)) c ans]"
  using assms unfolding ask_def now_of_def wsteps_def by (auto simp: Let_def split: if_splits)

lemma once_after_ask:
  assumes a: "ask env c w = (ans, w1)" and s: "wsteps (so_lease i) w1 w' []"
    and r: "\<And>e. IsRateLimited e \<Longrightarrow> r = Some e \<longleftrightarrow> ans = Inl e"
  shows "settles_once env i (call_workspace c) w (r, w')"
  using wsteps_ask[OF a, of "so_lease i"]
proof
  assume "ans = Inl CapOther \<and> w1 = w"
  moreover from this r have "\<not> IsRateLimited e" if "r = Some e" for e
    using that by (metis IsRateLimited.simps(5) sum.inject(1))
  ultimately have "wsteps (so_lease i) w w' []" "\<forall>e. r = Some e \<longrightarrow> \<not> IsRateLimited e"
    using s by auto
  then show ?thesis by (simp add: settles_once_def)
next
  assume k: "wsteps (so_lease i) w w1 [Called (ce_clock env (cw_tick w)) c ans]"
  have "cw_tick w \<le> cw_tick w'"
    using k s unfolding wsteps_def by (auto dest: le_trans)
  with wsteps_trans[OF k s] r show ?thesis
    unfolding settles_once_def prod.case by (intro disjI2 exI[of _ "cw_tick w"] exI[of _ c] exI[of _ ans]) simp
qed

lemma limited_not_missing: "IsRateLimited e \<Longrightarrow> \<not> IsNotFound e"
  by (cases e) auto

lemma deleteCurrent_result: "deleteCurrent env i w = (r, w') \<Longrightarrow> r = None \<or> r = Some CapOther"
  by (auto simp: deleteCurrent_def failed_if_def split: prod.splits if_splits)

lemma to_release_result: "to_release env i w = (r, w') \<Longrightarrow> r = None \<or> r = Some CapOther"
  by (auto simp: to_release_def split: prod.splits option.splits)

lemma recoverReserve_once: "settles_once env i ws w (recoverReserve env i ws token w)"
proof -
  obtain ans w1 where a: "ask env (CallGetOperation ws token) w = (ans, w1)" by fastforce
  obtain r w' where o: "recoverReserve env i ws token w = (r, w')" by fastforce
  note d = wsteps_delete deleteCurrent_result and t = wsteps_to_release to_release_result
  have "wsteps (so_lease i) w1 w' [] \<and> (\<forall>e. IsRateLimited e \<longrightarrow> (r = Some e \<longleftrightarrow> ans = Inl e))"
  proof (cases ans)
    case (Inl e)
    with o show ?thesis
      unfolding recoverReserve_def a
      by (auto split: if_splits dest: d limited_not_missing intro: wsteps_refl)
  next
    case (Inr dc)
    show ?thesis
    proof (cases "cd_managed dc \<and> cd_state dc = Some ''reserved'' \<and> so_invitation i \<noteq> None")
      case False
      with o Inr show ?thesis
        unfolding recoverReserve_def a
        by (auto split: if_splits option.splits dest: d t intro: wsteps_refl)
    next
      case True
      obtain q w2 where s: "sql env (\<lambda>_ db. ([], GetInvitation (so_invitation i) (sd_invitations db))) w1 = (q, w2)"
        by fastforce
      have k: "wsteps (so_lease i) w1 w2 []" by (rule wsteps_read[OF s])
      have fin: "wsteps (so_lease i) w1 w3 []" if "wsteps (so_lease i) w2 w3 []" for w3
        using wsteps_trans[OF k that] by simp
      from o Inr True s k show ?thesis
        unfolding recoverReserve_def a
        by (auto split: if_splits option.splits dest: d t intro: fin)
    qed
  qed
  then show ?thesis
    unfolding o using once_after_ask[OF a, of i w' r] by simp
qed

lemma recoverConsuming_once: "settles_once env i ws w (recoverConsuming env i ws token w)"
proof -
  obtain ans w1 where a: "ask env (CallGetOperation ws token) w = (ans, w1)" by fastforce
  obtain r w' where o: "recoverConsuming env i ws token w = (r, w')" by fastforce
  obtain ok2 w2 where e: "expire_invitation env i w1 = (ok2, w2)" by fastforce
  obtain q3 w3 where t: "transition env i ActionRelease None w1 = (q3, w3)" by fastforce
  obtain ok4 w4 where e': "expire_invitation env i w3 = (ok4, w4)" by fastforce
  have k2: "wsteps (so_lease i) w1 w2 []" by (rule wsteps_expire[OF e])
  have k3: "wsteps (so_lease i) w1 w3 []" by (rule wsteps_transition[OF t])
  have k4: "wsteps (so_lease i) w1 w4 []" using wsteps_trans[OF k3 wsteps_expire[OF e']] by simp
  have k5: "wsteps (so_lease i) w1 w5 [] \<and> (x = None \<or> x = Some CapOther)" if "deleteCurrent env i w2 = (x, w5)" for x w5
    using wsteps_trans[OF k2 wsteps_delete[OF that]] deleteCurrent_result[OF that] by simp
  have k6: "wsteps (so_lease i) w1 w5 [] \<and> (x = None \<or> x = Some CapOther)" if "deleteCurrent env i w1 = (x, w5)" for x w5
    using wsteps_delete[OF that] deleteCurrent_result[OF that] by simp
  have "wsteps (so_lease i) w1 w' [] \<and> (\<forall>e. IsRateLimited e \<longrightarrow> (r = Some e \<longleftrightarrow> ans = Inl e))"
  proof (cases ans)
    case (Inl x)
    with o show ?thesis
      unfolding recoverConsuming_def a
      by (auto split: if_splits dest: k6 limited_not_missing intro: wsteps_refl)
  next
    case (Inr dc)
    from o Inr k2 k3 k4 show ?thesis
      unfolding recoverConsuming_def a prod.case Inr sum.case
      by (auto simp: e t e' failed_if_def split: if_splits option.splits bool.splits dest: k5 k6 intro: wsteps_refl)
  qed
  then show ?thesis
    unfolding o using once_after_ask[OF a, of i w' r] by simp
qed

lemma settle_release_once: "settles_once env i (call_workspace c) w (settle_release env i (ask env c w))"
proof -
  obtain ans w1 where a: "ask env c w = (ans, w1)" by fastforce
  obtain r w' where o: "settle_release env i (ans, w1) = (r, w')" by fastforce
  have "wsteps (so_lease i) w1 w' [] \<and> (\<forall>e. IsRateLimited e \<longrightarrow> (r = Some e \<longleftrightarrow> ans = Inl e))"
    using o unfolding settle_release_def
    by (auto split: if_splits sum.splits dest: wsteps_delete deleteCurrent_result limited_not_missing intro: wsteps_refl)
  then show ?thesis
    unfolding a o using once_after_ask[OF a, of i w' r] by simp
qed

lemma confirm_once:
  "settles_once env i ws w (case ask env (CallConfirm ws token m) w of
      (Inl e, w1) \<Rightarrow> (Some e, w1)
    | (Inr d, w1) \<Rightarrow> if \<not> cd_allowed d then (Some CapOther, w1) else deleteCurrent env i w1)"
proof -
  obtain ans w1 where a: "ask env (CallConfirm ws token m) w = (ans, w1)" by fastforce
  obtain r w' where o: "(case (ans, w1) of
      (Inl e, w1) \<Rightarrow> (Some e, w1)
    | (Inr d, w1) \<Rightarrow> if \<not> cd_allowed d then (Some CapOther, w1) else deleteCurrent env i w1) = (r, w')" by fastforce
  have "wsteps (so_lease i) w1 w' [] \<and> (\<forall>e. IsRateLimited e \<longrightarrow> (r = Some e \<longleftrightarrow> ans = Inl e))"
    using o by (auto split: if_splits sum.splits dest: wsteps_delete deleteCurrent_result intro: wsteps_refl)
  then show ?thesis
    unfolding a o using once_after_ask[OF a, of i w' r] by simp
qed

lemma settle_once: "settles_once env i (so_workspace i) w (settle env i w)"
proof (cases "so_lease i = None")
  case True
  then show ?thesis by (simp add: settle_def settles_once_def wsteps_refl)
next
  case False
  show ?thesis
    unfolding settle_def Let_def if_not_P[OF False]
    using settle_release_once[of env i "CallRelease (so_workspace i) (so_token i)" w]
      settle_release_once[of env i "CallReleaseMember (so_workspace i) (uuidFromPG (so_member i))" w]
    by (cases "so_action i") (simp_all add: recoverReserve_once recoverConsuming_once confirm_once)
qed

end
