(* ===== verification/SeatBatch.thy ===== *)
theory SeatBatch
  imports SeatLease
begin

text \<open>
  A whole batch of the worker: it touches only rows it has claimed itself, sends at most one request per
  iteration, and keeps the rate limits Cloud reports. The workspace of an intent never changes
  (\<open>stable_env\<close>) and the clock does not run backwards (\<open>steady_clock\<close>).
\<close>

definition stable_env :: "cap_env \<Rightarrow> bool" where
  "stable_env env \<longleftrightarrow> (\<forall>n db r r'. r \<in> set (sd_outbox db) \<longrightarrow> r' \<in> set (sd_outbox (ce_rival env n db))
     \<longrightarrow> so_token r' = so_token r \<longrightarrow> so_workspace r' = so_workspace r)"

definition steady_clock :: "cap_env \<Rightarrow> bool" where
  "steady_clock env \<longleftrightarrow> (\<forall>m n. m \<le> n \<longrightarrow> ce_clock env m \<le> ce_clock env n)"

lemma demo_env_stable: "stable_env demo_seat_env"
  unfolding stable_env_def demo_seat_env_def demo_rival_def
  by (auto simp: distinct_map dest: inj_onD)

lemma demo_env_steady: "steady_clock demo_seat_env"
  by (simp add: steady_clock_def demo_seat_env_def second_def)

section \<open>Settling a claimed intent\<close>

lemma once_prefix:
  assumes "wsteps l w w1 []" "settles_once env c ws w1 out" "so_lease c = l" "so_lease i = l"
  shows "settles_once env i ws w out"
proof -
  obtain r w' where out: "out = (r, w')" by fastforce
  have le: "cw_tick w \<le> cw_tick w1" using assms(1) by (auto simp: wsteps_def)
  from assms(2)[unfolded settles_once_def out prod.case assms(3)] show ?thesis
  proof
    assume "wsteps l w1 w' [] \<and> (\<forall>e. r = Some e \<longrightarrow> \<not> IsRateLimited e)"
    then show ?thesis
      using wsteps_trans[OF assms(1)] assms(4) unfolding settles_once_def out by auto
  next
    assume "\<exists>n c ans. wsteps l w1 w' [Called (ce_clock env n) c ans] \<and> cw_tick w1 \<le> n \<and> n \<le> cw_tick w'
        \<and> call_workspace c = ws \<and> (\<forall>e. IsRateLimited e \<longrightarrow> (r = Some e \<longleftrightarrow> ans = Inl e))"
    then obtain n d ans where "wsteps l w1 w' [Called (ce_clock env n) d ans]" "cw_tick w1 \<le> n" "n \<le> cw_tick w'"
        "call_workspace d = ws" "\<forall>e. IsRateLimited e \<longrightarrow> (r = Some e \<longleftrightarrow> ans = Inl e)" by blast
    then show ?thesis
      using wsteps_trans[OF assms(1)] assms(4) le unfolding settles_once_def out prod.case
      by (intro disjI2 exI[of _ n] exI[of _ d] exI[of _ ans]) auto
  qed
qed

lemma once_nothing:
  "wsteps (so_lease i) w w' [] \<Longrightarrow> r = None \<or> r = Some CapOther \<Longrightarrow> settles_once env i ws w (r, w')"
  by (auto simp: settles_once_def)

lemma settleLimit_once:
  assumes st: "stable_env env" and r0: "r0 \<in> set (sd_outbox (cw_db w))" "so_token r0 = so_token i"
    "so_workspace r0 = so_workspace i"
  shows "settles_once env i (so_workspace i) w (settleWithWorkspaceLimit env i w)"
proof -
  let ?body = "\<lambda>(_ :: gtime) db. ([] :: seat_stmt list, GetClaimedSeatCapacityIntent (Some (so_token i)) (so_action i)
                                     (so_lease i) (sd_outbox db))"
  obtain q w1 where s: "sql env ?body w = (q, w1)" by fastforce
  have k: "wsteps (so_lease i) w w1 []" by (rule wsteps_read[OF s])
  have same: "so_lease c = so_lease i \<and> so_workspace c = so_workspace i" if q: "q = Some (Some c)" for c
  proof -
    have "GetClaimedSeatCapacityIntent (Some (so_token i)) (so_action i) (so_lease i)
        (sd_outbox (ce_rival env (cw_tick w) (cw_db w))) = Some c"
      using s q unfolding sql_def Let_def by (auto split: db_reply.splits)
    then have c: "c \<in> set (sd_outbox (ce_rival env (cw_tick w) (cw_db w)))"
        "row_leased (Some (so_token i)) (so_action i) (so_lease i) c"
      unfolding GetClaimedSeatCapacityIntent_def by (auto dest: find_Some_in)
    with st r0 show ?thesis
      unfolding stable_env_def row_leased_def row_is_def by (metis option.inject)
  qed
  consider "\<not> ce_locker env" | "ce_locker env" "\<not> ce_lock_free env (cw_tick w)"
    | "ce_locker env" "ce_lock_free env (cw_tick w)" "q = None" | "ce_locker env" "ce_lock_free env (cw_tick w)" "q = Some None"
    | c where "ce_locker env" "ce_lock_free env (cw_tick w)" "q = Some (Some c)"
    by (cases q; cases "the q") auto
  then show ?thesis
  proof cases
    case 1
    then show ?thesis by (simp add: settleWithWorkspaceLimit_def settle_once)
  next
    case 2
    then show ?thesis by (simp add: settleWithWorkspaceLimit_def once_nothing wsteps_tick)
  next
    case 3
    with s k show ?thesis by (simp add: settleWithWorkspaceLimit_def once_nothing)
  next
    case 4
    with s k show ?thesis by (simp add: settleWithWorkspaceLimit_def once_nothing)
  next
    case (5 c)
    with once_prefix[OF k settle_once[of env c w1], of i] same[OF 5(3)] s show ?thesis
      by (simp add: settleWithWorkspaceLimit_def)
  qed
qed

section \<open>One iteration\<close>

definition batch_event :: "cap_env \<Rightarrow> cap_event \<Rightarrow> bool" where
  "batch_event env e \<longleftrightarrow> (case e of
      Called t c ans \<Rightarrow> True
    | Committed t ss db \<Rightarrow>
        (\<exists>until m locked. ss = [QClaimNext until (ce_fresh env m) locked])
        \<or> (\<exists>m. \<forall>s \<in> set ss. leased_stmt (Some (ce_fresh env m)) s))"

definition bsteps :: "cap_env \<Rightarrow> cap_world \<Rightarrow> cap_world \<Rightarrow> cap_event list \<Rightarrow> bool" where
  "bsteps env w w' calls \<longleftrightarrow> (\<exists>es. cw_log w' = cw_log w @ es \<and> filter is_called es = calls
     \<and> cw_tick w \<le> cw_tick w' \<and> (\<forall>e \<in> set es. batch_event env e))"

lemma bsteps_refl: "bsteps env w w []"
  by (simp add: bsteps_def)

lemma bsteps_trans:
  assumes "bsteps env w w1 cs" "bsteps env w1 w2 ds"
  shows "bsteps env w w2 (cs @ ds)"
proof -
  from assms obtain es fs where es: "cw_log w1 = cw_log w @ es" "filter is_called es = cs" "cw_tick w \<le> cw_tick w1"
      "\<forall>e \<in> set es. batch_event env e"
    and fs: "cw_log w2 = cw_log w1 @ fs" "filter is_called fs = ds" "cw_tick w1 \<le> cw_tick w2"
      "\<forall>e \<in> set fs. batch_event env e"
    unfolding bsteps_def by blast
  show ?thesis
    unfolding bsteps_def by (rule exI[of _ "es @ fs"]) (use es fs in auto)
qed

lemma bsteps_leased:
  assumes "wsteps l w w' cs" "l = Some (ce_fresh env m)"
  shows "bsteps env w w' cs"
proof -
  have "leased_event l e \<Longrightarrow> batch_event env e" for e
    by (cases e) (use assms(2) in \<open>auto simp: batch_event_def\<close>)
  with assms(1) show ?thesis unfolding wsteps_def bsteps_def by blast
qed

lemma claim_next_facts:
  assumes "claim_next env w = (q, w1)"
  shows "bsteps env w w1 []"
    and "q = Some (Some i) \<Longrightarrow> (\<exists>r0 \<in> set (sd_outbox (cw_db w1)). so_token r0 = so_token i \<and> so_workspace r0 = so_workspace i)
      \<and> so_lease i = Some (ce_fresh env (cw_tick w))"
proof -
  let ?until = "now_of env w + defaultClaimLease" and ?lease = "ce_fresh env (cw_tick w)" and ?locked = "ce_locked env (cw_tick w)"
  note s = assms[unfolded claim_next_def Let_def]
  show "bsteps env w w1 []"
    using s
  proof (rule sql_log)
    assume "cw_log w1 = cw_log w"
    then show ?thesis using sql_tick[OF s] by (simp add: bsteps_def)
  next
    fix now db ss a
    assume "cw_log w1 = cw_log w @ [Committed now ss db]"
      and "([QClaimNext ?until ?lease ?locked], map_option (\<lambda>r. r\<lparr>so_next := ?until, so_lease := Some ?lease\<rparr>)
         (next_due now ?locked (sd_outbox db))) = (ss, a)"
    then show ?thesis using sql_tick[OF s] by (auto simp: bsteps_def batch_event_def)
  qed
  assume q: "q = Some (Some i)"
  show "(\<exists>r0 \<in> set (sd_outbox (cw_db w1)). so_token r0 = so_token i \<and> so_workspace r0 = so_workspace i)
      \<and> so_lease i = Some ?lease"
    using s
  proof (rule sql_log)
    fix now db ss a
    assume e: "([QClaimNext ?until ?lease ?locked], map_option (\<lambda>r. r\<lparr>so_next := ?until, so_lease := Some ?lease\<rparr>)
         (next_due now ?locked (sd_outbox db))) = (ss, a)" "q = None \<or> q = Some a"
      and d: "cw_db w1 = fold (seat_exec now) ss db"
    then obtain d where nd: "next_due now ?locked (sd_outbox db) = Some d"
        and i: "i = d\<lparr>so_next := ?until, so_lease := Some ?lease\<rparr>"
      using q by auto
    have "i \<in> set (sd_outbox (cw_db w1))"
      using d e(1) nd next_due_in[OF nd] i
      by (auto simp: ClaimNextDueSeatCapacityIntent_def in_update_where intro!: bexI[of _ d])
    with i show ?thesis by (intro conjI bexI[of _ i]) simp_all
  qed (simp add: q)
qed

text \<open>A request of the batch respects every deferral that was in force.\<close>

definition quiet :: "deferrals \<Rightarrow> cap_event list \<Rightarrow> bool" where
  "quiet ds cs \<longleftrightarrow> (\<forall>t c ans until. Called t c ans \<in> set cs \<longrightarrow> ds (call_workspace c) = Some until \<longrightarrow> until \<le> t)"

definition timed :: "cap_env \<Rightarrow> cap_world \<Rightarrow> cap_world \<Rightarrow> cap_event list \<Rightarrow> bool" where
  "timed env w w' cs \<longleftrightarrow> (\<forall>t c ans. Called t c ans \<in> set cs \<longrightarrow>
     (\<exists>n. t = ce_clock env n \<and> cw_tick w \<le> n \<and> n \<le> cw_tick w'))"

definition scoped_limit :: "cap_error \<Rightarrow> bool" where
  "scoped_limit e \<longleftrightarrow> IsRateLimited e \<and> RateLimitScopeOf e = RateLimitScopeWorkspace"

text \<open>The outcome of an iteration: at most one request, and what it leaves to the next one.\<close>

definition step_ok ::
  "cap_env \<Rightarrow> deferrals \<Rightarrow> cap_world \<Rightarrow> (cap_error option + deferrals) \<times> cap_world \<Rightarrow> cap_event list \<Rightarrow> bool" where
  "step_ok env ds w out cs \<longleftrightarrow> (case out of (next, w') \<Rightarrow>
     bsteps env w w' cs \<and> timed env w w' cs \<and> quiet ds cs \<and> length cs \<le> 1
     \<and> (\<forall>ds'. next = Inr ds' \<longrightarrow>
          (ds' = ds \<and> (\<forall>t c e. cs = [Called t c (Inl e)] \<longrightarrow> \<not> IsRateLimited e))
          \<or> (\<exists>t c e until. cs = [Called t c (Inl e)] \<and> scoped_limit e \<and> t + deferral_delay e \<le> until
               \<and> ds' = ds(call_workspace c \<mapsto> until))))"

lemma deferred_until_None:
  "deferred_until ds ws now = None \<Longrightarrow> ds ws = Some until \<Longrightarrow> until \<le> now"
  by (auto simp: deferred_until_def split: option.splits if_splits)

lemma settle_claimed_step:
  assumes st: "stable_env env" and ck: "steady_clock env"
    and r0: "r0 \<in> set (sd_outbox (cw_db w))" "so_token r0 = so_token i" "so_workspace r0 = so_workspace i"
    and l: "so_lease i = Some (ce_fresh env m)"
    and nd: "deferred_until ds (so_workspace i) (now_of env w) = None"
    and o: "settle_claimed env wk ds i w = out"
  shows "\<exists>cs. step_ok env ds w out cs"
proof -
  obtain r w1 where s: "settleWithWorkspaceLimit env i w = (r, w1)" by fastforce
  note once = settleLimit_once[OF st r0, unfolded s settles_once_def prod.case]
  have fail: "bsteps env w1 (recordFailure env wk i w1) []"
    by (rule bsteps_leased[OF wsteps_failure l])
  from once show ?thesis
  proof
    assume k: "wsteps (so_lease i) w w1 [] \<and> (\<forall>e. r = Some e \<longrightarrow> \<not> IsRateLimited e)"
    then have b: "bsteps env w w1 []" using bsteps_leased[OF _ l] by blast
    show ?thesis
      using o k b bsteps_trans[OF b fail] unfolding settle_claimed_def s
      by (intro exI[of _ "[]"]) (auto simp: step_ok_def timed_def quiet_def split: option.splits)
  next
    assume "\<exists>n c ans. wsteps (so_lease i) w w1 [Called (ce_clock env n) c ans] \<and> cw_tick w \<le> n \<and> n \<le> cw_tick w1
        \<and> call_workspace c = so_workspace i \<and> (\<forall>e. IsRateLimited e \<longrightarrow> (r = Some e \<longleftrightarrow> ans = Inl e))"
    then obtain n c ans where k: "wsteps (so_lease i) w w1 [Called (ce_clock env n) c ans]"
        and n: "cw_tick w \<le> n" "n \<le> cw_tick w1" and c: "call_workspace c = so_workspace i"
        and a: "\<And>e. IsRateLimited e \<Longrightarrow> r = Some e \<longleftrightarrow> ans = Inl e" by blast
    let ?cs = "[Called (ce_clock env n) c ans]"
    have b: "bsteps env w w1 ?cs" by (rule bsteps_leased[OF k l])
    have q: "quiet ds ?cs"
      using deferred_until_None[OF nd] ck n unfolding quiet_def steady_clock_def now_of_def c[symmetric]
      by (auto intro: order_trans simp: c)
    have tm: "timed env w w2 ?cs" if "cw_tick w1 \<le> cw_tick w2" for w2
      using n that by (auto simp: timed_def intro!: exI[of _ n])
    show ?thesis
    proof (cases "\<exists>e. r = Some e \<and> IsRateLimited e")
      case False
      then have "\<not> IsRateLimited e" if "ans = Inl e" for e using a that by blast
      then have fin: "step_ok env ds w (Inr ds, w2) ?cs" if "bsteps env w1 w2 []" for w2
        using bsteps_trans[OF b that] tm[of w2] q that by (auto simp: step_ok_def bsteps_def)
      from False o fin[OF bsteps_refl] fin[OF fail] show ?thesis
        unfolding settle_claimed_def s by (auto split: option.splits)
    next
      case True
      then obtain e where e: "r = Some e" "IsRateLimited e" "ans = Inl e" using a by blast
      let ?until = "now_of env w1 + deferral_delay e"
      obtain ok w2 where d: "deferClaimedUntil env i ?until w1 = (ok, w2)" by fastforce
      have b2: "bsteps env w1 w2 []" by (rule bsteps_leased[OF wsteps_defer[OF d] l])
      have base: "bsteps env w w2 ?cs \<and> timed env w w2 ?cs"
        using bsteps_trans[OF b b2] tm[of w2] b2 by (auto simp: bsteps_def)
      have le: "ce_clock env n + deferral_delay e \<le> ?until"
        using ck n unfolding steady_clock_def now_of_def by simp
      have "out = (if \<not> ok then (Inl (Some e), w2)
          else if RateLimitScopeOf e = RateLimitScopeWorkspace then (Inr (ds(so_workspace i \<mapsto> ?until)), w2)
          else (Inl None, w2))"
        using o e d unfolding settle_claimed_def s by (cases ok) (auto simp: deferRateLimited_def Let_def)
      with base q le c e show ?thesis
        by (intro exI[of _ ?cs]) (auto simp: step_ok_def scoped_limit_def intro!: exI[of _ ?until])
    qed
  qed
qed

lemma reconcile_step_ok:
  assumes "stable_env env" "steady_clock env" "reconcile_step env wk ds w = out"
  shows "\<exists>cs. step_ok env ds w out cs"
proof -
  obtain q w1 where c: "claim_next env w = (q, w1)" by fastforce
  have b: "bsteps env w w1 []" by (rule claim_next_facts(1)[OF c])
  show ?thesis
  proof (cases "\<exists>i. q = Some (Some i)")
    case False
    with assms(3) b show ?thesis
      unfolding reconcile_step_def c
      by (intro exI[of _ "[]"]) (auto simp: step_ok_def timed_def quiet_def split: option.splits)
  next
    case True
    then obtain i where i: "q = Some (Some i)" by blast
    from claim_next_facts(2)[OF c i] obtain r0 where r0: "r0 \<in> set (sd_outbox (cw_db w1))"
        "so_token r0 = so_token i" "so_workspace r0 = so_workspace i" and l: "so_lease i = Some (ce_fresh env (cw_tick w))"
      by blast
    show ?thesis
    proof (cases "deferred_until ds (so_workspace i) (now_of env w1)")
      case (Some until)
      obtain ok w2 where d: "deferClaimedUntil env i until w1 = (ok, w2)" by fastforce
      have "bsteps env w w2 []"
        using bsteps_trans[OF b bsteps_leased[OF wsteps_defer[OF d] l]] by simp
      with assms(3) i Some d show ?thesis
        unfolding reconcile_step_def c
        by (intro exI[of _ "[]"]) (auto simp: step_ok_def timed_def quiet_def split: if_splits)
    next
      case None
      then have "settle_claimed env wk ds i w1 = out"
        using assms(3) i unfolding reconcile_step_def c by simp
      from settle_claimed_step[OF assms(1,2) r0 l None this] obtain cs where s: "step_ok env ds w1 out cs" by blast
      have "timed env w w' cs" if "timed env w1 w' cs" for w'
        using that b unfolding timed_def bsteps_def by (meson le_trans)
      with s bsteps_trans[OF b] show ?thesis
        by (intro exI[of _ cs]) (auto simp: step_ok_def)
    qed
  qed
qed

section \<open>The batch\<close>

text \<open>The requests of a batch, in order, keep every limit reported before them.\<close>

fun limits_kept :: "cap_event list \<Rightarrow> bool" where
  "limits_kept [] \<longleftrightarrow> True"
| "limits_kept (Called t c (Inl e) # cs) \<longleftrightarrow> limits_kept cs
     \<and> (IsRateLimited e \<longrightarrow>
          (if RateLimitScopeOf e = RateLimitScopeWorkspace
           then \<forall>t' c' ans. Called t' c' ans \<in> set cs \<longrightarrow> call_workspace c' = call_workspace c
                  \<longrightarrow> t + deferral_delay e \<le> t'
           else cs = []))"
| "limits_kept (x # cs) \<longleftrightarrow> limits_kept cs"

lemma quiet_append: "quiet ds (cs @ cs') \<longleftrightarrow> quiet ds cs \<and> quiet ds cs'"
  unfolding quiet_def set_append Un_iff by blast

lemma deferral_delay_pos: "0 < deferral_delay e"
  by (simp add: deferral_delay_def Let_def)

lemma reconcile_loop_ok:
  assumes st: "stable_env env" and ck: "steady_clock env"
  shows "reconcile_loop env wk n ds w = (r, w') \<Longrightarrow>
    \<exists>cs. bsteps env w w' cs \<and> timed env w w' cs \<and> quiet ds cs \<and> length cs \<le> n \<and> limits_kept cs"
proof (induction n arbitrary: ds w)
  case 0
  then show ?case by (intro exI[of _ "[]"]) (simp add: bsteps_refl timed_def quiet_def)
next
  case (Suc n)
  obtain out w1 where s: "reconcile_step env wk ds w = (out, w1)" by fastforce
  from reconcile_step_ok[OF st ck s] obtain cs where c: "bsteps env w w1 cs" "timed env w w1 cs" "quiet ds cs"
      "length cs \<le> 1"
    and nxt: "\<And>ds'. out = Inr ds' \<Longrightarrow> (ds' = ds \<and> (\<forall>t c e. cs = [Called t c (Inl e)] \<longrightarrow> \<not> IsRateLimited e))
          \<or> (\<exists>t c e until. cs = [Called t c (Inl e)] \<and> scoped_limit e \<and> t + deferral_delay e \<le> until
               \<and> ds' = ds(call_workspace c \<mapsto> until))"
    by (auto simp: step_ok_def)
  have tick: "cw_tick w \<le> cw_tick w1" using c(1) by (auto simp: bsteps_def)
  show ?case
  proof (cases out)
    case (Inl stop)
    then have "w' = w1" using Suc.prems s by simp
    moreover have "limits_kept cs"
    proof (cases cs)
      case (Cons x xs)
      with c(4) have "cs = [x]" by simp
      then show ?thesis by (cases x; cases "case x of Called t c a \<Rightarrow> a | Committed t ss db \<Rightarrow> Inl CapOther") (auto split: cap_event.splits)
    qed simp
    ultimately show ?thesis using c by (intro exI[of _ cs]) simp
  next
    case (Inr ds')
    then have "reconcile_loop env wk n ds' w1 = (r, w')" using Suc.prems s by simp
    from Suc.IH[OF this] obtain cs' where c': "bsteps env w1 w' cs'" "timed env w1 w' cs'" "quiet ds' cs'"
        "length cs' \<le> n" "limits_kept cs'" by blast
    have tick': "cw_tick w1 \<le> cw_tick w'" using c'(1) by (auto simp: bsteps_def)
    have later: "t \<le> t'" if "Called t c a \<in> set cs" "Called t' c'' a' \<in> set cs'" for t c a t' c'' a'
      using c(2) c'(2) that ck unfolding timed_def steady_clock_def by (metis order_trans)
    have "timed env w w' (cs @ cs')"
      using c(2) c'(2) tick tick' unfolding timed_def by (auto intro: order_trans) (meson order_trans)+
    moreover have "quiet ds (cs @ cs') \<and> limits_kept (cs @ cs')"
      using nxt[OF Inr]
    proof (elim disjE conjE exE)
      assume d: "ds' = ds" and nl: "\<forall>t c e. cs = [Called t c (Inl e)] \<longrightarrow> \<not> IsRateLimited e"
      have "limits_kept (cs @ cs')"
      proof (cases cs)
        case Nil
        with c'(5) show ?thesis by simp
      next
        case (Cons x xs)
        with c(4) have x: "cs = [x]" by simp
        show ?thesis
        proof (cases x)
          case (Called t q a)
          with x nl c'(5) show ?thesis by (cases a) auto
        next
          case (Committed t ss db)
          with x c'(5) show ?thesis by simp
        qed
      qed
      with c(3) c'(3) d show ?thesis by (simp add: quiet_append)
    next
      fix t q e until
      assume cs: "cs = [Called t q (Inl e)]" and sc: "scoped_limit e" and u: "t + deferral_delay e \<le> until"
        and d: "ds' = ds(call_workspace q \<mapsto> until)"
      have "t + deferral_delay e \<le> t'" if "Called t' q' a' \<in> set cs'" "call_workspace q' = call_workspace q" for t' q' a'
        using c'(3) that u unfolding quiet_def d by fastforce
      with sc c'(5) have "limits_kept (cs @ cs')" by (auto simp: cs scoped_limit_def)
      moreover have "quiet ds cs'"
        unfolding quiet_def
      proof (intro allI impI)
        fix t' q' a' u'
        assume q': "Called t' q' a' \<in> set cs'" "ds (call_workspace q') = Some u'"
        show "u' \<le> t'"
        proof (cases "call_workspace q' = call_workspace q")
          case True
          with c(3) q'(2) have "u' \<le> t" unfolding quiet_def cs by auto
          with later[of t q "Inl e" t' q' a'] q'(1) cs show ?thesis by simp
        next
          case False
          with q'(2) have "ds' (call_workspace q') = Some u'" by (simp add: d)
          with c'(3) q'(1) show ?thesis unfolding quiet_def by blast
        qed
      qed
      ultimately show ?thesis using c(3) by (simp add: quiet_append)
    qed
    ultimately show ?thesis
      using bsteps_trans[OF c(1) c'(1)] c(4) c'(4) by (intro exI[of _ "cs @ cs'"]) simp
  qed
qed

lemma reconcile_log:
  assumes "stable_env env" "steady_clock env"
  obtains cs where "filter is_called (op_log env (OpReconcile batch max_attempts) db) = cs"
    "length cs \<le> nat (wk_batch (newWorker batch max_attempts))" "limits_kept cs"
    "\<forall>e \<in> set (op_log env (OpReconcile batch max_attempts) db). batch_event env e"
proof -
  let ?w = "\<lparr>cw_db = db, cw_log = [], cw_tick = 0\<rparr>" and ?wk = "newWorker batch max_attempts"
  obtain r w' where l: "reconcile_loop env ?wk (nat (wk_batch ?wk)) Map.empty ?w = (r, w')" by fastforce
  from reconcile_loop_ok[OF assms l] obtain cs where "bsteps env ?w w' cs" "length cs \<le> nat (wk_batch ?wk)" "limits_kept cs"
    by blast
  with l that show ?thesis
    unfolding op_log_def run_op.simps ReconcileOnce_def bsteps_def
    by (cases "CanRunWorker env") auto
qed

lemma limits_kept_suffix:
  "limits_kept (p @ Called t c (Inl e) # q) \<Longrightarrow> limits_kept (Called t c (Inl e) # q)"
proof (induction p)
  case (Cons x p)
  then show ?case by (cases "x # p @ Called t c (Inl e) # q" rule: limits_kept.cases) auto
qed simp

text \<open> C33: A worker batch changes no row that it has not claimed itself. A row whose lease is not one this batch
  took - another worker claimed it since, or a handler took it over and cleared the lease - is in the table
  after each of the batch's commits exactly as before, unless that commit is the claim of a due row.\<close>

theorem worker_touches_only_its_claims:
  assumes "stable_env env" "steady_clock env"
    and "op_log env (OpReconcile batch max_attempts) db = pre @ Committed t ss snap # post"
    and "outbox_ok (sd_outbox snap)" "r \<in> set (sd_outbox snap)" "\<And>n. so_lease r \<noteq> Some (ce_fresh env n)"
  shows "r \<in> set (sd_outbox (fold (seat_exec t) ss snap))
     \<or> (\<exists>until n locked. ss = [QClaimNext until (ce_fresh env n) locked] \<and> due_row t locked r)"
proof -
  from reconcile_log[OF assms(1,2), of batch max_attempts db] assms(3)
  have "batch_event env (Committed t ss snap)" by auto
  then consider until m locked where "ss = [QClaimNext until (ce_fresh env m) locked]"
    | m where "\<forall>s \<in> set ss. leased_stmt (Some (ce_fresh env m)) s"
    by (auto simp: batch_event_def)
  then show ?thesis
  proof cases
    case (1 until m locked)
    show ?thesis
    proof (cases "due_row t locked r")
      case False
      have "so_token d \<noteq> so_token r" if "next_due t locked (sd_outbox snap) = Some d" for d
        using next_due_in[OF that] False assms(4,5) seat_pk.pk_eq[of "sd_outbox snap" d r]
        unfolding outbox_ok_pk by metis
      then have "r \<in> set (ClaimNextDueSeatCapacityIntent t until (ce_fresh env m) locked (sd_outbox snap))"
        using assms(5) by (auto simp: ClaimNextDueSeatCapacityIntent_def in_update_where split: option.split intro!: bexI[of _ r])
      with 1 show ?thesis by simp
    qed (use 1 in blast)
  next
    case (2 m)
    have one: "r \<in> set (outbox_exec t dbx s (sd_outbox dbx))"
      if "r \<in> set (sd_outbox dbx)" "leased_stmt (Some (ce_fresh env m)) s" for s dbx
      by (rule leased_stmt_spares[OF that(2,1) assms(6)])
    have "r \<in> set (sd_outbox dbx) \<Longrightarrow> \<forall>s \<in> set xs. leased_stmt (Some (ce_fresh env m)) s
        \<Longrightarrow> r \<in> set (sd_outbox (fold (seat_exec t) xs dbx))" for xs dbx
      by (induction xs arbitrary: dbx) (simp_all add: one)
    with 2 assms(5) show ?thesis by blast
  qed
qed

lemma worker_touches_only_its_claims_witness:
  "demo_due 1 9 \<in> set (sd_outbox (fold (seat_exec (3 * second))
     [QDefer (Some 7) ActionRelease (Some 10) (5 * second)] (snapshot (demo_limited ! 3))))"
proof -
  have "outbox_ok (sd_outbox (snapshot (demo_limited ! 3)))" "demo_due 1 9 \<in> set (sd_outbox (snapshot (demo_limited ! 3)))"
    unfolding demo_limited_snap
    by (auto simp: outbox_ok_def unique_index_def demo_due_def share_key_none seat_checks_def)
  moreover have "so_lease (demo_due 1 9) \<noteq> Some (ce_fresh demo_seat_env n)" for n
    by (simp add: demo_due_def fresh_intent_def)
  ultimately show ?thesis
    using worker_touches_only_its_claims[OF demo_env_stable demo_env_steady demo_limited_commit, of "demo_due 1 9"]
    by auto
qed

text \<open> C23: One batch sends at most as many requests as its batch size. After Cloud limited a request for one
  workspace, no request of the rest of the batch is for that workspace before the time Cloud asked for has
  passed (a second, when it named none); after a global or unscoped limit the batch sends nothing more.\<close>

theorem rate_limits_kept:
  assumes "stable_env env" "steady_clock env" "events = op_log env (OpReconcile batch max_attempts) db"
  shows "length (filter is_called events) \<le> nat (wk_batch (newWorker batch max_attempts))
    \<and> (\<forall>pre t c e post. events = pre @ Called t c (Inl e) # post \<longrightarrow> IsRateLimited e \<longrightarrow>
         (if RateLimitScopeOf e = RateLimitScopeWorkspace
          then \<forall>t' c' ans. Called t' c' ans \<in> set post \<longrightarrow> call_workspace c' = call_workspace c \<longrightarrow> t + deferral_delay e \<le> t'
          else \<forall>t' c' ans. Called t' c' ans \<notin> set post))"
proof -
  obtain cs where l: "filter is_called events = cs"
    "length cs \<le> nat (wk_batch (newWorker batch max_attempts))" "limits_kept cs"
    using reconcile_log[OF assms(1,2), of batch max_attempts db] assms(3) by blast
  have in_calls: "Called t' c' ans \<in> set post \<Longrightarrow> Called t' c' ans \<in> set (filter is_called post)" for t' c' ans post
    by simp
  have "if RateLimitScopeOf e = RateLimitScopeWorkspace
          then \<forall>t' c' ans. Called t' c' ans \<in> set post \<longrightarrow> call_workspace c' = call_workspace c \<longrightarrow> t + deferral_delay e \<le> t'
          else \<forall>t' c' ans. Called t' c' ans \<notin> set post"
    if "events = pre @ Called t c (Inl e) # post" "IsRateLimited e" for pre t c e post
  proof -
    have "limits_kept (Called t c (Inl e) # filter is_called post)"
      using l(1,3) that(1) limits_kept_suffix by fastforce
    with that(2) in_calls[of _ _ _ post] show ?thesis by (auto simp: filter_empty_conv split: if_splits)
  qed
  with l show ?thesis by blast
qed

lemma rate_limits_kept_witness:
  "length (filter is_called demo_limited) \<le> 3
    \<and> demo_limited = take 2 demo_limited @ Called (2 * second) (CallRelease 1 7) (Inl demo_429) # drop 3 demo_limited
    \<and> Called (6 * second) (CallRelease 1 8) (Inl demo_429) \<in> set (drop 3 demo_limited)
    \<and> 2 * second + deferral_delay demo_429 \<le> 6 * second"
proof -
  note r = rate_limits_kept[OF demo_env_stable demo_env_steady demo_limited_def]
  have n: "nat (wk_batch (newWorker 3 10)) = 3" by (simp add: newWorker_def)
  have later: "Called (6 * second) (CallRelease 1 8) (Inl demo_429) \<in> set (drop 3 demo_limited)"
    using demo_limited_calls(2,3) nth_mem[of 3 "drop 3 demo_limited"] by simp
  have scope: "IsRateLimited demo_429" "RateLimitScopeOf demo_429 = RateLimitScopeWorkspace"
    by code_simp+
  show ?thesis
    using conjunct1[OF r, unfolded n] mp[OF spec[OF spec[OF spec[OF spec[OF spec[OF conjunct2[OF r]]]]]] demo_limited_calls(1)]
      scope later demo_limited_calls(1)
    by force
qed

end
