(* ===== verification/SeatFailure.thy ===== *)
theory SeatFailure
  imports SeatBatch
begin

text \<open>
  An outage of Cloud: every request of the worker fails. Each failure is charged to the intent, backed off
  exponentially up to five minutes, and the last one makes it a dead letter, which stays in the table and is not
  claimed again. \<open>run_batches\<close> is the loop of \<^verbatim>\<open>Worker.Run\<close> over a number of ticks.
\<close>

primrec run_batches :: "cap_env \<Rightarrow> seat_worker \<Rightarrow> nat \<Rightarrow> cap_world \<Rightarrow> cap_world" where
  "run_batches env wk 0 w = w"
| "run_batches env wk (Suc n) w = run_batches env wk n (snd (ReconcileOnce env wk w))"

lemma run_batches_add: "run_batches env wk (m + n) w = run_batches env wk n (run_batches env wk m w)"
  by (induction m arbitrary: w) simp_all

section \<open>The backoff\<close>

lemma backoff_loop_eq:
  "0 < b \<Longrightarrow> min (backoff_loop n b) (5 * minute) = min (b * 2 ^ n) (5 * minute)"
proof (induction n arbitrary: b)
  case (Suc n)
  show ?case
  proof (cases "b < 5 * minute")
    case True
    with Suc.IH[of "2 * b"] Suc.prems show ?thesis by (simp add: mult.assoc mult.left_commute)
  next
    case False
    moreover have "b \<le> b * 2 ^ Suc n"
      using mult_left_mono[OF one_le_power[of "2 :: int" "Suc n"], of b] Suc.prems by simp
    ultimately show ?thesis by simp
  qed
qed simp

lemma seat_backoff_eq: "seat_backoff a = min (5 * second * 2 ^ nat a) (5 * minute)"
  using backoff_loop_eq[of "5 * second" "nat a"]
  by (simp add: seat_backoff_def Let_def second_def min_def split: if_splits)

section \<open>One failed attempt\<close>

definition failed_row :: "seat_worker \<Rightarrow> gtime \<Rightarrow> seat_row \<Rightarrow> seat_row" where
  "failed_row wk at r =
     (if so_attempts r + 1 \<ge> wk_max_attempts wk
      then r\<lparr>so_attempts := so_attempts r + 1, so_dead := Some at, so_lease := None\<rparr>
      else r\<lparr>so_attempts := so_attempts r + 1, so_next := at + min (5 * second * 2 ^ nat (so_attempts r)) (5 * minute),
             so_lease := None\<rparr>)"

lemma failed_row_simps [simp]:
  "so_token (failed_row wk at r) = so_token r" "so_attempts (failed_row wk at r) = so_attempts r + 1"
  "so_workspace (failed_row wk at r) = so_workspace r"
  by (simp_all add: failed_row_def)

lemma failed_statement:
  assumes "outbox_ok t" "r \<in> set t" "so_lease r = Some l" "so_dead r = None"
  shows "outbox_exec at db (failure_stmt wk at r) t = update_where (\<lambda>x. so_token x = so_token r) (failed_row wk at) t"
proof -
  have "row_leased (Some (so_token r)) (so_action r) (so_lease r) x \<longleftrightarrow> so_token x = so_token r" if "x \<in> set t" for x
    using that assms seat_pk.pk_eq[of t x r] unfolding outbox_ok_pk by (auto simp: row_leased_def row_is_def)
  moreover have "so_dead x = None \<and> so_attempts x = so_attempts r" if "x \<in> set t" "so_token x = so_token r" for x
    using that assms(1,2,4) seat_pk.pk_eq[of t x r] unfolding outbox_ok_pk by blast
  ultimately show ?thesis
    by (auto simp: failure_stmt_def MarkClaimedSeatCapacityIntentDeadLettered_def
        MarkClaimedSeatCapacityIntentFailed_def update_where_def failed_row_def seat_backoff_eq)
qed

section \<open>One iteration of a batch while Cloud is down\<close>

definition cloud_down :: "cap_env \<Rightarrow> bool" where
  "cloud_down env \<longleftrightarrow> CanRunWorker env
     \<and> (\<forall>es c. ce_http env es c = TransportFailed) \<and> (\<forall>n db. ce_rival env n db = db)
     \<and> (\<forall>n. ce_reply env n = Replied \<and> ce_locked env n = [] \<and> ce_lock_free env n)"

definition row_open :: "seat_worker \<Rightarrow> seat_row \<Rightarrow> bool" where
  "row_open wk r \<longleftrightarrow>
     so_workspace r \<noteq> 0 \<and> 0 \<le> so_attempts r \<and> (so_dead r = None \<longrightarrow> so_attempts r < wk_max_attempts wk)"

definition open_intents :: "seat_worker \<Rightarrow> seat_row list \<Rightarrow> bool" where
  "open_intents wk t \<longleftrightarrow> outbox_ok t \<and> (\<forall>r \<in> set t. row_open wk r)"

definition row_left :: "seat_worker \<Rightarrow> seat_row \<Rightarrow> nat" where
  "row_left wk r = (if so_dead r = None then nat (wk_max_attempts wk - so_attempts r) else 0)"

definition attempts_left :: "seat_worker \<Rightarrow> seat_row list \<Rightarrow> nat" where
  "attempts_left wk t = sum_list (map (row_left wk) t)"

definition requests :: "cap_world \<Rightarrow> nat" where
  "requests w = length (filter is_called (cw_log w))"

lemma sql_down:
  "cloud_down env \<Longrightarrow> body (now_of env w) (cw_db w) = (ss, a) \<Longrightarrow> sql env body w = (Some a, (tick w)
     \<lparr>cw_db := fold (seat_exec (now_of env w)) ss (cw_db w), cw_log := cw_log w @ [Committed (now_of env w) ss (cw_db w)]\<rparr>)"
  by (simp add: sql_def cloud_down_def tick_def Let_def)

lemma ask_down:
  "cloud_down env \<Longrightarrow> call_workspace c \<noteq> 0 \<Longrightarrow> ask env c w
     = (Inl CapOther, (tick w)\<lparr>cw_log := cw_log w @ [Called (now_of env w) c (Inl CapOther)]\<rparr>)"
  by (simp add: ask_def cloud_down_def client_answer_def CanRunWorker_def Let_def)

lemma settle_down:
  assumes "cloud_down env" "so_workspace r \<noteq> 0" "so_lease r = Some l"
  shows "\<exists>c. settle env r w = (Some CapOther, (tick w)\<lparr>cw_log := cw_log w @ [Called (now_of env w) c (Inl CapOther)]\<rparr>)"
  using assms
  by (cases "so_action r") (auto simp: settle_def Let_def recoverReserve_def recoverConsuming_def settle_release_def ask_down)

lemma update_where_twice:
  "(\<And>r. P (f r) = P r) \<Longrightarrow> update_where P g (update_where P f t) = update_where P (\<lambda>r. g (f r)) t"
  by (simp add: update_where_def)

definition claimed :: "gtime \<Rightarrow> uuid \<Rightarrow> seat_row \<Rightarrow> seat_row" where
  "claimed until l r = r\<lparr>so_next := until, so_lease := Some l\<rparr>"

lemma claimed_simps [simp]:
  "so_token (claimed u l r) = so_token r" "so_attempts (claimed u l r) = so_attempts r"
  "so_workspace (claimed u l r) = so_workspace r" "so_dead (claimed u l r) = so_dead r"
  "so_lease (claimed u l r) = Some l" "so_action (claimed u l r) = so_action r"
  by (simp_all add: claimed_def)

lemma claimed_share_key [simp]: "share_key (claimed u l r) = share_key r"
  by (simp add: claimed_def)

lemma failed_share_key [simp]: "share_key (failed_row wk at r) = share_key r"
  by (simp add: failed_row_def)

lemma claimed_checks [simp]: "seat_checks (claimed u l r) = seat_checks r"
  by (simp add: claimed_def seat_checks_def)

lemma failed_checks [simp]: "seat_checks r \<Longrightarrow> seat_checks (failed_row wk at r)"
  by (simp add: failed_row_def seat_checks_def)

lemma claim_down:
  assumes d: "cloud_down env" and n: "next_due (now_of env w) [] (sd_outbox (cw_db w)) = r"
  shows "\<exists>w' u l. claim_next env w = (Some (map_option (claimed u l) r), w')
    \<and> sd_outbox (cw_db w') = (case r of None \<Rightarrow> sd_outbox (cw_db w)
        | Some d \<Rightarrow> update_where (\<lambda>x. so_token x = so_token d) (claimed u l) (sd_outbox (cw_db w)))
    \<and> requests w' = requests w \<and> cw_tick w' = Suc (cw_tick w)"
proof -
  let ?u = "now_of env w + defaultClaimLease" and ?l = "ce_fresh env (cw_tick w)"
  from d have lk: "ce_locked env (cw_tick w) = []" by (simp add: cloud_down_def)
  have c: "(\<lambda>r. r\<lparr>so_next := ?u, so_lease := Some ?l\<rparr>) = claimed ?u ?l" by (simp add: claimed_def fun_eq_iff)
  let ?w = "(tick w)\<lparr>cw_db := fold (seat_exec (now_of env w)) [QClaimNext ?u ?l []] (cw_db w),
        cw_log := cw_log w @ [Committed (now_of env w) [QClaimNext ?u ?l []] (cw_db w)]\<rparr>"
  have "claim_next env w = (Some (map_option (claimed ?u ?l) r), ?w)"
    unfolding claim_next_def Let_def lk c by (rule sql_down[OF d]) (simp add: n)
  moreover have "sd_outbox (cw_db ?w) = (case r of None \<Rightarrow> sd_outbox (cw_db w)
      | Some d \<Rightarrow> update_where (\<lambda>x. so_token x = so_token d) (claimed ?u ?l) (sd_outbox (cw_db w)))"
    by (simp add: ClaimNextDueSeatCapacityIntent_def n c split: option.split)
  ultimately show ?thesis
    by (intro exI[of _ ?w] exI[of _ ?u] exI[of _ ?l]) (simp add: requests_def)
qed

section \<open>What a failed attempt leaves\<close>

definition charged :: "seat_worker \<Rightarrow> uuid \<Rightarrow> gtime \<Rightarrow> gtime \<Rightarrow> uuid \<Rightarrow> seat_row list \<Rightarrow> seat_row list" where
  "charged wk token at until l = update_where (\<lambda>x. so_token x = token) (\<lambda>r. failed_row wk at (claimed until l r))"

lemma charged_tokens [simp]: "map so_token (charged wk token at until l t) = map so_token t"
  by (simp add: charged_def map_update_where)

lemma outbox_claimed: "outbox_ok t \<Longrightarrow> outbox_ok (update_where P (claimed until l) t)"
  by (rule outbox_update) simp_all

lemma row_open_failed:
  assumes "row_open wk r" "so_dead r = None"
  shows "row_open wk (failed_row wk at (claimed until l r))"
proof (cases "so_attempts r + 1 \<ge> wk_max_attempts wk")
  case True
  with assms show ?thesis by (simp add: row_open_def failed_row_def)
next
  case False
  with assms show ?thesis by (simp add: row_open_def failed_row_def)
qed

lemma row_left_failed:
  assumes "row_open wk r" "so_dead r = None"
  shows "row_left wk r = row_left wk (failed_row wk at (claimed until l r)) + 1"
proof (cases "so_attempts r + 1 \<ge> wk_max_attempts wk")
  case True
  then have "so_dead (failed_row wk at (claimed until l r)) = Some at" by (simp add: failed_row_def)
  moreover have "wk_max_attempts wk - so_attempts r = 1" using assms True by (simp add: row_open_def)
  ultimately show ?thesis using assms(2) by (simp add: row_left_def)
next
  case False
  then have "so_dead (failed_row wk at (claimed until l r)) = None" using assms(2) by (simp add: failed_row_def)
  with assms False show ?thesis by (simp add: row_left_def row_open_def)
qed

lemma same_token: "open_intents wk t \<Longrightarrow> d \<in> set t \<Longrightarrow> x \<in> set t \<Longrightarrow> so_token x = so_token d \<Longrightarrow> x = d"
  using seat_pk.pk_eq[of t x d] unfolding open_intents_def outbox_ok_pk by blast

lemma charged_open:
  assumes o: "open_intents wk t" and d: "d \<in> set t" "so_dead d = None"
  shows "open_intents wk (charged wk (so_token d) at until l t)"
  unfolding open_intents_def
proof (intro conjI ballI)
  show "outbox_ok (charged wk (so_token d) at until l t)"
    unfolding charged_def using o by (intro outbox_update) (simp_all add: open_intents_def)
  fix r assume "r \<in> set (charged wk (so_token d) at until l t)"
  then obtain x where x: "x \<in> set t" "r = (if so_token x = so_token d then failed_row wk at (claimed until l x) else x)"
    unfolding charged_def in_update_where by blast
  have "row_open wk x" using o x(1) by (simp add: open_intents_def)
  with x same_token[OF o d(1) x(1)] d(2) row_open_failed show "row_open wk r" by metis
qed

lemma charged_left:
  assumes o: "open_intents wk t" and d: "d \<in> set t" "so_dead d = None"
  shows "attempts_left wk t = attempts_left wk (charged wk (so_token d) at until l t) + 1"
proof -
  from d(1) obtain ps qs where t: "t = ps @ d # qs" by (meson split_list)
  from o have "so_token d \<notin> so_token ` (set ps \<union> set qs)"
    by (simp add: open_intents_def outbox_ok_def t image_Un)
  then have "update_where (\<lambda>x. so_token x = so_token d) f xs = xs" if "xs = ps \<or> xs = qs" for f xs
    using that by (intro update_where_none) (metis UnCI image_eqI)
  then have "charged wk (so_token d) at until l t = ps @ failed_row wk at (claimed until l d) # qs"
    unfolding charged_def t by (simp add: update_where_def)
  moreover have "row_open wk d" using o d(1) by (simp add: open_intents_def)
  ultimately show ?thesis
    using row_left_failed[of wk d at until l] d(2) by (simp add: attempts_left_def t)
qed

lemma row_leased_claimed:
  assumes "outbox_ok t" "c \<in> set t" "so_lease c = Some l"
  shows "GetClaimedSeatCapacityIntent (Some (so_token c)) (so_action c) (Some l) t = Some c"
proof -
  have "row_leased (Some (so_token c)) (so_action c) (Some l) x \<longleftrightarrow> x = c" if "x \<in> set t" for x
    using that assms seat_pk.pk_eq[of t x c] unfolding outbox_ok_pk by (auto simp: row_leased_def row_is_def)
  then have "find (row_leased (Some (so_token c)) (so_action c) (Some l)) t = find (\<lambda>x. x = c) t"
    by (intro find_cong) simp_all
  moreover have "find (\<lambda>x. x = c) t = Some c"
    using assms(2) by (induction t) auto
  ultimately show ?thesis by (simp add: GetClaimedSeatCapacityIntent_def)
qed

section \<open>A batch while Cloud is down\<close>

text \<open>What an iteration and a batch do to the world: every request costs one attempt, and nothing else changes
  the rows.\<close>

definition outage_step :: "seat_worker \<Rightarrow> cap_world \<Rightarrow> cap_world \<Rightarrow> bool" where
  "outage_step wk w w' \<longleftrightarrow> open_intents wk (sd_outbox (cw_db w'))
     \<and> map so_token (sd_outbox (cw_db w')) = map so_token (sd_outbox (cw_db w))
     \<and> requests w' + attempts_left wk (sd_outbox (cw_db w')) = requests w + attempts_left wk (sd_outbox (cw_db w))
     \<and> attempts_left wk (sd_outbox (cw_db w')) \<le> attempts_left wk (sd_outbox (cw_db w))
     \<and> cw_tick w \<le> cw_tick w'"

lemma outage_refl: "open_intents wk (sd_outbox (cw_db w)) \<Longrightarrow> outage_step wk w w"
  by (simp add: outage_step_def)

lemma outage_trans: "outage_step wk w w1 \<Longrightarrow> outage_step wk w1 w2 \<Longrightarrow> outage_step wk w w2"
  by (simp add: outage_step_def)

lemma step_idle:
  assumes d: "cloud_down env" and n: "next_due (now_of env w) [] (sd_outbox (cw_db w)) = None"
  shows "\<exists>w'. reconcile_step env wk Map.empty w = (Inl None, w') \<and> sd_outbox (cw_db w') = sd_outbox (cw_db w)
     \<and> requests w' = requests w \<and> cw_tick w' = Suc (cw_tick w)"
  using claim_down[OF d n] by (auto simp: reconcile_step_def)

lemma settleLimit_down:
  assumes d: "cloud_down env" and ok: "outbox_ok (sd_outbox (cw_db w))"
    and r: "r \<in> set (sd_outbox (cw_db w))" "so_workspace r \<noteq> 0" "so_lease r = Some l"
  shows "\<exists>w'. settleWithWorkspaceLimit env r w = (Some CapOther, w') \<and> cw_db w' = cw_db w
     \<and> requests w' = Suc (requests w) \<and> cw_tick w \<le> cw_tick w'"
proof (cases "ce_locker env")
  case False
  with settle_down[OF d r(2,3), of w] show ?thesis
    by (auto simp: settleWithWorkspaceLimit_def requests_def)
next
  case True
  let ?w1 = "(tick w)\<lparr>cw_db := cw_db w, cw_log := cw_log w @ [Committed (now_of env w) [] (cw_db w)]\<rparr>"
  have lf: "ce_lock_free env (cw_tick w)" using d by (simp add: cloud_down_def)
  have q: "sql env (\<lambda>_ db. ([], GetClaimedSeatCapacityIntent (Some (so_token r)) (so_action r) (so_lease r) (sd_outbox db))) w
      = (Some (Some r), ?w1)"
    using sql_down[OF d, of "\<lambda>_ db. ([], GetClaimedSeatCapacityIntent (Some (so_token r)) (so_action r) (so_lease r) (sd_outbox db))" w "[]" "Some r"]
      row_leased_claimed[OF ok r(1,3)] r(3)
    by simp
  from settle_down[OF d r(2,3), of ?w1] show ?thesis
    by (auto simp: settleWithWorkspaceLimit_def True lf q requests_def)
qed

lemma step_due:
  assumes d: "cloud_down env" and o: "open_intents wk (sd_outbox (cw_db w))"
    and n: "next_due (now_of env w) [] (sd_outbox (cw_db w)) = Some r"
  shows "\<exists>w'. reconcile_step env wk Map.empty w = (Inr Map.empty, w') \<and> outage_step wk w w'
     \<and> attempts_left wk (sd_outbox (cw_db w')) < attempts_left wk (sd_outbox (cw_db w))"
proof -
  let ?t = "sd_outbox (cw_db w)"
  have r: "r \<in> set ?t" "so_dead r = None" using next_due_in[OF n] by (auto simp: due_row_def)
  have ro: "row_open wk r" using o r(1) by (simp add: open_intents_def)
  obtain w1 u l where c: "claim_next env w = (Some (Some (claimed u l r)), w1)"
    "sd_outbox (cw_db w1) = update_where (\<lambda>x. so_token x = so_token r) (claimed u l) ?t"
    "requests w1 = requests w" "cw_tick w1 = Suc (cw_tick w)"
    using claim_down[OF d n] by auto
  let ?c = "claimed u l r"
  have ok1: "outbox_ok (sd_outbox (cw_db w1))" using o by (simp add: c(2) outbox_claimed open_intents_def)
  have in1: "?c \<in> set (sd_outbox (cw_db w1))" using r(1) by (auto simp: c(2) in_update_where)
  from settleLimit_down[OF d ok1 in1, of l] ro obtain w2 where s: "settleWithWorkspaceLimit env ?c w1 = (Some CapOther, w2)"
    "cw_db w2 = cw_db w1" "requests w2 = Suc (requests w1)" "cw_tick w1 \<le> cw_tick w2"
    by (auto simp: row_open_def)
  let ?st = "failure_stmt wk (now_of env w2) ?c"
  let ?w3 = "(tick w2)\<lparr>cw_db := seat_exec (now_of env w2) ?st (cw_db w2), cw_log := cw_log w2 @ [Committed (now_of env w2) [?st] (cw_db w2)]\<rparr>"
  have f: "recordFailure env wk ?c w2 = ?w3"
    by (simp add: recordFailure_def exec_stmt_def sql_down[OF d])
  have t3: "sd_outbox (cw_db ?w3) = charged wk (so_token r) (now_of env w2) u l ?t"
    using failed_statement[OF ok1 in1, of l "now_of env w2" "cw_db w1" wk] r(2)
    by (simp add: s(2) c(2) charged_def update_where_twice)
  have step: "reconcile_step env wk Map.empty w = (Inr Map.empty, ?w3)"
    by (simp add: reconcile_step_def c(1) deferred_until_def settle_claimed_def s(1) f)
  have "requests ?w3 = Suc (requests w)" by (simp add: requests_def) (use s(3) c(3) in \<open>simp add: requests_def\<close>)
  moreover have "cw_tick w \<le> cw_tick ?w3" using s(4) c(4) by simp
  ultimately have "outage_step wk w ?w3 \<and> attempts_left wk (sd_outbox (cw_db ?w3)) < attempts_left wk ?t"
    using charged_open[OF o r] charged_left[OF o r, of "now_of env w2" u l] unfolding outage_step_def t3 by simp
  with step show ?thesis by blast
qed

lemma loop_outage:
  assumes "cloud_down env" "open_intents wk (sd_outbox (cw_db w))"
  shows "outage_step wk w (snd (reconcile_loop env wk n Map.empty w))"
  using assms(2)
proof (induction n arbitrary: w)
  case 0
  then show ?case by (simp add: outage_refl)
next
  case (Suc n)
  show ?case
  proof (cases "next_due (now_of env w) [] (sd_outbox (cw_db w))")
    case None
    from step_idle[OF assms(1) None, of wk] Suc.prems show ?thesis
      by (auto simp: outage_step_def)
  next
    case (Some r)
    from step_due[OF assms(1) Suc.prems Some] obtain w1 where w1: "reconcile_step env wk Map.empty w = (Inr Map.empty, w1)"
      "outage_step wk w w1" by blast
    then have "open_intents wk (sd_outbox (cw_db w1))" by (simp add: outage_step_def)
    from outage_trans[OF w1(2) Suc.IH[OF this]] w1(1) show ?thesis by simp
  qed
qed

lemma batch_outage:
  assumes "cloud_down env" "open_intents wk (sd_outbox (cw_db w))"
  shows "outage_step wk w (snd (ReconcileOnce env wk w))"
  using loop_outage[OF assms] outage_refl[OF assms(2)] by (simp add: ReconcileOnce_def)

lemma batch_idle:
  assumes "cloud_down env" "0 < wk_batch wk" "next_due (now_of env w) [] (sd_outbox (cw_db w)) = None"
  shows "sd_outbox (cw_db (snd (ReconcileOnce env wk w))) = sd_outbox (cw_db w)
    \<and> cw_tick (snd (ReconcileOnce env wk w)) = Suc (cw_tick w)"
proof -
  have "CanRunWorker env" using assms(1) by (simp add: cloud_down_def)
  moreover obtain n where "nat (wk_batch wk) = Suc n" using assms(2) by (cases "nat (wk_batch wk)") auto
  ultimately show ?thesis using step_idle[OF assms(1,3), of wk] by (auto simp: ReconcileOnce_def)
qed

lemma batch_due:
  assumes d: "cloud_down env" and b: "0 < wk_batch wk" and o: "open_intents wk (sd_outbox (cw_db w))"
    and n: "next_due (now_of env w) [] (sd_outbox (cw_db w)) \<noteq> None"
  shows "attempts_left wk (sd_outbox (cw_db (snd (ReconcileOnce env wk w)))) < attempts_left wk (sd_outbox (cw_db w))"
proof -
  obtain k where k: "nat (wk_batch wk) = Suc k" using b by (cases "nat (wk_batch wk)") auto
  from n obtain r where "next_due (now_of env w) [] (sd_outbox (cw_db w)) = Some r" by blast
  from step_due[OF d o this] obtain w1 where w1: "reconcile_step env wk Map.empty w = (Inr Map.empty, w1)"
      "outage_step wk w w1" "attempts_left wk (sd_outbox (cw_db w1)) < attempts_left wk (sd_outbox (cw_db w))" by blast
  then have "open_intents wk (sd_outbox (cw_db w1))" by (simp add: outage_step_def)
  from loop_outage[OF d this, of k] w1 k d show ?thesis
    by (auto simp: ReconcileOnce_def cloud_down_def outage_step_def)
qed

section \<open>The outage ends for every intent\<close>

definition unbounded_clock :: "cap_env \<Rightarrow> bool" where
  "unbounded_clock env \<longleftrightarrow> steady_clock env \<and> (\<forall>at. \<exists>n. at \<le> ce_clock env n)"

lemma run_outage:
  "cloud_down env \<Longrightarrow> open_intents wk (sd_outbox (cw_db w)) \<Longrightarrow> outage_step wk w (run_batches env wk n w)"
proof (induction n arbitrary: w)
  case (Suc n)
  note b = batch_outage[OF Suc.prems]
  then have "open_intents wk (sd_outbox (cw_db (snd (ReconcileOnce env wk w))))" by (simp add: outage_step_def)
  from outage_trans[OF b Suc.IH[OF Suc.prems(1) this]] show ?case by simp
qed (simp add: outage_refl)

lemma earliest_due_some: "t \<noteq> [] \<Longrightarrow> earliest_due t \<noteq> None"
  by (cases t) (auto split: option.split)

lemma attempts_left_zero:
  assumes "open_intents wk t" "attempts_left wk t = 0"
  shows "filter (\<lambda>r. so_dead r = None) t = []"
proof -
  have "so_dead r \<noteq> None" if r: "r \<in> set t" for r
  proof
    assume u: "so_dead r = None"
    have "row_left wk r = 0" using assms(2) r by (simp add: attempts_left_def)
    with u r assms(1) show False by (auto simp: row_left_def open_intents_def row_open_def)
  qed
  then show ?thesis by (auto simp: filter_empty_conv)
qed

text \<open>As long as an intent is open, a batch that finds it due comes.\<close>

lemma batch_comes:
  assumes d: "cloud_down env" and b: "0 < wk_batch wk" and o: "open_intents wk (sd_outbox (cw_db w))"
    and st: "steady_clock env" and r: "r \<in> set (sd_outbox (cw_db w))" "so_dead r = None" "so_next r \<le> ce_clock env m"
  shows "\<exists>k. attempts_left wk (sd_outbox (cw_db (run_batches env wk k w))) < attempts_left wk (sd_outbox (cw_db w))"
  using o r
proof (induction "m - cw_tick w" arbitrary: w rule: less_induct)
  case less
  show ?case
  proof (cases "next_due (now_of env w) [] (sd_outbox (cw_db w))")
    case None
    from batch_idle[OF d b None] have i: "sd_outbox (cw_db (snd (ReconcileOnce env wk w))) = sd_outbox (cw_db w)"
      "cw_tick (snd (ReconcileOnce env wk w)) = Suc (cw_tick w)" by auto
    have "\<not> so_next r \<le> ce_clock env (cw_tick w)"
    proof
      assume "so_next r \<le> ce_clock env (cw_tick w)"
      then have "r \<in> set (filter (due_row (now_of env w) []) (sd_outbox (cw_db w)))"
        using less.prems(2,3) by (simp add: due_row_def now_of_def)
      then have "filter (due_row (now_of env w) []) (sd_outbox (cw_db w)) \<noteq> []" by (metis empty_iff empty_set)
      from earliest_due_some[OF this] None show False by (simp add: next_due_def)
    qed
    then have "cw_tick w < m" using less.prems(4) st by (meson linorder_not_less order_trans steady_clock_def)
    then have "m - cw_tick (snd (ReconcileOnce env wk w)) < m - cw_tick w" using i(2) by simp
    from less.hyps[OF this] less.prems i(1) obtain k where
      "attempts_left wk (sd_outbox (cw_db (run_batches env wk k (snd (ReconcileOnce env wk w))))) < attempts_left wk (sd_outbox (cw_db w))"
      by auto
    then show ?thesis by (intro exI[of _ "Suc k"]) simp
  next
    case (Some r')
    with batch_due[OF d b less.prems(1)] show ?thesis by (intro exI[of _ 1]) simp
  qed
qed


definition demo_down :: cap_env where
  "demo_down = demo_seat_env\<lparr>ce_http := \<lambda>_ _. TransportFailed, ce_rival := \<lambda>_ db. db\<rparr>"


section \<open>Answers the worker does not settle\<close>

text \<open>A confirmation that Cloud answers with an unmanaged workspace is settled for the handler, and a failed
  attempt for the worker, so a workspace that stops being managed leaves its confirmations to become dead
  letters.\<close>

lemma unmanaged_confirm_fails:
  assumes "so_action i = ActionConfirm" "so_lease i = Some l"
    and "ask env (CallConfirm (so_workspace i) (so_token i) (uuidFromPG (so_member i))) w = (Inr d, w1)"
    and "\<not> cd_managed d" "\<not> cd_allowed d"
  shows "settle env i w = (Some CapOther, w1) \<and> confirm_settled (Inr d)"
  using assms by (simp add: settle_def Let_def confirm_settled_def)

text \<open>The seconds of a \<^verbatim>\<open>Retry-After\<close> are multiplied without a check: a large value comes out negative, and the
  worker waits for a second only.\<close>

lemma retry_after_wraps:
  "retryAfterDurationAt parse_date ''9223372037'' now = - 9223372036709551616
    \<and> deferral_delay (CapHTTP \<lparr>he_status = 429, he_code = [], he_retry_after = - 9223372036709551616, he_scope = []\<rparr>) = second"
proof -
  have "TrimSpace ''9223372037'' = ''9223372037''" by code_simp
  moreover have "map digit_value ''9237'' = map Some [9, 2, 3, 7]" "digit_value (CHR ''0'') = Some 0"
    by code_simp+
  then have "Atoi ''9223372037'' = Some 9223372037"
    by (simp add: Atoi_def)
  ultimately show ?thesis by (simp add: retryAfterDurationAt_def wrap64_def second_def deferral_delay_def)
qed

end
