(* ===== verification/TermDb.thy ===== *)
theory TermDb
  imports TaskQueueSafety ReportSender
begin

text \<open>
  What a terminal report writes on the server: the task queue, the receipts of accepted reports
  (migrations 598 to 600, \<^verbatim>\<open>server/pkg/db/generated/terminal_report.sql.go\<close>), the resume pointers of chat
  sessions, comments and chat messages. Columns of the last three that no terminal report reads or
  writes are left out.

  The claim fence names one dispatch of a task: \<open>TaskClaimFence\<close> of
  \<^verbatim>\<open>server/internal/service/capability_lease.go\<close>, on 64-bit integers. \<open>NewTerminalReport\<close> parses the
  identity a daemon sends. UUIDs are parsed and printed by \<open>wire_codec\<close>; the nil UUID is 0.
\<close>

section \<open>Rows\<close>

record receipt =
  tr_report_id :: uuid
  tr_task_id :: uuid
  tr_claim_fence :: int
  tr_payload :: string
  tr_task_status :: task_status

record chat_session =
  cs_id :: uuid
  cs_agent_id :: uuid
  cs_session_id :: "string option"
  cs_runtime_id :: "uuid option"
  cs_work_dir :: "string option"

record issue_comment =
  cm_id :: uuid
  cm_issue_id :: uuid
  cm_author_type :: string
  cm_author_id :: uuid
  cm_content :: string
  cm_type :: string
  cm_parent_id :: "uuid option"
  cm_source_task_id :: "uuid option"
  cm_created_at :: gtime

record chat_message =
  ms_id :: uuid
  ms_session_id :: uuid
  ms_role :: string
  ms_content :: string
  ms_kind :: string
  ms_task_id :: "uuid option"
  ms_failure_reason :: "string option"

record termdb =
  td_queue :: taskdb
  td_receipts :: "receipt list"
  td_sessions :: "chat_session list"
  td_comments :: "issue_comment list"
  td_messages :: "chat_message list"

definition find_task :: "uuid \<Rightarrow> termdb \<Rightarrow> agent_task option" where
  "find_task i db = find (\<lambda>r. task_id r = i) (tasks (td_queue db))"

text \<open>The text of the status column, as the receipt and the acknowledgement carry it.\<close>

fun status_text :: "task_status \<Rightarrow> string" where
  "status_text Queued = ''queued''"
| "status_text Dispatched = ''dispatched''"
| "status_text Running = ''running''"
| "status_text WaitingLocalDirectory = ''waiting_local_directory''"
| "status_text WaitingCapacity = ''waiting_capacity''"
| "status_text Deferred = ''deferred''"
| "status_text Completed = ''completed''"
| "status_text Failed = ''failed''"
| "status_text Cancelled = ''cancelled''"

section \<open>The claim fence\<close>

definition MaxInt64 :: int where
  "MaxInt64 = 9223372036854775807"

definition MinInt64 :: int where
  "MinInt64 = - 9223372036854775808"

text \<open>Two's complement addition on \<^verbatim>\<open>int64\<close>.\<close>

definition wrap64 :: "int \<Rightarrow> int" where
  "wrap64 n = (n - MinInt64) mod 18446744073709551616 + MinInt64"

definition TaskClaimFence :: "agent_task \<Rightarrow> int" where
  "TaskClaimFence t =
     (case dispatched_at t of
        None \<Rightarrow> attempt t
      | Some d \<Rightarrow>
          let micros = d div 1000;
              micros = (if micros > quot MaxInt64 32 then quot MaxInt64 32 else micros);
              micros = (if micros < quot MinInt64 32 then quot MinInt64 32 else micros);
              base = wrap64 (micros * 32)
          in if 0 < attempt t \<and> base > MaxInt64 - attempt t then MaxInt64
             else wrap64 (base + attempt t))"

section \<open>The identity of a report\<close>

text \<open>\<open>wc_uuid\<close> is \<^verbatim>\<open>util.ParseUUID\<close> (\<^verbatim>\<open>pgtype.UUID.Scan\<close>), \<open>wc_uuid_text\<close> the canonical text of a UUID.
  The other fields are the JSON of the terminal callbacks: the envelope of a request body, its
  fields for each endpoint, the stored result, and the body the daemon sends for a saved report.\<close>

record complete_request =
  cq_pr_url :: string
  cq_output :: string
  cq_session_id :: string
  cq_work_dir :: string
  cq_durable_work_dir :: string
  cq_branch_name :: string
  cq_rollout_missing :: bool
  cq_retired_session_id :: string
  cq_execution :: "string list"

record fail_request =
  fq_error :: string
  fq_session_id :: string
  fq_work_dir :: string
  fq_durable_work_dir :: string
  fq_failure_reason :: string
  fq_branch_name :: string
  fq_rollout_missing :: bool
  fq_retired_session_id :: string
  fq_execution :: "string list"

record wire_codec =
  wc_uuid :: "string \<Rightarrow> uuid option"
  wc_uuid_text :: "uuid \<Rightarrow> string"
  wc_envelope :: "string \<Rightarrow> TerminalReportIdentity option option"
  wc_complete :: "string \<Rightarrow> complete_request option"
  wc_fail :: "string \<Rightarrow> fail_request option"
  wc_marshal :: "complete_request \<Rightarrow> string"
  wc_send :: "string \<Rightarrow> TerminalReportIdentity \<Rightarrow> string option"
  wc_fail_body :: "fail_request \<Rightarrow> string"

record terminal_report =
  tp_identity :: TerminalReportIdentity
  tp_id :: uuid
  tp_fence :: int

text \<open>A lower-case hexadecimal SHA-256: what \<^verbatim>\<open>hex.DecodeString\<close>, the length and the case test accept.\<close>

definition hex_digest :: "string \<Rightarrow> bool" where
  "hex_digest s \<longleftrightarrow> length s = 64 \<and> list_all (\<lambda>c. c \<in> set ''0123456789abcdef'') s"

definition NewTerminalReport :: "wire_codec \<Rightarrow> TerminalReportIdentity \<Rightarrow> terminal_report option" where
  "NewTerminalReport wc i =
     (case wc_uuid wc (ti_report_id i) of
        None \<Rightarrow> None
      | Some u \<Rightarrow>
          if u = 0 then None
          else case Atoi (ti_claim_fence i) of
            None \<Rightarrow> None
          | Some fence \<Rightarrow>
              if fence \<le> 0 \<or> Itoa (nat fence) \<noteq> ti_claim_fence i then None
              else if \<not> hex_digest (ti_payload_sha i) then None
              else Some \<lparr>tp_identity = i\<lparr>ti_report_id := wc_uuid_text wc u\<rparr>, tp_id = u, tp_fence = fence\<rparr>)"

definition report_ack :: "wire_codec \<Rightarrow> terminal_report \<Rightarrow> uuid \<Rightarrow> task_status \<Rightarrow> TerminalReportAck" where
  "report_ack wc rep i s =
     \<lparr>ak_identity = tp_identity rep, ak_task_id = wc_uuid_text wc i, ak_status = ''accepted'',
      ak_task_status = status_text s\<rparr>"

section \<open>Statements on receipts, sessions and comments\<close>

definition GetTerminalReportReceipt :: "uuid \<Rightarrow> int \<Rightarrow> termdb \<Rightarrow> receipt option" where
  "GetTerminalReportReceipt i fence db =
     find (\<lambda>r. tr_task_id r = i \<and> tr_claim_fence r = fence) (td_receipts db)"

text \<open>The two unique indexes (migrations 599 and 600) and the CHECK on the status; \<open>None\<close> is a
  violation.\<close>

definition receipt_clash :: "receipt \<Rightarrow> receipt list \<Rightarrow> bool" where
  "receipt_clash r rs =
     list_ex (\<lambda>s. tr_report_id s = tr_report_id r
        \<or> tr_task_id s = tr_task_id r \<and> tr_claim_fence s = tr_claim_fence r) rs"

definition CreateTerminalReportReceipt :: "receipt \<Rightarrow> termdb \<Rightarrow> termdb option" where
  "CreateTerminalReportReceipt r db =
     (if receipt_clash r (td_receipts db) then None
      else Some (db\<lparr>td_receipts := td_receipts db @ [r]\<rparr>))"

definition UpdateChatSessionSession ::
  "uuid \<Rightarrow> uuid \<Rightarrow> string option \<Rightarrow> string option \<Rightarrow> uuid option \<Rightarrow> termdb \<Rightarrow> termdb" where
  "UpdateChatSessionSession c ag sess wd rt db =
     db\<lparr>td_sessions := update_where (\<lambda>s. cs_id s = c \<and> cs_agent_id s = ag)
        (\<lambda>s. s\<lparr>cs_session_id := coalesce sess (cs_session_id s),
               cs_work_dir := coalesce wd (cs_work_dir s),
               cs_runtime_id := coalesce rt (cs_runtime_id s)\<rparr>) (td_sessions db)\<rparr>"

definition ClearChatSessionSessionIfMatches ::
  "uuid \<Rightarrow> uuid \<Rightarrow> string \<Rightarrow> uuid option \<Rightarrow> termdb \<Rightarrow> termdb" where
  "ClearChatSessionSessionIfMatches c ag sess rt db =
     db\<lparr>td_sessions := update_where
        (\<lambda>s. cs_id s = c \<and> cs_session_id s = Some sess \<and> rt \<noteq> None \<and> cs_runtime_id s = rt
             \<and> cs_agent_id s = ag)
        (\<lambda>s. s\<lparr>cs_session_id := None, cs_runtime_id := None\<rparr>) (td_sessions db)\<rparr>"

definition HasAgentCommentedSince :: "uuid \<Rightarrow> uuid \<Rightarrow> gtime option \<Rightarrow> termdb \<Rightarrow> bool" where
  "HasAgentCommentedSince i ag since db =
     list_ex (\<lambda>c. cm_issue_id c = i \<and> cm_author_type c = ''agent'' \<and> cm_author_id c = ag
        \<and> (case since of None \<Rightarrow> False | Some t \<Rightarrow> t \<le> cm_created_at c)) (td_comments db)"

section \<open>Texts\<close>

fun UnescapeBackslashEscapes :: "string \<Rightarrow> string" where
  "UnescapeBackslashEscapes (c # d # s) =
     (if c = CHR 0x5C then
        if d = CHR ''n'' then CHR 0x0A # UnescapeBackslashEscapes s
        else if d = CHR ''r'' then CHR 0x0D # UnescapeBackslashEscapes s
        else if d = CHR ''t'' then CHR 0x09 # UnescapeBackslashEscapes s
        else if d = CHR 0x5C then CHR 0x5C # UnescapeBackslashEscapes s
        else c # UnescapeBackslashEscapes (d # s)
      else c # UnescapeBackslashEscapes (d # s))"
| "UnescapeBackslashEscapes s = s"

definition maxSynthesizedFallbackCommentRunes :: nat where
  "maxSynthesizedFallbackCommentRunes = 8000"

definition oversizedFallbackCommentNotice :: string where
  "oversizedFallbackCommentNotice = ''This task completed, but its output was too large to post safely. The raw output was not posted. Review the task in this issue's Execution log.''"

definition truncateFallbackCommentBody :: "string \<Rightarrow> nat \<Rightarrow> string" where
  "truncateFallbackCommentBody body maxRunes =
     (if RuneCountInString body \<le> maxRunes then body else oversizedFallbackCommentNotice)"

text \<open>\<^verbatim>\<open>isTrivialDoneOutput\<close> compares the lower-case text with markers in Latin, Cyrillic and Chinese, so of
  the letters outside ASCII only those of the Russian alphabet need their case mapping. The markers and the
  runes trimmed are written as their UTF-8 bytes.\<close>

fun lower_cyrillic :: "string \<Rightarrow> string" where
  "lower_cyrillic (c # d # s) =
     (if c = CHR 0xD0 \<and> 0x90 \<le> byte_val d \<and> byte_val d \<le> 0x9F
      then c # char_of (byte_val d + 0x20) # lower_cyrillic s
      else if c = CHR 0xD0 \<and> 0xA0 \<le> byte_val d \<and> byte_val d \<le> 0xAF
      then CHR 0xD1 # char_of (byte_val d - 0x20) # lower_cyrillic s
      else c # lower_cyrillic (d # s))"
| "lower_cyrillic s = s"

definition trivialDoneMarkers :: "string list" where
  "trivialDoneMarkers =
     [''done'',
      [CHR 0xD0, CHR 0xB3, CHR 0xD0, CHR 0xBE, CHR 0xD1, CHR 0x82, CHR 0xD0, CHR 0xBE, CHR 0xD0, CHR 0xB2, CHR 0xD0, CHR 0xBE],
      [CHR 0xD0, CHR 0xB3, CHR 0xD0, CHR 0xBE, CHR 0xD1, CHR 0x82, CHR 0xD0, CHR 0xBE, CHR 0xD0, CHR 0xB2, CHR 0xD0, CHR 0xB0],
      [CHR 0xD1, CHR 0x81, CHR 0xD0, CHR 0xB4, CHR 0xD0, CHR 0xB5, CHR 0xD0, CHR 0xBB, CHR 0xD0, CHR 0xB0, CHR 0xD0, CHR 0xBD, CHR 0xD0, CHR 0xBE],
      [CHR 0xE5, CHR 0xAE, CHR 0x8C, CHR 0xE6, CHR 0x88, CHR 0x90],
      [CHR 0xE5, CHR 0xAE, CHR 0x8C, CHR 0xE4, CHR 0xBA, CHR 0x86]]"

definition done_punctuation :: "string list" where
  "done_punctuation =
     [''.'', ''!'', [CHR 0xEF, CHR 0xBC, CHR 0x81], [CHR 0xE3, CHR 0x80, CHR 0x82],
      [CHR 0xE2, CHR 0x80, CHR 0xA6], '' '']"

definition isTrivialDoneOutput :: "string \<Rightarrow> bool" where
  "isTrivialDoneOutput output =
     (let normalized = TrimSpace (lower_cyrillic (ToLower output));
          normalized = rev (trim_with (map rev done_punctuation) (rev (trim_with done_punctuation normalized)))
      in normalized \<in> set trivialDoneMarkers)"

lemma trivial_done_examples:
  "isTrivialDoneOutput '' Done!! ''" "\<not> isTrivialDoneOutput ''Done: merged''"
  "isTrivialDoneOutput ([CHR 0xD0, CHR 0x93, CHR 0xD0, CHR 0x9E, CHR 0xD0, CHR 0xA2, CHR 0xD0, CHR 0x9E, CHR 0xD0, CHR 0x92, CHR 0xD0, CHR 0x9E, CHR 0xE2, CHR 0x80, CHR 0xA6])"
  by code_simp+

text \<open>The visible part of a chat reply: \<^verbatim>\<open>splitChatQuickActions\<close> without the actions, which the caller discards.\<close>

definition chatQuickActionsFence :: string where
  "chatQuickActionsFence = ''```quick-actions'' @ [CHR 0x0A]"

fun LastIndex :: "string \<Rightarrow> string \<Rightarrow> nat option" where
  "LastIndex [] sub = (if sub = [] then Some 0 else None)"
| "LastIndex (c # s) sub =
     (case LastIndex s sub of
        Some k \<Rightarrow> Some (Suc k)
      | None \<Rightarrow> if HasPrefix (c # s) sub then Some 0 else None)"

fun unify_newlines :: "string \<Rightarrow> string" where
  "unify_newlines (c # d # s) =
     (if c = CHR 0x0D \<and> d = CHR 0x0A then CHR 0x0A # unify_newlines s else c # unify_newlines (d # s))"
| "unify_newlines s = s"

definition trim_trailing_space :: "string \<Rightarrow> string" where
  "trim_trailing_space s = rev (dropWhile (\<lambda>c. c \<in> {CHR 0x20, CHR 0x09, CHR 0x0A}) (rev s))"

definition splitChatQuickActions :: "string \<Rightarrow> string" where
  "splitChatQuickActions output =
     (let trimmed = trim_trailing_space (unify_newlines output);
          closing = CHR 0x0A # ''```'';
          withoutClose = TrimSuffix trimmed closing;
          marker = CHR 0x0A # chatQuickActionsFence
      in if \<not> HasSuffix trimmed closing then output
         else case (case LastIndex withoutClose marker of
                      Some start \<Rightarrow> Some (take start withoutClose, drop (start + length marker) withoutClose)
                    | None \<Rightarrow> if HasPrefix withoutClose chatQuickActionsFence
                              then Some ([], drop (length chatQuickActionsFence) withoutClose) else None) of
                None \<Rightarrow> output
              | Some (visible, raw) \<Rightarrow>
                  if Contains raw closing then output else trim_trailing_space visible)"

lemma split_quick_actions_examples:
  "splitChatQuickActions (''hi'' @ [CHR 0x0A] @ chatQuickActionsFence @ ''[]'' @ CHR 0x0A # ''```'') = ''hi''"
  "splitChatQuickActions (chatQuickActionsFence @ ''[]'' @ CHR 0x0A # ''```'') = []"
  "splitChatQuickActions (''see '' @ chatQuickActionsFence) = ''see '' @ chatQuickActionsFence"
  by code_simp+

section \<open>Sanitising\<close>

definition replacement_rune :: string where
  "replacement_rune = [CHR 0xEF, CHR 0xBF, CHR 0xBD]"

text \<open>\<^verbatim>\<open>strings.ToValidUTF8\<close> with U+FFFD: each run of invalid bytes becomes one replacement; the flag says
  that the byte before was invalid. A rune of width 1 above the ASCII range is an invalid byte.\<close>

function valid_from :: "bool \<Rightarrow> string \<Rightarrow> string" where
  "valid_from invalid s =
     (if s = [] then []
      else if byte_val (hd s) < 0x80 then hd s # valid_from False (tl s)
      else if rune_width s = 1 then
        (if invalid then [] else replacement_rune) @ valid_from True (tl s)
      else take (rune_width s) s @ valid_from False (drop (rune_width s) s))"
  by auto

termination
  by (relation "measure (length \<circ> snd)") (auto intro!: diff_less rune_width_pos)

declare valid_from.simps [simp del]

function ValidString :: "string \<Rightarrow> bool" where
  "ValidString s =
     (if s = [] then True
      else if byte_val (hd s) < 0x80 then ValidString (tl s)
      else rune_width s \<noteq> 1 \<and> ValidString (drop (rune_width s) s))"
  by auto

termination
  by (relation "measure length") (auto intro!: diff_less rune_width_pos)

declare ValidString.simps [simp del]

definition SanitizeTextForPostgres :: "string \<Rightarrow> string" where
  "SanitizeTextForPostgres s =
     (if CHR 0x00 \<notin> set s \<and> ValidString s then s
      else filter (\<lambda>c. c \<noteq> CHR 0x00) (valid_from False s))"

definition sanitizeTaskCompleteRequest :: "complete_request \<Rightarrow> complete_request" where
  "sanitizeTaskCompleteRequest q =
     q\<lparr>cq_pr_url := SanitizeTextForPostgres (cq_pr_url q),
       cq_output := SanitizeTextForPostgres (cq_output q),
       cq_session_id := SanitizeTextForPostgres (cq_session_id q),
       cq_work_dir := SanitizeTextForPostgres (cq_work_dir q),
       cq_durable_work_dir := SanitizeTextForPostgres (cq_durable_work_dir q),
       cq_branch_name := SanitizeTextForPostgres (cq_branch_name q),
       cq_retired_session_id := SanitizeTextForPostgres (cq_retired_session_id q),
       cq_execution := map SanitizeTextForPostgres (cq_execution q)\<rparr>"

definition sanitizeTaskFailRequest :: "fail_request \<Rightarrow> fail_request" where
  "sanitizeTaskFailRequest q =
     q\<lparr>fq_error := SanitizeTextForPostgres (fq_error q),
       fq_session_id := SanitizeTextForPostgres (fq_session_id q),
       fq_work_dir := SanitizeTextForPostgres (fq_work_dir q),
       fq_durable_work_dir := SanitizeTextForPostgres (fq_durable_work_dir q),
       fq_failure_reason := SanitizeTextForPostgres (fq_failure_reason q),
       fq_branch_name := SanitizeTextForPostgres (fq_branch_name q),
       fq_retired_session_id := SanitizeTextForPostgres (fq_retired_session_id q),
       fq_execution := map SanitizeTextForPostgres (fq_execution q)\<rparr>"

end
