(* ===== verification/TermTx.thy ===== *)
theory TermTx
  imports TermDb
begin

text \<open>
  The terminal transaction (\<^verbatim>\<open>completeTask\<close>, \<^verbatim>\<open>failTask\<close>, \<^verbatim>\<open>runTerminalTaskTx\<close> of
  \<^verbatim>\<open>server/internal/service/task.go\<close> and \<^verbatim>\<open>terminal_report.go\<close>). A transaction is a function of the
  tables to an error or to the rows it returns and the tables it leaves; an error rolls it back.

  \<open>term_env\<close> is what the statements outside the modelled tables answer, which statement the database
  fails, and what becomes of the commit. \<open>FaultNoRows\<close> is \<^verbatim>\<open>pgx.ErrNoRows\<close>, possibly wrapped.
  \<open>te_snapshot\<close> is the rows the unlocked check for a successor sees, which may be out of date. The
  row \<open>failTask\<close> reads before its transaction is the row of the table: no statement changes the columns the
  retry decision reads (\<open>retry_columns_stay\<close> in \<open>TermSafety\<close>), so an earlier read decides alike. The transaction is built on a service with a transaction starter, as the server
  has one.
\<close>

section \<open>Statements and errors\<close>

text \<open>A Go string as a nullable column: empty is NULL.\<close>

definition opt_text :: "string \<Rightarrow> string option" where
  "opt_text s = (if s = [] then None else Some s)"

datatype term_stmt =
    StPreRead | StBegin | StLockLegacyIssue | StLockChatSession | StLockTask | StGetReceipt | StLockIssue
  | StComplete | StFail | StSettle | StUpdatePointer | StClearDead | StClearRetired
  | StCountAttachments | StChannelCheck | StOpeningCheck | StListMessages | StCreateMessage | StReanchor
  | StBindAttachments | StSuccessor | StCreateRetry | StTransfer | StDiscard | StCopyDelivery
  | StReleaseKickoff | StCoordination | StNoAction | StCommented | StGetIssue | StThreadRoot
  | StCreateComment | StHook | StReceipt | StLookup

datatype db_fault = FaultNoRows | FaultOther

datatype tx_error =
    TxNoRows
  | TxCasMiss
  | TxConflict
  | TxStale
  | TxReplay agent_task task_status
  | TxOther

record chat_facts =
  cf_workspace :: bool
  cf_pending :: nat
  cf_channel :: bool
  cf_opening :: bool

record text_env =
  tx_redact :: "string \<Rightarrow> string"
  tx_output :: "string \<Rightarrow> string option"

record term_env =
  te_now :: gtime
  te_fault :: "term_stmt \<Rightarrow> db_fault option"
  te_hook :: bool
  te_coordination :: bool
  te_no_action :: bool
  te_chat :: chat_facts
  te_snapshot :: "agent_task list"
  te_owners_alive :: bool
  te_new_task :: uuid
  te_new_row :: uuid
  te_commit :: db_reply

definition res_bind :: "'e + 'a \<Rightarrow> ('a \<Rightarrow> 'e + 'b) \<Rightarrow> 'e + 'b" where
  "res_bind m f = (case m of Inl e \<Rightarrow> Inl e | Inr x \<Rightarrow> f x)"

text \<open>\<open>ext\<close>: a statement outside the modelled tables, which may find no row. \<open>sql\<close>: one on modelled
  tables, which only the connection can fail.\<close>

definition ext :: "term_env \<Rightarrow> term_stmt \<Rightarrow> tx_error + 'a \<Rightarrow> tx_error + 'a" where
  "ext te s k =
     (case te_fault te s of
        None \<Rightarrow> k
      | Some FaultNoRows \<Rightarrow> Inl TxNoRows
      | Some FaultOther \<Rightarrow> Inl TxOther)"

definition sql :: "term_env \<Rightarrow> term_stmt \<Rightarrow> tx_error + 'a \<Rightarrow> tx_error + 'a" where
  "sql te s k = (if te_fault te s = None then k else Inl TxOther)"

text \<open>A lookup whose missing row the code tolerates.\<close>

definition tolerant :: "term_env \<Rightarrow> term_stmt \<Rightarrow> tx_error + 'a \<Rightarrow> tx_error + 'a" where
  "tolerant te s k = (if te_fault te s = Some FaultOther then Inl TxOther else k)"

section \<open>Accepting a report\<close>

definition checkTerminalReport ::
  "term_env \<Rightarrow> uuid \<Rightarrow> terminal_report option \<Rightarrow> termdb \<Rightarrow> tx_error + unit" where
  "checkTerminalReport te i report db =
     (case report of
        None \<Rightarrow> Inr ()
      | Some rep \<Rightarrow> sql te StLockTask
          (case find_task i db of
             None \<Rightarrow> Inl TxNoRows
           | Some current \<Rightarrow>
               if TaskClaimFence current \<noteq> tp_fence rep then Inl TxStale
               else sql te StGetReceipt
                 (case GetTerminalReportReceipt i (tp_fence rep) db of
                    Some rc \<Rightarrow>
                      if tr_report_id rc \<noteq> tp_id rep \<or> tr_payload rc \<noteq> ti_payload_sha (tp_identity rep)
                      then Inl TxConflict
                      else Inl (TxReplay current (tr_task_status rc))
                  | None \<Rightarrow>
                      if status current \<notin> {Running, Dispatched, WaitingLocalDirectory}
                      then Inl TxConflict
                      else if issue_id current \<noteq> None then sql te StLockIssue (Inr ())
                      else Inr ())))"

text \<open>The locks taken before the check; a legacy callback waits for the issue first.\<close>

definition terminal_guard ::
  "term_env \<Rightarrow> uuid \<Rightarrow> terminal_report option \<Rightarrow> termdb \<Rightarrow> tx_error + unit" where
  "terminal_guard te i report db =
     (let rest = tolerant te StLockChatSession (checkTerminalReport te i report db)
      in if report = None then sql te StLockLegacyIssue rest else rest)"

definition terminalReportHook ::
  "term_env \<Rightarrow> terminal_report option \<Rightarrow> agent_task \<Rightarrow> termdb \<Rightarrow> tx_error + termdb" where
  "terminalReportHook te report t db =
     (let insert_receipt =
        (case report of
           None \<Rightarrow> Inr db
         | Some rep \<Rightarrow> sql te StReceipt
             (case CreateTerminalReportReceipt
                     \<lparr>tr_report_id = tp_id rep, tr_task_id = task_id t, tr_claim_fence = tp_fence rep,
                      tr_payload = ti_payload_sha (tp_identity rep), tr_task_status = status t\<rparr> db of
                None \<Rightarrow> Inl TxConflict
              | Some db' \<Rightarrow> Inr db'))
      in if te_hook te then ext te StHook insert_receipt else insert_receipt)"

section \<open>Outcome rows\<close>

definition chatNoResponseFallback :: string where
  "chatNoResponseFallback = ''The agent finished this turn without a text reply.''"

definition createAssistantChatMessage :: "term_env \<Rightarrow> chat_message \<Rightarrow> termdb \<Rightarrow> tx_error + termdb" where
  "createAssistantChatMessage te row db =
     sql te StCreateMessage (sql te StReanchor (Inr (db\<lparr>td_messages := td_messages db @ [row]\<rparr>)))"

definition assistant_row ::
  "term_env \<Rightarrow> uuid \<Rightarrow> agent_task \<Rightarrow> string \<Rightarrow> string \<Rightarrow> string option \<Rightarrow> chat_message" where
  "assistant_row te c t content kind reason =
     \<lparr>ms_id = te_new_row te, ms_session_id = c, ms_role = ''assistant'', ms_content = content,
      ms_kind = kind, ms_task_id = Some (task_id t), ms_failure_reason = reason\<rparr>"

definition writeChatCompletionOutcome ::
  "term_env \<Rightarrow> text_env \<Rightarrow> uuid \<Rightarrow> agent_task \<Rightarrow> string \<Rightarrow> termdb \<Rightarrow> tx_error + termdb" where
  "writeChatCompletionOutcome te tx c t result db =
     (let output = (case tx_output tx result of Some s \<Rightarrow> s | None \<Rightarrow> []);
          body = splitChatQuickActions (UnescapeBackslashEscapes output);
          empty = TrimSpace body = [];
          known = cf_workspace (te_chat te);
          pending = (if known then cf_pending (te_chat te) else 0);
          silent = empty \<and> pending = 0;
          bound = (\<lambda>k. if 0 < pending \<and> known then sql te StBindAttachments k else k);
          attributed = (\<lambda>k. sql te StListMessages k);
          create = (\<lambda>content kind.
            res_bind (createAssistantChatMessage te (assistant_row te c t content kind None) db)
              (\<lambda>db'. bound (Inr db')));
          write =
            (if \<not> empty then
               sql te StOpeningCheck
                 (attributed (create (tx_redact tx body)
                    (if cf_opening (te_chat te) then ''onboarding_opening'' else ''message'')))
             else if 0 < pending then attributed (create [] ''message'')
             else create chatNoResponseFallback ''no_response'');
          rest =
            (if silent then
               if chat_input_task_id t = None then Inr db
               else sql te StChannelCheck (if cf_channel (te_chat te) then Inr db else write)
             else write)
      in if known then sql te StCountAttachments rest else rest)"

definition prepareTerminalReportComment ::
  "term_env \<Rightarrow> text_env \<Rightarrow> agent_task \<Rightarrow> string \<Rightarrow> string \<Rightarrow> termdb \<Rightarrow> tx_error + termdb" where
  "prepareTerminalReportComment te tx t result errMsg db =
     (case issue_id t of
        None \<Rightarrow> Inr db
      | Some i \<Rightarrow>
          let post = (\<lambda>content kind.
            if content = [] then Inr db
            else ext te StGetIssue
              (let create = ext te StCreateComment
                     (Inr (db\<lparr>td_comments := td_comments db @
                        [\<lparr>cm_id = te_new_row te, cm_issue_id = i, cm_author_type = ''agent'',
                          cm_author_id = agent_id t, cm_content = content, cm_type = kind,
                          cm_parent_id = trigger_comment_id t, cm_source_task_id = Some (task_id t),
                          cm_created_at = te_now te\<rparr>]\<rparr>))
               in if trigger_comment_id t \<noteq> None then tolerant te StThreadRoot create else create))
          in if status t = Completed then
               sql te StNoAction (sql te StCommented
                 (if te_no_action te \<or> HasAgentCommentedSince i (agent_id t) (started_at t) db then Inr db
                  else case tx_output tx result of
                         None \<Rightarrow> Inl TxOther
                       | Some output \<Rightarrow>
                           let body = UnescapeBackslashEscapes output
                           in if trigger_comment_id t \<noteq> None \<and> isTrivialDoneOutput body then Inr db
                              else post (truncateFallbackCommentBody (tx_redact tx body)
                                           maxSynthesizedFallbackCommentRunes) ''comment''))
             else post (tx_redact tx errMsg) ''system'')"

section \<open>The completion transaction\<close>

definition write_row :: "task_update \<Rightarrow> termdb \<Rightarrow> tx_error + agent_task \<times> termdb" where
  "write_row u db =
     (case returning u (td_queue db) of
        [] \<Rightarrow> Inl TxCasMiss
      | t # _ \<Rightarrow> Inr (t, db\<lparr>td_queue := exec_update u (td_queue db)\<rparr>))"

definition settle_recoveries :: "term_env \<Rightarrow> agent_task \<Rightarrow> tx_error + 'a \<Rightarrow> tx_error + 'a" where
  "settle_recoveries te t k = (if delivered_comment_ids t = [] then k else sql te StSettle k)"

definition pin_pointer :: "term_env \<Rightarrow> run_report \<Rightarrow> agent_task \<Rightarrow> uuid \<Rightarrow> termdb \<Rightarrow> tx_error + termdb" where
  "pin_pointer te rr t c db =
     sql te StUpdatePointer
       (Inr (UpdateChatSessionSession c (agent_id t) (rr_session_id rr) (rr_work_dir rr)
               (if rr_session_id rr \<noteq> None then runtime_id t else None) db))"

definition retire_pointer :: "term_env \<Rightarrow> run_report \<Rightarrow> agent_task \<Rightarrow> uuid \<Rightarrow> termdb \<Rightarrow> tx_error + termdb" where
  "retire_pointer te rr t c db =
     (case rr_retired_session_id rr of
        None \<Rightarrow> Inr db
      | Some s \<Rightarrow> sql te StClearRetired
          (Inr (ClearChatSessionSessionIfMatches c (agent_id t) s (runtime_id t) db)))"

definition complete_body ::
  "term_env \<Rightarrow> text_env \<Rightarrow> uuid \<Rightarrow> string \<Rightarrow> run_report \<Rightarrow> terminal_report option \<Rightarrow> termdb
     \<Rightarrow> tx_error + agent_task \<times> agent_task option \<times> termdb" where
  "complete_body te tx i result rr report db =
     res_bind (terminal_guard te i report db) (\<lambda>_. sql te StComplete
       (res_bind (write_row (CompleteAgentTask (te_now te) i (Some result) rr) db) (\<lambda>(t, db1).
          settle_recoveries te t
            (res_bind
               (case chat_session_id t of
                  None \<Rightarrow> Inr db1
                | Some c \<Rightarrow>
                    res_bind (pin_pointer te rr t c db1) (\<lambda>db2.
                      res_bind (retire_pointer te rr t c db2) (\<lambda>db3.
                        writeChatCompletionOutcome te tx c t result db3)))
               (\<lambda>db4.
                  let comment = (if report = None \<and> tx_output tx result = None then Inr db4
                                 else prepareTerminalReportComment te tx t result [] db4);
                      recorded = (if te_coordination te then ext te StCoordination comment else comment)
                  in res_bind recorded (\<lambda>db5. Inr (t, None, db5)))))))"

section \<open>The failure transaction\<close>

text \<open>The retry decision made before the transaction: the ceiling and the time of the retry, or none.\<close>

definition fail_plan :: "term_env \<Rightarrow> string \<Rightarrow> uuid \<Rightarrow> termdb \<Rightarrow> (int \<times> gtime option) option" where
  "fail_plan te reason i db =
     (if \<not> retryableReasons reason then None
      else case (if te_fault te StPreRead = None then find_task i db else None) of
             None \<Rightarrow> None
           | Some p \<Rightarrow>
               if \<not> retryEligible reason p then None
               else let delay = retryDelayForAttempt reason (attempt p)
                    in Some (retryAttemptCeiling reason (max_attempts p),
                             if 0 < delay then Some (te_now te + delay) else None))"

text \<open>The insert under the admission trigger, which fires before the conflict on the pending slot is
  looked for.\<close>

definition create_retry ::
  "term_env \<Rightarrow> int \<Rightarrow> gtime option \<Rightarrow> uuid \<Rightarrow> termdb \<Rightarrow> tx_error + agent_task option \<times> termdb" where
  "create_retry te ceiling fire i db =
     (let q = td_queue db in
      case find_task i db of
        None \<Rightarrow> Inr (None, db)
      | Some p \<Rightarrow>
          if \<not> te_owners_alive te then Inr (None, db)
          else if gate_rejects (closed_gates q) (retry_row (te_new_task te) (te_now te) fire (Some ceiling) p)
                  \<or> list_ex (\<lambda>r. task_id r = te_new_task te) (tasks q)
          then Inl TxOther
          else case CreateRetryTask (te_new_task te) (te_now te) fire (Some ceiling) True i (tasks q) of
                 (None, _) \<Rightarrow> Inr (None, db)
               | (Some child, ts) \<Rightarrow> Inr (Some child, db\<lparr>td_queue := q\<lparr>tasks := ts\<rparr>\<rparr>))"

definition discardable :: "agent_task \<Rightarrow> bool" where
  "discardable c \<longleftrightarrow> status c \<in> {Queued, Deferred} \<and> issue_id c = None \<and> chat_session_id c = None
     \<and> automation_run_id c = None"

definition fail_retry ::
  "term_env \<Rightarrow> (int \<times> gtime option) option \<Rightarrow> uuid \<Rightarrow> agent_task \<Rightarrow> termdb
     \<Rightarrow> tx_error + agent_task option \<times> termdb" where
  "fail_retry te plan i t db =
     (case plan of
        None \<Rightarrow> Inr (None, db)
      | Some (ceiling, fire) \<Rightarrow>
          sql te StSuccessor
            (if hasRunnableSuccessor (te_snapshot te) t then Inr (None, db)
             else sql te StCreateRetry
               (res_bind (create_retry te ceiling fire i db) (\<lambda>(child, db').
                  case child of
                    None \<Rightarrow> Inr (None, db)
                  | Some c \<Rightarrow>
                      (case te_fault te StTransfer of
                         Some FaultNoRows \<Rightarrow>
                           sql te StDiscard (if discardable c then Inr (None, db) else Inl TxOther)
                       | Some FaultOther \<Rightarrow> Inl TxOther
                       | None \<Rightarrow> sql te StCopyDelivery (Inr (Some c, db')))))))"

definition dead_session :: "run_report \<Rightarrow> agent_task \<Rightarrow> string option" where
  "dead_session rr t = coalesce (rr_session_id rr) (session_id t)"

definition fail_pointer ::
  "term_env \<Rightarrow> string \<Rightarrow> string \<Rightarrow> run_report \<Rightarrow> agent_task \<Rightarrow> uuid \<Rightarrow> termdb \<Rightarrow> tx_error + termdb" where
  "fail_pointer te reason errMsg rr t c db =
     (let unsafe = ResumeUnsafeFailure reason errMsg in
      res_bind
        (if unsafe then
           (case dead_session rr t of
              None \<Rightarrow> Inr db
            | Some s \<Rightarrow> sql te StClearDead
                (Inr (ClearChatSessionSessionIfMatches c (agent_id t) s (runtime_id t) db)))
         else Inr db)
        (\<lambda>db1. res_bind (retire_pointer te rr t c db1) (\<lambda>db2.
           if unsafe then Inr db2 else pin_pointer te rr t c db2)))"

definition fail_outcome ::
  "term_env \<Rightarrow> text_env \<Rightarrow> string \<Rightarrow> string \<Rightarrow> agent_task \<Rightarrow> agent_task option \<Rightarrow> termdb \<Rightarrow> tx_error + termdb" where
  "fail_outcome te tx reason errMsg t child db =
     (if child \<noteq> None then Inr db
      else res_bind
        (case chat_session_id t of
           None \<Rightarrow> Inr db
         | Some c \<Rightarrow> sql te StReleaseKickoff
             (createAssistantChatMessage te
                (assistant_row te c t (tx_redact tx errMsg) ''message'' (opt_text reason)) db))
        (prepareTerminalReportComment te tx t [] errMsg))"

definition fail_body ::
  "term_env \<Rightarrow> text_env \<Rightarrow> uuid \<Rightarrow> string \<Rightarrow> string \<Rightarrow> run_report \<Rightarrow> terminal_report option \<Rightarrow> termdb
     \<Rightarrow> tx_error + agent_task \<times> agent_task option \<times> termdb" where
  "fail_body te tx i errMsg reason rr report db =
     res_bind (terminal_guard te i report db) (\<lambda>_. sql te StFail
       (res_bind (write_row (FailAgentTask (te_now te) i (Some errMsg) (opt_text reason) rr) db) (\<lambda>(t, db1).
          settle_recoveries te t
            (res_bind
               (case chat_session_id t of
                  None \<Rightarrow> Inr db1
                | Some c \<Rightarrow> fail_pointer te reason errMsg rr t c db1)
               (\<lambda>db2. res_bind (fail_retry te (fail_plan te reason i db) i t db2) (\<lambda>(child, db3).
                  res_bind (fail_outcome te tx reason errMsg t child db3) (\<lambda>db4.
                    Inr (t, child, db4))))))))"

section \<open>Running it\<close>

definition runTerminalTaskTx ::
  "term_env \<Rightarrow> terminal_report option \<Rightarrow> (termdb \<Rightarrow> tx_error + agent_task \<times> agent_task option \<times> termdb)
     \<Rightarrow> termdb \<Rightarrow> (tx_error + agent_task \<times> agent_task option) \<times> termdb" where
  "runTerminalTaskTx te report body db =
     (case sql te StBegin (res_bind (body db) (\<lambda>(t, child, db1).
             res_bind (terminalReportHook te report t db1) (\<lambda>db2. Inr (t, child, db2)))) of
        Inl e \<Rightarrow> (Inl e, db)
      | Inr (t, child, db2) \<Rightarrow>
          (case te_commit te of
             Replied \<Rightarrow> (Inr (t, child), db2)
           | Refused \<Rightarrow> (Inl TxOther, db)
           | ReplyLost \<Rightarrow> (Inl TxOther, db2)))"

datatype svc_error = ErrTerminalReportConflict | ErrTerminalReportStaleClaim | ErrTerminalTask

text \<open>What the two service calls make of the transaction: the acknowledged status on acceptance and
  on replay, idempotent success for a legacy callback that lost the status race.\<close>

definition svc_error_of :: "terminal_report option \<Rightarrow> tx_error \<Rightarrow> svc_error" where
  "svc_error_of report e =
     (if report \<noteq> None \<and> e \<in> {TxNoRows, TxCasMiss} then ErrTerminalReportConflict
      else if e = TxConflict then ErrTerminalReportConflict
      else if e = TxStale then ErrTerminalReportStaleClaim
      else ErrTerminalTask)"

definition terminal_result ::
  "term_env \<Rightarrow> uuid \<Rightarrow> terminal_report option \<Rightarrow> (tx_error + agent_task \<times> agent_task option) \<times> termdb
     \<Rightarrow> (svc_error + agent_task \<times> task_status) \<times> termdb" where
  "terminal_result te i report out =
     (case out of (res, db) \<Rightarrow>
       (case res of
          Inr (t, _) \<Rightarrow> Inr (t, status t)
        | Inl (TxReplay t s) \<Rightarrow> Inr (t, s)
        | Inl e \<Rightarrow>
            (case (if te_fault te StLookup = None then find_task i db else None) of
               Some t \<Rightarrow>
                 if report = None \<and> e = TxCasMiss \<and> task_terminal t then Inr (t, status t)
                 else Inl (svc_error_of report e)
             | None \<Rightarrow> Inl (svc_error_of report e)), db))"

definition completeTask ::
  "term_env \<Rightarrow> text_env \<Rightarrow> uuid \<Rightarrow> string \<Rightarrow> run_report \<Rightarrow> terminal_report option \<Rightarrow> termdb
     \<Rightarrow> (svc_error + agent_task \<times> task_status) \<times> termdb" where
  "completeTask te tx i result rr report db =
     terminal_result te i report (runTerminalTaskTx te report (complete_body te tx i result rr report) db)"

definition failTask ::
  "term_env \<Rightarrow> text_env \<Rightarrow> uuid \<Rightarrow> string \<Rightarrow> string \<Rightarrow> run_report \<Rightarrow> terminal_report option \<Rightarrow> termdb
     \<Rightarrow> (svc_error + agent_task \<times> task_status) \<times> termdb" where
  "failTask te tx i errMsg reason rr report db =
     (let errMsg = SanitizeTextForPostgres errMsg;
          reason = (if reason = [] then Classify errMsg else reason);
          reason = NormalizeDaemonReason reason errMsg
      in terminal_result te i report
           (runTerminalTaskTx te report (fail_body te tx i errMsg reason rr report) db))"

end
