(* ===== verification/TermHandler.thy ===== *)
theory TermHandler
  imports TermTx
begin

text \<open>
  The terminal callbacks end to end: the handlers of \<^verbatim>\<open>server/internal/handler/daemon.go\<close> and
  \<^verbatim>\<open>terminal_report.go\<close>, the daemon's transport and its handler of rejected reports
  (\<^verbatim>\<open>server/internal/daemon/terminal_report.go\<close>, \<^verbatim>\<open>client.go\<close>), and the recovery of orphans that spares
  the claims whose result is saved (\<^verbatim>\<open>task_lifecycle.go\<close>, \<^verbatim>\<open>task.go\<close>).

  A request carries its text to the server or not, and the reply may be lost (\<open>he_link\<close>); other
  sessions may change the tables before it is handled (\<open>he_rival\<close>). An error reply is its code and
  the JSON of its message. What the handlers do after the commit (events, tokens, wake-ups) touches none of
  the modelled tables.
\<close>

section \<open>Requests and replies\<close>

datatype http_reply =
    HttpAck TerminalReportAck
  | HttpTask agent_task
  | HttpError nat string

record handler_env =
  he_rival :: "termdb \<Rightarrow> termdb"
  he_link :: db_reply
  he_load_ok :: bool
  he_workspace :: bool
  he_denied :: "(nat \<times> string) option"
  he_tx :: term_env

definition error_reply :: "nat \<Rightarrow> string \<Rightarrow> http_reply" where
  "error_reply code msg = HttpError code (''{\"error\":\"'' @ msg @ ''\"}'')"

definition requireDaemonTaskAccess ::
  "wire_codec \<Rightarrow> handler_env \<Rightarrow> string \<Rightarrow> termdb \<Rightarrow> http_reply + uuid" where
  "requireDaemonTaskAccess wc he url db =
     (case wc_uuid wc url of
        None \<Rightarrow> Inl (error_reply 400 ''invalid task_id'')
      | Some i \<Rightarrow>
          if \<not> he_load_ok he then Inl (error_reply 500 ''failed to load task'')
          else if find_task i db = None then Inl (error_reply 404 ''task not found'')
          else if \<not> he_workspace he then Inl (error_reply 404 ''task not found'')
          else case he_denied he of
                 Some (code, msg) \<Rightarrow> Inl (error_reply code msg)
               | None \<Rightarrow> Inr i)"

definition decodeTerminalReportRequest ::
  "report_codec \<Rightarrow> wire_codec \<Rightarrow> string \<Rightarrow> (string \<Rightarrow> 'q option) \<Rightarrow> string
     \<Rightarrow> ('q \<times> terminal_report option) option" where
  "decodeTerminalReportRequest co wc kind decode raw =
     (case decode raw of
        None \<Rightarrow> None
      | Some q \<Rightarrow>
          (case wc_envelope wc raw of
             None \<Rightarrow> None
           | Some None \<Rightarrow> Some (q, None)
           | Some (Some identity) \<Rightarrow>
               (case NewTerminalReport wc identity of
                  None \<Rightarrow> None
                | Some rep \<Rightarrow>
                    (case TerminalReportDigest co kind raw of
                       None \<Rightarrow> None
                     | Some digest \<Rightarrow>
                         if digest \<noteq> ti_payload_sha (tp_identity rep) then None
                         else Some (q, Some rep)))))"

definition terminal_reply ::
  "wire_codec \<Rightarrow> terminal_report option \<Rightarrow> uuid \<Rightarrow> svc_error + agent_task \<times> task_status \<Rightarrow> http_reply" where
  "terminal_reply wc report i res =
     (case res of
        Inl ErrTerminalReportConflict \<Rightarrow>
          error_reply 409 ''terminal report conflicts with accepted result''
      | Inl ErrTerminalReportStaleClaim \<Rightarrow>
          error_reply 409 ''terminal report claim is no longer current''
      | Inl ErrTerminalTask \<Rightarrow> error_reply 500 ''terminal task failed''
      | Inr (t, s) \<Rightarrow>
          (case report of Some rep \<Rightarrow> HttpAck (report_ack wc rep i s) | None \<Rightarrow> HttpTask t))"

section \<open>The handlers\<close>

definition complete_fields :: "complete_request \<Rightarrow> run_report" where
  "complete_fields q =
     \<lparr>rr_session_id = opt_text (cq_session_id q), rr_work_dir = opt_text (cq_work_dir q),
      rr_durable_work_dir = opt_text (cq_durable_work_dir q), rr_branch_name = opt_text (cq_branch_name q),
      rr_retired_session_id = opt_text (cq_retired_session_id q),
      rr_session_rollout_missing = cq_rollout_missing q\<rparr>"

definition fail_fields :: "fail_request \<Rightarrow> run_report" where
  "fail_fields q =
     \<lparr>rr_session_id = opt_text (fq_session_id q), rr_work_dir = opt_text (fq_work_dir q),
      rr_durable_work_dir = opt_text (fq_durable_work_dir q), rr_branch_name = opt_text (fq_branch_name q),
      rr_retired_session_id = opt_text (fq_retired_session_id q),
      rr_session_rollout_missing = fq_rollout_missing q\<rparr>"

definition handler_failTask ::
  "wire_codec \<Rightarrow> text_env \<Rightarrow> handler_env \<Rightarrow> uuid \<Rightarrow> fail_request \<Rightarrow> terminal_report option \<Rightarrow> termdb
     \<Rightarrow> http_reply \<times> termdb" where
  "handler_failTask wc tx he i q report db =
     (let (res, db') = failTask (he_tx he) tx i (fq_error q) (fq_failure_reason q) (fail_fields q) report db
      in (terminal_reply wc report i res, db'))"

definition reroute_request :: "complete_request \<Rightarrow> fail_request" where
  "reroute_request q =
     \<lparr>fq_error = cq_output q, fq_session_id = cq_session_id q, fq_work_dir = cq_work_dir q,
      fq_durable_work_dir = cq_durable_work_dir q, fq_failure_reason = ReasonAgentContextOverflow,
      fq_branch_name = cq_branch_name q, fq_rollout_missing = cq_rollout_missing q,
      fq_retired_session_id = cq_retired_session_id q, fq_execution = cq_execution q\<rparr>"

definition CompleteTask ::
  "report_codec \<Rightarrow> wire_codec \<Rightarrow> text_env \<Rightarrow> handler_env \<Rightarrow> string \<Rightarrow> string \<Rightarrow> termdb
     \<Rightarrow> http_reply \<times> termdb" where
  "CompleteTask co wc tx he url raw db =
     (case requireDaemonTaskAccess wc he url db of
        Inl e \<Rightarrow> (e, db)
      | Inr i \<Rightarrow>
          (case decodeTerminalReportRequest co wc ''complete'' (wc_complete wc) raw of
             None \<Rightarrow> (error_reply 400 ''invalid request body'', db)
           | Some (q, report) \<Rightarrow>
               let q = sanitizeTaskCompleteRequest q in
               if ContextExhaustedCompletion (cq_output q)
               then handler_failTask wc tx he i (reroute_request q) report db
               else let (res, db') = completeTask (he_tx he) tx i (wc_marshal wc q) (complete_fields q) report db
                    in (terminal_reply wc report i res, db')))"

definition FailTask ::
  "report_codec \<Rightarrow> wire_codec \<Rightarrow> text_env \<Rightarrow> handler_env \<Rightarrow> string \<Rightarrow> string \<Rightarrow> termdb
     \<Rightarrow> http_reply \<times> termdb" where
  "FailTask co wc tx he url raw db =
     (case requireDaemonTaskAccess wc he url db of
        Inl e \<Rightarrow> (e, db)
      | Inr i \<Rightarrow>
          (case decodeTerminalReportRequest co wc ''fail'' (wc_fail wc) raw of
             None \<Rightarrow> (error_reply 400 ''invalid request body'', db)
           | Some (q, report) \<Rightarrow>
               handler_failTask wc tx he i (sanitizeTaskFailRequest q) report db))"

section \<open>The daemon's transport\<close>

text \<open>One HTTP request: rivals act, the request is handled unless it is lost on its way, the reply
  arrives unless it is lost on its way back.\<close>

definition post_request ::
  "handler_env \<Rightarrow> (termdb \<Rightarrow> http_reply \<times> termdb) \<Rightarrow> termdb \<Rightarrow> http_reply option \<times> termdb" where
  "post_request he handle db =
     (let db = he_rival he db in
      case he_link he of
        Refused \<Rightarrow> (None, db)
      | Replied \<Rightarrow> (let (reply, db') = handle db in (Some reply, db'))
      | ReplyLost \<Rightarrow> (None, snd (handle db)))"

definition isTaskNotFoundError :: "nat \<Rightarrow> string \<Rightarrow> bool" where
  "isTaskNotFoundError code body \<longleftrightarrow> code = 404 \<and> Contains (ToLower body) ''task not found''"

definition no_ack :: TerminalReportAck where
  "no_ack = \<lparr>ak_identity = \<lparr>ti_report_id = [], ti_claim_fence = [], ti_payload_sha = []\<rparr>,
     ak_task_id = [], ak_status = [], ak_task_status = []\<rparr>"

definition send_result_of :: "http_reply option \<Rightarrow> send_result" where
  "send_result_of reply =
     (case reply of
        None \<Rightarrow> SendFailed
      | Some (HttpAck ack) \<Rightarrow> SendAck ack
      | Some (HttpTask _) \<Rightarrow> SendAck no_ack
      | Some (HttpError code body) \<Rightarrow>
          if code = 409 \<or> code = 400 \<or> isTaskNotFoundError code body then SendPermanent else SendFailed)"

definition callback ::
  "report_codec \<Rightarrow> wire_codec \<Rightarrow> text_env \<Rightarrow> handler_env \<Rightarrow> string \<Rightarrow> string \<Rightarrow> string \<Rightarrow> termdb
     \<Rightarrow> http_reply \<times> termdb" where
  "callback co wc tx he kind url raw db =
     (if kind = ''complete'' then CompleteTask co wc tx he url raw db
      else if kind = ''fail'' then FailTask co wc tx he url raw db
      else (HttpError 404 ''404 page not found'', db))"

definition SendTerminalReport ::
  "report_codec \<Rightarrow> wire_codec \<Rightarrow> text_env \<Rightarrow> handler_env \<Rightarrow> Report \<Rightarrow> termdb
     \<Rightarrow> http_reply option \<times> send_result \<times> termdb" where
  "SendTerminalReport co wc tx he r db =
     (case wc_send wc (rp_body r) (rp_identity r) of
        None \<Rightarrow> (None, SendFailed, db)
      | Some raw \<Rightarrow>
          let (reply, db') = post_request he (callback co wc tx he (rp_kind r) (rp_task_id r) raw) db
          in (reply, send_result_of reply, db'))"

definition isTransientError :: "http_reply option \<Rightarrow> bool" where
  "isTransientError reply =
     (case reply of
        Some (HttpError code _) \<Rightarrow> 500 \<le> code \<or> code = 408 \<or> code = 429
      | Some _ \<Rightarrow> False
      | None \<Rightarrow> True)"

text \<open>\<^verbatim>\<open>postJSONWithRetry\<close> with the schedule of terminal callbacks: one request per environment given, until
  one is answered or refused for good.\<close>

fun postJSONWithRetry ::
  "(handler_env \<Rightarrow> termdb \<Rightarrow> http_reply \<times> termdb) \<Rightarrow> handler_env list \<Rightarrow> termdb \<Rightarrow> bool \<times> termdb" where
  "postJSONWithRetry handle [] db = (False, db)"
| "postJSONWithRetry handle (he # hes) db =
     (let (reply, db') = post_request he (handle he) db in
      case reply of
        Some (HttpError code body) \<Rightarrow>
          if isTransientError reply then postJSONWithRetry handle hes db' else (False, db')
      | Some _ \<Rightarrow> (True, db')
      | None \<Rightarrow> postJSONWithRetry handle hes db')"

definition defaultTerminalRetryAttempts :: nat where
  "defaultTerminalRetryAttempts = length [4, 8, 16, 32, 64 :: int] + 1"

section \<open>Rejected reports\<close>

definition rejection_text :: "Report \<Rightarrow> http_reply option \<Rightarrow> string" where
  "rejection_text r reply =
     (case reply of
        Some (HttpError code body) \<Rightarrow>
          ''POST /api/daemon/tasks/'' @ rp_task_id r @ ''/'' @ rp_kind r @ '' returned '' @ Itoa code
            @ '': '' @ body
      | _ \<Rightarrow> [])"

definition fallback_failure :: "string \<Rightarrow> complete_request \<Rightarrow> fail_request" where
  "fallback_failure rejection q =
     (let message = ''complete task report rejected by server: '' @ rejection in
      \<lparr>fq_error = message, fq_session_id = cq_session_id q, fq_work_dir = cq_work_dir q,
       fq_durable_work_dir = cq_durable_work_dir q, fq_failure_reason = Classify message,
       fq_branch_name = cq_branch_name q, fq_rollout_missing = cq_rollout_missing q,
       fq_retired_session_id = cq_retired_session_id q, fq_execution = cq_execution q\<rparr>)"

text \<open>Whether the rejection was settled, whether claims are blocked from now on, and the tables. The
  saved body decodes as the fields of a completion.\<close>

definition handlePermanentTerminalReport ::
  "report_codec \<Rightarrow> wire_codec \<Rightarrow> text_env \<Rightarrow> handler_env list \<Rightarrow> Report \<Rightarrow> http_reply option \<Rightarrow> termdb
     \<Rightarrow> bool \<times> bool \<times> termdb" where
  "handlePermanentTerminalReport co wc tx hes r reply db =
     (case wc_complete wc (rp_body r) of
        None \<Rightarrow> (False, True, db)
      | Some q \<Rightarrow>
          if rp_kind r \<noteq> ''complete'' then (False, True, db)
          else
            let body = wc_fail_body wc (fallback_failure (rejection_text r reply) q);
                (ok, db') = postJSONWithRetry (\<lambda>he. FailTask co wc tx he (rp_task_id r) body)
                              (take defaultTerminalRetryAttempts hes) db
            in (ok, \<not> ok, db'))"

section \<open>Recovering orphans\<close>

definition parse_claim :: "wire_codec \<Rightarrow> string \<times> string \<Rightarrow> (uuid \<times> int) option" where
  "parse_claim wc p =
     (case wc_uuid wc (fst p) of
        None \<Rightarrow> None
      | Some i \<Rightarrow>
          (case Atoi (snd p) of
             None \<Rightarrow> None
           | Some fence \<Rightarrow>
               if fence \<le> 0 \<or> Itoa (nat fence) \<noteq> snd p then None else Some (i, fence)))"

definition LockPendingTerminalReportTasksForRuntime :: "uuid \<Rightarrow> uuid list \<Rightarrow> taskdb \<Rightarrow> agent_task list" where
  "LockPendingTerminalReportTasksForRuntime rt ids q =
     filter (\<lambda>t. runtime_id t = Some rt \<and> task_id t \<in> set ids) (tasks q)"

definition preserved_ids :: "uuid \<Rightarrow> (uuid \<times> int) list \<Rightarrow> taskdb \<Rightarrow> uuid list" where
  "preserved_ids rt pending q =
     map task_id (filter (\<lambda>t. (task_id t, TaskClaimFence t) \<in> set pending)
        (LockPendingTerminalReportTasksForRuntime rt (map fst pending) q))"

text \<open>The handler behind the check that the daemon owns the runtime and the decoding of the body; the
  retries of the failed tasks are transactions of their own (\<open>MaybeRetryFailedTask\<close>).\<close>

definition RecoverOrphanedTasks ::
  "wire_codec \<Rightarrow> gtime \<Rightarrow> (term_stmt \<Rightarrow> db_fault option) \<Rightarrow> db_reply \<Rightarrow> uuid \<Rightarrow> (string \<times> string) list \<Rightarrow> termdb
     \<Rightarrow> (nat + agent_task list) \<times> termdb" where
  "RecoverOrphanedTasks wc now faults commit rt req db =
     (let claims = map (parse_claim wc) req in
      if None \<in> set claims then (Inl 400, db)
      else
        let pending = map the claims;
            u = RecoverOrphanedTasksForRuntime now rt (preserved_ids rt pending (td_queue db));
            rows = returning u (td_queue db);
            db' = db\<lparr>td_queue := exec_update u (td_queue db)\<rparr>;
            failing = (\<lambda>s. faults s \<noteq> None)
        in if failing StBegin \<or> pending \<noteq> [] \<and> failing StLockTask \<or> failing StFail
              \<or> list_ex (\<lambda>t. delivered_comment_ids t \<noteq> []) rows \<and> failing StSettle
           then (Inl 500, db)
           else case commit of
                  Replied \<Rightarrow> (Inr rows, db')
                | Refused \<Rightarrow> (Inl 500, db)
                | ReplyLost \<Rightarrow> (Inl 500, db'))"

definition recover_request :: "Report list \<Rightarrow> (string \<times> string) list" where
  "recover_request rs = map (\<lambda>r. (rp_task_id r, ti_claim_fence (rp_identity r))) rs"

end
