(* ===== verification/TermSafety.thy ===== *)
theory TermSafety
  imports TermHandler
begin

text \<open>
  What a terminal transaction does to the tables. A committed completion is the queue's \<open>SComplete\<close>
  statement, a committed failure its \<open>SFail\<close> followed, when a retry was made, by the sweeper's retry of
  the failed row (\<open>commit_queue\<close>): so every fact about histories of the queue holds here too. The
  receipts of accepted reports and the terminal rows they name are the invariant \<open>term_ok\<close>, kept by
  every transaction of the system (\<open>term_step\<close>).
\<close>

section \<open>The result monad\<close>

lemma res_bind_Inr: "res_bind m f = Inr y \<longleftrightarrow> (\<exists>x. m = Inr x \<and> f x = Inr y)"
  by (cases m) (simp_all add: res_bind_def)

lemma res_bind_simps [simp]: "res_bind (Inl e) f = Inl e" "res_bind (Inr x) f = f x"
  by (simp_all add: res_bind_def)

lemma ext_Inr: "ext te s k = Inr y \<longleftrightarrow> te_fault te s = None \<and> k = Inr y"
  by (cases "te_fault te s") (auto simp: ext_def split: db_fault.split)

lemma sql_Inr: "sql te s k = Inr y \<longleftrightarrow> te_fault te s = None \<and> k = Inr y"
  by (simp add: sql_def)

lemma tolerant_Inr: "tolerant te s k = Inr y \<longleftrightarrow> te_fault te s \<noteq> Some FaultOther \<and> k = Inr y"
  by (simp add: tolerant_def)

lemmas tx_Inr = res_bind_Inr ext_Inr sql_Inr tolerant_Inr

text \<open>Without faults the statements are transparent.\<close>

definition fault_free :: "term_env \<Rightarrow> bool" where
  "fault_free te \<longleftrightarrow> te_fault te = (\<lambda>_. None) \<and> te_commit te = Replied"

lemma fault_freeD:
  assumes "fault_free te"
  shows "ext te s k = k" "sql te s k = k" "tolerant te s k = k" "te_fault te s = None"
    "te_commit te = Replied"
  using assms by (simp_all add: fault_free_def ext_def sql_def tolerant_def)

section \<open>Which tables a part writes\<close>

definition queue_and_receipts :: "termdb \<Rightarrow> taskdb \<times> receipt list" where
  "queue_and_receipts db = (td_queue db, td_receipts db)"

lemma frame_pointer:
  "queue_and_receipts (UpdateChatSessionSession c ag s w rt db) = queue_and_receipts db"
  "queue_and_receipts (ClearChatSessionSessionIfMatches c ag s' rt db) = queue_and_receipts db"
  by (simp_all add: queue_and_receipts_def UpdateChatSessionSession_def
      ClearChatSessionSessionIfMatches_def)

lemma frame_pin: "pin_pointer te rr t c db = Inr db' \<Longrightarrow> queue_and_receipts db' = queue_and_receipts db"
  by (auto simp: pin_pointer_def tx_Inr frame_pointer)

lemma frame_retire: "retire_pointer te rr t c db = Inr db' \<Longrightarrow> queue_and_receipts db' = queue_and_receipts db"
  by (auto simp: retire_pointer_def tx_Inr frame_pointer split: option.splits)

lemma frame_message:
  "createAssistantChatMessage te row db = Inr db' \<Longrightarrow> queue_and_receipts db' = queue_and_receipts db"
  by (auto simp: createAssistantChatMessage_def tx_Inr queue_and_receipts_def)

lemma frame_chat:
  "writeChatCompletionOutcome te tx c t result db = Inr db' \<Longrightarrow> queue_and_receipts db' = queue_and_receipts db"
  by (auto simp: writeChatCompletionOutcome_def Let_def tx_Inr dest!: frame_message split: if_splits)

lemma frame_comment:
  "prepareTerminalReportComment te tx t result err db = Inr db' \<Longrightarrow> queue_and_receipts db' = queue_and_receipts db"
  by (auto simp: prepareTerminalReportComment_def Let_def tx_Inr queue_and_receipts_def
      split: option.splits if_splits)

lemma frame_fail_pointer:
  "fail_pointer te reason err rr t c db = Inr db' \<Longrightarrow> queue_and_receipts db' = queue_and_receipts db"
  by (auto simp: fail_pointer_def Let_def tx_Inr frame_pointer dest!: frame_pin frame_retire
      split: if_splits option.splits)

lemma frame_outcome:
  "fail_outcome te tx reason err t child db = Inr db' \<Longrightarrow> queue_and_receipts db' = queue_and_receipts db"
  by (auto simp: fail_outcome_def tx_Inr dest!: frame_comment frame_message split: if_splits option.splits)

lemmas frames = frame_pin frame_retire frame_chat frame_comment frame_fail_pointer frame_outcome

section \<open>The rows a terminal statement writes\<close>

lemma find_task_in: "find_task i db = Some t \<Longrightarrow> t \<in> set (tasks (td_queue db)) \<and> task_id t = i"
  by (auto simp: find_task_def dest: find_Some_in)

lemma find_task_iff:
  assumes "ids_ok (tasks (td_queue db))"
  shows "find_task i db = Some t \<longleftrightarrow> t \<in> set (tasks (td_queue db)) \<and> task_id t = i"
proof
  assume t: "t \<in> set (tasks (td_queue db)) \<and> task_id t = i"
  then obtain s where s: "find_task i db = Some s"
    unfolding find_task_def by (cases "find (\<lambda>r. task_id r = i) (tasks (td_queue db))") (auto simp: find_None_iff)
  with find_task_in[OF s] t ids_okD[OF assms] show "find_task i db = Some t" by metis
qed (rule find_task_in)

lemma find_task_None: "find_task i db = None \<longleftrightarrow> i \<notin> task_id ` set (tasks (td_queue db))"
  by (auto simp: find_task_def find_None_iff)

lemma write_row_Inr:
  "write_row u db = Inr (t, db') \<longleftrightarrow>
     (\<exists>ts. returning u (td_queue db) = t # ts) \<and> db' = db\<lparr>td_queue := exec_update u (td_queue db)\<rparr>"
  by (auto simp: write_row_def split: list.splits)

lemma write_row_by_id:
  assumes "ids_ok (tasks (td_queue db))" and "\<And>r. fst u r \<Longrightarrow> task_id r = i"
    and "write_row u db = Inr (t, db')"
  obtains r where "find_task i db = Some r" "fst u r" "t = snd u r"
    "db' = db\<lparr>td_queue := exec_update u (td_queue db)\<rparr>"
proof -
  obtain ts where "returning u (td_queue db) = t # ts" using assms(3) by (auto simp: write_row_Inr)
  then have "t \<in> snd u ` set (filter (fst u) (tasks (td_queue db)))"
    by (metis list.set_intros(1) list.set_map returning_def)
  then obtain r where r: "r \<in> set (tasks (td_queue db))" "fst u r" "t = snd u r" by auto
  with assms(2)[OF r(2)] find_task_iff[OF assms(1)] assms(3) that show thesis
    by (auto simp: write_row_Inr)
qed

lemma write_row_miss:
  "write_row u db = Inl e \<longleftrightarrow> e = TxCasMiss \<and> (\<forall>r \<in> set (tasks (td_queue db)). \<not> fst u r)"
  using filter_empty_conv[of "fst u" "tasks (td_queue db)"]
  by (auto simp: write_row_def returning_def split: list.splits)

lemma fence_cong:
  assumes "dispatched_at s = dispatched_at t" and "attempt s = attempt t"
  shows "TaskClaimFence s = TaskClaimFence t"
  unfolding TaskClaimFence_def assms ..

lemma complete_upd:
  "fst (CompleteAgentTask now i p rr) r \<longleftrightarrow> task_id r = i \<and> status r = Running"
  "status (snd (CompleteAgentTask now i p rr) r) = Completed"
  "task_id (snd (CompleteAgentTask now i p rr) r) = task_id r"
  "dispatched_at (snd (CompleteAgentTask now i p rr) r) = dispatched_at r"
  "attempt (snd (CompleteAgentTask now i p rr) r) = attempt r"
  "chat_session_id (snd (CompleteAgentTask now i p rr) r) = chat_session_id r"
  "agent_id (snd (CompleteAgentTask now i p rr) r) = agent_id r"
  "runtime_id (snd (CompleteAgentTask now i p rr) r) = runtime_id r"
  "issue_id (snd (CompleteAgentTask now i p rr) r) = issue_id r"
  by (simp_all add: CompleteAgentTask_def)

lemma fail_upd:
  "fst (FailAgentTask now i e rs rr) r
     \<longleftrightarrow> task_id r = i \<and> status r \<in> {Dispatched, Running, WaitingLocalDirectory}"
  "status (snd (FailAgentTask now i e rs rr) r) = Failed"
  "task_id (snd (FailAgentTask now i e rs rr) r) = task_id r"
  "dispatched_at (snd (FailAgentTask now i e rs rr) r) = dispatched_at r"
  "attempt (snd (FailAgentTask now i e rs rr) r) = attempt r"
  "chat_session_id (snd (FailAgentTask now i e rs rr) r) = chat_session_id r"
  "agent_id (snd (FailAgentTask now i e rs rr) r) = agent_id r"
  "runtime_id (snd (FailAgentTask now i e rs rr) r) = runtime_id r"
  "issue_id (snd (FailAgentTask now i e rs rr) r) = issue_id r"
  "failure_reason (snd (FailAgentTask now i e rs rr) r) = coalesce rs (Some ''agent_error'')"
  by (simp_all add: FailAgentTask_def)

lemma upd_fence:
  "TaskClaimFence (snd (CompleteAgentTask now i p rr) r) = TaskClaimFence r"
  "TaskClaimFence (snd (FailAgentTask now i e rs rr) r) = TaskClaimFence r"
  by (rule fence_cong; simp add: complete_upd fail_upd)+

text \<open>The columns the retry decision reads; no statement of the queue writes them.\<close>

definition retry_columns where
  "retry_columns t = (task_id t, issue_id t, chat_session_id t, automation_run_id t, context_col t,
     attempt t, max_attempts t)"

lemma retry_eligible_columns:
  "retry_columns s = retry_columns t \<Longrightarrow> retryEligible reason s = retryEligible reason t"
  by (simp add: retry_columns_def retryEligible_def isSourceContextQuickCreateTask_def)

lemma update_automation: "automation_run_id (snd (update_of now db s) r) = automation_run_id r"
  by (cases s) (simp_all add: TaskQueue.update_defs Let_def)

lemma retry_columns_stay: "retry_columns (snd (update_of now db s) r) = retry_columns r"
  unfolding retry_columns_def update_rid update_issue update_chat update_automation update_context
    update_attempt update_max ..

section \<open>The guard\<close>

lemma guard_Inr:
  assumes "terminal_guard te i report db = Inr ()" and "report = Some rep"
  obtains cur where "find_task i db = Some cur" "TaskClaimFence cur = tp_fence rep"
    "GetTerminalReportReceipt i (tp_fence rep) db = None"
    "status cur \<in> {Running, Dispatched, WaitingLocalDirectory}"
  using assms
  by (auto simp: terminal_guard_def checkTerminalReport_def Let_def tx_Inr
      split: option.splits if_splits)

lemma receipt_None: "GetTerminalReportReceipt i f db = None \<longleftrightarrow>
    (\<forall>rc \<in> set (td_receipts db). \<not> (tr_task_id rc = i \<and> tr_claim_fence rc = f))"
  by (auto simp: GetTerminalReportReceipt_def find_None_iff)

lemma receipt_Some: "GetTerminalReportReceipt i f db = Some rc \<Longrightarrow>
    rc \<in> set (td_receipts db) \<and> tr_task_id rc = i \<and> tr_claim_fence rc = f"
  by (auto simp: GetTerminalReportReceipt_def dest: find_Some_in)

section \<open>What a committed body did\<close>

lemma complete_body_Inr:
  assumes "complete_body te tx i result rr report db = Inr (t, child, db1)"
    and "ids_ok (tasks (td_queue db))"
  obtains r where "find_task i db = Some r" "status r = Running"
    "t = snd (CompleteAgentTask (te_now te) i (Some result) rr) r" "child = None"
    "queue_and_receipts db1
       = (exec_update (CompleteAgentTask (te_now te) i (Some result) rr) (td_queue db), td_receipts db)"
    "terminal_guard te i report db = Inr ()"
proof -
  let ?u = "CompleteAgentTask (te_now te) i (Some result) rr"
  obtain db' where w: "write_row ?u db = Inr (t, db')" and g: "terminal_guard te i report db = Inr ()"
    and c: "child = None" and q: "queue_and_receipts db1 = queue_and_receipts db'"
    using assms(1)
    by (auto simp: complete_body_def settle_recoveries_def Let_def tx_Inr dest!: frames
        split: if_splits option.splits)
  from write_row_by_id[OF assms(2) _ w, of i] obtain r where r: "find_task i db = Some r"
    "fst ?u r" "t = snd ?u r" "db' = db\<lparr>td_queue := exec_update ?u (td_queue db)\<rparr>"
    by (auto simp: complete_upd)
  with g c q that show thesis by (auto simp: complete_upd queue_and_receipts_def)
qed

lemma create_retry_iff:
  "create_retry te ceiling fire i db = Inr (Some c, db') \<longleftrightarrow>
     (\<exists>p. find (\<lambda>r. task_id r = i) (tasks (td_queue db)) = Some p
        \<and> c = retry_row (te_new_task te) (te_now te) fire (Some ceiling) p)
     \<and> te_owners_alive te \<and> \<not> gate_rejects (closed_gates (td_queue db)) c
     \<and> \<not> list_ex (\<lambda>r. task_id r = te_new_task te) (tasks (td_queue db))
     \<and> \<not> slot_conflict c (tasks (td_queue db))
     \<and> db' = db\<lparr>td_queue := (td_queue db)\<lparr>tasks := tasks (td_queue db) @ [c]\<rparr>\<rparr>"
  by (auto simp: create_retry_def Let_def CreateRetryTask_def find_task_def
      split: option.splits if_splits prod.splits)

lemma fail_retry_Inr:
  assumes "fail_retry te plan i t db = Inr (child, db')"
  shows "child = None \<and> db' = db
    \<or> (\<exists>c ceiling fire. child = Some c \<and> plan = Some (ceiling, fire)
         \<and> create_retry te ceiling fire i db = Inr (Some c, db'))"
proof (cases plan)
  case (Some cf)
  obtain ceiling fire where cf: "cf = (ceiling, fire)" by fastforce
  show ?thesis
  proof (cases "hasRunnableSuccessor (te_snapshot te) t")
    case False
    with assms Some cf obtain ch db1 where c: "create_retry te ceiling fire i db = Inr (ch, db1)"
      by (auto simp: fail_retry_def tx_Inr)
    show ?thesis
    proof (cases ch)
      case None
      with assms Some cf c False show ?thesis by (auto simp: fail_retry_def tx_Inr)
    next
      case (Some x)
      with assms \<open>plan = Some cf\<close> cf c False show ?thesis
        by (cases "te_fault te StTransfer")
          (auto simp: fail_retry_def tx_Inr split: db_fault.splits if_splits)
    qed
  qed (use assms Some cf in \<open>auto simp: fail_retry_def tx_Inr\<close>)
qed (use assms in \<open>auto simp: fail_retry_def\<close>)

definition retry_env_of :: "term_env \<Rightarrow> retry_env" where
  "retry_env_of te = \<lparr>re_now = te_now te, re_new_id = te_new_task te, re_owners_alive = True,
     re_successor_check_ok = False, re_tx_starter = True, re_begin_ok = True, re_create_ok = True,
     re_transfer = TransferDone, re_copy_ok = True, re_commit_ok = True\<rparr>"

text \<open>The retry a failure commits is the one the sweeper would commit for the failed row.\<close>

lemma fail_retry_is_sweep:
  assumes plan: "fail_plan te reason i db = Some (ceiling, fire)"
    and r: "find_task i db = Some r" "retry_columns t = retry_columns r"
    and t: "status t = Failed" "failure_reason t = Some reason" "find (\<lambda>r. task_id r = i) ts = Some t"
    and c: "c = retry_row (te_new_task te) (te_now te) fire (Some ceiling) t" "\<not> slot_conflict c ts"
  shows "MaybeRetryFailedTask (retry_env_of te) t ts = (Inr (Some c), ts @ [c])"
proof -
  have e: "retryEligible reason t" "ceiling = retryAttemptCeiling reason (max_attempts t)"
    "fire = (if 0 < retryDelayForAttempt reason (attempt t)
             then Some (te_now te + retryDelayForAttempt reason (attempt t)) else None)"
    using plan r retry_eligible_columns[OF r(2)]
    by (auto simp: fail_plan_def Let_def retry_columns_def split: if_splits)
  then have "retryableReasons reason" "attempt t < retryAttemptCeiling reason (max_attempts t)"
    by (auto simp: retryEligible_def)
  moreover have "task_id t = i" using find_Some_in[OF t(3)] by simp
  moreover have "CreateRetryTask (te_new_task te) (te_now te) fire (Some ceiling) True i ts = (Some c, ts @ [c])"
    using t(3) c by (simp add: CreateRetryTask_def Let_def)
  ultimately show ?thesis
    using e t(1,2) by (cases "0 < retryDelayForAttempt reason (attempt t)")
      (simp_all add: MaybeRetryFailedTask_def retry_env_of_def Let_def)
qed

lemma fail_body_parts:
  assumes "fail_body te tx i err reason rr report db = Inr (t, child, db1)"
    and "ids_ok (tasks (td_queue db))"
  obtains r db2 db3 where "find_task i db = Some r" "fst (FailAgentTask (te_now te) i (Some err) (opt_text reason) rr) r"
    "t = snd (FailAgentTask (te_now te) i (Some err) (opt_text reason) rr) r" "terminal_guard te i report db = Inr ()"
    "(case chat_session_id t of
        None \<Rightarrow> Inr (db\<lparr>td_queue := exec_update (FailAgentTask (te_now te) i (Some err) (opt_text reason) rr) (td_queue db)\<rparr>)
      | Some c \<Rightarrow> fail_pointer te reason err rr t c
          (db\<lparr>td_queue := exec_update (FailAgentTask (te_now te) i (Some err) (opt_text reason) rr) (td_queue db)\<rparr>)) = Inr db2"
    "fail_retry te (fail_plan te reason i db) i t db2 = Inr (child, db3)"
    "fail_outcome te tx reason err t child db3 = Inr db1"
proof -
  let ?u = "FailAgentTask (te_now te) i (Some err) (opt_text reason) rr"
  obtain db' db2 db3 where w: "write_row ?u db = Inr (t, db')" and g: "terminal_guard te i report db = Inr ()"
    and p: "(case chat_session_id t of None \<Rightarrow> Inr db' | Some c \<Rightarrow> fail_pointer te reason err rr t c db') = Inr db2"
    and y: "fail_retry te (fail_plan te reason i db) i t db2 = Inr (child, db3)"
    and o: "fail_outcome te tx reason err t child db3 = Inr db1"
    using assms(1)
    by (auto simp: fail_body_def settle_recoveries_def tx_Inr split: if_splits)
  obtain r where r: "find_task i db = Some r" "fst ?u r" "t = snd ?u r"
    "db' = db\<lparr>td_queue := exec_update ?u (td_queue db)\<rparr>"
    by (rule write_row_by_id[OF assms(2) _ w, of i]) (auto simp: fail_upd)
  show thesis by (rule that[OF r(1-3) g p[unfolded r(4)] y o])
qed

lemma fail_body_Inr:
  assumes "fail_body te tx i err reason rr report db = Inr (t, child, db1)"
    and "ids_ok (tasks (td_queue db))"
  obtains r where "find_task i db = Some r" "status r \<in> {Dispatched, Running, WaitingLocalDirectory}"
    "t = snd (FailAgentTask (te_now te) i (Some err) (opt_text reason) rr) r"
    "child = None" "queue_and_receipts db1
       = (exec_update (FailAgentTask (te_now te) i (Some err) (opt_text reason) rr) (td_queue db), td_receipts db)"
    "terminal_guard te i report db = Inr ()"
  | r c ceiling fire where "find_task i db = Some r" "status r \<in> {Dispatched, Running, WaitingLocalDirectory}"
    "t = snd (FailAgentTask (te_now te) i (Some err) (opt_text reason) rr) r"
    "child = Some c" "fail_plan te reason i db = Some (ceiling, fire)"
    "create_retry te ceiling fire i
        (db\<lparr>td_queue := exec_update (FailAgentTask (te_now te) i (Some err) (opt_text reason) rr) (td_queue db)\<rparr>)
      = Inr (Some c, db\<lparr>td_queue := fst (queue_and_receipts db1)\<rparr>)"
    "snd (queue_and_receipts db1) = td_receipts db"
    "terminal_guard te i report db = Inr ()"
proof -
  let ?u = "FailAgentTask (te_now te) i (Some err) (opt_text reason) rr"
  let ?d = "db\<lparr>td_queue := exec_update ?u (td_queue db)\<rparr>"
  obtain r db2 db3 where r: "find_task i db = Some r" "fst ?u r" "t = snd ?u r" and g: "terminal_guard te i report db = Inr ()"
    and p: "(case chat_session_id t of None \<Rightarrow> Inr ?d | Some c \<Rightarrow> fail_pointer te reason err rr t c ?d) = Inr db2"
    and y: "fail_retry te (fail_plan te reason i db) i t db2 = Inr (child, db3)"
    and o: "fail_outcome te tx reason err t child db3 = Inr db1"
    by (rule fail_body_parts[OF assms])
  have q2: "queue_and_receipts db2 = queue_and_receipts ?d"
    using p by (auto split: option.splits dest: frames)
  have q1: "queue_and_receipts db1 = queue_and_receipts db3" using o by (rule frame_outcome)
  show thesis
  proof (cases child)
    case None
    then have "db3 = db2" using fail_retry_Inr[OF y] by auto
    with that(1)[OF r(1) _ r(3) None _ g] r q1 q2 show thesis
      by (auto simp: fail_upd queue_and_receipts_def)
  next
    case (Some c)
    then obtain ceiling fire where f: "fail_plan te reason i db = Some (ceiling, fire)"
      "create_retry te ceiling fire i db2 = Inr (Some c, db3)"
      using fail_retry_Inr[OF y] by auto
    have qq: "td_queue db2 = td_queue ?d"
      using q2 by (simp add: queue_and_receipts_def)
    have "create_retry te ceiling fire i ?d = Inr (Some c, ?d\<lparr>td_queue := td_queue db3\<rparr>)"
      using f(2) qq unfolding create_retry_iff by auto
    moreover have "td_receipts db3 = td_receipts db"
      using f(2) q2 by (simp add: create_retry_iff queue_and_receipts_def)
    ultimately show thesis
      using that(2)[OF r(1) _ r(3) Some f(1) _ _ g] r(2) q1 by (simp add: fail_upd queue_and_receipts_def)
  qed
qed

section \<open>What a transaction did\<close>

lemma run_cases:
  assumes "runTerminalTaskTx te report body db = (res, db')"
  obtains (aborted) e where "res = Inl e" "db' = db"
  | (landed) t child db1 where "body db = Inr (t, child, db1)" "terminalReportHook te report t db1 = Inr db'"
      "res = Inr (t, child) \<or> res = Inl TxOther"
proof -
  show thesis
  proof (cases "sql te StBegin (res_bind (body db) (\<lambda>(t, child, db1).
             res_bind (terminalReportHook te report t db1) (\<lambda>db2. Inr (t, child, db2))))")
    case (Inl e)
    with assms show thesis by (intro aborted[of e]) (auto simp: runTerminalTaskTx_def)
  next
    case (Inr x)
    obtain t child db2 where x: "x = (t, child, db2)" by (metis prod_cases3)
    with Inr obtain db1 where b: "body db = Inr (t, child, db1)" "terminalReportHook te report t db1 = Inr db2"
      by (auto simp: tx_Inr)
    show thesis
    proof (cases "te_commit te")
      case Refused
      with assms Inr x show thesis by (intro aborted[of TxOther]) (auto simp: runTerminalTaskTx_def)
    qed (use assms Inr x b landed[of t child db1] in \<open>auto simp: runTerminalTaskTx_def\<close>)
  qed
qed

lemma hook_Inr:
  assumes "terminalReportHook te report t db = Inr db'"
  shows "td_queue db' = td_queue db \<and> td_sessions db' = td_sessions db \<and> td_comments db' = td_comments db
    \<and> td_messages db' = td_messages db
    \<and> (case report of None \<Rightarrow> td_receipts db' = td_receipts db
        | Some rep \<Rightarrow>
            (let rc = \<lparr>tr_report_id = tp_id rep, tr_task_id = task_id t, tr_claim_fence = tp_fence rep,
                       tr_payload = ti_payload_sha (tp_identity rep), tr_task_status = status t\<rparr>
             in \<not> receipt_clash rc (td_receipts db) \<and> td_receipts db' = td_receipts db @ [rc]))"
  using assms
  by (auto simp: terminalReportHook_def CreateTerminalReportReceipt_def Let_def tx_Inr
      split: option.splits if_splits)

end
