(* ===== verification/TermReach.thy ===== *)
theory TermReach
  imports TermSafety
begin

text \<open>
  The system of terminal reports: \<open>term_step\<close> is one transaction of it (a terminal callback with any
  answers, an orphan recovery, any event of the task queue, any write of others to sessions, comments and
  messages), \<open>term_run\<close> a sequence of them, \<open>reachable_term\<close> what a run from the empty tables reaches.
  \<open>terminal_call_cases\<close> says what a service call did; \<open>term_ok\<close> is the invariant.
\<close>

section \<open>Service calls\<close>

definition terminal_call ::
  "term_env \<Rightarrow> text_env \<Rightarrow> uuid \<Rightarrow> terminal_report option \<Rightarrow> termdb
     \<Rightarrow> svc_error + agent_task \<times> task_status \<Rightarrow> termdb \<Rightarrow> bool" where
  "terminal_call te tx i report db res db' \<longleftrightarrow>
     (\<exists>result rr. completeTask te tx i result rr report db = (res, db'))
     \<or> (\<exists>err reason rr. failTask te tx i err reason rr report db = (res, db'))"

definition receipt_for :: "terminal_report \<Rightarrow> agent_task \<Rightarrow> receipt" where
  "receipt_for rep t = \<lparr>tr_report_id = tp_id rep, tr_task_id = task_id t, tr_claim_fence = tp_fence rep,
     tr_payload = ti_payload_sha (tp_identity rep), tr_task_status = status t\<rparr>"

definition same_report :: "terminal_report \<Rightarrow> receipt \<Rightarrow> bool" where
  "same_report rep rc \<longleftrightarrow> tr_report_id rc = tp_id rep \<and> tr_payload rc = ti_payload_sha (tp_identity rep)"

text \<open>An error of the body that is a replay comes from the check of the report.\<close>

definition no_replay :: "tx_error + 'a \<Rightarrow> bool" where
  "no_replay m \<longleftrightarrow> (\<forall>t s. m \<noteq> Inl (TxReplay t s))"

lemma no_replay_intros:
  "no_replay (Inr x)" "no_replay (Inl TxOther)" "no_replay (Inl TxConflict)" "no_replay (Inl TxNoRows)"
  "no_replay k \<Longrightarrow> no_replay (ext te st k)" "no_replay k \<Longrightarrow> no_replay (sql te st k)"
  "no_replay k \<Longrightarrow> no_replay (tolerant te st k)" "no_replay (write_row u db)"
  by (auto simp: no_replay_def ext_def sql_def tolerant_def write_row_def split: option.splits db_fault.splits list.splits)

lemma no_replay_bind: "no_replay m \<Longrightarrow> (\<And>x. no_replay (f x)) \<Longrightarrow> no_replay (res_bind m f)"
  by (cases m) (auto simp: no_replay_def)

lemma no_replay_if: "no_replay a \<Longrightarrow> no_replay b \<Longrightarrow> no_replay (if c then a else b)"
  by simp

lemma no_replay_option: "no_replay a \<Longrightarrow> (\<And>x. no_replay (f x)) \<Longrightarrow> no_replay (case m of None \<Rightarrow> a | Some x \<Rightarrow> f x)"
  by (cases m) simp_all

lemma no_replay_fault:
  "no_replay a \<Longrightarrow> no_replay b \<Longrightarrow> no_replay c
     \<Longrightarrow> no_replay (case m of None \<Rightarrow> a | Some FaultNoRows \<Rightarrow> b | Some FaultOther \<Rightarrow> c)"
  by (simp split: option.split db_fault.split)

lemma no_replay_prod: "(\<And>a b. no_replay (f a b)) \<Longrightarrow> no_replay (case x of (a, b) \<Rightarrow> f a b)"
  by (cases x) simp

lemmas no_replay_rules = no_replay_intros no_replay_if no_replay_bind no_replay_option no_replay_fault
  no_replay_prod

lemma no_replay_parts:
  "no_replay (pin_pointer te rr t c db)" "no_replay (retire_pointer te rr t c db)"
  "no_replay (createAssistantChatMessage te row db)" "no_replay (writeChatCompletionOutcome te tx c t result db)"
  "no_replay (prepareTerminalReportComment te tx t result err db)" "no_replay (terminalReportHook te report t db)"
  "no_replay (fail_pointer te reason err rr t c db)" "no_replay (create_retry te ceiling fire i db)"
proof -
  show m: "no_replay (createAssistantChatMessage te row db)" for row db
    unfolding createAssistantChatMessage_def by (intro no_replay_rules)
  show p: "no_replay (pin_pointer te rr t c db)" "no_replay (retire_pointer te rr t c db)" for db
    unfolding pin_pointer_def retire_pointer_def by (intro no_replay_rules)+
  show "no_replay (writeChatCompletionOutcome te tx c t result db)"
    unfolding writeChatCompletionOutcome_def Let_def by (intro no_replay_rules m)
  show "no_replay (prepareTerminalReportComment te tx t result err db)"
    unfolding prepareTerminalReportComment_def Let_def by (intro no_replay_rules)
  show "no_replay (terminalReportHook te report t db)"
    unfolding terminalReportHook_def Let_def by (intro no_replay_rules)
  show "no_replay (fail_pointer te reason err rr t c db)"
    unfolding fail_pointer_def Let_def by (intro no_replay_rules p)
  show "no_replay (create_retry te ceiling fire i db)"
    unfolding create_retry_def Let_def by (intro no_replay_rules)
qed

lemma no_replay_more:
  "no_replay (fail_retry te plan i t db)" "no_replay (fail_outcome te tx reason err t child db)"
  unfolding fail_retry_def fail_outcome_def by (intro no_replay_rules no_replay_parts)+

lemma body_replay:
  shows "complete_body te tx i result rr report db = Inl (TxReplay t s)
      \<Longrightarrow> terminal_guard te i report db = Inl (TxReplay t s)"
    and "fail_body te tx i err reason rr report db = Inl (TxReplay t s)
      \<Longrightarrow> terminal_guard te i report db = Inl (TxReplay t s)"
proof -
  have "no_replay (complete_body te tx i result rr report db)" if "terminal_guard te i report db = Inr ()"
    unfolding complete_body_def settle_recoveries_def Let_def that res_bind_simps
    by (intro no_replay_rules no_replay_parts)
  moreover have "no_replay (fail_body te tx i err reason rr report db)" if "terminal_guard te i report db = Inr ()"
    unfolding fail_body_def settle_recoveries_def Let_def that res_bind_simps
    by (intro no_replay_rules no_replay_parts no_replay_more)
  moreover have "complete_body te tx i result rr report db = Inl e"
    "fail_body te tx i err reason rr report db = Inl e" if "terminal_guard te i report db = Inl e" for e
    by (simp_all add: that complete_body_def fail_body_def)
  ultimately show "complete_body te tx i result rr report db = Inl (TxReplay t s)
      \<Longrightarrow> terminal_guard te i report db = Inl (TxReplay t s)"
    "fail_body te tx i err reason rr report db = Inl (TxReplay t s)
      \<Longrightarrow> terminal_guard te i report db = Inl (TxReplay t s)"
    by (cases "terminal_guard te i report db"; simp add: no_replay_def)+
qed

lemma guard_replay:
  assumes "terminal_guard te i report db = Inl (TxReplay t s)"
  obtains rep rc where "report = Some rep" "find_task i db = Some t" "TaskClaimFence t = tp_fence rep"
    "GetTerminalReportReceipt i (tp_fence rep) db = Some rc" "same_report rep rc" "s = tr_task_status rc"
  using assms
  by (auto simp: terminal_guard_def checkTerminalReport_def sql_def tolerant_def same_report_def
      split: option.splits if_splits)

text \<open>What a run whose body is one of the two did, before the result is read.\<close>

definition committed_as ::
  "uuid \<Rightarrow> terminal_report option \<Rightarrow> termdb \<Rightarrow> agent_task \<Rightarrow> agent_task \<Rightarrow> termdb \<Rightarrow> bool" where
  "committed_as i report db r t db' \<longleftrightarrow>
     find_task i db = Some r \<and> status r \<in> {Running, Dispatched, WaitingLocalDirectory}
     \<and> status t \<in> {Completed, Failed} \<and> task_id t = i \<and> TaskClaimFence t = TaskClaimFence r
     \<and> t \<in> set (tasks (td_queue db')) \<and> (\<exists>es. td_queue db' = queue_run es (td_queue db))
     \<and> (case report of None \<Rightarrow> td_receipts db' = td_receipts db
         | Some rep \<Rightarrow> TaskClaimFence r = tp_fence rep
             \<and> \<not> receipt_clash (receipt_for rep t) (td_receipts db)
             \<and> td_receipts db' = td_receipts db @ [receipt_for rep t])"

lemma not_gated: "status t \<in> {Completed, Failed} \<Longrightarrow> \<not> gate_rejects closed t"
  by (auto simp: gate_rejects_def split: option.split)

lemma terminal_stmt_admitted:
  "\<not> gate_blocks now (SComplete i p rr) q" "\<not> gate_blocks now (SFail i e rs rr) q"
  by (auto simp: gate_blocks_def returning_def list_ex_iff complete_upd fail_upd not_gated)

lemma guard_fence:
  "terminal_guard te i report db = Inr () \<Longrightarrow> report = Some rep \<Longrightarrow> find_task i db = Some r
     \<Longrightarrow> TaskClaimFence r = tp_fence rep"
  by (erule guard_Inr) auto

lemma hit_in_update:
  "r \<in> set (tasks q) \<Longrightarrow> fst u r \<Longrightarrow> snd u r \<in> set (tasks (exec_update u q))"
  by (auto simp: exec_update_def in_update_where)

lemma complete_committed:
  assumes b: "complete_body te tx i result rr report db = Inr (t, child, db1)"
    and h: "terminalReportHook te report t db1 = Inr db'" and ok: "db_ok (td_queue db)"
  shows "\<exists>r. committed_as i report db r t db'"
proof -
  have ids: "ids_ok (tasks (td_queue db))" using ok by (simp add: db_ok_def)
  obtain r where r: "find_task i db = Some r" "status r = Running"
    "t = snd (CompleteAgentTask (te_now te) i (Some result) rr) r"
    "queue_and_receipts db1
       = (exec_update (CompleteAgentTask (te_now te) i (Some result) rr) (td_queue db), td_receipts db)"
    "terminal_guard te i report db = Inr ()"
    using complete_body_Inr[OF b ids] by metis
  have in_r: "r \<in> set (tasks (td_queue db))" "task_id r = i" using find_task_in[OF r(1)] by simp_all
  have "td_queue db' = queue_run [QUpdate (te_now te) (SComplete i (Some result) rr)] (td_queue db)"
    using r(4) hook_Inr[OF h] by (simp add: terminal_stmt_admitted queue_and_receipts_def)
  then have "\<exists>es. td_queue db' = queue_run es (td_queue db)" ..
  moreover have "t \<in> set (tasks (td_queue db'))"
    using hit_in_update[OF in_r(1), of "CompleteAgentTask (te_now te) i (Some result) rr"] r in_r hook_Inr[OF h]
    by (simp add: queue_and_receipts_def complete_upd)
  moreover have "TaskClaimFence r = tp_fence rep" if "report = Some rep" for rep
    using guard_fence[OF r(5) that r(1)] .
  ultimately have "committed_as i report db r t db'"
    using r in_r hook_Inr[OF h]
    by (auto simp: committed_as_def complete_upd upd_fence queue_and_receipts_def receipt_for_def Let_def
        split: option.splits)
  then show ?thesis ..
qed

lemma fail_committed:
  assumes b: "fail_body te tx i err reason rr report db = Inr (t, child, db1)"
    and h: "terminalReportHook te report t db1 = Inr db'" and ok: "db_ok (td_queue db)"
  shows "\<exists>r. committed_as i report db r t db'"
proof -
  let ?u = "FailAgentTask (te_now te) i (Some err) (opt_text reason) rr"
  let ?e = "QUpdate (te_now te) (SFail i (Some err) (opt_text reason) rr)"
  let ?q = "exec_update ?u (td_queue db)"
  have ids: "ids_ok (tasks (td_queue db))" using ok by (simp add: db_ok_def)
  have e: "queue_exec ?e (td_queue db) = ?q" by (simp add: terminal_stmt_admitted)
  have ok': "db_ok ?q" using db_ok_exec[OF ok, of ?e] unfolding e .
  have fin: ?thesis
    if r: "find_task i db = Some r" "status r \<in> {Dispatched, Running, WaitingLocalDirectory}" "t = snd ?u r"
      and g: "terminal_guard te i report db = Inr ()" and rc: "snd (queue_and_receipts db1) = td_receipts db"
      and q: "td_queue db1 = queue_run es (td_queue db)" and keep: "set (tasks ?q) \<subseteq> set (tasks (td_queue db1))"
    for r es
  proof -
    have in_r: "r \<in> set (tasks (td_queue db))" "task_id r = i" using find_task_in[OF r(1)] by simp_all
    have "t \<in> set (tasks (td_queue db'))"
      using hit_in_update[OF in_r(1), of ?u] r in_r hook_Inr[OF h] keep by (auto simp: fail_upd)
    moreover have "TaskClaimFence r = tp_fence rep" if "report = Some rep" for rep
      using guard_fence[OF g that r(1)] .
    ultimately have "committed_as i report db r t db'"
      using r in_r hook_Inr[OF h] rc q
      by (auto simp: committed_as_def fail_upd upd_fence queue_and_receipts_def receipt_for_def Let_def
          split: option.splits)
    then show ?thesis ..
  qed
  from b ids show ?thesis
  proof (cases rule: fail_body_Inr)
    case (1 r)
    then show ?thesis
      using fin[of r "[?e]"] e by (simp add: queue_and_receipts_def)
  next
    case (2 r c ceiling fire)
    let ?ts = "tasks ?q"
    have in_r: "r \<in> set (tasks (td_queue db))" "task_id r = i" using find_task_in[OF 2(1)] by simp_all
    have cr: "\<exists>p. find (\<lambda>r. task_id r = i) ?ts = Some p
          \<and> c = retry_row (te_new_task te) (te_now te) fire (Some ceiling) p"
      "\<not> gate_rejects (closed_gates ?q) c" "\<not> list_ex (\<lambda>r. task_id r = te_new_task te) ?ts"
      "\<not> slot_conflict c ?ts" "td_queue db1 = ?q\<lparr>tasks := ?ts @ [c]\<rparr>"
      using 2(6) by (auto simp: create_retry_iff queue_and_receipts_def dest: arg_cong[where f = td_queue])
    have t_in: "t \<in> set ?ts" using hit_in_update[OF in_r(1), of ?u] 2(2,3) in_r by (auto simp: fail_upd)
    have t_id: "task_id t = i" using 2(3) in_r by (simp add: fail_upd)
    have ft: "find (\<lambda>r. task_id r = i) ?ts = Some t"
      using find_task_iff[of "db\<lparr>td_queue := ?q\<rparr>" i t] ok' t_in t_id by (simp add: db_ok_def find_task_def)
    have "retryableReasons reason" using 2(5) by (auto simp: fail_plan_def split: if_splits)
    then have "reason \<noteq> []" by (auto simp: retryableReasons_def reason_defs)
    then have fr: "failure_reason t = Some reason" using 2(3) by (simp add: fail_upd opt_text_def coalesce_def)
    have rcol: "retry_columns t = retry_columns r"
      using retry_columns_stay[of "te_now te" "td_queue db" "SFail i (Some err) (opt_text reason) rr" r] 2(3) by simp
    have "MaybeRetryFailedTask (retry_env_of te) t ?ts = (Inr (Some c), ?ts @ [c])"
      by (rule fail_retry_is_sweep[OF 2(5,1) rcol _ fr ft]) (use cr ft 2(3) in \<open>auto simp: fail_upd\<close>)
    then have "queue_exec (QRetry (retry_env_of te) i) ?q = ?q\<lparr>tasks := ?ts @ [c]\<rparr>"
      using ft cr(2,3) by (simp add: admit_rows_def) (simp add: retry_env_of_def)
    then have "td_queue db1 = queue_run [?e, QRetry (retry_env_of te) i] (td_queue db)"
      unfolding queue_run_simps e cr(5) ..
    then show ?thesis by (rule fin[OF 2(1,2,3,8,7)]) (simp add: cr(5) subset_insertI)
  qed
qed

lemma terminal_call_cases:
  assumes "terminal_call te tx i report db res db'" and ok: "db_ok (td_queue db)"
  obtains (refused) e where "res = Inl e" "db' = db"
  | (replayed) rep rc t where "report = Some rep" "find_task i db = Some t" "TaskClaimFence t = tp_fence rep"
      "GetTerminalReportReceipt i (tp_fence rep) db = Some rc" "same_report rep rc"
      "res = Inr (t, tr_task_status rc)" "db' = db"
  | (idempotent) t where "report = None" "find_task i db = Some t" "task_terminal t" "res = Inr (t, status t)" "db' = db"
  | (committed) r t where "committed_as i report db r t db'" "res = Inr (t, status t) \<or> (\<exists>e. res = Inl e)"
proof -
  have go: thesis
    if run: "runTerminalTaskTx te report body db = (out, db1)" and fin: "terminal_result te i report (out, db1) = (res, db')"
      and rep: "\<And>t s. body db = Inl (TxReplay t s) \<Longrightarrow> terminal_guard te i report db = Inl (TxReplay t s)"
      and com: "\<And>t child db1 db2. body db = Inr (t, child, db1) \<Longrightarrow> terminalReportHook te report t db1 = Inr db2
         \<Longrightarrow> \<exists>r. committed_as i report db r t db2" for body out db1
    using run
  proof (cases rule: run_cases)
    case (aborted e)
    have nr: "no_replay (terminalReportHook te report t d)" for t d by (rule no_replay_parts)
    consider (replay) t s where "e = TxReplay t s" | (other) "\<forall>t s. e \<noteq> TxReplay t s" by blast
    then show thesis
    proof cases
      case replay
      have "body db = Inl (TxReplay t s)"
        using run aborted replay nr
        by (cases "body db") (auto simp: runTerminalTaskTx_def sql_def no_replay_def res_bind_def
            split: if_splits sum.splits prod.splits db_reply.splits)
      from guard_replay[OF rep[OF this]] obtain rp rc where g: "report = Some rp" "find_task i db = Some t"
        "TaskClaimFence t = tp_fence rp" "GetTerminalReportReceipt i (tp_fence rp) db = Some rc"
        "same_report rp rc" "s = tr_task_status rc" .
      show thesis
        by (rule replayed[OF g(1-5)]) (use fin aborted replay g(6) in \<open>simp_all add: terminal_result_def\<close>)
    next
      case other
      with fin aborted show thesis
        by (auto simp: terminal_result_def intro: refused idempotent
            split: tx_error.splits option.splits if_splits)
    qed
  next
    case (landed t child d1)
    then obtain r where c: "committed_as i report db r t db1" using com by blast
    have "db' = db1" "res = Inr (t, status t) \<or> (\<exists>e. res = Inl e)"
      using fin landed(3) by (auto simp: terminal_result_def split: option.splits if_splits)
    with c committed show thesis by blast
  qed
  from assms(1) consider result rr where "completeTask te tx i result rr report db = (res, db')"
    | err reason rr where "failTask te tx i err reason rr report db = (res, db')"
    unfolding terminal_call_def by blast
  then show thesis
  proof cases
    case 1
    obtain out db1 where run: "runTerminalTaskTx te report (complete_body te tx i result rr report) db = (out, db1)"
      by fastforce
    show thesis
      by (rule go[OF run]) (use 1 run body_replay(1) in
          \<open>auto simp: completeTask_def intro: complete_committed ok\<close>)
  next
    case 2
    let ?err = "SanitizeTextForPostgres err"
    let ?reason = "NormalizeDaemonReason (if reason = [] then Classify ?err else reason) ?err"
    obtain out db1 where run: "runTerminalTaskTx te report (fail_body te tx i ?err ?reason rr report) db = (out, db1)"
      by fastforce
    show thesis
      by (rule go[OF run]) (use 2 run body_replay(2) in
          \<open>auto simp: failTask_def Let_def intro: fail_committed ok\<close>)
  qed
qed

section \<open>Callbacks\<close>

text \<open>The report a request body carries, if it carries one.\<close>

definition carries :: "wire_codec \<Rightarrow> string \<Rightarrow> terminal_report option \<Rightarrow> bool" where
  "carries wc raw report \<longleftrightarrow>
     (case report of
        None \<Rightarrow> wc_envelope wc raw = Some None
      | Some rep \<Rightarrow> (\<exists>identity. wc_envelope wc raw = Some (Some identity)
                       \<and> NewTerminalReport wc identity = Some rep))"

lemma decode_carries:
  assumes "decodeTerminalReportRequest co wc kind decode raw = Some (q, report)"
  shows "carries wc raw report"
proof (cases "wc_envelope wc raw")
  case (Some e)
  show ?thesis
  proof (cases e)
    case (Some identity)
    with \<open>wc_envelope wc raw = Some e\<close> assms show ?thesis
      by (cases "NewTerminalReport wc identity")
        (auto simp: decodeTerminalReportRequest_def carries_def split: option.splits if_splits, metis)
  qed (use \<open>wc_envelope wc raw = Some e\<close> assms in
      \<open>auto simp: decodeTerminalReportRequest_def carries_def split: option.splits\<close>)
qed (use assms in \<open>auto simp: decodeTerminalReportRequest_def split: option.splits\<close>)

lemma access_Inl: "requireDaemonTaskAccess wc he url db = Inl e \<Longrightarrow> \<exists>code body. e = HttpError code body"
  by (auto simp: requireDaemonTaskAccess_def error_reply_def split: option.splits if_splits)

lemma access_Inr: "requireDaemonTaskAccess wc he url db = Inr i \<Longrightarrow> wc_uuid wc url = Some i \<and> find_task i db \<noteq> None"
  by (auto simp: requireDaemonTaskAccess_def split: option.splits if_splits)

lemma call_complete: "completeTask te tx i result rr report db = (res, db') \<Longrightarrow> terminal_call te tx i report db res db'"
  by (auto simp: terminal_call_def)

lemma handler_fail_call:
  "handler_failTask wc tx he i q report db = (reply, db')
     \<Longrightarrow> \<exists>res. terminal_call (he_tx he) tx i report db res db' \<and> reply = terminal_reply wc report i res"
  unfolding handler_failTask_def terminal_call_def by (auto split: prod.splits) blast

lemma callback_cases:
  assumes "callback co wc tx he kind url raw db = (reply, db')"
  obtains (turned_away) code body where "reply = HttpError code body" "db' = db"
  | (called) i report res where "wc_uuid wc url = Some i" "carries wc raw report"
      "terminal_call (he_tx he) tx i report db res db'" "reply = terminal_reply wc report i res"
proof (cases "kind = ''complete'' \<or> kind = ''fail''")
  case False
  with assms turned_away show thesis by (auto simp: callback_def)
next
  case k: True
  show thesis
  proof (cases "requireDaemonTaskAccess wc he url db")
    case (Inl e)
    with assms k turned_away access_Inl[OF Inl] show thesis
      by (auto simp: callback_def CompleteTask_def FailTask_def split: if_splits)
  next
    case (Inr i)
    note acc = access_Inr[OF Inr]
    show thesis
    proof (cases "kind = ''complete''")
      case True
      show thesis
      proof (cases "decodeTerminalReportRequest co wc ''complete'' (wc_complete wc) raw")
        case None
        with assms True Inr turned_away show thesis by (auto simp: callback_def CompleteTask_def error_reply_def)
      next
        case (Some p)
        then obtain q report where p: "p = (q, report)" by fastforce
        have c: "carries wc raw report" by (rule decode_carries[OF Some[unfolded p]])
        from assms True Inr Some p
        have "\<exists>res. terminal_call (he_tx he) tx i report db res db' \<and> reply = terminal_reply wc report i res"
          by (auto simp: callback_def CompleteTask_def Let_def intro: call_complete
              split: if_splits prod.splits dest!: handler_fail_call)
        with called acc c show thesis by blast
      qed
    next
      case False
      with k have f: "kind = ''fail''" by simp
      show thesis
      proof (cases "decodeTerminalReportRequest co wc ''fail'' (wc_fail wc) raw")
        case None
        with assms f Inr turned_away show thesis by (auto simp: callback_def FailTask_def error_reply_def)
      next
        case (Some p)
        then obtain q report where p: "p = (q, report)" by fastforce
        have c: "carries wc raw report" by (rule decode_carries[OF Some[unfolded p]])
        from assms f Inr Some p
        have "\<exists>res. terminal_call (he_tx he) tx i report db res db' \<and> reply = terminal_reply wc report i res"
          by (auto simp: callback_def FailTask_def dest!: handler_fail_call)
        with called acc c show thesis by blast
      qed
    qed
  qed
qed

section \<open>The system\<close>

inductive term_step :: "report_codec \<Rightarrow> wire_codec \<Rightarrow> text_env \<Rightarrow> termdb \<Rightarrow> termdb \<Rightarrow> bool"
  for co wc tx where
  ts_queue: "term_step co wc tx db (db\<lparr>td_queue := queue_exec e (td_queue db)\<rparr>)"
| ts_other: "term_step co wc tx db (db\<lparr>td_sessions := ss, td_comments := cs, td_messages := ms\<rparr>)"
| ts_callback: "callback co wc tx he kind url raw db = (reply, db') \<Longrightarrow> term_step co wc tx db db'"
| ts_recover: "RecoverOrphanedTasks wc now faults commit rt req db = (out, db') \<Longrightarrow> term_step co wc tx db db'"

inductive term_run :: "report_codec \<Rightarrow> wire_codec \<Rightarrow> text_env \<Rightarrow> termdb \<Rightarrow> termdb \<Rightarrow> bool"
  for co wc tx where
  run_refl: "term_run co wc tx db db"
| run_step: "term_run co wc tx db db' \<Longrightarrow> term_step co wc tx db' db'' \<Longrightarrow> term_run co wc tx db db''"

lemma term_run_trans: "term_run co wc tx b c \<Longrightarrow> term_run co wc tx a b \<Longrightarrow> term_run co wc tx a c"
  by (induction rule: term_run.induct) (auto intro: term_run.intros)

lemma term_run_single: "term_step co wc tx a b \<Longrightarrow> term_run co wc tx a b"
  by (rule run_step[OF run_refl])

definition empty_term :: termdb where
  "empty_term = \<lparr>td_queue = empty_db, td_receipts = [], td_sessions = [], td_comments = [], td_messages = []\<rparr>"

definition reachable_term :: "report_codec \<Rightarrow> wire_codec \<Rightarrow> text_env \<Rightarrow> termdb \<Rightarrow> bool" where
  "reachable_term co wc tx db \<longleftrightarrow> term_run co wc tx empty_term db"

section \<open>The invariant\<close>

definition accounted :: "termdb \<Rightarrow> receipt \<Rightarrow> bool" where
  "accounted db rc \<longleftrightarrow>
     (\<exists>t \<in> set (tasks (td_queue db)). task_id t = tr_task_id rc \<and> status t = tr_task_status rc
        \<and> status t \<in> {Completed, Failed} \<and> TaskClaimFence t = tr_claim_fence rc)"

definition term_ok :: "termdb \<Rightarrow> bool" where
  "term_ok db \<longleftrightarrow>
     db_ok (td_queue db) \<and> distinct (map tr_report_id (td_receipts db))
     \<and> distinct (map (\<lambda>r. (tr_task_id r, tr_claim_fence r)) (td_receipts db))
     \<and> (\<forall>rc \<in> set (td_receipts db). accounted db rc)"

lemma settled_run:
  "db_ok q \<Longrightarrow> r \<in> set (tasks q) \<Longrightarrow> settled r \<Longrightarrow> r \<in> set (tasks (queue_run es q))"
  using queue_run_row[of q r es] task_life.run_terminal[of r] by auto

lemma accounted_run:
  assumes "db_ok (td_queue db)" and "accounted db rc" and "td_queue db' = queue_run es (td_queue db)"
  shows "accounted db' rc"
  using assms settled_run[OF assms(1), of _ es] unfolding accounted_def settled_def by fastforce

lemma recover_queue:
  assumes "RecoverOrphanedTasks wc now faults commit rt req db = (out, db')"
  shows "td_receipts db' = td_receipts db \<and> (\<exists>es. td_queue db' = queue_run es (td_queue db))"
proof -
  have g: "\<not> gate_blocks now (SRecoverOrphans rt keep) q" for keep q
    by (auto simp: gate_blocks_def returning_def list_ex_iff RecoverOrphanedTasksForRuntime_def not_gated)
  have "\<exists>es. exec_update (RecoverOrphanedTasksForRuntime now rt keep) q = queue_run es q" for keep q
    by (rule exI[of _ "[QUpdate now (SRecoverOrphans rt keep)]"]) (simp add: g)
  moreover have "\<exists>es. q = queue_run es q" for q by (rule exI[of _ "[]"]) simp
  ultimately show ?thesis
    using assms by (auto simp: RecoverOrphanedTasks_def Let_def split: if_splits db_reply.splits)
qed

lemma step_cases:
  assumes "term_step co wc tx db db'" and ok: "db_ok (td_queue db)"
  obtains es where "td_queue db' = queue_run es (td_queue db)" "td_receipts db' = td_receipts db"
  | i rep r t where "committed_as i (Some rep) db r t db'"
proof -
  have stay: "\<exists>es. q = queue_run es q" for q by (rule exI[of _ "[]"]) simp
  from assms(1) show thesis
  proof cases
    case (ts_queue e)
    then show thesis by (intro that(1)[of "[e]"]) simp_all
  next
    case (ts_other ss cs ms)
    then show thesis by (intro that(1)[of "[]"]) simp_all
  next
    case (ts_recover now faults commit rt req out)
    with recover_queue that(1) show thesis by blast
  next
    case (ts_callback he kind url raw reply)
    then show thesis
    proof (cases rule: callback_cases)
      case (turned_away code body)
      then show thesis by (intro that(1)[of "[]"]) simp_all
    next
      case (called i report res)
      from called(3) ok show thesis
      proof (cases rule: terminal_call_cases)
        case (committed r t)
        then show thesis using that by (cases report) (auto simp: committed_as_def)
      qed (auto intro!: that(1)[of "[]"])
    qed
  qed
qed

lemma receipt_clash_iff:
  "receipt_clash r rs \<longleftrightarrow> tr_report_id r \<in> tr_report_id ` set rs
     \<or> (tr_task_id r, tr_claim_fence r) \<in> (\<lambda>r. (tr_task_id r, tr_claim_fence r)) ` set rs"
  by (auto simp: receipt_clash_def list_ex_iff image_iff) metis+

lemma term_step_ok:
  assumes "term_step co wc tx db db'" and "term_ok db"
  shows "term_ok db' \<and> set (td_receipts db) \<subseteq> set (td_receipts db')
    \<and> (\<exists>es. td_queue db' = queue_run es (td_queue db))"
proof -
  have ok: "db_ok (td_queue db)" using assms(2) by (simp add: term_ok_def)
  from assms(1) ok show ?thesis
  proof (cases rule: step_cases)
    case (1 es)
    have "accounted db' rc" if "accounted db rc" for rc using accounted_run[OF ok that 1(1)] .
    with 1 assms(2) db_ok_run[OF ok, of es] show ?thesis by (auto simp: term_ok_def)
  next
    case (2 i rep r t)
    then obtain es where es: "td_queue db' = queue_run es (td_queue db)" by (auto simp: committed_as_def)
    have old: "accounted db' rc" if "accounted db rc" for rc using accounted_run[OF ok that es] .
    have new: "accounted db' (receipt_for rep t)"
      using 2 by (auto simp: accounted_def committed_as_def receipt_for_def)
    have "td_receipts db' = td_receipts db @ [receipt_for rep t]"
      "\<not> receipt_clash (receipt_for rep t) (td_receipts db)"
      using 2 by (auto simp: committed_as_def)
    with old new es assms(2) db_ok_run[OF ok, of es] show ?thesis
      by (auto simp: term_ok_def receipt_clash_iff)
  qed
qed

lemma term_run_ok:
  "term_run co wc tx db db' \<Longrightarrow> term_ok db \<Longrightarrow>
     term_ok db' \<and> set (td_receipts db) \<subseteq> set (td_receipts db') \<and> (\<exists>es. td_queue db' = queue_run es (td_queue db))"
proof (induction rule: term_run.induct)
  case (run_refl db)
  then show ?case by (auto intro: exI[of _ "[]"])
next
  case (run_step db db' db'')
  then show ?case using term_step_ok[OF run_step.hyps(2)] by (metis queue_run_append subset_trans)
qed

lemma term_ok_empty: "term_ok empty_term"
  by (simp add: term_ok_def empty_term_def db_ok_empty)

lemma reachable_ok: "reachable_term co wc tx db \<Longrightarrow> term_ok db"
  using term_run_ok term_ok_empty unfolding reachable_term_def by blast

lemma reachable_run: "reachable_term co wc tx db \<Longrightarrow> term_run co wc tx db db' \<Longrightarrow> reachable_term co wc tx db'"
  unfolding reachable_term_def by (rule term_run_trans)

lemma reachable_history:
  "reachable_term co wc tx db \<Longrightarrow> \<exists>es. td_queue db = queue_run es empty_db"
  using term_run_ok[of co wc tx empty_term db] term_ok_empty by (auto simp: reachable_term_def empty_term_def)

end
