(* ===== verification/TermSettle.thy ===== *)
theory TermSettle
  imports TermReach
begin

text \<open>
  One decision per claim. The receipts of a claim (a task under one fence) are a register that is written
  once: \<open>single_decision\<close> states that contract for any state and step, with what two observers of a run may
  conclude, and is interpreted on the receipts. \<open>propose\<close> is the register's abstract operation, which a
  terminal callback refines. \<open>wire_ok\<close> is what is documented of the JSON, UUID and digest functions.
\<close>

section \<open>The contract\<close>

locale single_decision =
  fixes ok :: "'s \<Rightarrow> bool"
    and step :: "'s \<Rightarrow> 's \<Rightarrow> bool"
    and register :: "'k \<Rightarrow> 's \<Rightarrow> 'd option"
  assumes ok_step: "ok s \<Longrightarrow> step s s' \<Longrightarrow> ok s'"
    and decided_step: "ok s \<Longrightarrow> step s s' \<Longrightarrow> register k s = Some d \<Longrightarrow> register k s' = Some d"
begin

lemma run_keeps:
  "step\<^sup>*\<^sup>* s s' \<Longrightarrow> ok s \<Longrightarrow> ok s' \<and> (\<forall>d. register k s = Some d \<longrightarrow> register k s' = Some d)"
  by (induction rule: rtranclp_induct) (auto intro: ok_step decided_step)

lemma decided_run: "step\<^sup>*\<^sup>* s s' \<Longrightarrow> ok s \<Longrightarrow> register k s = Some d \<Longrightarrow> register k s' = Some d"
  using run_keeps by blast

lemma agreement:
  assumes "step\<^sup>*\<^sup>* s s1" and "step\<^sup>*\<^sup>* s1 s2" and "ok s"
    and "register k s1 = Some d1" and "register k s2 = Some d2"
  shows "d1 = d2"
  using decided_run[OF assms(2) _ assms(4)] run_keeps[OF assms(1,3)] assms(5) by simp

end

section \<open>The register of a claim\<close>

definition decision :: "uuid \<times> int \<Rightarrow> termdb \<Rightarrow> (uuid \<times> string \<times> task_status) option" where
  "decision k db =
     map_option (\<lambda>rc. (tr_report_id rc, tr_payload rc, tr_task_status rc))
       (GetTerminalReportReceipt (fst k) (snd k) db)"

text \<open>A report proposed to a register: the first one is written, the same one again is answered with
  the status that stands, and any proposal may be left unanswered.\<close>

inductive propose ::
  "uuid \<Rightarrow> string \<Rightarrow> (uuid \<times> string \<times> task_status) option \<Rightarrow> task_status option
     \<Rightarrow> (uuid \<times> string \<times> task_status) option \<Rightarrow> bool" for u digest where
  first: "s \<in> {Completed, Failed} \<Longrightarrow> a \<in> {None, Some s} \<Longrightarrow> propose u digest None a (Some (u, digest, s))"
| again: "propose u digest (Some (u, digest, s)) (Some s) (Some (u, digest, s))"
| unanswered: "propose u digest x None x"

inductive_cases propose_decided: "propose u digest (Some x) a y"

lemma find_key:
  assumes "distinct (map f xs)" and "x \<in> set xs"
  shows "find (\<lambda>y. f y = f x) xs = Some x"
  using assms by (induction xs) (auto simp: image_iff)

lemma receipt_found:
  assumes "term_ok db" and "rc \<in> set (td_receipts db)"
  shows "GetTerminalReportReceipt (tr_task_id rc) (tr_claim_fence rc) db = Some rc"
  using find_key[of "\<lambda>r. (tr_task_id r, tr_claim_fence r)" "td_receipts db" rc] assms
  by (simp add: GetTerminalReportReceipt_def term_ok_def)

lemma decision_mono:
  assumes "set (td_receipts db) \<subseteq> set (td_receipts db')" and "term_ok db'" and "decision k db = Some d"
  shows "decision k db' = Some d"
proof -
  obtain rc where rc: "GetTerminalReportReceipt (fst k) (snd k) db = Some rc"
    and d: "d = (tr_report_id rc, tr_payload rc, tr_task_status rc)"
    using assms(3) by (auto simp: decision_def)
  from receipt_Some[OF rc] assms(1) have "rc \<in> set (td_receipts db')" "tr_task_id rc = fst k" "tr_claim_fence rc = snd k"
    by auto
  with receipt_found[OF assms(2), of rc] d show ?thesis by (simp add: decision_def)
qed

interpretation claim_register: single_decision term_ok "term_step co wc tx" decision
proof
  show "term_ok s'" if "term_ok s" "term_step co wc tx s s'" for s s'
    using term_step_ok[OF that(2,1)] by blast
  show "decision k s' = Some d" if "term_ok s" "term_step co wc tx s s'" "decision k s = Some d" for s s' k d
    using term_step_ok[OF that(2,1)] decision_mono[OF _ _ that(3)] by blast
qed

lemma term_run_star: "term_run co wc tx a b \<Longrightarrow> (term_step co wc tx)\<^sup>*\<^sup>* a b"
  by (induction rule: term_run.induct) auto

lemma find_append: "find P (xs @ ys) = (case find P xs of Some x \<Rightarrow> Some x | None \<Rightarrow> find P ys)"
  by (induction xs) simp_all

lemma committed_decision:
  assumes "committed_as i (Some rep) db r t db'"
  shows "decision (i, tp_fence rep) db = None"
    and "decision (i, tp_fence rep) db' = Some (tp_id rep, ti_payload_sha (tp_identity rep), status t)"
    and "k \<noteq> (i, tp_fence rep) \<Longrightarrow> decision k db' = decision k db"
proof -
  have t: "task_id t = i" and no: "\<not> receipt_clash (receipt_for rep t) (td_receipts db)"
    and rs: "td_receipts db' = td_receipts db @ [receipt_for rep t]"
    using assms by (auto simp: committed_as_def)
  have old: "GetTerminalReportReceipt i (tp_fence rep) db = None"
    using no t by (auto simp: receipt_None receipt_clash_iff receipt_for_def image_iff)
  have new: "GetTerminalReportReceipt j f db' =
      (case GetTerminalReportReceipt j f db of
         Some rc \<Rightarrow> Some rc
       | None \<Rightarrow> if i = j \<and> tp_fence rep = f then Some (receipt_for rep t) else None)" for j f
    by (simp add: GetTerminalReportReceipt_def rs find_append receipt_for_def t split: option.split)
  show "decision (i, tp_fence rep) db = None" using old by (simp add: decision_def)
  show "decision (i, tp_fence rep) db' = Some (tp_id rep, ti_payload_sha (tp_identity rep), status t)"
    using old by (simp add: decision_def new) (simp add: receipt_for_def)
  show "decision k db' = decision k db" if "k \<noteq> (i, tp_fence rep)"
    using that by (cases k) (auto simp: decision_def new split: option.split)
qed

section \<open>Properties\<close>

text \<open>How a reply reads as the register's answer.\<close>

definition answered ::
  "wire_codec \<Rightarrow> terminal_report \<Rightarrow> uuid \<Rightarrow> task_status option \<Rightarrow> http_reply \<Rightarrow> bool" where
  "answered wc rep i a reply \<longleftrightarrow>
     (case a of Some s \<Rightarrow> reply = HttpAck (report_ack wc rep i s) | None \<Rightarrow> \<forall>ack. reply \<noteq> HttpAck ack)"

lemma terminal_reply_cases:
  "answered wc rep i (case res of Inl _ \<Rightarrow> None | Inr (t, s) \<Rightarrow> Some s) (terminal_reply wc (Some rep) i res)"
  "terminal_reply wc None i res \<noteq> HttpAck ack"
  by (auto simp: answered_def terminal_reply_def error_reply_def split: sum.splits svc_error.splits prod.splits)

lemma answered_Inl: "answered wc rep i None (terminal_reply wc (Some rep) i (Inl e))"
  using terminal_reply_cases(1)[of wc rep i "Inl e"] by simp

lemma answered_Inr: "answered wc rep i (Some s) (terminal_reply wc (Some rep) i (Inr (t, s)))"
  using terminal_reply_cases(1)[of wc rep i "Inr (t, s)"] by simp

lemma call_proposes:
  assumes "terminal_call te tx i (Some rep) db res db'" and "db_ok (td_queue db)"
  obtains a where "answered wc rep i a (terminal_reply wc (Some rep) i res)"
    "propose (tp_id rep) (ti_payload_sha (tp_identity rep)) (decision (i, tp_fence rep) db) a
       (decision (i, tp_fence rep) db')"
    "\<And>k. k \<noteq> (i, tp_fence rep) \<Longrightarrow> decision k db' = decision k db"
  using assms
proof (cases rule: terminal_call_cases)
  case (refused e)
  with that[of None] show thesis by (simp add: answered_Inl propose.unanswered)
next
  case (replayed rp rc t)
  then have "decision (i, tp_fence rep) db = Some (tp_id rep, ti_payload_sha (tp_identity rep), tr_task_status rc)"
    by (simp add: decision_def same_report_def)
  with replayed that[of "Some (tr_task_status rc)"] show thesis by (simp add: answered_Inr propose.again)
next
  case (committed r t)
  note d = committed_decision[OF committed(1)]
  have s: "status t \<in> {Completed, Failed}" using committed(1) by (auto simp: committed_as_def)
  from committed(2) show thesis
  proof
    assume "res = Inr (t, status t)"
    with d s that[of "Some (status t)"] show thesis by (simp add: answered_Inr propose.first)
  next
    assume "\<exists>e. res = Inl e"
    with d propose.first[OF s, of None] that[of None] show thesis by (auto simp: answered_Inl)
  qed
qed simp

lemma callback_proposes:
  assumes "callback co wc tx he kind url raw db = (reply, db')" and "db_ok (td_queue db)"
  shows "(\<exists>rep i a. carries wc raw (Some rep) \<and> wc_uuid wc url = Some i \<and> answered wc rep i a reply
        \<and> propose (tp_id rep) (ti_payload_sha (tp_identity rep)) (decision (i, tp_fence rep) db) a
            (decision (i, tp_fence rep) db')
        \<and> (\<forall>k. k = (i, tp_fence rep) \<or> decision k db' = decision k db))
     \<or> (\<forall>ack. reply \<noteq> HttpAck ack) \<and> (\<forall>k. decision k db' = decision k db)"
  using assms(1)
proof (cases rule: callback_cases)
  case (called i report res)
  show ?thesis
  proof (cases report)
    case None
    from called(3) assms(2) have "\<forall>k. decision k db' = decision k db"
      by (cases rule: terminal_call_cases) (auto simp: None committed_as_def decision_def GetTerminalReportReceipt_def)
    with None called(4) show ?thesis by (simp add: terminal_reply_cases(2))
  next
    case (Some rep)
    with called show ?thesis by (metis call_proposes assms(2))
  qed
qed auto

end
