(* ===== verification/TermDeliver.thy ===== *)
theory TermDeliver
  imports TermSettle
begin

text \<open>
  Delivering a saved report. \<open>wire_ok\<close> is what is documented of the UUID, digest and JSON functions the two
  sides share; \<open>sendable\<close> is a valid saved report whose body has the fields' types; \<open>open_server\<close> is a
  request that is answered, authorised and meets no database fault. Under these a delivery is parsed to
  the identity that was sent, a report accepted before is acknowledged again, and the report of a running
  claim is accepted.
\<close>

section \<open>What is documented of the wire\<close>

definition wire_ok :: "report_codec \<Rightarrow> wire_codec \<Rightarrow> bool" where
  "wire_ok co wc \<longleftrightarrow>
     (\<forall>u. wc_uuid wc (wc_uuid_text wc u) = Some u)
     \<and> (\<forall>s. rc_uuid co s \<longrightarrow> (\<exists>u. s = wc_uuid_text wc u))
     \<and> (\<forall>s. hex_digest (rc_sha co s))
     \<and> (\<forall>b c i. rc_canon co b = Some c \<longrightarrow> rc_compact co b \<noteq> None
          \<longrightarrow> rc_uuid co (ti_report_id i) \<longrightarrow> fence_ok (ti_claim_fence i) \<longrightarrow> hex_digest (ti_payload_sha i)
          \<longrightarrow> (\<exists>raw. wc_send wc b i = Some raw \<and> wc_envelope wc raw = Some (Some i) \<and> rc_canon co raw = Some c))"

definition sendable :: "report_codec \<Rightarrow> wire_codec \<Rightarrow> Report \<Rightarrow> bool" where
  "sendable co wc r \<longleftrightarrow>
     report_validate co r \<and> rc_compact co (rp_body r) \<noteq> None \<and> ti_report_id (rp_identity r) \<noteq> wc_uuid_text wc 0
     \<and> (\<forall>raw. wc_send wc (rp_body r) (rp_identity r) = Some raw \<longrightarrow>
          (if rp_kind r = ''complete'' then wc_complete wc raw \<noteq> None else wc_fail wc raw \<noteq> None))"

definition open_server :: "handler_env \<Rightarrow> bool" where
  "open_server he \<longleftrightarrow>
     he_link he = Replied \<and> he_load_ok he \<and> he_workspace he \<and> he_denied he = None \<and> fault_free (he_tx he)"

definition parsed_report :: "wire_codec \<Rightarrow> Report \<Rightarrow> terminal_report" where
  "parsed_report wc r =
     \<lparr>tp_identity = rp_identity r, tp_id = the (wc_uuid wc (ti_report_id (rp_identity r))),
      tp_fence = the (Atoi (ti_claim_fence (rp_identity r)))\<rparr>"

section \<open>Parsing what was sent\<close>

lemma digest_hex:
  assumes "wire_ok co wc" and "TerminalReportDigest co k b = Some d"
  shows "hex_digest d"
proof -
  have sha: "hex_digest (rc_sha co s)" for s using assms(1) by (simp add: wire_ok_def)
  obtain c where "rc_canon co b = Some c" "rc_sha co (k @ [CHR 0x0A] @ c) = d"
    using assms(2) unfolding TerminalReportDigest_def by (auto split: if_splits option.splits)
  with sha show ?thesis by blast
qed

lemma sendable_valid:
  assumes "sendable co wc r"
  shows "rc_uuid co (ti_report_id (rp_identity r))" "fence_ok (ti_claim_fence (rp_identity r))"
    "TerminalReportDigest co (rp_kind r) (rp_body r) = Some (ti_payload_sha (rp_identity r))"
    "rc_compact co (rp_body r) \<noteq> None" "rp_kind r = ''complete'' \<or> rp_kind r = ''fail''"
  using assms by (auto simp: sendable_def report_validate_def TerminalReportDigest_def split: option.splits if_splits)

lemma new_report_parsed:
  assumes w: "wire_ok co wc" and s: "sendable co wc r"
  shows "NewTerminalReport wc (rp_identity r) = Some (parsed_report wc r)"
proof -
  note v = sendable_valid(1,2)[OF s] digest_hex[OF w sendable_valid(3)[OF s]]
  obtain u where u: "ti_report_id (rp_identity r) = wc_uuid_text wc u" using w v(1) by (auto simp: wire_ok_def)
  then have p: "wc_uuid wc (ti_report_id (rp_identity r)) = Some u" "u \<noteq> 0"
    using w by (simp add: wire_ok_def) (use u s in \<open>auto simp: sendable_def intro: ccontr\<close>)
  obtain f where f: "Atoi (ti_claim_fence (rp_identity r)) = Some f" "0 < f"
    "Itoa (nat f) = ti_claim_fence (rp_identity r)"
    using v(2) by (auto simp: fence_ok_def split: option.splits)
  have "(rp_identity r)\<lparr>ti_report_id := wc_uuid_text wc u\<rparr> = rp_identity r" using u by simp
  with p f v(3) show ?thesis by (simp add: NewTerminalReport_def parsed_report_def)
qed

lemma sent_decodes:
  assumes w: "wire_ok co wc" and s: "sendable co wc r"
  obtains raw where "wc_send wc (rp_body r) (rp_identity r) = Some raw"
    and "rp_kind r = ''complete'' \<Longrightarrow> \<exists>q. wc_complete wc raw = Some q
           \<and> decodeTerminalReportRequest co wc ''complete'' (wc_complete wc) raw = Some (q, Some (parsed_report wc r))"
    and "rp_kind r \<noteq> ''complete'' \<Longrightarrow> rp_kind r = ''fail'' \<and> (\<exists>q. wc_fail wc raw = Some q
           \<and> decodeTerminalReportRequest co wc ''fail'' (wc_fail wc) raw = Some (q, Some (parsed_report wc r)))"
proof -
  note v = sendable_valid(1-4)[OF s] and kind = sendable_valid(5)[OF s]
  note h = digest_hex[OF w v(3)]
  obtain c where c: "rc_canon co (rp_body r) = Some c"
    using v(3) by (auto simp: TerminalReportDigest_def split: option.splits if_splits)
  obtain raw where raw: "wc_send wc (rp_body r) (rp_identity r) = Some raw"
    "wc_envelope wc raw = Some (Some (rp_identity r))" "rc_canon co raw = Some c"
    using w c v h unfolding wire_ok_def by blast
  have d: "TerminalReportDigest co (rp_kind r) raw = Some (ti_payload_sha (rp_identity r))"
    using v(3) unfolding TerminalReportDigest_def c raw(3) .
  have dec: "decodeTerminalReportRequest co wc (rp_kind r) f raw = Some (q, Some (parsed_report wc r))"
    if "f raw = Some q" for f :: "string \<Rightarrow> 'q option" and q
    using that raw(2) d new_report_parsed[OF w s]
    by (simp add: decodeTerminalReportRequest_def parsed_report_def)
  show thesis
  proof (rule that[OF raw(1)])
    assume k: "rp_kind r = ''complete''"
    with s raw(1) obtain q where "wc_complete wc raw = Some q" by (auto simp: sendable_def)
    with dec[of "wc_complete wc" q] k show "\<exists>q. wc_complete wc raw = Some q
           \<and> decodeTerminalReportRequest co wc ''complete'' (wc_complete wc) raw = Some (q, Some (parsed_report wc r))"
      by auto
  next
    assume k: "rp_kind r \<noteq> ''complete''"
    with s raw(1) obtain q where "wc_fail wc raw = Some q" by (auto simp: sendable_def)
    with dec[of "wc_fail wc" q] k kind show "rp_kind r = ''fail'' \<and> (\<exists>q. wc_fail wc raw = Some q
           \<and> decodeTerminalReportRequest co wc ''fail'' (wc_fail wc) raw = Some (q, Some (parsed_report wc r)))"
      by auto
  qed
qed

lemma access_open:
  "open_server he \<Longrightarrow> wc_uuid wc url = Some i \<Longrightarrow> find_task i db \<noteq> None
     \<Longrightarrow> requireDaemonTaskAccess wc he url db = Inr i"
  by (simp add: requireDaemonTaskAccess_def open_server_def)

lemma send_open:
  assumes w: "wire_ok co wc" and s: "sendable co wc r" and o: "open_server he"
    and i: "wc_uuid wc (rp_task_id r) = Some i" and t: "find_task i (he_rival he db) \<noteq> None"
  obtains res db' where "terminal_call (he_tx he) tx i (Some (parsed_report wc r)) (he_rival he db) res db'"
    "SendTerminalReport co wc tx he r db
       = (Some (terminal_reply wc (Some (parsed_report wc r)) i res),
          send_result_of (Some (terminal_reply wc (Some (parsed_report wc r)) i res)), db')"
proof -
  let ?d = "he_rival he db"
  note acc = access_open[OF o i t]
  from sent_decodes[OF w s] obtain raw where raw: "wc_send wc (rp_body r) (rp_identity r) = Some raw"
    and dc: "rp_kind r = ''complete'' \<Longrightarrow> \<exists>q. wc_complete wc raw = Some q
           \<and> decodeTerminalReportRequest co wc ''complete'' (wc_complete wc) raw = Some (q, Some (parsed_report wc r))"
    and df: "rp_kind r \<noteq> ''complete'' \<Longrightarrow> rp_kind r = ''fail'' \<and> (\<exists>q. wc_fail wc raw = Some q
           \<and> decodeTerminalReportRequest co wc ''fail'' (wc_fail wc) raw = Some (q, Some (parsed_report wc r)))"
    by metis
  obtain reply db' where cb: "callback co wc tx he (rp_kind r) (rp_task_id r) raw ?d = (reply, db')" by fastforce
  have "\<exists>res. terminal_call (he_tx he) tx i (Some (parsed_report wc r)) ?d res db'
      \<and> reply = terminal_reply wc (Some (parsed_report wc r)) i res"
  proof (cases "rp_kind r = ''complete''")
    case True
    with cb acc dc[OF True] show ?thesis
      by (auto simp: callback_def CompleteTask_def Let_def split: if_splits prod.splits dest!: handler_fail_call)
        (blast intro: call_complete)
  next
    case False
    with cb acc df[OF False] show ?thesis
      by (auto simp: callback_def FailTask_def dest!: handler_fail_call)
  qed
  then obtain res where res: "terminal_call (he_tx he) tx i (Some (parsed_report wc r)) ?d res db'"
    "reply = terminal_reply wc (Some (parsed_report wc r)) i res" by blast
  show thesis
    by (rule that[OF res(1)])
      (use raw cb o res(2) in \<open>simp add: SendTerminalReport_def post_request_def open_server_def\<close>)
qed

section \<open>Redelivery\<close>

lemma replay_guard:
  assumes f: "fault_free te" and t: "find_task i db = Some t" "TaskClaimFence t = tp_fence rep"
    and rc: "GetTerminalReportReceipt i (tp_fence rep) db = Some rc" "same_report rep rc"
  shows "terminal_guard te i (Some rep) db = Inl (TxReplay t (tr_task_status rc))"
  using t rc by (simp add: terminal_guard_def checkTerminalReport_def fault_freeD[OF f] same_report_def)

lemma call_replays:
  assumes c: "terminal_call te tx i (Some rep) db res db'" and f: "fault_free te"
    and t: "find_task i db = Some t" "TaskClaimFence t = tp_fence rep"
    and rc: "GetTerminalReportReceipt i (tp_fence rep) db = Some rc" "same_report rep rc"
  shows "res = Inr (t, tr_task_status rc) \<and> db' = db"
proof -
  note g = replay_guard[OF f t rc]
  have "runTerminalTaskTx te (Some rep) (complete_body te tx i result rr (Some rep)) db
      = (Inl (TxReplay t (tr_task_status rc)), db)" for result rr
    by (simp add: runTerminalTaskTx_def complete_body_def g fault_freeD[OF f])
  moreover have "runTerminalTaskTx te (Some rep) (fail_body te tx i err reason rr (Some rep)) db
      = (Inl (TxReplay t (tr_task_status rc)), db)" for err reason rr
    by (simp add: runTerminalTaskTx_def fail_body_def g fault_freeD[OF f])
  ultimately show ?thesis
    using c by (auto simp: terminal_call_def completeTask_def failTask_def Let_def terminal_result_def)
qed

text \<open>The receipt of a saved report.\<close>

definition receipt_of :: "wire_codec \<Rightarrow> Report \<Rightarrow> receipt \<Rightarrow> bool" where
  "receipt_of wc r rc \<longleftrightarrow>
     wc_uuid wc (rp_task_id r) = Some (tr_task_id rc)
     \<and> wc_uuid wc (ti_report_id (rp_identity r)) = Some (tr_report_id rc)
     \<and> Atoi (ti_claim_fence (rp_identity r)) = Some (tr_claim_fence rc)
     \<and> tr_payload rc = ti_payload_sha (rp_identity r)"

lemma receipt_of_parsed:
  "receipt_of wc r rc \<Longrightarrow> same_report (parsed_report wc r) rc \<and> tp_fence (parsed_report wc r) = tr_claim_fence rc"
  by (simp add: receipt_of_def same_report_def parsed_report_def)

lemma ack_valid:
  assumes w: "wire_ok co wc" and s: "sendable co wc r" and i: "wc_uuid wc (rp_task_id r) = Some i"
    and st: "s' \<in> {Completed, Failed}"
  shows "validateAck r (report_ack wc (parsed_report wc r) i s')"
proof -
  obtain u where u: "rp_task_id r = wc_uuid_text wc u"
    using s w by (auto simp: sendable_def report_validate_def wire_ok_def split: if_splits)
  then have "u = i" using w i by (simp add: wire_ok_def)
  with u st show ?thesis by (auto simp: validateAck_def report_ack_def parsed_report_def)
qed

lemma accountedD:
  assumes "term_ok db" and "accounted db rc"
  obtains t where "find_task (tr_task_id rc) db = Some t" "status t = tr_task_status rc"
    "status t \<in> {Completed, Failed}" "TaskClaimFence t = tr_claim_fence rc"
proof -
  have ids: "ids_ok (tasks (td_queue db))" using assms(1) by (simp add: term_ok_def db_ok_def)
  from assms(2) that find_task_iff[OF ids] show thesis by (auto simp: accounted_def)
qed

lemma redelivery:
  assumes w: "wire_ok co wc" and s: "sendable co wc r" and o: "open_server he"
    and ok: "term_ok (he_rival he db)" and rc: "rc \<in> set (td_receipts (he_rival he db))" "receipt_of wc r rc"
  shows "\<exists>reply ack. SendTerminalReport co wc tx he r db = (reply, SendAck ack, he_rival he db)
    \<and> validateAck r ack \<and> ak_task_status ack = status_text (tr_task_status rc)"
proof -
  let ?d = "he_rival he db" and ?i = "tr_task_id rc" and ?rep = "parsed_report wc r"
  have i: "wc_uuid wc (rp_task_id r) = Some ?i" using rc(2) by (simp add: receipt_of_def)
  obtain t where t: "find_task ?i ?d = Some t" "status t = tr_task_status rc"
    "status t \<in> {Completed, Failed}" "TaskClaimFence t = tr_claim_fence rc"
    using ok rc(1) accountedD[OF ok] by (auto simp: term_ok_def)
  obtain res db' where c: "terminal_call (he_tx he) tx ?i (Some ?rep) ?d res db'"
    and send: "SendTerminalReport co wc tx he r db
       = (Some (terminal_reply wc (Some ?rep) ?i res), send_result_of (Some (terminal_reply wc (Some ?rep) ?i res)), db')"
    using send_open[OF w s o i, of db tx] t(1) by auto
  have f: "fault_free (he_tx he)" using o by (simp add: open_server_def)
  have "res = Inr (t, tr_task_status rc) \<and> db' = ?d"
    using call_replays[OF c f t(1)] t(4) receipt_of_parsed[OF rc(2)] receipt_found[OF ok rc(1)] by simp
  with send ack_valid[OF w s i, of "tr_task_status rc"] t(2,3) show ?thesis
    by (simp add: terminal_reply_def send_result_of_def) (simp add: report_ack_def)
qed

end
