(* ===== verification/TermAccept.thy ===== *)
theory TermAccept
  imports TermDeliver
begin

text \<open>
  When a terminal call commits: without database faults, on a row that is still in flight, a completion whose
  stored result parses and a failure whose retry meets no closed dependency gate are accepted. \<open>gated_abort\<close>
  is the failure whose retry does.
\<close>

section \<open>Parts that cannot fail by themselves\<close>

definition succeeds :: "tx_error + 'a \<Rightarrow> bool" where
  "succeeds m \<longleftrightarrow> (\<exists>x. m = Inr x)"

lemma succeeds_Inr [simp]: "succeeds (Inr x)" "\<not> succeeds (Inl e)"
  by (simp_all add: succeeds_def)

lemma succeeds_bind: "succeeds m \<Longrightarrow> (\<And>x. succeeds (f x)) \<Longrightarrow> succeeds (res_bind m f)"
  by (auto simp: succeeds_def)

lemma parts_succeed:
  assumes "fault_free te"
  shows "succeeds (pin_pointer te rr t c db)" "succeeds (retire_pointer te rr t c db)"
    "succeeds (createAssistantChatMessage te row db)" "succeeds (writeChatCompletionOutcome te tx c t result db)"
    "tx_output tx result \<noteq> None \<or> status t \<noteq> Completed \<Longrightarrow> succeeds (prepareTerminalReportComment te tx t result err db)"
    "succeeds (fail_pointer te reason err rr t c db)"
proof -
  note ff = fault_freeD[OF assms]
  show p: "succeeds (pin_pointer te rr t c db)" "succeeds (retire_pointer te rr t c db)" for db
    by (auto simp: pin_pointer_def retire_pointer_def ff split: option.split)
  show m: "succeeds (createAssistantChatMessage te row db)" for row db
    by (simp add: createAssistantChatMessage_def ff)
  show "succeeds (writeChatCompletionOutcome te tx c t result db)"
    by (auto simp: writeChatCompletionOutcome_def Let_def ff intro!: succeeds_bind m)
  show "succeeds (prepareTerminalReportComment te tx t result err db)" if "tx_output tx result \<noteq> None \<or> status t \<noteq> Completed"
    using that by (auto simp: prepareTerminalReportComment_def Let_def ff split: option.split)
  show "succeeds (fail_pointer te reason err rr t c db)"
    by (auto simp: fail_pointer_def Let_def ff intro!: succeeds_bind p split: option.split)
qed

lemma guard_open:
  assumes "fault_free te" and "find_task i db = Some r" and "status r \<in> {Running, Dispatched, WaitingLocalDirectory}"
    and "\<And>rep. report = Some rep \<Longrightarrow> TaskClaimFence r = tp_fence rep \<and> GetTerminalReportReceipt i (tp_fence rep) db = None"
  shows "terminal_guard te i report db = Inr ()"
  using assms(2-4) by (cases report) (auto simp: terminal_guard_def checkTerminalReport_def fault_freeD[OF assms(1)])

lemma write_row_hit:
  assumes ok: "ids_ok (tasks (td_queue db))" and r: "find_task i db = Some r" "fst u r"
    and i: "\<And>r. fst u r \<Longrightarrow> task_id r = i"
  shows "write_row u db = Inr (snd u r, db\<lparr>td_queue := exec_update u (td_queue db)\<rparr>)"
proof (cases "write_row u db")
  case (Inl e)
  with r find_task_in[OF r(1)] show ?thesis by (auto simp: write_row_miss)
next
  case (Inr x)
  obtain t db' where x: "x = (t, db')" by fastforce
  show ?thesis
    by (rule write_row_by_id[OF ok i Inr[unfolded x]]) (use r(1) Inr x in \<open>auto simp: write_row_Inr\<close>)
qed

lemma active_no_receipt:
  assumes "term_ok db" and "find_task i db = Some r" and "status r \<in> {Running, Dispatched, WaitingLocalDirectory}"
  shows "GetTerminalReportReceipt i f db = None"
proof (rule ccontr)
  assume "GetTerminalReportReceipt i f db \<noteq> None"
  then obtain rc where rc: "rc \<in> set (td_receipts db)" "tr_task_id rc = i" by (auto dest: receipt_Some)
  with assms(1) have "accounted db rc" by (simp add: term_ok_def)
  with rc(2) assms show False by (auto elim: accountedD[OF assms(1)])
qed

lemma no_clash:
  assumes "tp_id rep \<notin> tr_report_id ` set (td_receipts db)"
    and "GetTerminalReportReceipt (task_id t) (tp_fence rep) db = None"
  shows "\<not> receipt_clash (receipt_for rep t) (td_receipts db)"
  using assms by (auto simp: receipt_clash_iff receipt_for_def receipt_None)

section \<open>Completion\<close>

lemma hook_succeeds:
  assumes f: "fault_free te" and r: "\<And>rep. report = Some rep \<Longrightarrow> \<not> receipt_clash (receipt_for rep t) (td_receipts db)"
  shows "succeeds (terminalReportHook te report t db)"
  using r by (cases report)
    (auto simp: terminalReportHook_def CreateTerminalReportReceipt_def fault_freeD[OF f] Let_def receipt_for_def)

lemma run_succeeds:
  assumes f: "fault_free te" and b: "body db = Inr (t, child, db1)" and h: "succeeds (terminalReportHook te report t db1)"
  obtains db2 where "terminalReportHook te report t db1 = Inr db2"
    "runTerminalTaskTx te report body db = (Inr (t, child), db2)"
  using b h by (auto simp: succeeds_def runTerminalTaskTx_def fault_freeD[OF f])

lemma complete_commits:
  assumes f: "fault_free te" and ok: "term_ok db" and r: "find_task i db = Some r" "status r = Running"
    and rep: "\<And>rep. report = Some rep \<Longrightarrow> TaskClaimFence r = tp_fence rep
         \<and> tp_id rep \<notin> tr_report_id ` set (td_receipts db)"
    and out: "tx_output tx result \<noteq> None"
  obtains t db' where "completeTask te tx i result rr report db = (Inr (t, Completed), db')"
    "committed_as i report db r t db'" "status t = Completed"
proof -
  let ?u = "CompleteAgentTask (te_now te) i (Some result) rr" and ?t = "snd (CompleteAgentTask (te_now te) i (Some result) rr) r"
  have q: "db_ok (td_queue db)" and ids: "ids_ok (tasks (td_queue db))" using ok by (simp_all add: term_ok_def db_ok_def)
  have none: "GetTerminalReportReceipt i g db = None" for g using active_no_receipt[OF ok r(1)] r(2) by simp
  have g: "terminal_guard te i report db = Inr ()" by (rule guard_open[OF f r(1)]) (use r(2) rep none in auto)
  have w: "write_row ?u db = Inr (?t, db\<lparr>td_queue := exec_update ?u (td_queue db)\<rparr>)"
    by (rule write_row_hit[OF ids r(1)]) (use r(2) find_task_in[OF r(1)] in \<open>auto simp: complete_upd\<close>)
  have "succeeds (complete_body te tx i result rr report db)"
    by (auto simp: complete_body_def g w fault_freeD[OF f] settle_recoveries_def Let_def complete_upd
        intro!: succeeds_bind parts_succeed[OF f] disjI1 out split: option.split)
  then obtain t child db1 where b: "complete_body te tx i result rr report db = Inr (t, child, db1)"
    by (auto simp: succeeds_def)
  obtain r' where r': "find_task i db = Some r'" "t = snd ?u r'"
    "queue_and_receipts db1 = (exec_update ?u (td_queue db), td_receipts db)"
    by (rule complete_body_Inr[OF b ids]) auto
  have t: "t = ?t" "td_receipts db1 = td_receipts db" using r' r(1) by (auto simp: queue_and_receipts_def)
  have st: "status t = Completed" and id: "task_id t = i" using t(1) find_task_in[OF r(1)] by (simp_all add: complete_upd)
  have "succeeds (terminalReportHook te report t db1)"
    by (rule hook_succeeds[OF f])
      (use rep none id no_clash[of _ db t] in \<open>simp add: t(2)\<close>)
  then obtain db2 where h: "terminalReportHook te report t db1 = Inr db2"
    and run: "runTerminalTaskTx te report (complete_body te tx i result rr report) db = (Inr (t, child), db2)"
    using run_succeeds[where body = "complete_body te tx i result rr report", OF f b] by metis
  obtain r2 where "committed_as i report db r2 t db2" using complete_committed[OF b h q] by blast
  then have "committed_as i report db r t db2" using r(1) by (auto simp: committed_as_def)
  with that run st show thesis by (simp add: completeTask_def terminal_result_def)
qed

section \<open>Failure\<close>

lemma create_retry_open:
  assumes p: "find_task i db = Some p" and g: "\<And>g. issue_id p = Some g \<Longrightarrow> \<not> closed_gates (td_queue db) g"
    and new: "find_task (te_new_task te) db = None"
  shows "succeeds (create_retry te ceiling fire i db)"
proof -
  have "\<not> gate_rejects (closed_gates (td_queue db)) (retry_row n now fire (Some ceiling) p)" for n now
    using g by (auto simp: gate_rejects_def retry_row_def Let_def split: option.splits)
  moreover have "\<not> list_ex (\<lambda>r. task_id r = te_new_task te) (tasks (td_queue db))"
    unfolding list_ex_iff using new by (metis find_task_None imageI)
  ultimately show ?thesis
    using p by (auto simp: create_retry_def Let_def split: prod.split option.split)
qed

lemma fail_retry_succeeds:
  assumes f: "fault_free te" and "\<And>ceiling fire. plan = Some (ceiling, fire) \<Longrightarrow> succeeds (create_retry te ceiling fire i db)"
  shows "succeeds (fail_retry te plan i t db)"
  using assms(2) by (auto simp: fail_retry_def fault_freeD[OF f] intro!: succeeds_bind split: option.split prod.split)

lemma fail_commits:
  assumes f: "fault_free te" and ok: "term_ok db"
    and r: "find_task i db = Some r" "status r \<in> {Running, Dispatched, WaitingLocalDirectory}"
    and rep: "\<And>rep. report = Some rep \<Longrightarrow> TaskClaimFence r = tp_fence rep
         \<and> tp_id rep \<notin> tr_report_id ` set (td_receipts db)"
    and gate: "\<And>g. issue_id r = Some g \<Longrightarrow> \<not> closed_gates (td_queue db) g"
    and new: "find_task (te_new_task te) db = None"
  obtains t db' where "failTask te tx i err reason rr report db = (Inr (t, Failed), db')"
    "committed_as i report db r t db'" "status t = Failed"
proof -
  let ?err = "SanitizeTextForPostgres err"
  let ?reason = "NormalizeDaemonReason (if reason = [] then Classify ?err else reason) ?err"
  let ?u = "FailAgentTask (te_now te) i (Some ?err) (opt_text ?reason) rr"
  let ?d = "db\<lparr>td_queue := exec_update ?u (td_queue db)\<rparr>" and ?t = "snd ?u r"
  have q: "db_ok (td_queue db)" and ids: "ids_ok (tasks (td_queue db))" using ok by (simp_all add: term_ok_def db_ok_def)
  have in_r: "r \<in> set (tasks (td_queue db))" "task_id r = i" using find_task_in[OF r(1)] by simp_all
  have none: "GetTerminalReportReceipt i g db = None" for g using active_no_receipt[OF ok r(1)] r(2) by simp
  have g: "terminal_guard te i report db = Inr ()" by (rule guard_open[OF f r(1)]) (use r(2) rep none in auto)
  have w: "write_row ?u db = Inr (?t, ?d)"
    by (rule write_row_hit[OF ids r(1)]) (use r(2) in_r in \<open>auto simp: fail_upd\<close>)
  have ids': "ids_ok (tasks (td_queue ?d))"
    using db_ok_exec[OF q, of "QUpdate (te_now te) (SFail i (Some ?err) (opt_text ?reason) rr)"]
    by (simp add: terminal_stmt_admitted db_ok_def)
  have ft: "find_task i ?d = Some ?t"
    unfolding find_task_iff[OF ids'] using hit_in_update[OF in_r(1), of ?u] r(2) in_r by (auto simp: fail_upd)
  have nt: "find_task (te_new_task te) ?d = None"
    using new by (auto simp: find_task_None exec_update_def update_where_def image_iff fail_upd split: if_splits)
  have cr: "succeeds (create_retry te ceiling fire i (db2))" if "queue_and_receipts db2 = queue_and_receipts ?d" for ceiling fire db2
    by (rule create_retry_open[of i db2 ?t])
      (use that ft nt gate in \<open>auto simp: queue_and_receipts_def find_task_def fail_upd exec_update_def\<close>)
  have ptr: "\<exists>db2. (case chat_session_id ?t of None \<Rightarrow> Inr ?d | Some c \<Rightarrow> fail_pointer te ?reason ?err rr ?t c ?d) = Inr db2
      \<and> queue_and_receipts db2 = queue_and_receipts ?d"
    using parts_succeed(6)[OF f] frame_fail_pointer by (fastforce simp: succeeds_def split: option.split)
  then obtain db2 where p2: "(case chat_session_id ?t of None \<Rightarrow> Inr ?d | Some c \<Rightarrow> fail_pointer te ?reason ?err rr ?t c ?d) = Inr db2"
    and q2: "queue_and_receipts db2 = queue_and_receipts ?d" by blast
  have y: "succeeds (fail_retry te (fail_plan te ?reason i db) i ?t db2)"
    by (rule fail_retry_succeeds[OF f cr[OF q2]])
  have o: "succeeds (fail_outcome te tx ?reason ?err ?t child db3)" for child db3
    by (auto simp: fail_outcome_def fault_freeD[OF f] fail_upd intro!: succeeds_bind parts_succeed[OF f] split: option.split)
  have "succeeds (fail_body te tx i ?err ?reason rr report db)"
    using y o by (auto simp: fail_body_def g w p2 fault_freeD[OF f] settle_recoveries_def intro!: succeeds_bind)
  then obtain t child db1 where b: "fail_body te tx i ?err ?reason rr report db = Inr (t, child, db1)"
    by (auto simp: succeeds_def)
  have t: "t = ?t" and rc: "td_receipts db1 = td_receipts db"
    by (rule fail_body_Inr[OF b ids]; use r(1) in \<open>auto simp: queue_and_receipts_def\<close>)+
  have st: "status t = Failed" and id: "task_id t = i" using t in_r by (simp_all add: fail_upd)
  have "succeeds (terminalReportHook te report t db1)"
    by (rule hook_succeeds[OF f])
      (use rep none id no_clash[of _ db t] in \<open>simp add: rc\<close>)
  then obtain db4 where h: "terminalReportHook te report t db1 = Inr db4"
    and run: "runTerminalTaskTx te report (fail_body te tx i ?err ?reason rr report) db = (Inr (t, child), db4)"
    using run_succeeds[where body = "fail_body te tx i ?err ?reason rr report", OF f b] by metis
  obtain r2 where "committed_as i report db r2 t db4" using fail_committed[OF b h q] by blast
  then have "committed_as i report db r t db4" using r(1) by (auto simp: committed_as_def)
  with that run st show thesis by (simp add: failTask_def Let_def terminal_result_def)
qed

end
