(* ===== verification/TermDemo.thy ===== *)
theory TermDemo
  imports TermAccept
begin

text \<open>
  A wire and a server for the examples. A UUID is a number in unary, a body is its own canonical text, an
  envelope is three lines in front of it, a digest is a hexadecimal text of the right length. The server is
  the queue of \<open>TaskQueueSafety\<close>'s example after task 1 was started, and without faults.
\<close>

section \<open>A wire\<close>

definition demo_digest :: "string \<Rightarrow> string" where
  "demo_digest s = replicate (length s mod 64) CHR ''1'' @ replicate (64 - length s mod 64) CHR ''0''"

definition first_line :: "string \<Rightarrow> string" where
  "first_line s = takeWhile (\<lambda>c. c \<noteq> CHR 0x0A) s"

definition later_lines :: "string \<Rightarrow> string" where
  "later_lines s = drop 1 (dropWhile (\<lambda>c. c \<noteq> CHR 0x0A) s)"

definition demo_seal :: "TerminalReportIdentity \<Rightarrow> string \<Rightarrow> string" where
  "demo_seal i c = ''!'' @ ti_report_id i @ [CHR 0x0A] @ ti_claim_fence i @ [CHR 0x0A]
     @ ti_payload_sha i @ [CHR 0x0A] @ c"

definition demo_open :: "string \<Rightarrow> (TerminalReportIdentity \<times> string) option" where
  "demo_open raw =
     (if \<not> HasPrefix raw ''!'' then None
      else let a = drop 1 raw; b = later_lines a; c = later_lines b
           in Some (\<lparr>ti_report_id = first_line a, ti_claim_fence = first_line b, ti_payload_sha = first_line c\<rparr>,
                    later_lines c))"

definition demo_body :: "string \<Rightarrow> string" where
  "demo_body raw = (case demo_open raw of None \<Rightarrow> raw | Some (_, c) \<Rightarrow> c)"

definition demo_rc :: report_codec where
  "demo_rc = \<lparr>rc_uuid = list_all (\<lambda>c. c = CHR ''x''), rc_canon = (\<lambda>s. Some (demo_body s)),
     rc_sha = demo_digest, rc_compact = Some\<rparr>"

definition demo_wc :: wire_codec where
  "demo_wc = \<lparr>wc_uuid = (\<lambda>s. Some (length s)), wc_uuid_text = (\<lambda>u. replicate u CHR ''x''),
     wc_envelope = (\<lambda>raw. Some (map_option fst (demo_open raw))),
     wc_complete = (\<lambda>raw. Some
       \<lparr>cq_pr_url = [], cq_output = demo_body raw, cq_session_id = ''s'', cq_work_dir = [], cq_durable_work_dir = [],
        cq_branch_name = [], cq_rollout_missing = False, cq_retired_session_id = [], cq_execution = []\<rparr>),
     wc_fail = (\<lambda>raw. Some
       \<lparr>fq_error = demo_body raw, fq_session_id = ''s'', fq_work_dir = [], fq_durable_work_dir = [],
        fq_failure_reason = [], fq_branch_name = [], fq_rollout_missing = False, fq_retired_session_id = [],
        fq_execution = []\<rparr>),
     wc_marshal = cq_output, wc_send = (\<lambda>b i. Some (demo_seal i (demo_body b))), wc_fail_body = (\<lambda>q. ''fail '' @ fq_error q)\<rparr>"

lemma lines_cons:
  assumes "CHR 0x0A \<notin> set a"
  shows "first_line (a @ CHR 0x0A # b) = a" "later_lines (a @ CHR 0x0A # b) = b"
proof -
  have a: "\<And>c. c \<in> set a \<Longrightarrow> c \<noteq> CHR 0x0A" using assms by metis
  show "first_line (a @ CHR 0x0A # b) = a" unfolding first_line_def by (subst takeWhile_append2) (use a in auto)
  show "later_lines (a @ CHR 0x0A # b) = b" unfolding later_lines_def by (subst dropWhile_append2) (use a in auto)
qed

lemma demo_open_seal:
  assumes "CHR 0x0A \<notin> set (ti_report_id i)" "CHR 0x0A \<notin> set (ti_claim_fence i)" "CHR 0x0A \<notin> set (ti_payload_sha i)"
  shows "demo_open (demo_seal i c) = Some (i, c)"
  using assms by (simp add: demo_open_def demo_seal_def lines_cons Let_def)

lemma fence_no_newline: "fence_ok s \<Longrightarrow> CHR 0x0A \<notin> set s"
  using Itoa_digits[of "CHR 0x0A"] by (auto simp: fence_ok_def is_digit_def split: option.splits)

lemma no_newline:
  assumes "list_all P s" and "\<not> P (CHR 0x0A)"
  shows "CHR 0x0A \<notin> set s"
  using assms by (auto simp: list_all_iff)

lemma hex_no_newline: "hex_digest s \<Longrightarrow> CHR 0x0A \<notin> set s"
  unfolding hex_digest_def by (elim conjE no_newline) simp

lemma demo_wire_ok: "wire_ok demo_rc demo_wc"
proof -
  have "length (demo_digest s) = 64" for s
    using mod_less_divisor[of 64 "length s"] by (simp add: demo_digest_def)
  moreover have "P a \<Longrightarrow> list_all P (replicate n a)" for P and a :: char and n
    by (induction n) simp_all
  ultimately have "hex_digest (demo_digest s)" for s
    unfolding hex_digest_def by (simp add: demo_digest_def)
  moreover have "demo_open (demo_seal i c) = Some (i, c)"
    if "list_all (\<lambda>c. c = CHR ''x'') (ti_report_id i)" "fence_ok (ti_claim_fence i)" "hex_digest (ti_payload_sha i)" for i c
    by (rule demo_open_seal[OF no_newline[OF that(1)] fence_no_newline[OF that(2)] hex_no_newline[OF that(3)]]) simp
  moreover have "\<exists>u. s = replicate u CHR ''x''" if "list_all (\<lambda>c. c = CHR ''x'') s" for s
  proof
    show "s = replicate (length s) CHR ''x''" using that by (induction s) simp_all
  qed
  ultimately show ?thesis
    unfolding wire_ok_def by (simp add: demo_rc_def demo_wc_def demo_body_def)
qed

section \<open>A server\<close>

definition demo_te :: term_env where
  "demo_te = \<lparr>te_now = 200, te_fault = (\<lambda>_. None), te_hook = True, te_coordination = False, te_no_action = False,
     te_chat = \<lparr>cf_workspace = True, cf_pending = 0, cf_channel = False, cf_opening = False\<rparr>,
     te_snapshot = [], te_owners_alive = True, te_new_task = 2, te_new_row = 3, te_commit = Replied\<rparr>"

definition demo_tx :: text_env where
  "demo_tx = \<lparr>tx_redact = (\<lambda>s. s), tx_output = Some\<rparr>"

definition demo_he :: handler_env where
  "demo_he = \<lparr>he_rival = (\<lambda>db. db), he_link = Replied, he_load_ok = True, he_workspace = True, he_denied = None,
     he_tx = demo_te\<rparr>"

definition demo_running :: "queue_event list" where
  "demo_running = demo_claimed @ [QUpdate 110 (SStart 1)]"

definition demo_db :: "queue_event list \<Rightarrow> termdb" where
  "demo_db es = empty_term\<lparr>td_queue := queue_run es empty_db\<rparr>"

text \<open>The report of a claim of task 1: its output is the body.\<close>

definition saved_report :: "string \<Rightarrow> string \<Rightarrow> string \<Rightarrow> Report" where
  "saved_report kind fence body =
     \<lparr>rp_task_id = ''x'', rp_kind = kind,
      rp_identity = \<lparr>ti_report_id = ''xx'', ti_claim_fence = fence,
                     ti_payload_sha = demo_digest (kind @ [CHR 0x0A] @ body)\<rparr>,
      rp_body = body, rp_created_at = 5\<rparr>"

definition demo_sent :: "http_reply option \<times> send_result \<times> termdb" where
  "demo_sent = SendTerminalReport demo_rc demo_wc demo_tx demo_he (saved_report ''complete'' ''1'' ''ok'') (demo_db demo_running)"

definition demo_settled :: termdb where
  "demo_settled = snd (snd demo_sent)"

lemma queue_reachable:
  "td_queue db = queue_run es q \<Longrightarrow> term_run co wc tx (db\<lparr>td_queue := q\<rparr>) db"
proof (induction es arbitrary: q)
  case Nil
  then have "db\<lparr>td_queue := q\<rparr> = db" by simp
  then show ?case by (simp add: run_refl)
next
  case (Cons e es)
  then have "term_run co wc tx (db\<lparr>td_queue := queue_exec e q\<rparr>) db" by simp
  moreover have "term_step co wc tx (db\<lparr>td_queue := q\<rparr>) (db\<lparr>td_queue := queue_exec e q\<rparr>)"
    using ts_queue[of co wc tx "db\<lparr>td_queue := q\<rparr>" e] by simp
  ultimately show ?case by (metis term_run_trans term_run_single)
qed

lemma demo_term_reachable: "reachable_term co wc tx (demo_db es)"
  using queue_reachable[of "demo_db es" es empty_db co wc tx]
  by (simp add: reachable_term_def demo_db_def empty_term_def)

lemma send_step:
  assumes "SendTerminalReport co wc tx he r db = (reply, res, db')" and run: "term_run co wc tx db (he_rival he db)"
  shows "term_run co wc tx db db'"
proof (cases "wc_send wc (rp_body r) (rp_identity r)")
  case None
  with assms show ?thesis by (simp add: SendTerminalReport_def run_refl)
next
  case (Some raw)
  obtain out d where cb: "callback co wc tx he (rp_kind r) (rp_task_id r) raw (he_rival he db) = (out, d)" by fastforce
  with assms Some have "db' = he_rival he db \<or> db' = d"
    by (auto simp: SendTerminalReport_def post_request_def Let_def split: db_reply.splits)
  moreover have "term_run co wc tx db d" using run ts_callback[OF cb] by (rule run_step)
  ultimately show ?thesis using run by auto
qed

lemma demo_settled_reachable: "reachable_term demo_rc demo_wc demo_tx demo_settled"
proof -
  have "SendTerminalReport demo_rc demo_wc demo_tx demo_he (saved_report ''complete'' ''1'' ''ok'') (demo_db demo_running)
      = (fst demo_sent, fst (snd demo_sent), demo_settled)"
    by (simp add: demo_sent_def demo_settled_def)
  moreover have "term_run demo_rc demo_wc demo_tx (demo_db demo_running) (he_rival demo_he (demo_db demo_running))"
    by (simp add: demo_he_def run_refl)
  ultimately show ?thesis using demo_term_reachable reachable_run send_step by metis
qed

lemma demo_running_row:
  "map_option (\<lambda>t. (status t, TaskClaimFence t, issue_id t, runtime_id t)) (find_task 1 (demo_db demo_running))
     = Some (Running, 1, Some 4, Some 5)"
  by code_simp

lemma demo_settled_receipts:
  "map (\<lambda>rc. ((tr_report_id rc, tr_task_id rc, tr_claim_fence rc), tr_task_status rc, tr_payload rc)) (td_receipts demo_settled)
     = [((2, 1, 1), Completed, ti_payload_sha (rp_identity (saved_report ''complete'' ''1'' ''ok'')))]"
  by code_simp

lemma demo_settled_facts:
  obtains rc where "td_receipts demo_settled = [rc]" "tr_report_id rc = 2" "tr_task_id rc = 1" "tr_claim_fence rc = 1"
    "tr_task_status rc = Completed" "tr_payload rc = ti_payload_sha (rp_identity (saved_report ''complete'' ''1'' ''ok''))"
  using demo_settled_receipts by (auto simp only: map_eq_Cons_conv prod.inject list.map_disc_iff)

end
