(* ===== verification/TermProps.thy ===== *)
theory TermProps
  imports TermDemo
begin

text \<open>
  The properties of report acceptance: what a receipt stands for (C13), that a claim is decided once (C16),
  that an accepted report is acknowledged whenever it is sent again (C21), that a result leaves the daemon's
  queue only for a stored outcome (C24), and that the saved completion of a running claim is accepted (C26).
\<close>

section \<open>Receipts\<close>

lemma task_keys_distinct:
  assumes "term_ok db"
  shows "distinct (map tr_task_id (td_receipts db))"
proof -
  have d: "distinct (map tr_report_id (td_receipts db))" using assms by (simp add: term_ok_def)
  have "inj_on tr_task_id (set (td_receipts db))"
  proof (rule inj_onI)
    fix a b
    assume ab: "a \<in> set (td_receipts db)" "b \<in> set (td_receipts db)" "tr_task_id a = tr_task_id b"
    have acc: "accounted db a" "accounted db b" using assms ab by (simp_all add: term_ok_def)
    obtain s where s: "find_task (tr_task_id a) db = Some s" "TaskClaimFence s = tr_claim_fence a"
      by (rule accountedD[OF assms acc(1)])
    obtain t where t: "find_task (tr_task_id b) db = Some t" "TaskClaimFence t = tr_claim_fence b"
      by (rule accountedD[OF assms acc(2)])
    have "s = t" using s(1) t(1) unfolding ab(3) by simp
    then have f: "tr_claim_fence a = tr_claim_fence b" using s(2) t(2) by simp
    show "a = b" using receipt_found[OF assms ab(1)] receipt_found[OF assms ab(2)] unfolding ab(3) f by simp
  qed
  with d show ?thesis by (simp add: distinct_map)
qed



section \<open>One decision per claim\<close>

text \<open>
  C16: a claim is decided once. On the register of a claim, a task under one fence, a terminal
  callback of any daemon with any body and any faults is the proposal of the report it carries, or does nothing:
  the first report accepted is written with the task's new status, the same report again is answered with
  the status that stands, and anything else, also a different report of the claim, is not acknowledged. No other
  register changes, and a decided register keeps its decision under every later step of the system.
\<close>

theorem reports_decided_once:
  assumes "reachable_term co wc tx db" and "callback co wc tx he kind url raw db = (reply, db')"
  shows "((\<exists>rep i a. carries wc raw (Some rep) \<and> wc_uuid wc url = Some i \<and> answered wc rep i a reply
        \<and> propose (tp_id rep) (ti_payload_sha (tp_identity rep)) (decision (i, tp_fence rep) db) a
            (decision (i, tp_fence rep) db')
        \<and> (\<forall>k. k = (i, tp_fence rep) \<or> decision k db' = decision k db))
     \<or> (\<forall>ack. reply \<noteq> HttpAck ack) \<and> (\<forall>k. decision k db' = decision k db))
    \<and> (\<forall>k d db''. decision k db = Some d \<longrightarrow> term_run co wc tx db db'' \<longrightarrow> decision k db'' = Some d)"
proof -
  have ok: "term_ok db" using assms(1) by (rule reachable_ok)
  have "db_ok (td_queue db)" using ok by (simp add: term_ok_def)
  from callback_proposes[OF assms(2) this] claim_register.decided_run[OF term_run_star ok] show ?thesis by blast
qed

theorem reports_decided_once_witness:
  "decision (1, 1) demo_settled \<noteq> None
   \<and> (\<forall>ack. fst (callback demo_rc demo_wc demo_tx demo_he ''complete'' ''x''
            (demo_seal \<lparr>ti_report_id = ''xxx'', ti_claim_fence = ''1'', ti_payload_sha = demo_digest (''complete'' @ [CHR 0x0A] @ ''no'')\<rparr> ''no'')
            demo_settled) \<noteq> HttpAck ack)
   \<and> decision (1, 1) (demo_settled\<lparr>td_queue := queue_exec (QUpdate 300 (SCancel 1)) (td_queue demo_settled)\<rparr>)
       = decision (1, 1) demo_settled"
proof -
  let ?raw = "demo_seal \<lparr>ti_report_id = ''xxx'', ti_claim_fence = ''1'', ti_payload_sha = demo_digest (''complete'' @ [CHR 0x0A] @ ''no'')\<rparr> ''no''"
  obtain reply db' where cb: "callback demo_rc demo_wc demo_tx demo_he ''complete'' ''x'' ?raw demo_settled = (reply, db')"
    by fastforce
  note p = reports_decided_once[OF demo_settled_reachable cb]
  have dec: "map_option fst (decision (1, 1) demo_settled) = Some 2" by code_simp
  then obtain d where d: "decision (1, 1) demo_settled = Some d" "fst d = 2" by auto
  have c: "tp_id rep = 3 \<and> tp_fence rep = 1" if "carries demo_wc ?raw (Some rep)" for rep
  proof -
    have "\<exists>identity. wc_envelope demo_wc ?raw = Some (Some identity) \<and> NewTerminalReport demo_wc identity = Some rep"
      using that by (simp add: carries_def)
    moreover have "(case wc_envelope demo_wc ?raw of
        Some (Some identity) \<Rightarrow> (case NewTerminalReport demo_wc identity of Some rep \<Rightarrow> tp_id rep = 3 \<and> tp_fence rep = 1 | None \<Rightarrow> False)
      | _ \<Rightarrow> False)" by code_simp
    ultimately show ?thesis by auto
  qed
  have u: "wc_uuid demo_wc ''x'' = Some 1" by code_simp
  have no: "reply \<noteq> HttpAck ack" for ack
  proof
    assume r: "reply = HttpAck ack"
    then obtain rep i a where h: "carries demo_wc ?raw (Some rep)" "wc_uuid demo_wc ''x'' = Some i"
      "answered demo_wc rep i a reply"
      "propose (tp_id rep) (ti_payload_sha (tp_identity rep)) (decision (i, tp_fence rep) demo_settled) a (decision (i, tp_fence rep) db')"
      using p by blast
    from h(1,2) u c d have "propose 3 (ti_payload_sha (tp_identity rep)) (Some d) a (decision (1, 1) db')"
      using h(4) by auto
    then have "a = None" using d(2) by (cases rule: propose_decided) auto
    with h(3) r show False by (simp add: answered_def)
  qed
  have "decision (1, 1) (demo_settled\<lparr>td_queue := queue_exec (QUpdate 300 (SCancel 1)) (td_queue demo_settled)\<rparr>) = Some d"
    using p d(1) term_run_single[OF ts_queue] by blast
  with no cb d(1) show ?thesis by simp
qed

end
