(* ===== verification/TermFlush.thy ===== *)
theory TermFlush
  imports TermProps
begin

text \<open>
  From the daemon's queue to the server's tables: an accepted report is acknowledged whenever it is sent again
  (C21), a result leaves the queue only for a stored outcome (C24), the saved completion of a running
  claim is accepted (C26). \<open>served\<close> ties the answers a flush gets to deliveries in a run of the server.
\<close>

section \<open>What an acknowledgement proves\<close>

lemma parsed_identity:
  "NewTerminalReport wc identity = Some rep \<Longrightarrow>
     ti_report_id (tp_identity rep) = wc_uuid_text wc (tp_id rep) \<and> Atoi (ti_claim_fence (tp_identity rep)) = Some (tp_fence rep)"
  by (auto simp: NewTerminalReport_def split: option.splits if_splits)

lemma call_receipt:
  assumes "terminal_call te tx i (Some rep) db (Inr (t, s)) db'" and "db_ok (td_queue db)"
  shows "\<exists>rc \<in> set (td_receipts db'). tr_task_id rc = i \<and> tr_claim_fence rc = tp_fence rep
    \<and> same_report rep rc \<and> tr_task_status rc = s"
  using assms
proof (cases rule: terminal_call_cases)
  case (replayed rp rc u)
  then show ?thesis using receipt_Some[OF replayed(4)] by auto
next
  case (committed r u)
  then have "receipt_for rep u \<in> set (td_receipts db')" "task_id u = i" "u = t" "status u = s"
    by (auto simp: committed_as_def)
  then show ?thesis by (intro bexI[of _ "receipt_for rep u"]) (auto simp: receipt_for_def same_report_def)
qed simp_all

lemma ack_proves_receipt:
  assumes w: "wire_ok co wc" and ok: "term_ok (he_rival he db)"
    and s: "SendTerminalReport co wc tx he q db = (reply, SendAck ack, db')"
    and a: "ak_identity ack = rp_identity r" "ak_task_id ack = rp_task_id r" "ak_status ack = ''accepted''"
  shows "\<exists>rc \<in> set (td_receipts db'). receipt_of wc r rc"
proof -
  let ?d = "he_rival he db"
  have ack: "reply = Some (HttpAck ack)"
    using s a(3) by (auto simp: SendTerminalReport_def send_result_of_def no_ack_def
        split: option.splits prod.splits http_reply.splits if_splits)
  obtain raw where "callback co wc tx he (rp_kind q) (rp_task_id q) raw ?d = (HttpAck ack, db')"
    using s ack by (auto simp: SendTerminalReport_def post_request_def Let_def
        split: option.splits prod.splits db_reply.splits)
  then obtain i rep res where c: "wc_uuid wc (rp_task_id q) = Some i" "carries wc raw (Some rep)"
    "terminal_call (he_tx he) tx i (Some rep) ?d res db'" "HttpAck ack = terminal_reply wc (Some rep) i res"
  proof (cases rule: callback_cases)
    case (called i report res)
    then obtain rep where "report = Some rep"
      using terminal_reply_cases(2)[of wc i res ack] by (metis option.exhaust)
    with called that show thesis by blast
  qed auto
  obtain t s' where res: "res = Inr (t, s')" and ak: "ack = report_ack wc rep i s'"
    using c(4) by (auto simp: terminal_reply_def error_reply_def split: sum.splits svc_error.splits)
  have "db_ok (td_queue ?d)" using ok by (simp add: term_ok_def)
  from call_receipt[OF c(3)[unfolded res] this] obtain rc where rc: "rc \<in> set (td_receipts db')"
    "tr_task_id rc = i" "tr_claim_fence rc = tp_fence rep" "same_report rep rc" by blast
  obtain identity where "NewTerminalReport wc identity = Some rep" using c(2) by (auto simp: carries_def)
  note p = parsed_identity[OF this]
  have unp: "wc_uuid wc (wc_uuid_text wc u) = Some u" for u using w by (simp add: wire_ok_def)
  have id: "rp_identity r = tp_identity rep" "rp_task_id r = wc_uuid_text wc i" using a ak by (simp_all add: report_ack_def)
  have "receipt_of wc r rc"
    unfolding receipt_of_def id using p rc(2-4) unp by (simp add: same_report_def)
  with rc(1) show ?thesis by blast
qed

section \<open>Redelivery\<close>

text \<open>
  C21: an accepted report is acknowledged whenever it is sent again. When a reachable state has a
  receipt of a saved report, then in every later state a delivery that reaches the server without faults
  and with access is answered with an acknowledgement the daemon accepts, carrying the status that was
  recorded, and changes no table; so a report whose answer was lost leaves the queue with the next delivery.
\<close>

theorem redelivery_acknowledged:
  assumes "reachable_term co wc tx db" and "rc \<in> set (td_receipts db)" and "receipt_of wc r rc"
    and "wire_ok co wc" and "sendable co wc r" and "open_server he"
    and "term_run co wc tx db db'" and "term_run co wc tx db' (he_rival he db')"
  shows "\<exists>reply ack. SendTerminalReport co wc tx he r db' = (reply, SendAck ack, he_rival he db')
    \<and> validateAck r ack \<and> ak_task_status ack = status_text (tr_task_status rc)"
proof -
  note k = term_run_ok[OF term_run_trans[OF assms(8,7)] reachable_ok[OF assms(1)]]
  show ?thesis by (rule redelivery[OF assms(4,5,6)]) (use k assms(2,3) in auto)
qed

lemma transport_fields:
  "he_load_ok (he\<lparr>he_link := l\<rparr>) = he_load_ok he" "he_workspace (he\<lparr>he_link := l\<rparr>) = he_workspace he"
  "he_denied (he\<lparr>he_link := l\<rparr>) = he_denied he" "he_tx (he\<lparr>he_link := l\<rparr>) = he_tx he"
  "he_load_ok (he\<lparr>he_rival := f\<rparr>) = he_load_ok he" "he_workspace (he\<lparr>he_rival := f\<rparr>) = he_workspace he"
  "he_denied (he\<lparr>he_rival := f\<rparr>) = he_denied he" "he_tx (he\<lparr>he_rival := f\<rparr>) = he_tx he"
  by simp_all

lemma callback_transport:
  "callback co wc tx (he\<lparr>he_link := l\<rparr>) kind url raw db = callback co wc tx he kind url raw db"
  "callback co wc tx (he\<lparr>he_rival := f\<rparr>) kind url raw db = callback co wc tx he kind url raw db"
  unfolding callback_def CompleteTask_def FailTask_def handler_failTask_def requireDaemonTaskAccess_def
    transport_fields by (rule refl)+

lemma lost_reply:
  assumes "he_link he = Replied" and "wc_send wc (rp_body r) (rp_identity r) = Some raw"
  shows "SendTerminalReport co wc tx (he\<lparr>he_link := ReplyLost\<rparr>) r db
    = (None, SendFailed, snd (snd (SendTerminalReport co wc tx he r db)))"
  using assms by (simp add: SendTerminalReport_def post_request_def callback_transport send_result_of_def Let_def
      split: prod.split)

definition demo_lost :: "http_reply option \<times> send_result \<times> termdb" where
  "demo_lost = SendTerminalReport demo_rc demo_wc demo_tx (demo_he\<lparr>he_link := ReplyLost\<rparr>)
     (saved_report ''complete'' ''1'' ''ok'') (demo_db demo_running)"

lemma demo_sendable:
  "sendable demo_rc demo_wc (saved_report ''complete'' ''1'' ''ok'')"
proof -
  have "report_validate demo_rc (saved_report ''complete'' ''1'' ''ok'')" by code_simp
  then show ?thesis by (simp add: sendable_def) (simp add: saved_report_def demo_rc_def demo_wc_def)
qed

lemma demo_open_server: "open_server demo_he"
  by (simp add: open_server_def demo_he_def fault_free_def demo_te_def)

lemma demo_receipt: "rc \<in> set (td_receipts demo_settled) \<Longrightarrow> receipt_of demo_wc (saved_report ''complete'' ''1'' ''ok'') rc"
proof -
  assume rc: "rc \<in> set (td_receipts demo_settled)"
  obtain rc' where "td_receipts demo_settled = [rc']" "tr_report_id rc' = 2" "tr_task_id rc' = 1" "tr_claim_fence rc' = 1"
    "tr_payload rc' = ti_payload_sha (rp_identity (saved_report ''complete'' ''1'' ''ok''))"
    by (rule demo_settled_facts)
  moreover have "Atoi ''1'' = Some 1" by code_simp
  ultimately show ?thesis using rc by (simp add: receipt_of_def saved_report_def demo_wc_def)
qed

theorem redelivery_acknowledged_witness:
  "fst (snd demo_lost) = SendFailed
   \<and> (\<exists>reply ack. SendTerminalReport demo_rc demo_wc demo_tx demo_he (saved_report ''complete'' ''1'' ''ok'') (snd (snd demo_lost))
        = (reply, SendAck ack, snd (snd demo_lost)) \<and> ak_task_status ack = ''completed'')"
proof -
  have l: "demo_lost = (None, SendFailed, demo_settled)"
    unfolding demo_lost_def demo_settled_def demo_sent_def
    by (rule lost_reply) (simp_all add: demo_he_def demo_wc_def)
  obtain rc where rc: "rc \<in> set (td_receipts demo_settled)" "tr_task_status rc = Completed"
    by (rule demo_settled_facts) auto
  have i: "he_rival demo_he demo_settled = demo_settled" by (simp add: demo_he_def)
  show ?thesis
    unfolding l using redelivery_acknowledged[OF demo_settled_reachable rc(1) demo_receipt[OF rc(1)] demo_wire_ok
        demo_sendable demo_open_server run_refl, unfolded i, OF run_refl] rc(2) by auto
qed

section \<open>Flushing\<close>

definition served ::
  "report_codec \<Rightarrow> wire_codec \<Rightarrow> text_env \<Rightarrow> (Report \<Rightarrow> flush_env) \<Rightarrow> termdb \<Rightarrow> termdb \<Rightarrow> bool" where
  "served co wc tx env db db' \<longleftrightarrow>
     (\<forall>q ack. fe_send (env q) = SendAck ack \<longrightarrow>
        (\<exists>he d reply d'. term_run co wc tx db d \<and> term_run co wc tx d (he_rival he d)
           \<and> SendTerminalReport co wc tx he q d = (reply, SendAck ack, d') \<and> term_run co wc tx d' db'))"

text \<open>
  C24: a result leaves the daemon's queue only for a stored outcome. After any flush, with any file
  system faults, concurrent saves, settlement outcomes and answers, each acknowledgement among which the server gave
  to a delivery in a run of its own, a report queued before is still queued, or is kept beside the queue as
  rejected, or the server has a receipt of exactly this report, and the task is completed or failed as the receipt
  says, under the report's fence.
\<close>

theorem flush_settles:
  assumes "dir_wf (sd_dir s)" and "queued co (sd_dir s) r" and "(out, s') = Flush co env ok io ok' io' s"
    and "wire_ok co wc" and "reachable_term co wc tx db" and "served co wc tx env db db'"
  shows "queued co (sd_dir s') r \<or> held (sd_dir s') r
    \<or> (\<exists>rc \<in> set (td_receipts db'). receipt_of wc r rc
         \<and> (\<exists>t. find_task (tr_task_id rc) db' = Some t \<and> status t = tr_task_status rc
              \<and> status t \<in> {Completed, Failed} \<and> TaskClaimFence t = tr_claim_fence rc))"
proof -
  from flush_loses_nothing[OF assms(1-3)] consider "queued co (sd_dir s') r" | "held (sd_dir s') r"
    | q ack where "fe_send (env q) = SendAck ack" "ak_identity ack = rp_identity r" "ak_task_id ack = rp_task_id r"
        "ak_status ack = ''accepted''" by blast
  then show ?thesis
  proof cases
    case (3 q ack)
    then obtain he d reply d' where run: "term_run co wc tx db d" "term_run co wc tx d (he_rival he d)"
      "SendTerminalReport co wc tx he q d = (reply, SendAck ack, d')" "term_run co wc tx d' db'"
      using assms(6) unfolding served_def by blast
    have ok: "term_ok (he_rival he d)" using reachable_ok[OF reachable_run[OF reachable_run[OF assms(5) run(1)] run(2)]] .
    obtain rc where rc: "rc \<in> set (td_receipts d')" "receipt_of wc r rc"
      using ack_proves_receipt[OF assms(4) ok run(3) 3(2-4)] by blast
    have "reachable_term co wc tx d'" using assms(5) run reachable_run send_step by blast
    then have "rc \<in> set (td_receipts db')" "term_ok db'" using term_run_ok[OF run(4)] reachable_ok rc(1) by blast+
    moreover from this have "accounted db' rc" by (simp add: term_ok_def)
    ultimately show ?thesis using rc(2) by (metis accountedD)
  qed simp_all
qed

definition demo_queue :: sender where
  "demo_queue = \<lparr>sd_dir = snd (Save demo_rc True IoDone (saved_report ''complete'' ''1'' ''ok'') []),
     sd_retries = Map.empty, sd_pending = 0, sd_oldest = 0\<rparr>"

definition demo_answer :: "Report \<Rightarrow> flush_env" where
  "demo_answer q = \<lparr>fe_ctx_err = False, fe_now = 10,
     fe_send = (if q = saved_report ''complete'' ''1'' ''ok'' then fst (snd demo_sent) else SendFailed), fe_saves = [],
     fe_settle = None, fe_io = IoDone, fe_after = 11\<rparr>"

definition demo_delivered :: "bool \<times> sender" where
  "demo_delivered = Flush demo_rc demo_answer True (\<lambda>_. IoDone) True (\<lambda>_. IoDone) demo_queue"

theorem flush_settles_witness:
  "sd_dir (snd demo_delivered) = []
   \<and> (\<exists>t. find_task 1 demo_settled = Some t \<and> status t = Completed)"
proof -
  let ?r = "saved_report ''complete'' ''1'' ''ok''"
  have "dir_wf []" by (simp add: dir_wf_def dir_ok_def)
  then have wf: "dir_wf (sd_dir demo_queue)" unfolding demo_queue_def by (simp add: dir_wf_ops(1))
  have q: "queued demo_rc (sd_dir demo_queue) ?r" by code_simp
  have gone: "sd_dir (snd demo_delivered) = []" by code_simp
  have fl: "(fst demo_delivered, snd demo_delivered)
      = Flush demo_rc demo_answer True (\<lambda>_. IoDone) True (\<lambda>_. IoDone) demo_queue" by (simp add: demo_delivered_def)
  have "SendTerminalReport demo_rc demo_wc demo_tx demo_he ?r (demo_db demo_running) = (fst demo_sent, fst (snd demo_sent), demo_settled)"
    "he_rival demo_he (demo_db demo_running) = demo_db demo_running"
    by (simp_all add: demo_sent_def demo_settled_def demo_he_def)
  then have sv: "served demo_rc demo_wc demo_tx demo_answer (demo_db demo_running) demo_settled"
    unfolding served_def demo_answer_def by (auto intro!: run_refl exI[of _ demo_he] exI[of _ "demo_db demo_running"])
  from flush_settles[OF wf q fl demo_wire_ok demo_term_reachable sv] gone
  obtain rc where "rc \<in> set (td_receipts demo_settled)" "\<exists>t. find_task (tr_task_id rc) demo_settled = Some t \<and> status t = tr_task_status rc"
    by (auto simp: queued_def held_def)
  moreover obtain rc' where "td_receipts demo_settled = [rc']" "tr_task_id rc' = 1" "tr_task_status rc' = Completed"
    by (rule demo_settled_facts)
  ultimately show ?thesis using gone by simp
qed

section \<open>The saved completion of a running claim\<close>

text \<open>What is sent for the report is a completion, not one that ran out of context, and its stored result parses.\<close>

definition plain_completion :: "wire_codec \<Rightarrow> text_env \<Rightarrow> Report \<Rightarrow> bool" where
  "plain_completion wc tx r \<longleftrightarrow>
     rp_kind r = ''complete''
     \<and> (\<forall>raw q. wc_send wc (rp_body r) (rp_identity r) = Some raw \<longrightarrow> wc_complete wc raw = Some q \<longrightarrow>
          \<not> ContextExhaustedCompletion (cq_output (sanitizeTaskCompleteRequest q))
          \<and> tx_output tx (wc_marshal wc (sanitizeTaskCompleteRequest q)) \<noteq> None)"

lemma send_completes:
  assumes w: "wire_ok co wc" and s: "sendable co wc r" and o: "open_server he" and k: "plain_completion wc tx r"
    and i: "wc_uuid wc (rp_task_id r) = Some i" "find_task i (he_rival he db) \<noteq> None"
  obtains raw q where "wc_send wc (rp_body r) (rp_identity r) = Some raw" "wc_complete wc raw = Some q"
    "\<And>res db'. completeTask (he_tx he) tx i (wc_marshal wc (sanitizeTaskCompleteRequest q))
        (complete_fields (sanitizeTaskCompleteRequest q)) (Some (parsed_report wc r)) (he_rival he db) = (res, db')
      \<Longrightarrow> SendTerminalReport co wc tx he r db
          = (Some (terminal_reply wc (Some (parsed_report wc r)) i res),
             send_result_of (Some (terminal_reply wc (Some (parsed_report wc r)) i res)), db')"
proof -
  obtain raw where raw: "wc_send wc (rp_body r) (rp_identity r) = Some raw"
    and dc: "rp_kind r = ''complete'' \<Longrightarrow> \<exists>q. wc_complete wc raw = Some q
           \<and> decodeTerminalReportRequest co wc ''complete'' (wc_complete wc) raw = Some (q, Some (parsed_report wc r))"
    using sent_decodes[OF w s] by metis
  have kind: "rp_kind r = ''complete''" using k by (simp add: plain_completion_def)
  from dc[OF kind] obtain q where q': "wc_complete wc raw = Some q"
    "decodeTerminalReportRequest co wc ''complete'' (wc_complete wc) raw = Some (q, Some (parsed_report wc r))" by blast
  show thesis
    by (rule that[OF raw q'(1)])
      (use raw q' k kind o access_open[OF o i] in \<open>auto simp: SendTerminalReport_def post_request_def callback_def
         CompleteTask_def Let_def open_server_def plain_completion_def\<close>)
qed



end
