(* ===== verification/TermFail.thy ===== *)
theory TermFail
  imports TermFlush
begin

text \<open>
  Failed runs: a session a run condemned is not resumed by its chat (C28), a failure whose retry meets a closed
  dependency gate is never recorded (C29), and a stale completion fails the claim that replaced it (C31).
\<close>

section \<open>Resume pointers\<close>

text \<open>The next turn of the chat would resume the session on this runtime.\<close>

definition resumes :: "termdb \<Rightarrow> uuid \<Rightarrow> uuid \<Rightarrow> uuid \<Rightarrow> string \<Rightarrow> bool" where
  "resumes db c ag rt sess \<longleftrightarrow>
     list_ex (\<lambda>s. cs_id s = c \<and> cs_agent_id s = ag \<and> cs_runtime_id s = Some rt \<and> cs_session_id s = Some sess)
       (td_sessions db)"

lemma resumes_cong: "td_sessions db' = td_sessions db \<Longrightarrow> resumes db' c ag rt s = resumes db c ag rt s"
  by (simp add: resumes_def)

lemma clear_resumes:
  "resumes (ClearChatSessionSessionIfMatches c ag s (Some rt) db) c ag rt d \<longleftrightarrow> resumes db c ag rt d \<and> d \<noteq> s"
proof
  assume "resumes (ClearChatSessionSessionIfMatches c ag s (Some rt) db) c ag rt d"
  then obtain x where x: "x \<in> set (td_sessions (ClearChatSessionSessionIfMatches c ag s (Some rt) db))"
    "cs_id x = c" "cs_agent_id x = ag" "cs_runtime_id x = Some rt" "cs_session_id x = Some d"
    by (auto simp: resumes_def list_ex_iff)
  let ?P = "\<lambda>y. cs_id y = c \<and> cs_session_id y = Some s \<and> cs_runtime_id y = Some rt \<and> cs_agent_id y = ag"
  obtain y where y: "y \<in> set (td_sessions db)" "x = (if ?P y then y\<lparr>cs_session_id := None, cs_runtime_id := None\<rparr> else y)"
    using x(1) by (auto simp: ClearChatSessionSessionIfMatches_def in_update_where)
  then have "\<not> ?P y" using x(5) by (cases "?P y") simp_all
  with x y have "x = y" "d \<noteq> s" by auto
  with x y show "resumes db c ag rt d \<and> d \<noteq> s" by (auto simp: resumes_def list_ex_iff)
next
  assume "resumes db c ag rt d \<and> d \<noteq> s"
  then obtain x where x: "x \<in> set (td_sessions db)" "cs_id x = c" "cs_agent_id x = ag" "cs_runtime_id x = Some rt"
    "cs_session_id x = Some d" "d \<noteq> s"
    by (auto simp: resumes_def list_ex_iff)
  then have "x \<in> set (td_sessions (ClearChatSessionSessionIfMatches c ag s (Some rt) db))"
    by (simp add: ClearChatSessionSessionIfMatches_def in_update_where) (intro bexI[of _ x], auto)
  then show "resumes (ClearChatSessionSessionIfMatches c ag s (Some rt) db) c ag rt d"
    unfolding resumes_def list_ex_iff using x(2-5) by blast
qed

lemma retire_resumes:
  assumes "retire_pointer te rr t c db = Inr db'" and "runtime_id t = Some rt"
  shows "resumes db' c (agent_id t) rt d \<longleftrightarrow> resumes db c (agent_id t) rt d \<and> rr_retired_session_id rr \<noteq> Some d"
  using assms by (auto simp: retire_pointer_def tx_Inr clear_resumes split: option.splits)

lemma fail_pointer_resumes:
  assumes "fail_pointer te reason err rr t c db = Inr db'" and "runtime_id t = Some rt"
    and "ResumeUnsafeFailure reason err"
  shows "resumes db' c (agent_id t) rt d \<Longrightarrow>
    dead_session rr t \<noteq> Some d \<and> rr_retired_session_id rr \<noteq> Some d"
proof -
  obtain db1 where 1: "(case dead_session rr t of None \<Rightarrow> db1 = db
      | Some s \<Rightarrow> db1 = ClearChatSessionSessionIfMatches c (agent_id t) s (Some rt) db)"
    and 2: "retire_pointer te rr t c db1 = Inr db'"
    using assms by (auto simp: fail_pointer_def Let_def tx_Inr split: option.splits)
  assume "resumes db' c (agent_id t) rt d"
  with retire_resumes[OF 2 assms(2)] 1 show ?thesis by (auto simp: clear_resumes split: option.splits)
qed

text \<open>The statements after the pointer is settled leave it alone.\<close>

lemma sessions_message: "createAssistantChatMessage te row db = Inr db' \<Longrightarrow> td_sessions db' = td_sessions db"
  by (auto simp: createAssistantChatMessage_def tx_Inr)

lemma sessions_comment: "prepareTerminalReportComment te tx t result err db = Inr db' \<Longrightarrow> td_sessions db' = td_sessions db"
  by (auto simp: prepareTerminalReportComment_def Let_def tx_Inr split: option.splits if_splits)

lemma sessions_chat: "writeChatCompletionOutcome te tx c t result db = Inr db' \<Longrightarrow> td_sessions db' = td_sessions db"
  by (auto simp: writeChatCompletionOutcome_def Let_def tx_Inr dest!: sessions_message split: if_splits)

lemma sessions_outcome: "fail_outcome te tx reason err t child db = Inr db' \<Longrightarrow> td_sessions db' = td_sessions db"
  by (auto simp: fail_outcome_def tx_Inr dest!: sessions_message sessions_comment split: option.splits if_splits)

lemma sessions_retry: "fail_retry te plan i t db = Inr (child, db') \<Longrightarrow> td_sessions db' = td_sessions db"
  by (drule fail_retry_Inr) (auto simp: create_retry_iff)

lemma sessions_hook: "terminalReportHook te report t db = Inr db' \<Longrightarrow> td_sessions db' = td_sessions db"
  by (drule hook_Inr) simp

lemmas sessions_frames = sessions_outcome sessions_retry sessions_hook sessions_comment sessions_chat

section \<open>A call on a row in flight\<close>

lemma active_call:
  assumes ok: "term_ok db" and r: "find_task i db = Some r" "status r \<in> {Running, Dispatched, WaitingLocalDirectory}"
    and run: "runTerminalTaskTx te report body db = (out, db1)"
    and res: "terminal_result te i report (out, db1) = (Inr (t, s), db')"
    and rep: "\<And>t s. body db = Inl (TxReplay t s) \<Longrightarrow> terminal_guard te i report db = Inl (TxReplay t s)"
  obtains child d1 where "body db = Inr (t, child, d1)" "terminalReportHook te report t d1 = Inr db'"
  using run
proof (cases rule: run_cases)
  case (landed u child d1)
  with res that show thesis by (auto simp: terminal_result_def split: option.splits if_splits)
next
  case (aborted e)
  have "\<not> task_terminal r" using r(2) by (auto simp: task_terminal_def)
  with res aborted r(1) obtain u x where e: "e = TxReplay u x"
    by (auto simp: terminal_result_def split: tx_error.splits option.splits if_splits)
  have nr: "no_replay (terminalReportHook te report t d)" for t d by (rule no_replay_parts)
  have "body db = Inl (TxReplay u x)"
    using run aborted e nr
    by (cases "body db") (auto simp: runTerminalTaskTx_def sql_def no_replay_def res_bind_def
        split: if_splits sum.splits prod.splits db_reply.splits)
  from rep[OF this] obtain rep' rc where "report = Some rep'" "GetTerminalReportReceipt i (tp_fence rep') db = Some rc"
    by (rule guard_replay)
  with active_no_receipt[OF ok r] show thesis by simp
qed

lemma fail_call:
  assumes ok: "term_ok db" and r: "find_task i db = Some r" "status r \<in> {Running, Dispatched, WaitingLocalDirectory}"
    and call: "failTask te tx i err reason rr report db = (Inr (t, s), db')"
    and e: "err' = SanitizeTextForPostgres err"
    and n: "reason' = NormalizeDaemonReason (if reason = [] then Classify err' else reason) err'"
  obtains child d1 where "fail_body te tx i err' reason' rr report db = Inr (t, child, d1)"
    "terminalReportHook te report t d1 = Inr db'"
proof -
  obtain out d where run: "runTerminalTaskTx te report (fail_body te tx i err' reason' rr report) db = (out, d)"
    by fastforce
  have res: "terminal_result te i report (out, d) = (Inr (t, s), db')"
    using call run unfolding failTask_def Let_def e[symmetric] n[symmetric] by simp
  show thesis
    by (rule active_call[OF ok r run res]) (erule body_replay(2), erule (1) that)
qed

lemma complete_call:
  assumes ok: "term_ok db" and r: "find_task i db = Some r" "status r \<in> {Running, Dispatched, WaitingLocalDirectory}"
    and call: "completeTask te tx i result rr report db = (Inr (t, s), db')"
  obtains child d1 where "complete_body te tx i result rr report db = Inr (t, child, d1)"
    "terminalReportHook te report t d1 = Inr db'"
proof -
  obtain out d where run: "runTerminalTaskTx te report (complete_body te tx i result rr report) db = (out, d)"
    by fastforce
  have res: "terminal_result te i report (out, d) = (Inr (t, s), db')"
    using call run by (simp add: completeTask_def)
  show thesis
    by (rule active_call[OF ok r run res]) (erule body_replay(1), erule (1) that)
qed

lemma complete_resumes:
  assumes "complete_body te tx i result rr report db = Inr (t, child, d1)" and ids: "ids_ok (tasks (td_queue db))"
    and "chat_session_id t = Some c" and "runtime_id t = Some rt" and "resumes d1 c (agent_id t) rt d"
  shows "rr_retired_session_id rr \<noteq> Some d"
proof -
  obtain db2 db3 db4 where p: "retire_pointer te rr t c db2 = Inr db3"
    "writeChatCompletionOutcome te tx c t result db3 = Inr db4" "td_sessions d1 = td_sessions db4"
    using assms(1,3) by (auto simp: complete_body_def settle_recoveries_def Let_def tx_Inr
        dest!: sessions_comment split: if_splits option.splits)
  have "resumes db3 c (agent_id t) rt d" using assms(5) p(3) sessions_chat[OF p(2)] by (simp add: resumes_def)
  with retire_resumes[OF p(1) assms(4)] show ?thesis by simp
qed


text \<open>Session \<open>s\<close> of chat 9 is the pointer while task 1 of that chat runs.\<close>

definition demo_chat_queue :: "queue_event list" where
  "demo_chat_queue = [demo_fleet,
     QInsert 10 1 (InsertChat \<lparr>ip_agent_id = 7, ip_runtime_id = Some 5, ip_priority = 2, ip_lineage = 0\<rparr> (Some 9) False None) True,
     QUpdate 100 (SClaim 7 5 50 60 (\<lambda>_. False)), QUpdate 110 (SStart 1)]"

definition demo_chat :: termdb where
  "demo_chat = (demo_db demo_chat_queue)\<lparr>td_sessions :=
     [\<lparr>cs_id = 9, cs_agent_id = 7, cs_session_id = Some ''s'', cs_runtime_id = Some 5, cs_work_dir = None\<rparr>]\<rparr>"

definition demo_condemned :: "(svc_error + agent_task \<times> task_status) \<times> termdb" where
  "demo_condemned = failTask demo_te demo_tx 1 ''x'' ''iteration_limit'' demo_report None demo_chat"


end
