(* ===== verification/TermStale.thy ===== *)
theory TermStale
  imports TermFail
begin

text \<open>
  Two ways a result is not settled as it means to be: a failure whose retry meets a closed dependency gate is
  never recorded (C29), and a completion that came too late fails the claim that replaced it (C31).
\<close>

section \<open>A closed gate\<close>

lemma gated_create:
  assumes "find_task i db = Some p" and "issue_id p = Some g" and "closed_gates (td_queue db) g" and "te_owners_alive te"
  shows "create_retry te ceiling fire i db = Inl TxOther"
  using assms by (auto simp: create_retry_def Let_def gate_rejects_def retry_row_def)

lemma failed_row_found:
  assumes "ids_ok (tasks (td_queue db))" and "find_task i db = Some r" and "fst (FailAgentTask now i e rs rr) r"
  shows "find_task i (db\<lparr>td_queue := exec_update (FailAgentTask now i e rs rr) (td_queue db)\<rparr>)
    = Some (snd (FailAgentTask now i e rs rr) r)"
proof -
  let ?u = "FailAgentTask now i e rs rr"
  have in_r: "r \<in> set (tasks (td_queue db))" "task_id r = i" using find_task_in[OF assms(2)] by simp_all
  have "map task_id (tasks (exec_update ?u (td_queue db))) = map task_id (tasks (td_queue db))"
    by (simp add: exec_update_def update_where_def fail_upd)
  then have "ids_ok (tasks (exec_update ?u (td_queue db)))" using assms(1) by (simp add: ids_ok_def)
  then show ?thesis
    using hit_in_update[OF in_r(1) assms(3)] in_r(2) by (simp add: find_task_iff fail_upd)
qed

text \<open>What the failure transaction reaches when a retry is wanted: its pointer step leaves the queue alone.\<close>

lemma gated_retry:
  assumes ids: "ids_ok (tasks (td_queue db))" and r: "find_task i db = Some r" "fst (FailAgentTask (te_now te) i (Some err) (opt_text reason) rr) r"
    and gate: "issue_id r = Some g" "closed_gates (td_queue db) g" "te_owners_alive te"
    and q: "td_queue db2 = exec_update (FailAgentTask (te_now te) i (Some err) (opt_text reason) rr) (td_queue db)"
  shows "create_retry te ceiling fire i db2 = Inl TxOther"
proof -
  let ?u = "FailAgentTask (te_now te) i (Some err) (opt_text reason) rr"
  have "find_task i db2 = Some (snd ?u r)"
    using failed_row_found[OF ids r] q by (simp add: find_task_def)
  then show ?thesis
    by (rule gated_create) (use gate q in \<open>simp_all add: fail_upd exec_update_def\<close>)
qed

lemma wanted_plan:
  assumes "retryEligible reason r" and "find_task i db = Some r" and "te_fault te StPreRead = None"
  obtains ceiling fire where "fail_plan te reason i db = Some (ceiling, fire)"
  using assms by (auto simp: fail_plan_def Let_def retryEligible_def)

lemma successor_failed:
  "hasRunnableSuccessor ts (snd (FailAgentTask now i e rs rr) r) = hasRunnableSuccessor ts r"
  unfolding hasRunnableSuccessor_def fail_upd ..

text \<open>
  C29: a failure whose retry meets a closed gate is never recorded. When a task in flight fails with a reason that
  entitles it to a retry, no successor is visible, and the dependency gate of its issue is closed, then the
  insert of the retry raises and takes the whole transaction with it: every such call leaves all tables as they
  were, the task in flight, and is no success; without faults and under the current fence it is a server
  error, on which the daemon keeps its report and sends it again.
\<close>

theorem gated_failure_unrecorded:
  assumes "reachable_term co wc tx db" and "find_task i db = Some r"
    and "status r \<in> {Running, Dispatched, WaitingLocalDirectory}"
    and "issue_id r = Some g" and "closed_gates (td_queue db) g"
    and "err' = SanitizeTextForPostgres err"
    and "reason' = NormalizeDaemonReason (if reason = [] then Classify err' else reason) err'"
    and "retryEligible reason' r" and "\<not> hasRunnableSuccessor (te_snapshot te) r"
    and "te_fault te StPreRead = None" and "te_owners_alive te"
    and "failTask te tx i err reason rr report db = (res, db')"
  shows "db' = db \<and> (\<exists>e. res = Inl e)
    \<and> (fault_free te \<longrightarrow> (\<forall>rep. report = Some rep \<longrightarrow> tp_fence rep = TaskClaimFence r) \<longrightarrow>
         res = Inl ErrTerminalTask \<and> send_result_of (Some (terminal_reply wc report i res)) = SendFailed)"
proof -
  let ?u = "FailAgentTask (te_now te) i (Some err') (opt_text reason') rr"
  let ?d = "db\<lparr>td_queue := exec_update ?u (td_queue db)\<rparr>" and ?t = "snd (FailAgentTask (te_now te) i (Some err') (opt_text reason') rr) r"
  have ok: "term_ok db" using assms(1) by (rule reachable_ok)
  have ids: "ids_ok (tasks (td_queue db))" using ok by (simp add: term_ok_def db_ok_def)
  have hit: "fst ?u r" using find_task_in[OF assms(2)] assms(3) by (auto simp: fail_upd)
  obtain ceiling fire where plan: "fail_plan te reason' i db = Some (ceiling, fire)"
    by (rule wanted_plan[OF assms(8,2,10)])
  note gated = gated_retry[OF ids assms(2) hit assms(4,5,11)]
  have never: False if b: "fail_body te tx i err' reason' rr report db = Inr (t, child, d1)" for t child d1
  proof -
    obtain r' db2 db3 where p: "find_task i db = Some r'" "t = snd ?u r'"
      "(case chat_session_id t of None \<Rightarrow> Inr ?d | Some c \<Rightarrow> fail_pointer te reason' err' rr t c ?d) = Inr db2"
      "fail_retry te (fail_plan te reason' i db) i t db2 = Inr (child, db3)"
      by (rule fail_body_parts[OF b ids])
    have "queue_and_receipts db2 = queue_and_receipts ?d" using p(3) by (auto split: option.splits dest: frames)
    then have "create_retry te ceiling fire i db2 = Inl TxOther" by (intro gated) (simp add: queue_and_receipts_def)
    with p(1,2,4) plan assms(2,9) show False by (simp add: fail_retry_def successor_failed tx_Inr)
  qed
  obtain out d where run: "runTerminalTaskTx te report (fail_body te tx i err' reason' rr report) db = (out, d)" by fastforce
  have res: "(res, db') = terminal_result te i report (out, d)"
    using assms(12) run unfolding failTask_def Let_def assms(6)[symmetric] assms(7)[symmetric] by simp
  obtain e where e: "res = Inl e"
  proof (cases res)
    case (Inr x)
    obtain t s where x: "x = (t, s)" by fastforce
    show thesis
      by (rule fail_call[OF ok assms(2,3) _ assms(6,7), of te tx rr report t s db']) (use assms(12) Inr x never in auto)
  qed (rule that)
  from run have d: "d = db"
  proof (cases rule: run_cases)
    case (landed t child d1)
    with never show ?thesis by blast
  qed
  have "res = Inl ErrTerminalTask" if f: "fault_free te" and fence: "\<And>rep. report = Some rep \<Longrightarrow> tp_fence rep = TaskClaimFence r"
  proof -
    have "GetTerminalReportReceipt i g db = None" for g by (rule active_no_receipt[OF ok assms(2,3)])
    then have guard: "terminal_guard te i report db = Inr ()"
      by (intro guard_open[OF f assms(2,3)]) (simp add: fence)
    have w: "write_row ?u db = Inr (?t, ?d)"
      by (rule write_row_hit[OF ids assms(2) hit]) (auto simp: fail_upd)
    have "\<exists>db2. (case chat_session_id ?t of None \<Rightarrow> Inr ?d | Some c \<Rightarrow> fail_pointer te reason' err' rr ?t c ?d) = Inr db2
        \<and> queue_and_receipts db2 = queue_and_receipts ?d"
      using parts_succeed(6)[OF f] frame_fail_pointer by (fastforce simp: succeeds_def split: option.split)
    then obtain db2 where p2: "(case chat_session_id ?t of None \<Rightarrow> Inr ?d | Some c \<Rightarrow> fail_pointer te reason' err' rr ?t c ?d) = Inr db2"
      and q2: "queue_and_receipts db2 = queue_and_receipts ?d" by blast
    have "create_retry te ceiling fire i db2 = Inl TxOther" using q2 by (intro gated) (simp add: queue_and_receipts_def)
    then have "fail_body te tx i err' reason' rr report db = Inl TxOther"
      using assms(9) by (simp add: fail_body_def guard w p2 fault_freeD[OF f] settle_recoveries_def fail_retry_def plan successor_failed)
    then have "out = Inl TxOther" using run by (simp add: runTerminalTaskTx_def fault_freeD[OF f])
    with res assms(2) show ?thesis unfolding d by (simp add: terminal_result_def svc_error_of_def fault_freeD[OF f])
  qed
  moreover have "db' = db" using res d by (auto simp: terminal_result_def)
  ultimately show ?thesis using e by (auto simp: terminal_reply_def error_reply_def send_result_of_def isTaskNotFoundError_def)
qed

text \<open>A prerequisite of issue 4 was reopened while task 1 ran; its run is reported as timed out.\<close>

definition demo_gated :: termdb where
  "demo_gated = demo_db (demo_running @ [QGates (\<lambda>i. i = 4)])"

theorem gated_failure_unrecorded_witness:
  "snd (failTask demo_te demo_tx 1 ''x'' ''timeout'' demo_report None demo_gated) = demo_gated
   \<and> fst (failTask demo_te demo_tx 1 ''x'' ''timeout'' demo_report None demo_gated) = Inl ErrTerminalTask"
proof -
  have row: "map_option (\<lambda>r. (status r, issue_id r, hasRunnableSuccessor (te_snapshot demo_te) r,
      retryEligible (NormalizeDaemonReason (if ''timeout'' = [] then Classify (SanitizeTextForPostgres ''x'') else ''timeout'')
        (SanitizeTextForPostgres ''x'')) r)) (find_task 1 demo_gated) = Some (Running, Some 4, False, True)" by code_simp
  then obtain r where r: "find_task 1 demo_gated = Some r" "status r = Running" "issue_id r = Some 4"
    "\<not> hasRunnableSuccessor (te_snapshot demo_te) r"
    "retryEligible (NormalizeDaemonReason (if ''timeout'' = [] then Classify (SanitizeTextForPostgres ''x'') else ''timeout'')
        (SanitizeTextForPostgres ''x'')) r" by auto
  have act: "status r \<in> {Running, Dispatched, WaitingLocalDirectory}" using r(2) by simp
  have gate: "closed_gates (td_queue demo_gated) 4" by code_simp
  have te: "te_fault demo_te StPreRead = None" "te_owners_alive demo_te" "fault_free demo_te"
    by (simp_all add: demo_te_def fault_free_def)
  have reach: "reachable_term demo_rc demo_wc demo_tx demo_gated" unfolding demo_gated_def by (rule demo_term_reachable)
  show ?thesis
    using gated_failure_unrecorded[OF reach r(1) act r(3) gate refl refl r(5,4) te(1,2) prod.collapse[symmetric],
        of demo_report None] te(3) by auto
qed

end
