(* ===== verification/TermOrphan.thy ===== *)
theory TermOrphan
  imports TermStale
begin

text \<open>
  Claims that moved on: a completion under an old fence fails the claim that replaced it (C31), and a restarted daemon
  recovers exactly the claims whose result it has not saved (C25).
\<close>

section \<open>A stale completion\<close>

text \<open>What is documented of the legacy body: it has no envelope and decodes as the failure it was made from.\<close>

definition legacy_ok :: "wire_codec \<Rightarrow> bool" where
  "legacy_ok wc \<longleftrightarrow> (\<forall>q. wc_envelope wc (wc_fail_body wc q) = Some None \<and> wc_fail wc (wc_fail_body wc q) \<noteq> None)"

lemma call_stale:
  assumes c: "terminal_call te tx i (Some rep) db res db'" and f: "fault_free te"
    and t: "find_task i db = Some t" "TaskClaimFence t \<noteq> tp_fence rep"
  shows "res = Inl ErrTerminalReportStaleClaim \<and> db' = db"
proof -
  have g: "terminal_guard te i (Some rep) db = Inl TxStale"
    using t by (simp add: terminal_guard_def checkTerminalReport_def fault_freeD[OF f])
  have "runTerminalTaskTx te (Some rep) (complete_body te tx i result rr (Some rep)) db = (Inl TxStale, db)"
    "runTerminalTaskTx te (Some rep) (fail_body te tx i err reason rr (Some rep)) db = (Inl TxStale, db)"
    for result err reason rr
    by (simp_all add: runTerminalTaskTx_def complete_body_def fail_body_def g fault_freeD[OF f])
  then show ?thesis
    using c t(1) by (auto simp: terminal_call_def completeTask_def failTask_def Let_def terminal_result_def
        svc_error_of_def fault_freeD[OF f])
qed

lemma legacy_fail:
  assumes o: "open_server he" and l: "legacy_ok wc" and i: "wc_uuid wc url = Some i" "find_task i db \<noteq> None"
  obtains q where "FailTask co wc tx he url (wc_fail_body wc p) db = handler_failTask wc tx he i q None db"
proof -
  obtain q where "wc_fail wc (wc_fail_body wc p) = Some q" "wc_envelope wc (wc_fail_body wc p) = Some None"
    using l by (auto simp: legacy_ok_def)
  with that[of "sanitizeTaskFailRequest q"] access_open[OF o i] show thesis
    by (simp add: FailTask_def decodeTerminalReportRequest_def)
qed

text \<open>
  C31: a completion that comes too late fails the claim that replaced it. When a saved completion is delivered
  under a fence that is no longer the task's, because the task was dispatched again, the server
  refuses it as permanent and changes nothing; the daemon's handler then reports the rejection through the unfenced
  failure callback, which fails the task of the new claim, in flight under its own fence, without a
  receipt, and is taken for settled.
\<close>

theorem stale_completion_fails_new_claim:
  assumes "reachable_term co wc tx db" and "wire_ok co wc" and "legacy_ok wc" and "sendable co wc r" and "open_server he"
    and "he_rival he db = db" and "rp_kind r = ''complete''" and "wc_complete wc (rp_body r) \<noteq> None"
    and "wc_uuid wc (rp_task_id r) = Some i" and "find_task i db = Some t"
    and "status t \<in> {Running, Dispatched, WaitingLocalDirectory}"
    and "Atoi (ti_claim_fence (rp_identity r)) \<noteq> Some (TaskClaimFence t)"
    and "\<And>g. issue_id t = Some g \<Longrightarrow> \<not> closed_gates (td_queue db) g"
    and "find_task (te_new_task (he_tx he)) db = None"
  shows "\<exists>reply db' t'. SendTerminalReport co wc tx he r db = (reply, SendPermanent, db)
    \<and> handlePermanentTerminalReport co wc tx (he # hes) r reply db = (True, False, db')
    \<and> find_task i db' = Some t' \<and> status t' = Failed \<and> TaskClaimFence t' = TaskClaimFence t
    \<and> td_receipts db' = td_receipts db"
proof -
  let ?rep = "parsed_report wc r"
  have ok: "term_ok db" using assms(1) by (rule reachable_ok)
  have f: "fault_free (he_tx he)" and link: "he_link he = Replied" using assms(5) by (simp_all add: open_server_def)
  obtain fence where "Atoi (ti_claim_fence (rp_identity r)) = Some fence"
    using sendable_valid(2)[OF assms(4)] by (auto simp: fence_ok_def split: option.splits)
  then have stale: "TaskClaimFence t \<noteq> tp_fence ?rep" using assms(12) by (simp add: parsed_report_def)
  obtain res d where call: "terminal_call (he_tx he) tx i (Some ?rep) db res d"
    and send: "SendTerminalReport co wc tx he r db
       = (Some (terminal_reply wc (Some ?rep) i res), send_result_of (Some (terminal_reply wc (Some ?rep) i res)), d)"
    using send_open[OF assms(2,4,5,9), of db tx] assms(6,10) by auto
  have res: "res = Inl ErrTerminalReportStaleClaim" "d = db" using call_stale[OF call f assms(10) stale] by simp_all
  let ?reply = "Some (terminal_reply wc (Some ?rep) i res)"
  have perm: "send_result_of ?reply = SendPermanent"
    by (simp add: res terminal_reply_def error_reply_def send_result_of_def)
  obtain q where q: "wc_complete wc (rp_body r) = Some q" using assms(8) by blast
  let ?body = "wc_fail_body wc (fallback_failure (rejection_text r ?reply) q)"
  have found: "find_task i db \<noteq> None" using assms(10) by simp
  obtain fq where fq: "FailTask co wc tx he (rp_task_id r) ?body db = handler_failTask wc tx he i fq None db"
    by (rule legacy_fail[OF assms(5,3,9) found])
  obtain t' db' where c: "failTask (he_tx he) tx i (fq_error fq) (fq_failure_reason fq) (fail_fields fq) None db = (Inr (t', Failed), db')"
    "committed_as i None db t t' db'" "status t' = Failed"
    by (rule fail_commits[OF f ok assms(10,11) _ assms(13,14), of None]) auto
  have "FailTask co wc tx he (rp_task_id r) ?body db = (HttpTask t', db')"
    unfolding fq handler_failTask_def c(1) by (simp add: terminal_reply_def)
  then have "handlePermanentTerminalReport co wc tx (he # hes) r ?reply db = (True, False, db')"
    using assms(6,7) link q
    by (simp add: handlePermanentTerminalReport_def defaultTerminalRetryAttempts_def post_request_def Let_def)
  moreover have "find_task i db' = Some t'"
  proof -
    obtain es where "td_queue db' = queue_run es (td_queue db)" using c(2) by (auto simp: committed_as_def)
    then have "ids_ok (tasks (td_queue db'))" using db_ok_run[of "td_queue db" es] ok by (simp add: term_ok_def db_ok_def)
    then show ?thesis using c(2) by (simp add: find_task_iff committed_as_def)
  qed
  ultimately show ?thesis using send perm c res(2) by (auto simp: committed_as_def)
qed

theorem stale_completion_fails_new_claim_witness:
  "\<exists>reply db' t'. SendTerminalReport demo_rc demo_wc demo_tx demo_he (saved_report ''complete'' ''33'' ''ok'') (demo_db demo_running)
      = (reply, SendPermanent, demo_db demo_running)
    \<and> handlePermanentTerminalReport demo_rc demo_wc demo_tx [demo_he] (saved_report ''complete'' ''33'' ''ok'') reply (demo_db demo_running)
      = (True, False, db')
    \<and> find_task 1 db' = Some t' \<and> status t' = Failed"
proof -
  let ?r = "saved_report ''complete'' ''33'' ''ok''" and ?d = "demo_db demo_running"
  obtain t where t: "find_task 1 ?d = Some t" "status t = Running" "TaskClaimFence t = 1" "issue_id t = Some 4"
    using demo_running_row by auto
  have v: "report_validate demo_rc ?r" "Atoi (ti_claim_fence (rp_identity ?r)) \<noteq> Some 1"
    "wc_complete demo_wc (rp_body ?r) \<noteq> None" "wc_uuid demo_wc (rp_task_id ?r) = Some 1" "rp_kind ?r = ''complete''"
    by code_simp+
  then have s: "sendable demo_rc demo_wc ?r"
    by (simp add: sendable_def) (simp add: saved_report_def demo_rc_def demo_wc_def)
  have l: "legacy_ok demo_wc" by (simp add: legacy_ok_def demo_wc_def demo_open_def)
  have he: "he_rival demo_he ?d = ?d" "te_new_task (he_tx demo_he) = 2" by (simp_all add: demo_he_def demo_te_def)
  have g: "\<not> closed_gates (td_queue ?d) 4" "find_task 2 ?d = None" by code_simp+
  have act: "status t \<in> {Running, Dispatched, WaitingLocalDirectory}" using t(2) by simp
  show ?thesis
    using stale_completion_fails_new_claim[where tx = demo_tx and hes = "[]", OF demo_term_reachable demo_wire_ok l s demo_open_server he(1) v(5,3,4) t(1) act] v(2) t(3,4) g he(2) by auto
qed

section \<open>A restarted daemon\<close>

text \<open>A saved report is one of the task's current claim.\<close>

definition current_report :: "wire_codec \<Rightarrow> agent_task \<Rightarrow> Report \<Rightarrow> bool" where
  "current_report wc t r \<longleftrightarrow>
     wc_uuid wc (rp_task_id r) = Some (task_id t) \<and> Atoi (ti_claim_fence (rp_identity r)) = Some (TaskClaimFence t)"

definition orphaned :: "wire_codec \<Rightarrow> uuid \<Rightarrow> Report list \<Rightarrow> agent_task \<Rightarrow> bool" where
  "orphaned wc rt rs t \<longleftrightarrow>
     runtime_id t = Some rt \<and> status t \<in> {Dispatched, Running, WaitingLocalDirectory}
     \<and> (\<forall>r \<in> set rs. \<not> current_report wc t r)"

lemma saved_claims_parse:
  assumes "wire_ok co wc" and "\<And>r. r \<in> set rs \<Longrightarrow> report_validate co r"
  shows "None \<notin> set (map (parse_claim wc) (recover_request rs))"
    and "(i, f) \<in> set (map the (map (parse_claim wc) (recover_request rs)))
      \<longleftrightarrow> (\<exists>r \<in> set rs. wc_uuid wc (rp_task_id r) = Some i \<and> Atoi (ti_claim_fence (rp_identity r)) = Some f)"
proof -
  have one: "\<exists>u n. wc_uuid wc (rp_task_id r) = Some u \<and> Atoi (ti_claim_fence (rp_identity r)) = Some n
      \<and> parse_claim wc (rp_task_id r, ti_claim_fence (rp_identity r)) = Some (u, n)" if "r \<in> set rs" for r
  proof -
    have v: "rc_uuid co (rp_task_id r)" "fence_ok (ti_claim_fence (rp_identity r))"
      using assms(2)[OF that] by (auto simp: report_validate_def split: if_splits)
    obtain u where "wc_uuid wc (rp_task_id r) = Some u" using assms(1) v(1) by (auto simp: wire_ok_def)
    with v(2) show ?thesis by (auto simp: parse_claim_def fence_ok_def split: option.splits)
  qed
  show "None \<notin> set (map (parse_claim wc) (recover_request rs))"
    using one by (force simp: recover_request_def)
  show "(i, f) \<in> set (map the (map (parse_claim wc) (recover_request rs)))
      \<longleftrightarrow> (\<exists>r \<in> set rs. wc_uuid wc (rp_task_id r) = Some i \<and> Atoi (ti_claim_fence (rp_identity r)) = Some f)"
  proof
    assume "(i, f) \<in> set (map the (map (parse_claim wc) (recover_request rs)))"
    then obtain r where "r \<in> set rs" "(i, f) = the (parse_claim wc (rp_task_id r, ti_claim_fence (rp_identity r)))"
      by (auto simp: recover_request_def)
    with one show "\<exists>r \<in> set rs. wc_uuid wc (rp_task_id r) = Some i \<and> Atoi (ti_claim_fence (rp_identity r)) = Some f"
      by fastforce
  next
    assume "\<exists>r \<in> set rs. wc_uuid wc (rp_task_id r) = Some i \<and> Atoi (ti_claim_fence (rp_identity r)) = Some f"
    then obtain r where r: "r \<in> set rs" "wc_uuid wc (rp_task_id r) = Some i" "Atoi (ti_claim_fence (rp_identity r)) = Some f"
      by blast
    with one[OF r(1)] have "parse_claim wc (rp_task_id r, ti_claim_fence (rp_identity r)) = Some (i, f)" by simp
    with r(1) show "(i, f) \<in> set (map the (map (parse_claim wc) (recover_request rs)))"
      by (force simp: recover_request_def image_iff)
  qed
qed

lemma preserved_iff:
  assumes "ids_ok (tasks q)" and "t \<in> set (tasks q)" and "runtime_id t = Some rt"
  shows "task_id t \<in> set (preserved_ids rt pending q) \<longleftrightarrow> (task_id t, TaskClaimFence t) \<in> set pending"
proof -
  have "s = t" if "s \<in> set (tasks q)" "task_id s = task_id t" for s using ids_okD[OF assms(1) that(1) assms(2) that(2)] .
  then show ?thesis
    using assms(2,3) by (force simp: preserved_ids_def LockPendingTerminalReportTasksForRuntime_def)
qed



end
