(* ===== verification/Spec2Isabelle.thy ===== *)
theory Spec2Isabelle
  imports TaskQueueClaim SchedPlan ReportSender StatusCatalog FlagSafety GraphErrors GraphProgress
    SeatFailure TermOrphan
begin

text \<open>
  A verification library for the coordination core of the server and the daemon: the agent task
  queue with its failure taxonomy and automatic retries, the database-backed job scheduler, the
  daemon's durable queue of terminal results and their acceptance by the server, the issue status catalog, the feature flags, the
  dependency graphs that plan issues and gate their tasks, and the seat protocol by which members join a
  workspace whose seats a billing service counts.

  \<^bold>\<open>The program and how its parts meet.\<close> A daemon claims agent tasks from a PostgreSQL table, runs
  them and reports their terminal result through a directory of files that survives a crash; the server
  accepts a report in one transaction, under the fence of the claim it names, and keeps a receipt.
  The server's sweepers fail tasks whose runtime died and queue a retry when the failure reason
  allows one; the reason is a normalised string, derived from the error text when the daemon gives
  none. A dependency graph plans issues under a parent: its edges gate which issues may start, a trigger
  on the task table enforces the gate on every statement, and a coordinator promotes, admits and
  enqueues what is ready. The sweepers and every periodic job are meant to be driven by a scheduler whose instances
  race on one table of leases. Inviting, joining and leaving a workspace ask the billing service (Cloud)
  for seats; an outbox of intents, written before each request and recovered by a worker, keeps its count and the
  members in step across crashes. Issue statuses are categories with workspace-defined keys below
  them; feature flags are looked up in the environment and a rules file.

  \<^bold>\<open>Shared.\<close>
  \<^item> \<open>Prelude\<close>: times and durations (integers, nanoseconds), Go's truncating division \<open>quot\<close>, an SQL
    UPDATE as a guarded map over rows (\<open>update_where\<close>), partial unique indexes (\<open>unique_index\<close>), and
    two interfaces: \<open>keyed_rows\<close> (a transaction that keeps the primary keys and the unique slots)
    and \<open>row_lifecycle\<close> (rows that only move along allowed edges, with settled rows frozen). Both are
    interpreted for the task table and for the scheduler's table, \<open>keyed_rows\<close> also for the seat outbox.
  \<^item> \<open>GoStrings\<close>: the functions of Go's \<^verbatim>\<open>strings\<close>, \<^verbatim>\<open>strconv\<close> and \<^verbatim>\<open>unicode\<close> that the code calls, on
    byte strings; \<open>ToLower\<close> and \<open>TrimSpace\<close> with the multi-byte runes that change an ASCII match.

  \<^bold>\<open>Task failures and retries\<close> (\<^verbatim>\<open>server/pkg/taskfailure\<close>, \<^verbatim>\<open>server/internal/service/task.go\<close>).
  \<^item> \<open>TaskFailure\<close>: the reasons, \<open>Classify\<close> with its regular expressions as scanners,
    \<open>NormalizeDaemonReason\<close>, \<open>UnresumableHistory\<close>, \<open>ContextExhaustedCompletion\<close>.
  \<^item> \<open>TaskModel\<close>: the rows of \<^verbatim>\<open>agent_task_queue\<close>, \<^verbatim>\<open>agent\<close>, \<^verbatim>\<open>agent_runtime\<close>; the execution lane and
    the two partial unique indexes of the table.
  \<^item> \<open>TaskRetry\<close>: the retry policy, \<open>CreateRetryTask\<close> and \<open>MaybeRetryFailedTask\<close> with every early return
    and database answer (\<open>retry_env\<close>). C1 (a chain of retries ends) and C4 (an unsafe session is not inherited); \<open>retry_preserves_slot\<close>,
    \<open>classified_errors_retry_only_network\<close> and, for a divergence, \<open>retry_ignores_error_text\<close>.

  \<^bold>\<open>The task queue\<close> (the SQL of \<^verbatim>\<open>server/pkg/db/queries/agent.sql\<close> and \<^verbatim>\<open>runtime.sql\<close>, as compiled into
  \<^verbatim>\<open>server/pkg/db/generated\<close>).
  \<^item> \<open>TaskQueue\<close>: each statement as its WHERE and its SET, reading the tables it joins; \<open>task_stmt\<close>
    enumerates them and \<open>update_of\<close> gives each its update. \<open>TaskInsert\<close>: the inserts for chats, automations,
    quick creates, deferred agents and channel issues; \<open>task_insert\<close> enumerates them.
  \<^item> \<open>TaskQueueLife\<close>: histories of transactions (\<open>queue_event\<close>, \<open>queue_exec\<close>, \<open>queue_run\<close>), the abstract
    status machine \<open>legal_move\<close>, the facts about a row's timestamps \<open>row_ok\<close>, and one lemma per statement
    on what a hit row looks like.
    The admission trigger aborts a statement that would write an active row of a gated issue
    (\<open>gate_blocks\<close>, \<open>admit_rows\<close>); which issues are gated is part of the table (\<open>closed_gates\<close>), set by
    any event here and computed from the graph tables below.
  \<^item> \<open>TaskQueueSafety\<close>: the invariants of every reachable table (C6), the refinement of the status machine
    (C7) and that settled tasks are frozen (C8).
  \<^item> \<open>TaskQueueClaim\<close>: what a claim picks (C9), leases against sweeps (C10), generations of a claim (C11),
    progress of the promotion (C12), draining before a runtime is deleted
    (\<open>fleet_cancel_drains\<close>).

  \<^bold>\<open>The scheduler\<close> (\<^verbatim>\<open>server/internal/scheduler\<close>).
  \<^item> \<open>SchedSpec\<close>: job specifications, their validation and registration, plan grid and retry delays
    (\<^verbatim>\<open>spec.go\<close>).
  \<^item> \<open>SchedDb\<close>: \<^verbatim>\<open>sys_cron_executions\<close> and the statements of \<^verbatim>\<open>db_ops.go\<close>; a lost connection is a
    \<open>db_reply\<close>, before or after the commit.
  \<^item> \<open>SchedManager\<close>: the tick of \<^verbatim>\<open>manager.go\<close>: plans of a job, claim, handler run with heartbeats,
    terminal write. Handlers, hooks and scope providers are parameters.
  \<^item> \<open>SchedLease\<close>: the protocol between instances as the relation \<open>cron_step\<close>, in which any session may
    claim, sweep, heartbeat or write a terminal state at any time with any connection fault, and the
    abstract lease specification \<open>lease_inv\<close> over the views of the rows.
  \<^item> \<open>SchedSafety\<close> and \<open>SchedPlan\<close>: attempts are bounded (C14), stale holders are fenced (C15), finished
    plans stay finished (\<open>finished_plan_final\<close>), crashed runs are recovered (C17), the every-plan schedule (C18), heartbeats
    against staleness (C19); \<open>backoff_retry_stranded\<close>, \<open>subsecond_lease_expires\<close>, \<open>tick_clock_lease_stillborn\<close> and
    \<open>outcome_not_recorded\<close> show where the code does not do what it means to.

  \<^bold>\<open>Terminal reports\<close> (\<^verbatim>\<open>server/internal/daemon/terminalreport\<close>, \<^verbatim>\<open>server/pkg/protocol\<close>).
  \<^item> \<open>ReportStore\<close>: the directory as a map of names to files, atomic writes and renames that may fail or
    lose their sync, \<open>Save\<close>, \<open>Pending\<close>, \<open>Confirm\<close>, \<open>Reject\<close>.
  \<^item> \<open>ReportSender\<close>: the contract \<open>durable_queue\<close> of the store, interpreted on its operations, and \<open>Flush\<close>
    with back-off, acknowledgements and rejections: \<open>flush_loses_nothing\<close>, \<open>first_result_stands\<close>,
    \<open>pending_complete\<close>.

  \<^bold>\<open>Terminal report acceptance\<close> (\<^verbatim>\<open>server/internal/service/task.go\<close> and \<^verbatim>\<open>terminal_report.go\<close>,
  \<^verbatim>\<open>server/internal/handler/daemon.go\<close>, \<^verbatim>\<open>terminal_report.go\<close> and \<^verbatim>\<open>task_lifecycle.go\<close>,
  \<^verbatim>\<open>server/internal/daemon/terminal_report.go\<close>, \<^verbatim>\<open>client.go\<close> and \<^verbatim>\<open>orphan_recovery.go\<close>, the migrations 598 to 600).
  \<^item> \<open>TermDb\<close>: the tables a terminal callback writes (\<open>termdb\<close>: the task queue, receipts, resume pointers of
    chats, comments, chat messages), the fence of a claim on 64-bit integers (\<open>TaskClaimFence\<close>), the parsing of a
    report's identity, the sanitising of texts, the quick-action footer of a chat reply, trivial outputs.
  \<^item> \<open>TermTx\<close>: \<open>completeTask\<close> and \<open>failTask\<close>: the check of the report, the status change, the resume pointer,
    the retry, the chat message or comment, the receipt, each statement able to fail (\<open>term_env\<close>), the commit able to
    fail or lose its reply, and what the call makes of the error.
  \<^item> \<open>TermHandler\<close>: the two HTTP handlers, the daemon's request and its reading of the reply, its answer to
    a rejected report, and the recovery of orphans that spares saved results.
  \<^item> \<open>TermSafety\<close> and \<open>TermReach\<close>: what a committed callback leaves (\<open>committed_as\<close>), \<open>term_step\<close> (one
    callback, recovery or transaction on the queue), \<open>reachable_term\<close> and the invariant \<open>term_ok\<close>. \<open>TermSettle\<close>:
    the contract \<open>single_decision\<close> of a register that is decided once, interpreted on the claims.
    \<open>TermDeliver\<close> and \<open>TermAccept\<close>: what the server answers to a saved report. \<open>TermDemo\<close>: a server and its
    codecs evaluated, for the witnesses.
  \<^item> \<open>TermProps\<close>: receipts stand (C13), a claim is decided once (C16). \<open>TermFlush\<close>: an accepted report is
    acknowledged again (C21), a flush drops a result only for a stored one (C24), a saved completion is accepted
    (C26). \<open>TermFail\<close>: a condemned session is dropped (C28). \<open>TermOrphan\<close>: the recovery of orphans spares exactly the
    saved claims (C25). C29 (\<open>TermStale\<close>) and C31 (\<open>TermOrphan\<close>) show two flaws: a failure whose retry meets
    a closed gate is never recorded, and a completion that comes too late fails the claim that replaced it.

  \<^bold>\<open>Issue statuses\<close> (\<^verbatim>\<open>server/internal/issuestatus\<close>). \<open>IssueStatus\<close>: keys, categories, the catalog's
  statements and the two ways to resolve a status. \<open>StatusKeys\<close>: what slugs and suffixes look like.
  \<open>StatusCatalog\<close>: the catalogs reachable by seeding, creating and archiving. C27 (a name gets a free key);
  \<open>resolver_equals_lookup\<close> and \<open>expand_is_effective\<close>.

  \<^bold>\<open>Feature flags\<close> (\<^verbatim>\<open>server/pkg/featureflag\<close>). \<open>FeatureFlag\<close>: rules, buckets (FNV-1a on 32-bit words),
  the environment and static providers, the chain, the service. \<open>FlagSafety\<close>: the contract
  \<open>flag_provider\<close> and its interpretation on the three providers. C30 (the order of
  precedence); \<open>rollout_grows\<close>; \<open>malformed_override_off\<close> and \<open>zero_context_rolls_in\<close> are what the documentation says otherwise.

  \<^bold>\<open>Dependency graphs\<close> (\<^verbatim>\<open>server/internal/handler/dependency_graph.go\<close>,
  \<^verbatim>\<open>server/internal/service/dependency_graph_scheduler.go\<close>, \<^verbatim>\<open>server/pkg/db/generated/dependency_graph.sql.go\<close>,
  the migrations 340, 465 to 476 and 601).
  \<^item> \<open>GraphPlan\<close>: the request and \<open>validateDependencyGraphPlan\<close> with every check in its order, the work-list
    search (terminating by the nodes not yet seen) and the waves (terminating by the open prerequisites).
    \<open>GraphWaves\<close> relates the loops to edges as a relation; \<open>GraphPlanSafety\<close> has C34 and C35.
  \<^item> \<open>GraphDb\<close>: the tables (\<open>graphdb\<close>, which contains the task queue), the gate function, the trigger on
    active issues, promotion, admission and the lists of ready issues.
  \<^item> \<open>GraphApply\<close>: applying, reading back and retiring a plan. \<open>GraphWake\<close>: the coordinator, and \<open>graph_step\<close>,
    one transaction of the system; \<open>reachable_graph\<close> is what any sequence of them reaches.
  \<^item> \<open>GraphCreate\<close>, \<open>GraphInv\<close>, \<open>GraphReach\<close>: what an apply writes, the invariant \<open>graph_wf\<close>, and that every
    transaction keeps it. \<open>GraphRead\<close>: C36 and C37. \<open>GraphErrors\<close>: C38. \<open>GraphGate\<close>: C39.
    \<open>GraphProgress\<close>: C40, and \<open>admitted_issue_never_requeued\<close>, which shows that an issue whose task was not
    inserted after its admission is passed over by every wake.

  \<^bold>\<open>Seat capacity\<close> (\<^verbatim>\<open>server/internal/seatcapacity\<close>, \<^verbatim>\<open>server/internal/handler/seat_capacity.go\<close>,
  \<^verbatim>\<open>invitation.go\<close>, \<^verbatim>\<open>share_link.go\<close>, \<^verbatim>\<open>workspace_revoke.go\<close>, \<^verbatim>\<open>workspace.go\<close>, the migrations 415 to 419).
  \<^item> \<open>SeatDb\<close>: the outbox of intents, invitations, members and share links, and each statement on them;
    \<open>seat_stmt\<close> enumerates them and \<open>seat_exec\<close> runs one.
  \<^item> \<open>SeatCloud\<close>: the client's requests and its reading of the answers, and the world of an operation: the
    tables, a log of requests and commits, and an environment (\<open>cap_env\<close>) that answers the requests, lets other
    sessions change the tables before each access, and refuses a commit or loses its reply.
  \<^item> \<open>SeatWorker\<close> (\<^verbatim>\<open>worker.go\<close>), \<open>SeatHandler\<close> (\<^verbatim>\<open>handler/seat_capacity.go\<close>) and \<open>SeatRequest\<close> (the requests that use
    it): every operation with its early returns, one function per function of the code.
  \<^item> \<open>SeatTrace\<close>: the guarantee of an operation over its own log (\<open>event_ok\<close>, \<open>hist_ok\<close>), which every operation keeps
    in any environment: \<open>SeatGuarantee\<close> for the worker, \<open>SeatAdmit\<close> for the handlers, \<open>SeatOps\<close> for the requests.
  \<^item> \<open>SeatTables\<close>: the constraints hold in every state the system reaches (C3). \<open>SeatSafety\<close>: the intent comes
    before the request (C20), a member only with a seat (C5), no intent is forgotten (C22), a confirmed seat
    stays with its member (C32).
  \<^item> \<open>SeatLease\<close> and \<open>SeatBatch\<close>: the worker touches only its claims (C33) and keeps rate limits (C23).
    \<open>SeatFailure\<close>: an outage ends in dead letters after exactly the attempts left (C2); a confirmation
    that the worker rejects and the handler settles, and a Retry-After that wraps. \<open>SeatDemo\<close>: two runs
    evaluated, for the witnesses.

  \<^bold>\<open>Conventions.\<close> Go strings are lists of bytes. A nil pointer, an invalid \<^verbatim>\<open>pgtype\<close> value and SQL's NULL
  are \<open>None\<close>; an error return is \<open>Inl\<close>. UUIDs are naturals, compared as PostgreSQL compares them (a total
  order). Integers that the code keeps far below their width (attempts, priorities, nanosecond
  times) are unbounded; the hash is a 32-bit word. The functions that loop a bounded number of times
  in Go take the loop's own bound as their argument (\<open>plans_from\<close>: the plans per tick; \<open>free_from\<close>:
  one more than the keys taken), so no fuel is chosen by the model and the lemmas prove the bounds
  large enough where a result is promised. \<open>Itoa\<close> of a key suffix stays below the key length for any
  catalog under \<open>10 ^ 28\<close> keys, the bound of C27.

  \<^bold>\<open>Parameters.\<close> Code that is not in the repository is an argument: the JSON codec, digest and UUID parser
  of a report (\<open>report_codec\<close>, whose laws are \<open>codec_ok\<close>) and of a plan (\<open>graph_codec\<close>), the clock and the
  attribution service of the coordinator (\<open>wake_env\<close>), the YAML decoder, the environment, the
  transport of the sender, the JSON and UUID texts of a callback (\<open>wire_codec\<close>, whose laws are \<open>wire_ok\<close> and \<open>legacy_ok\<close>,
  both shown of the codec of \<open>TermDemo\<close>), the redaction of secrets and the JSON of an output (\<open>text_env\<close>; no property depends on what redaction
  returns), the faults, clock and rivals of a callback (\<open>term_env\<close>,
  \<open>handler_env\<close>), the rows other transactions hold locked (SKIP LOCKED), database answers, handler outcomes; for the seat
  protocol the HTTP transport, its JSON decoding and date parser, the rival sessions, the clock and the fresh UUIDs.
  The theorems on seats assume only that no token is the nil UUID (\<open>sane_env\<close>), for a worker batch
  that rivals do not move a token to another workspace (\<open>stable_env\<close>) and that the clock does not run
  backwards (\<open>steady_clock\<close>).

  \<^bold>\<open>Not modelled.\<close> Of the dependency graphs: the permission checks of a request, the replay of an
  idempotency key, listing and readiness responses, board positions, the activity log and broadcasts.
  Of the seat protocol: authentication and abuse budgets, the advisory locks behind the workspace locker (a
  wait succeeds or times out, and sessions interleave either way), onboarding marks, the runtimes and tasks of a
  removed member, error texts and update times.
  Of the terminal callbacks: the events, token revocations, wake-ups and quick actions after the commit, the
  attribution of chat messages, the work-product hook and the coordination record (each succeeds or fails the
  transaction), a service without a transaction starter, the barrier that pauses claims.
  Elsewhere: the other HTTP handlers, realtime hub, integrations, CLI and daemon processes; the statements
  of the queue for media promotion, comment merges, agent coordination, thread continuation and capacity leases; the callbacks that
  broadcast events or notify users (they change no row the properties read); the automation and plugin
  jobs registered with the scheduler; row locks and isolation below the statement, since each queue
  statement is one atomic step.
\<close>

end
